(* ===== verification/Prelude.thy ===== *)
theory Prelude
  imports Complex_Main "HOL-Library.Char_ord" "HOL-Library.List_Lexorder"
begin

text \<open>
  What every other theory of the development shares: the exception-and-state type the
  asynchronous TypeScript functions are translated into, with the rules that carry invariants
  and frame conditions through it; table operations on lists of rows; decimal printing; and the
  string operations of JavaScript the sources use.
\<close>

type_synonym ident = string
type_synonym time = int \<comment> \<open>milliseconds, as Date.getTime\<close>

named_theorems act_defs \<open>definitions of the effect combinators\<close>
named_theorems pres \<open>rules that carry an invariant through an action\<close>
named_theorems keep \<open>rules that carry a frame condition through an action\<close>
named_theorems table_simps \<open>equations about tables of rows\<close>

section \<open>Actions: state and exceptions\<close>

text \<open>
  An \<open>async\<close> function that may throw is a function from the state to a result and a state.
  A thrown exception is a value of the left summand; what was written before the throw stays
  written, exactly as for a sequence of awaited Prisma calls outside a transaction.
\<close>

type_synonym ('s, 'e, 'a) action = "'s \<Rightarrow> ('e + 'a) \<times> 's"

definition ret :: "'a \<Rightarrow> ('s, 'e, 'a) action" where
  [act_defs]: "ret x s = (Inr x, s)"

definition throw :: "'e \<Rightarrow> ('s, 'e, 'a) action" where
  [act_defs]: "throw e s = (Inl e, s)"

definition andThen :: "('s, 'e, 'a) action \<Rightarrow> ('a \<Rightarrow> ('s, 'e, 'b) action) \<Rightarrow> ('s, 'e, 'b) action" where
  [act_defs]: "andThen m f s =
     (case m s of (Inl e, t) \<Rightarrow> (Inl e, t) | (Inr x, t) \<Rightarrow> f x t)"

text \<open>\<open>try m catch (e) { h e }\<close>\<close>

definition tryCatch :: "('s, 'e, 'a) action \<Rightarrow> ('e \<Rightarrow> ('s, 'e, 'a) action) \<Rightarrow> ('s, 'e, 'a) action" where
  [act_defs]: "tryCatch m h s =
     (case m s of (Inl e, t) \<Rightarrow> h e t | (Inr x, t) \<Rightarrow> (Inr x, t))"

text \<open>\<open>prisma.$transaction(m)\<close>: a throw inside rolls every write of \<open>m\<close> back.\<close>

definition transaction :: "('s, 'e, 'a) action \<Rightarrow> ('s, 'e, 'a) action" where
  [act_defs]: "transaction m s =
     (case m s of (Inl e, t) \<Rightarrow> (Inl e, s) | (Inr x, t) \<Rightarrow> (Inr x, t))"

definition readState :: "('s \<Rightarrow> 'a) \<Rightarrow> ('s, 'e, 'a) action" where
  [act_defs]: "readState f s = (Inr (f s), s)"

definition writeState :: "('s \<Rightarrow> 's) \<Rightarrow> ('s, 'e, unit) action" where
  [act_defs]: "writeState f s = (Inr (), f s)"

definition require :: "bool \<Rightarrow> 'e \<Rightarrow> ('s, 'e, unit) action" where
  [act_defs]: "require b e s = (if b then (Inr (), s) else (Inl e, s))"

text \<open>\<open>findUniqueOrThrow\<close> and its kin: the row, or the exception.\<close>

definition orThrow :: "'e \<Rightarrow> ('s \<Rightarrow> 'a option) \<Rightarrow> ('s, 'e, 'a) action" where
  [act_defs]: "orThrow e f s = (case f s of None \<Rightarrow> (Inl e, s) | Some x \<Rightarrow> (Inr x, s))"

text \<open>\<open>for (const x of xs) await f(x)\<close>: the first exception leaves the loop.\<close>

fun forEach :: "'a list \<Rightarrow> ('a \<Rightarrow> ('s, 'e, unit) action) \<Rightarrow> ('s, 'e, unit) action" where
  "forEach [] f s = (Inr (), s)"
| "forEach (x # xs) f s =
     (case f x s of (Inl e, t) \<Rightarrow> (Inl e, t) | (Inr _, t) \<Rightarrow> forEach xs f t)"

section \<open>Invariants and frames of actions\<close>

definition preserves :: "('s \<Rightarrow> bool) \<Rightarrow> ('s, 'e, 'a) action \<Rightarrow> bool" where
  "preserves I m \<longleftrightarrow> (\<forall>s. I s \<longrightarrow> I (snd (m s)))"

definition keeps :: "('s \<Rightarrow> 'b) \<Rightarrow> ('s, 'e, 'a) action \<Rightarrow> bool" where
  "keeps g m \<longleftrightarrow> (\<forall>s. g (snd (m s)) = g s)"

lemma preservesD: "preserves I m \<Longrightarrow> I s \<Longrightarrow> I (snd (m s))"
  by (simp add: preserves_def)

lemma preservesI: "(\<And>s. I s \<Longrightarrow> I (snd (m s))) \<Longrightarrow> preserves I m"
  by (simp add: preserves_def)

lemma keepsD: "keeps g m \<Longrightarrow> g (snd (m s)) = g s"
  by (simp add: keeps_def)

lemma keepsI: "(\<And>s. g (snd (m s)) = g s) \<Longrightarrow> keeps g m"
  by (simp add: keeps_def)

lemma preserves_ret [pres]: "preserves I (ret x)"
  by (simp add: preserves_def ret_def)

lemma preserves_throw [pres]: "preserves I (throw e)"
  by (simp add: preserves_def throw_def)

lemma preserves_readState [pres]: "preserves I (readState f)"
  by (simp add: preserves_def readState_def)

lemma preserves_require [pres]: "preserves I (require b e)"
  by (simp add: preserves_def require_def)

lemma preserves_orThrow [pres]: "preserves I (orThrow e f)"
  by (simp add: preserves_def orThrow_def split: option.split)

lemma preserves_andThen [pres]:
  "preserves I m \<Longrightarrow> (\<And>x. preserves I (f x)) \<Longrightarrow> preserves I (andThen m f)"
  by (fastforce simp: preserves_def andThen_def split: prod.splits sum.splits)

lemma preserves_orThrow_found:
  "(\<And>x s. f s = Some x \<Longrightarrow> preserves I (g x)) \<Longrightarrow> preserves I (andThen (orThrow e f) g)"
  by (auto simp: preserves_def andThen_def orThrow_def split: option.split)

lemma preserves_read_state:
  "(\<And>s. I s \<Longrightarrow> preserves I (g (f s))) \<Longrightarrow> preserves I (andThen (readState f) g)"
  by (auto simp: preserves_def andThen_def readState_def)

lemma preserves_tryCatch [pres]:
  "preserves I m \<Longrightarrow> (\<And>e. preserves I (h e)) \<Longrightarrow> preserves I (tryCatch m h)"
  by (fastforce simp: preserves_def tryCatch_def split: prod.splits sum.splits)

lemma preserves_transaction [pres]: "preserves I m \<Longrightarrow> preserves I (transaction m)"
  by (fastforce simp: preserves_def transaction_def split: prod.splits sum.splits)

lemma preserves_if [pres]:
  "preserves I m \<Longrightarrow> preserves I n \<Longrightarrow> preserves I (if b then m else n)"
  by simp

lemma preserves_option [pres]:
  "preserves I m \<Longrightarrow> (\<And>x. preserves I (f x)) \<Longrightarrow> preserves I (case v of None \<Rightarrow> m | Some x \<Rightarrow> f x)"
  by (cases v) simp_all

lemma preserves_list [pres]:
  "preserves I m \<Longrightarrow> (\<And>x xs. preserves I (f x xs)) \<Longrightarrow> preserves I (case v of [] \<Rightarrow> m | x # xs \<Rightarrow> f x xs)"
  by (cases v) simp_all

lemma forEach_append: "forEach (xs @ ys) f = andThen (forEach xs f) (\<lambda>_. forEach ys f)"
  by (induction xs) (auto simp: andThen_def fun_eq_iff split: prod.split sum.split)

lemma preserves_let [pres]: "(\<And>x. preserves I (f x)) \<Longrightarrow> preserves I (let x = v in f x)"
  by (simp add: Let_def)

lemma preserves_writeState [pres]: "(\<And>s. I s \<Longrightarrow> I (f s)) \<Longrightarrow> preserves I (writeState f)"
  by (simp add: preserves_def writeState_def)

lemma preserves_forEach:
  assumes "\<And>x. x \<in> set xs \<Longrightarrow> preserves I (f x)"
  shows "preserves I (forEach xs f)"
proof (rule preservesI)
  fix s assume "I s"
  then show "I (snd (forEach xs f s))" using assms
  proof (induction xs arbitrary: s)
    case Nil
    then show ?case by simp
  next
    case (Cons x xs)
    have "I (snd (f x s))" using Cons.prems by (auto dest: preservesD)
    then show ?case using Cons by (auto split: prod.splits sum.splits)
  qed
qed

lemma keeps_iff_preserves: "keeps g m \<longleftrightarrow> (\<forall>c. preserves (\<lambda>s. g s = c) m)"
  by (auto simp: keeps_def preserves_def)

lemma keeps_ret [keep]: "keeps g (ret x)"
  by (simp add: keeps_def ret_def)

lemma keeps_throw [keep]: "keeps g (throw e)"
  by (simp add: keeps_def throw_def)

lemma keeps_readState [keep]: "keeps g (readState f)"
  by (simp add: keeps_def readState_def)

lemma keeps_require [keep]: "keeps g (require b e)"
  by (simp add: keeps_def require_def)

lemma keeps_orThrow [keep]: "keeps g (orThrow e f)"
  by (simp add: keeps_def orThrow_def split: option.split)

lemma keeps_andThen [keep]:
  "keeps g m \<Longrightarrow> (\<And>x. keeps g (f x)) \<Longrightarrow> keeps g (andThen m f)"
  unfolding keeps_iff_preserves by (auto intro: pres)

lemma keeps_tryCatch [keep]:
  "keeps g m \<Longrightarrow> (\<And>e. keeps g (h e)) \<Longrightarrow> keeps g (tryCatch m h)"
  unfolding keeps_iff_preserves by (auto intro: pres)

lemma keeps_transaction [keep]: "keeps g m \<Longrightarrow> keeps g (transaction m)"
  unfolding keeps_iff_preserves by (auto intro: pres)

lemma keeps_if [keep]: "keeps g m \<Longrightarrow> keeps g n \<Longrightarrow> keeps g (if b then m else n)"
  by simp

lemma keeps_option [keep]:
  "keeps g m \<Longrightarrow> (\<And>x. keeps g (f x)) \<Longrightarrow> keeps g (case v of None \<Rightarrow> m | Some x \<Rightarrow> f x)"
  by (cases v) simp_all

lemma keeps_list [keep]:
  "keeps g m \<Longrightarrow> (\<And>x xs. keeps g (f x xs)) \<Longrightarrow> keeps g (case v of [] \<Rightarrow> m | x # xs \<Rightarrow> f x xs)"
  by (cases v) simp_all

lemma keeps_let [keep]: "(\<And>x. keeps g (f x)) \<Longrightarrow> keeps g (let x = v in f x)"
  by (simp add: Let_def)

lemma keeps_writeState [keep]: "(\<And>s. g (f s) = g s) \<Longrightarrow> keeps g (writeState f)"
  by (simp add: keeps_def writeState_def)

lemma keeps_forEach:
  "(\<And>x. x \<in> set xs \<Longrightarrow> keeps g (f x)) \<Longrightarrow> keeps g (forEach xs f)"
  unfolding keeps_iff_preserves by (auto intro: preserves_forEach)

text \<open>A transaction that throws has changed nothing.\<close>

lemma transaction_throw: "transaction m s = (Inl e, t) \<Longrightarrow> t = s"
  by (auto simp: transaction_def split: prod.splits sum.splits)

lemma transaction_ok:
  "transaction m s = (Inr x, t) \<longleftrightarrow> m s = (Inr x, t)"
  by (auto simp: transaction_def split: prod.splits sum.splits)

lemma andThen_ok:
  "andThen m f s = (Inr y, u) \<longleftrightarrow> (\<exists>x t. m s = (Inr x, t) \<and> f x t = (Inr y, u))"
  by (auto simp: andThen_def split: prod.splits sum.splits)

lemma andThen_step: "m s = (Inr x, t) \<Longrightarrow> andThen m f s = f x t"
  by (simp add: andThen_def)

lemma andThen_stop: "m s = (Inl e, t) \<Longrightarrow> andThen m f s = (Inl e, t)"
  by (simp add: andThen_def)

section \<open>Tables\<close>

text \<open>
  A table is the list of its rows. \<open>updateWhere\<close> is \<open>updateMany\<close> (and
  \<open>update\<close>, when the condition names a key), \<open>deleteWhere\<close> is \<open>deleteMany\<close>.
  Theorems quantify over every list, so over every order a query without \<open>ORDER BY\<close>
  may return the rows in.
\<close>

definition updateWhere :: "('r \<Rightarrow> bool) \<Rightarrow> ('r \<Rightarrow> 'r) \<Rightarrow> 'r list \<Rightarrow> 'r list" where
  "updateWhere p f rows = map (\<lambda>r. if p r then f r else r) rows"

definition deleteWhere :: "('r \<Rightarrow> bool) \<Rightarrow> 'r list \<Rightarrow> 'r list" where
  "deleteWhere p rows = filter (\<lambda>r. \<not> p r) rows"

definition countWhere :: "('r \<Rightarrow> bool) \<Rightarrow> 'r list \<Rightarrow> nat" where
  "countWhere p rows = length (filter p rows)"

definition uniqueOn :: "('r \<Rightarrow> 'k) \<Rightarrow> 'r list \<Rightarrow> bool" where
  "uniqueOn k rows \<longleftrightarrow> distinct (map k rows)"

lemma updateWhere_Nil [simp]: "updateWhere p f [] = []"
  by (simp add: updateWhere_def)

lemma updateWhere_Cons [simp]:
  "updateWhere p f (r # rs) = (if p r then f r else r) # updateWhere p f rs"
  by (simp add: updateWhere_def)

lemma deleteWhere_Nil [simp]: "deleteWhere p [] = []"
  by (simp add: deleteWhere_def)

lemma deleteWhere_Cons [simp]:
  "deleteWhere p (r # rs) = (if p r then deleteWhere p rs else r # deleteWhere p rs)"
  by (simp add: deleteWhere_def)

lemma set_deleteWhere [simp]: "set (deleteWhere p rows) = {r \<in> set rows. \<not> p r}"
  by (auto simp: deleteWhere_def)

lemma set_updateWhere:
  "set (updateWhere p f rows) = {r \<in> set rows. \<not> p r} \<union> f ` {r \<in> set rows. p r}"
  by (auto simp: updateWhere_def)

lemma updateWhere_append [table_simps]:
  "updateWhere p f (xs @ ys) = updateWhere p f xs @ updateWhere p f ys"
  by (simp add: updateWhere_def)

lemma deleteWhere_append [table_simps]:
  "deleteWhere p (xs @ ys) = deleteWhere p xs @ deleteWhere p ys"
  by (simp add: deleteWhere_def)

lemma updateWhere_idle [table_simps]:
  "(\<And>r. r \<in> set rows \<Longrightarrow> \<not> p r) \<Longrightarrow> updateWhere p f rows = rows"
  by (induction rows) auto

lemma updateWhere_cong_id:
  "(\<And>r. r \<in> set rows \<Longrightarrow> p r \<Longrightarrow> f r = r) \<Longrightarrow> updateWhere p f rows = rows"
  by (induction rows) auto

lemma deleteWhere_idle [table_simps]:
  "(\<And>r. r \<in> set rows \<Longrightarrow> \<not> p r) \<Longrightarrow> deleteWhere p rows = rows"
  by (induction rows) auto

lemma map_updateWhere [table_simps]:
  "(\<And>r. p r \<Longrightarrow> k (f r) = k r) \<Longrightarrow> map k (updateWhere p f rows) = map k rows"
  by (induction rows) auto

lemma uniqueOn_updateWhere:
  "(\<And>r. p r \<Longrightarrow> k (f r) = k r) \<Longrightarrow> uniqueOn k (updateWhere p f rows) = uniqueOn k rows"
  by (simp add: uniqueOn_def map_updateWhere)

lemma uniqueOn_deleteWhere: "uniqueOn k rows \<Longrightarrow> uniqueOn k (deleteWhere p rows)"
  by (induction rows) (auto simp: uniqueOn_def deleteWhere_def)

lemma uniqueOn_append:
  "uniqueOn k rows \<Longrightarrow> k r \<notin> k ` set rows \<Longrightarrow> uniqueOn k (rows @ [r])"
  by (simp add: uniqueOn_def)

lemma uniqueOn_eq: "uniqueOn k rows \<Longrightarrow> r \<in> set rows \<Longrightarrow> r' \<in> set rows \<Longrightarrow> k r = k r' \<Longrightarrow> r = r'"
  by (auto simp: uniqueOn_def distinct_map inj_on_def)

lemma find_key_in:
  "List.find (\<lambda>r. k r = i) rows = Some r \<Longrightarrow> r \<in> set rows \<and> k r = i"
  by (induction rows) (auto split: if_splits)

lemma find_uniqueOn:
  "uniqueOn k rows \<Longrightarrow> r \<in> set rows \<Longrightarrow> List.find (\<lambda>r'. k r' = k r) rows = Some r"
  by (induction rows) (auto simp: uniqueOn_def)

lemma find_only:
  "v \<in> set rows \<Longrightarrow> P v \<Longrightarrow> (\<And>w. w \<in> set rows \<Longrightarrow> P w \<Longrightarrow> w = v) \<Longrightarrow> List.find P rows = Some v"
proof (induction rows)
  case (Cons r rows)
  show ?case
  proof (cases "P r")
    case True
    then have "r = v" by (rule Cons.prems(3) [OF list.set_intros(1)])
    with True show ?thesis by simp
  next
    case False
    then have "v \<in> set rows" using Cons.prems(1,2) by auto
    then have "List.find P rows = Some v"
      by (rule Cons.IH [OF _ Cons.prems(2)]) (rule Cons.prems(3), simp_all)
    with False show ?thesis by simp
  qed
qed simp

lemma find_None_iff_key: "List.find (\<lambda>r. k r = i) rows = None \<longleftrightarrow> i \<notin> k ` set rows"
  by (auto simp: find_None_iff)

lemma updateWhere_find:
  assumes "\<And>r. k (f r) = k r"
  shows "List.find (\<lambda>r. k r = i) (updateWhere (\<lambda>r. k r = j) f rows) =
    map_option (\<lambda>r. if k r = j then f r else r) (List.find (\<lambda>r. k r = i) rows)"
  using assms by (induction rows) auto

section \<open>Decimal numbers\<close>

fun showNat :: "nat \<Rightarrow> string" where
  "showNat n =
     (if n < 10 then [char_of (48 + n)] else showNat (n div 10) @ [char_of (48 + n mod 10)])"

declare showNat.simps [simp del]

definition showInt :: "int \<Rightarrow> string" where
  "showInt i = (if i < 0 then CHR ''-'' # showNat (nat (- i)) else showNat (nat i))"

definition isDigit :: "char \<Rightarrow> bool" where
  "isDigit c \<longleftrightarrow> (of_char c :: nat) \<in> {48..57}"

definition digitsValue :: "string \<Rightarrow> nat" where
  "digitsValue s = foldl (\<lambda>a c. 10 * a + (of_char c - 48)) 0 s"

lemma of_char_digit [simp]: "n < 10 \<Longrightarrow> (of_char (char_of (48 + n) :: char) :: nat) = 48 + n"
  by (simp add: of_char_of)

lemma isDigit_chars [simp]: "n < 10 \<Longrightarrow> isDigit (char_of (48 + n :: nat))" "isDigit (CHR ''0'')" "\<not> isDigit (CHR ''-'')"
  by (simp_all add: isDigit_def)

lemma showNat_digits: "list_all isDigit (showNat n)"
proof (induction n rule: showNat.induct)
  case (1 n)
  then show ?case by (subst showNat.simps) auto
qed

lemma digitsValue_showNat [simp]: "digitsValue (showNat n) = n"
proof (induction n rule: showNat.induct)
  case (1 n)
  then show ?case by (subst showNat.simps) (auto simp: digitsValue_def)
qed

lemma digitsValue_zeros [simp]: "digitsValue (replicate k (CHR ''0'') @ s) = digitsValue s"
  by (induction k) (simp_all add: digitsValue_def)

section \<open>Strings as JavaScript has them\<close>

definition startsWith :: "string \<Rightarrow> string \<Rightarrow> bool" where
  "startsWith s p \<longleftrightarrow> take (length p) s = p"

definition endsWith :: "string \<Rightarrow> string \<Rightarrow> bool" where
  "endsWith s p \<longleftrightarrow> length p \<le> length s \<and> drop (length s - length p) s = p"

fun includesStr :: "string \<Rightarrow> string \<Rightarrow> bool" where
  "includesStr [] p = (p = [])"
| "includesStr (c # s) p = (startsWith (c # s) p \<or> includesStr s p)"

lemma startsWith_append [simp]: "startsWith (p @ s) p"
  by (simp add: startsWith_def)

lemma startsWith_iff: "startsWith s p \<longleftrightarrow> (\<exists>t. s = p @ t)"
  by (auto simp: startsWith_def) (metis append_take_drop_id)

lemma endsWith_iff: "endsWith s p \<longleftrightarrow> (\<exists>t. s = t @ p)"
  by (auto simp: endsWith_def) (metis append_take_drop_id)

end
