(* ===== verification/Schema.thy ===== *)
theory Schema
  imports Prelude
begin

text \<open>
  The data every component shares: the rows of \<open>prisma/schema.prisma\<close> the code reads and
  writes, the wire protocol of \<open>packages/shared/src/protocol.ts\<close>, the exceptions, the
  database as one record of tables, and \<open>audit\<close> of \<open>panel/src/lib/audit.ts\<close>.
  Columns keep their names behind a prefix for the model (\<open>n_\<close> for \<open>Node\<close>,
  \<open>s_\<close> for \<open>Server\<close>); a column the code never reads or writes is left out.
  \<open>Float\<close> columns are exact rationals.
\<close>

section \<open>Enumerations\<close>

datatype UserRole = CUSTOMER | ADMIN

datatype NodeType = VPS | DEDICATED | HOME

datatype NodeStatus = N_ONLINE | N_OFFLINE | N_UNREACHABLE

datatype ServerStatus =
  PROVISIONING | INSTALLING | OFFLINE | STARTING | RUNNING | STOPPING | CRASHED | SUSPENDED
| DELETING | S_FAILED

datatype OrderStatus = O_PENDING | O_PAID | O_PROVISIONED | O_CANCELLED | O_FAILED

datatype InvoiceStatus = I_DRAFT | I_OPEN | I_PAID | I_OVERDUE | I_VOID

datatype BackupLocation = LOC_NODE | OBJECT_STORE

datatype MigrationStatus =
  QUEUED | BACKING_UP | TRANSFERRING | RESTORING | SWITCHING | COMPLETED | M_FAILED | ROLLED_BACK

datatype AlertSeverity = INFO | WARNING | CRITICAL

section \<open>Rows\<close>

record User =
  u_id :: ident
  u_email :: string
  u_passwordHash :: string
  u_displayName :: string
  u_role :: UserRole

record Session =
  ss_userId :: ident
  ss_tokenHash :: string
  ss_expiresAt :: time

record Node =
  n_id :: ident
  n_name :: string
  n_hostname :: string
  n_location :: string
  n_type :: NodeType
  n_status :: NodeStatus
  n_enabled :: bool
  n_totalMemoryMb :: int
  n_totalDiskMb :: int
  n_totalCpuCores :: rat
  n_reservedMemoryMb :: int
  n_reservedDiskMb :: int
  n_reservedCpuCores :: rat
  n_overheadMemoryMb :: int
  n_overheadDiskMb :: int
  n_agentTokenHash :: string
  n_agentVersion :: "string option"
  n_lastHeartbeat :: "time option"
  n_daemonPortRangeStart :: int
  n_daemonPortRangeEnd :: int

record NodeTemplate =
  nt_nodeId :: ident
  nt_templateId :: ident

record TemplateVariable =
  v_key :: string
  v_label :: string
  v_default :: "string option"
  v_editable :: "bool option"

record GameTemplate =
  t_id :: ident
  t_key :: string
  t_name :: string
  t_dockerImage :: string
  t_startCommand :: string
  t_stopCommand :: string
  t_variables :: "TemplateVariable list"

record Plan =
  p_id :: ident
  p_name :: string
  p_memoryMb :: int
  p_diskMb :: int
  p_cpuCores :: rat
  p_backupMb :: int
  p_databaseLimit :: int
  p_allocationLimit :: int
  p_monthlyPriceCents :: int
  p_currency :: string
  p_templateId :: "ident option"
  p_visible :: bool

record Order =
  o_id :: ident
  o_userId :: ident
  o_planId :: ident
  o_status :: OrderStatus
  o_serverId :: "ident option"
  o_failureReason :: "string option"

type_synonym environment = "(string \<times> string) list"

record Server =
  s_id :: ident
  s_shortId :: string
  s_name :: string
  s_ownerId :: ident
  s_nodeId :: ident
  s_planId :: ident
  s_templateId :: ident
  s_status :: ServerStatus
  s_memoryMb :: int
  s_diskMb :: int
  s_cpuCores :: rat
  s_containerId :: "string option"
  s_environment :: environment
  s_suspended :: bool
  s_createdAt :: time

record Allocation =
  a_id :: ident
  a_nodeId :: ident
  a_ip :: string
  a_port :: int
  a_serverId :: "ident option"
  a_primary :: bool

record Subuser =
  sub_id :: ident
  sub_serverId :: ident
  sub_userId :: ident
  sub_permissions :: "string list"

record Backup =
  b_id :: ident
  b_serverId :: ident
  b_name :: string
  b_bytes :: int
  b_checksum :: "string option"
  b_completed :: bool
  b_createdAt :: time
  b_location :: BackupLocation
  b_objectKey :: "string option"

record BackupSchedule =
  bs_id :: ident
  bs_serverId :: ident
  bs_minuteUtc :: int
  bs_daysMask :: int
  bs_keepCount :: int
  bs_enabled :: bool
  bs_lastRunAt :: "time option"

record AuditLog =
  au_actorId :: "ident option"
  au_action :: string
  au_targetType :: string
  au_targetId :: string

record Invoice =
  i_id :: ident
  i_number :: string
  i_userId :: ident
  i_serverId :: "ident option"
  i_status :: InvoiceStatus
  i_amountCents :: int
  i_currency :: string
  i_periodStart :: time
  i_periodEnd :: time
  i_dueAt :: time
  i_paidAt :: "time option"
  i_paymentRef :: "string option"

record MigrationJob =
  m_id :: ident
  m_serverId :: ident
  m_fromNodeId :: ident
  m_toNodeId :: ident
  m_status :: MigrationStatus
  m_backupId :: "ident option"
  m_failureReason :: "string option"
  m_finishedAt :: "time option"

record Alert =
  al_id :: ident
  al_key :: string
  al_severity :: AlertSeverity
  al_title :: string
  al_detail :: string
  al_targetType :: string
  al_targetId :: ident
  al_resolvedAt :: "time option"
  al_notifiedAt :: "time option"
  al_createdAt :: time

record ServerMetric =
  sm_serverId :: ident
  sm_bucket :: time
  sm_resolution :: string
  sm_cpuPercent :: rat
  sm_memoryMb :: int
  sm_diskMb :: int
  sm_samples :: int

record DatabaseHost =
  h_id :: ident
  h_name :: string
  h_host :: string
  h_port :: int
  h_adminHost :: string
  h_adminUser :: string
  h_adminPasswordEnc :: string
  h_nodeId :: "ident option"
  h_maxDatabases :: int
  h_enabled :: bool

record ServerDatabase =
  d_id :: ident
  d_serverId :: ident
  d_hostId :: ident
  d_dbName :: string
  d_username :: string
  d_passwordEnc :: string

section \<open>Wire protocol\<close>

datatype transport = Tcp | Udp

record PortSpec =
  pt_ip :: string
  pt_port :: int
  pt_protocol :: transport

record CreateServerSpec =
  sp_serverId :: ident
  sp_shortId :: string
  sp_image :: string
  sp_startCommand :: string
  sp_stopCommand :: string
  sp_environment :: environment
  sp_memoryMb :: int
  sp_diskMb :: int
  sp_cpuCores :: rat
  sp_ports :: "PortSpec list"

datatype CommandPayload =
  Server_create CreateServerSpec
| Server_delete ident bool
| Server_start ident
| Server_stop ident "string option" "nat option"
| Server_restart ident
| Server_kill ident
| Server_status ident
| Server_stats ident
| Server_command ident string
| Console_attach ident nat
| Console_detach ident
| Files_list ident string
| Files_read ident string "nat option"
| Files_write ident string string
| Files_delete ident "string list"
| Files_mkdir ident string
| Files_rename ident string string
| Backup_create ident ident
| Backup_restore ident ident
| Backup_delete ident ident
| Agent_update string string string
| Agent_rollback

datatype ContainerState =
  C_running | C_exited | C_created | C_restarting | C_paused | C_dead

record ContainerSummary =
  c_serverId :: ident
  c_containerId :: string
  c_state :: ContainerState
  c_cpuPercent :: rat
  c_memoryUsedMb :: int
  c_diskUsedMb :: int

text \<open>
  What an agent's \<open>data\<close> may hold. \<open>callAgent<T>\<close> casts it without a check, so
  every field a caller reads may be \<open>undefined\<close>.
\<close>

record AgentReply =
  rp_containerId :: "string option"
  rp_bytes :: "int option"
  rp_checksum :: "string option"
  rp_objectKey :: "string option"
  rp_content :: "string option"

definition emptyReply :: AgentReply where
  "emptyReply = \<lparr>rp_containerId = None, rp_bytes = None, rp_checksum = None, rp_objectKey = None,
     rp_content = None\<rparr>"

section \<open>Exceptions\<close>

datatype exn =
  NoCapacityError
| AuthError nat string
| AgentError string string \<comment> \<open>code and message\<close>
| NotFoundError string \<comment> \<open>Prisma P2025, naming the model\<close>
| UniqueError string \<comment> \<open>Prisma P2002\<close>
| BackupQuotaError int int
| DatabaseLimitError int
| ModError string
| ZodError
| Error string

section \<open>SQL sent to the customers' database hosts\<close>

text \<open>The statements \<open>databases.ts\<close> issues; \<open>CONNECT\<close> stands for
  \<open>mysql.createConnection\<close>.\<close>

datatype sql =
  CONNECT
| SELECT_1
| CREATE_DATABASE string
| CREATE_USER string string
| GRANT_ALL string string
| FLUSH_PRIVILEGES
| ALTER_USER string string
| DROP_DATABASE string
| DROP_USER string

section \<open>The database\<close>

record db =
  users :: "User list"
  sessions :: "Session list"
  nodes :: "Node list"
  nodeTemplates :: "NodeTemplate list"
  templates :: "GameTemplate list"
  plans :: "Plan list"
  orders :: "Order list"
  servers :: "Server list"
  allocations :: "Allocation list"
  subusers :: "Subuser list"
  backups :: "Backup list"
  schedules :: "BackupSchedule list"
  auditLog :: "AuditLog list"
  invoices :: "Invoice list"
  migrationJobs :: "MigrationJob list"
  alerts :: "Alert list"
  metrics :: "ServerMetric list"
  databaseHosts :: "DatabaseHost list"
  serverDatabases :: "ServerDatabase list"
  sqlLog :: "(ident \<times> sql) list" \<comment> \<open>statements sent to database hosts, oldest first\<close>
  calls :: "(ident \<times> CommandPayload) list" \<comment> \<open>commands handed to agents, oldest first\<close>
  posts :: "Alert list" \<comment> \<open>alerts posted to the operators' webhook, oldest first\<close>

definition emptyDb :: db where
  "emptyDb = \<lparr>users = [], sessions = [], nodes = [], nodeTemplates = [], templates = [], plans = [],
     orders = [], servers = [], allocations = [], subusers = [], backups = [], schedules = [],
     auditLog = [], invoices = [], migrationJobs = [], alerts = [], metrics = [],
     databaseHosts = [], serverDatabases = [], sqlLog = [], calls = [], posts = []\<rparr>"

type_synonym 'a act = "(db, exn, 'a) action"

text \<open>
  The agents, and the path to them, are a parameter: what a call returns may depend on every
  command issued before. \<open>Inl\<close> is an \<open>AgentError\<close> (the error answer of the agent,
  \<open>timeout\<close>, or \<open>node_offline\<close>).
\<close>

type_synonym agent =
  "(ident \<times> CommandPayload) list \<Rightarrow> ident \<Rightarrow> CommandPayload \<Rightarrow> (string \<times> string) + AgentReply"

definition callAgent :: "agent \<Rightarrow> ident \<Rightarrow> CommandPayload \<Rightarrow> AgentReply act" where
  "callAgent agent nodeId payload s =
     (case agent (calls s) nodeId payload of
        Inl (code, msg) \<Rightarrow> (Inl (AgentError code msg), s\<lparr>calls := calls s @ [(nodeId, payload)]\<rparr>)
      | Inr r \<Rightarrow> (Inr r, s\<lparr>calls := calls s @ [(nodeId, payload)]\<rparr>))"

text \<open>
  The database hosts are a parameter in the same way: whether a statement succeeds may depend on
  every statement issued before.
\<close>

type_synonym mysql = "(ident \<times> sql) list \<Rightarrow> ident \<Rightarrow> sql \<Rightarrow> bool"

definition query :: "mysql \<Rightarrow> ident \<Rightarrow> sql \<Rightarrow> unit act" where
  "query mysql hostId q s =
     ((if mysql (sqlLog s) hostId q then Inr () else Inl (Error ''mysql'')),
      s\<lparr>sqlLog := sqlLog s @ [(hostId, q)]\<rparr>)"

definition audit :: "ident option \<Rightarrow> string \<Rightarrow> string \<Rightarrow> string \<Rightarrow> unit act" where
  "audit actorId action targetType targetId =
     writeState (\<lambda>s. s\<lparr>auditLog := auditLog s @
       [\<lparr>au_actorId = actorId, au_action = action, au_targetType = targetType,
         au_targetId = targetId\<rparr>]\<rparr>)"

section \<open>Lookups\<close>

definition findNode :: "ident \<Rightarrow> db \<Rightarrow> Node option" where
  "findNode i s = List.find (\<lambda>n. n_id n = i) (nodes s)"

definition findServer :: "ident \<Rightarrow> db \<Rightarrow> Server option" where
  "findServer i s = List.find (\<lambda>v. s_id v = i) (servers s)"

definition findPlan :: "ident \<Rightarrow> db \<Rightarrow> Plan option" where
  "findPlan i s = List.find (\<lambda>p. p_id p = i) (plans s)"

definition findTemplate :: "ident \<Rightarrow> db \<Rightarrow> GameTemplate option" where
  "findTemplate i s = List.find (\<lambda>t. t_id t = i) (templates s)"

definition findOrder :: "ident \<Rightarrow> db \<Rightarrow> Order option" where
  "findOrder i s = List.find (\<lambda>r. o_id r = i) (orders s)"

definition findUser :: "ident \<Rightarrow> db \<Rightarrow> User option" where
  "findUser i s = List.find (\<lambda>u. u_id u = i) (users s)"

definition findBackup :: "ident \<Rightarrow> db \<Rightarrow> Backup option" where
  "findBackup i s = List.find (\<lambda>b. b_id b = i) (backups s)"

text \<open>\<open>prisma.server.update\<close> with a key that is not there throws.\<close>

definition updateServer :: "ident \<Rightarrow> (Server \<Rightarrow> Server) \<Rightarrow> Server act" where
  "updateServer i f =
     andThen (orThrow (NotFoundError ''Server'') (findServer i)) (\<lambda>v.
     andThen (writeState (\<lambda>s. s\<lparr>servers := updateWhere (\<lambda>v. s_id v = i) f (servers s)\<rparr>)) (\<lambda>_.
     ret (f v)))"

definition updateOrder :: "ident \<Rightarrow> (Order \<Rightarrow> Order) \<Rightarrow> unit act" where
  "updateOrder i f =
     andThen (orThrow (NotFoundError ''Order'') (findOrder i)) (\<lambda>_.
     writeState (\<lambda>s. s\<lparr>orders := updateWhere (\<lambda>r. o_id r = i) f (orders s)\<rparr>))"

text \<open>
  \<open>prisma.server.delete\<close>: cascades to the rows the schema declares \<open>onDelete: Cascade\<close>
  for, and sets the server of allocations and invoices to null.
\<close>

definition deleteServerRow :: "ident \<Rightarrow> unit act" where
  "deleteServerRow i =
     andThen (orThrow (NotFoundError ''Server'') (findServer i)) (\<lambda>_.
     writeState (\<lambda>s. s\<lparr>
       servers := deleteWhere (\<lambda>v. s_id v = i) (servers s),
       allocations := updateWhere (\<lambda>a. a_serverId a = Some i) (a_serverId_update (\<lambda>_. None)) (allocations s),
       subusers := deleteWhere (\<lambda>u. sub_serverId u = i) (subusers s),
       backups := deleteWhere (\<lambda>b. b_serverId b = i) (backups s),
       schedules := deleteWhere (\<lambda>b. bs_serverId b = i) (schedules s),
       invoices := updateWhere (\<lambda>v. i_serverId v = Some i) (i_serverId_update (\<lambda>_. None)) (invoices s),
       migrationJobs := deleteWhere (\<lambda>m. m_serverId m = i) (migrationJobs s),
       metrics := deleteWhere (\<lambda>m. sm_serverId m = i) (metrics s),
       serverDatabases := deleteWhere (\<lambda>d. d_serverId d = i) (serverDatabases s)\<rparr>))"

section \<open>Frames of the shared operations\<close>

lemma keeps_audit [keep]: "(\<And>s f. g (auditLog_update f s) = g s) \<Longrightarrow> keeps g (audit a b c d)"
  by (simp add: keeps_def audit_def writeState_def)

lemma keeps_callAgent [keep]: "(\<And>s f. g (calls_update f s) = g s) \<Longrightarrow> keeps g (callAgent ag n p)"
  by (simp add: keeps_def callAgent_def split: sum.split prod.split)

lemma keeps_query [keep]: "(\<And>s f. g (sqlLog_update f s) = g s) \<Longrightarrow> keeps g (query my h q)"
  by (simp add: keeps_def query_def)

lemma preserves_query [pres]: "(\<And>s f. I (sqlLog_update f s) = I s) \<Longrightarrow> preserves I (query my h q)"
  by (simp add: preserves_def query_def)

lemma keeps_updateServer [keep]: "(\<And>s f. g (servers_update f s) = g s) \<Longrightarrow> keeps g (updateServer i f)"
  by (simp add: keeps_def updateServer_def act_defs split: option.split)

lemma keeps_updateOrder [keep]: "(\<And>s f. g (orders_update f s) = g s) \<Longrightarrow> keeps g (updateOrder i f)"
  by (simp add: keeps_def updateOrder_def act_defs split: option.split)

lemma preserves_updateServer [pres]: "(\<And>s f. I (servers_update f s) = I s) \<Longrightarrow> preserves I (updateServer i f)"
  by (simp add: preserves_def updateServer_def act_defs split: option.split)

lemma preserves_updateOrder [pres]: "(\<And>s f. I (orders_update f s) = I s) \<Longrightarrow> preserves I (updateOrder i f)"
  by (simp add: preserves_def updateOrder_def act_defs split: option.split)

lemma preserves_audit [pres]: "(\<And>s f. I (auditLog_update f s) = I s) \<Longrightarrow> preserves I (audit a b c d)"
  by (simp add: preserves_def audit_def writeState_def)

lemma preserves_callAgent [pres]: "(\<And>s f. I (calls_update f s) = I s) \<Longrightarrow> preserves I (callAgent ag n p)"
  by (simp add: preserves_def callAgent_def split: sum.split prod.split)

lemma audit_result [simp]:
  "audit a b c d s = (Inr (), s\<lparr>auditLog := auditLog s @
     [\<lparr>au_actorId = a, au_action = b, au_targetType = c, au_targetId = d\<rparr>]\<rparr>)"
  by (simp add: audit_def writeState_def)

lemma callAgent_state: "callAgent ag n p s = (r, u) \<Longrightarrow> u = s\<lparr>calls := calls s @ [(n, p)]\<rparr>"
  by (auto simp: callAgent_def split: sum.splits prod.splits)

lemma findServer_in: "findServer i s = Some v \<Longrightarrow> v \<in> set (servers s) \<and> s_id v = i"
  unfolding findServer_def by (rule find_key_in)

lemma findNode_in: "findNode i s = Some n \<Longrightarrow> n \<in> set (nodes s) \<and> n_id n = i"
  unfolding findNode_def by (rule find_key_in)

end
