(* ===== verification/Scheduler.thy ===== *)
theory Scheduler
  imports Schema
begin

text \<open>
  \<open>panel/src/lib/scheduler.ts\<close>: placement of a server on a node and the reservation
  counters the fleet is sold against. Each \<open>$transaction\<close> and each raw \<open>UPDATE\<close> is
  one atomic step: \<open>FOR UPDATE OF n\<close> makes concurrent schedulers queue on the candidate
  rows, and under READ COMMITTED the row they wake up on is checked against the \<open>WHERE\<close>
  clause again, so a reservation reads the counters it writes.

  The contract the rest of the program relies on is the locale \<open>capacity_pool\<close>,
  interpreted at the end of the first section on the counters of a node.
\<close>

section \<open>Amounts and counters\<close>

record Amount =
  am_memoryMb :: int
  am_diskMb :: int
  am_cpuCores :: rat

definition freeMemory :: "Node \<Rightarrow> int" where
  "freeMemory n = n_totalMemoryMb n - n_reservedMemoryMb n - n_overheadMemoryMb n"

definition freeDisk :: "Node \<Rightarrow> int" where
  "freeDisk n = n_totalDiskMb n - n_reservedDiskMb n - n_overheadDiskMb n"

definition freeCpu :: "Node \<Rightarrow> rat" where
  "freeCpu n = n_totalCpuCores n - n_reservedCpuCores n"

text \<open>The capacity clause, the same in the \<open>SELECT\<close> and in the \<open>UPDATE\<close>.\<close>

definition hasRoom :: "Amount \<Rightarrow> Node \<Rightarrow> bool" where
  "hasRoom a n \<longleftrightarrow>
     am_memoryMb a \<le> freeMemory n \<and> am_diskMb a \<le> freeDisk n \<and> am_cpuCores a \<le> freeCpu n"

definition addReserved :: "Amount \<Rightarrow> Node \<Rightarrow> Node" where
  "addReserved a n = n\<lparr>
     n_reservedMemoryMb := n_reservedMemoryMb n + am_memoryMb a,
     n_reservedDiskMb := n_reservedDiskMb n + am_diskMb a,
     n_reservedCpuCores := n_reservedCpuCores n + am_cpuCores a\<rparr>"

definition subReserved :: "Amount \<Rightarrow> Node \<Rightarrow> Node" where
  "subReserved a n = n\<lparr>
     n_reservedMemoryMb := max 0 (n_reservedMemoryMb n - am_memoryMb a),
     n_reservedDiskMb := max 0 (n_reservedDiskMb n - am_diskMb a),
     n_reservedCpuCores := max 0 (n_reservedCpuCores n - am_cpuCores a)\<rparr>"

text \<open>The guarded \<open>UPDATE\<close> on one row: the row it leaves, or no row updated.\<close>

definition reserveNode :: "Amount \<Rightarrow> Node \<Rightarrow> Node option" where
  "reserveNode a n = (if hasRoom a n then Some (addReserved a n) else None)"

definition amountOk :: "Amount \<Rightarrow> bool" where
  "amountOk a \<longleftrightarrow> 0 \<le> am_memoryMb a \<and> 0 \<le> am_diskMb a \<and> 0 \<le> am_cpuCores a"

text \<open>A node is sound when nothing is sold twice: reservations fit beside the overhead.\<close>

definition nodeSound :: "Node \<Rightarrow> bool" where
  "nodeSound n \<longleftrightarrow>
     0 \<le> n_reservedMemoryMb n \<and> 0 \<le> n_reservedDiskMb n \<and> 0 \<le> n_reservedCpuCores n \<and>
     0 \<le> freeMemory n \<and> 0 \<le> freeDisk n \<and> 0 \<le> freeCpu n"

lemmas counter_defs = freeMemory_def freeDisk_def freeCpu_def hasRoom_def addReserved_def
  subReserved_def amountOk_def nodeSound_def

section \<open>The contract of a capacity pool\<close>

datatype 'a pool_op = Reserve 'a | Release 'a

locale capacity_pool =
  fixes reserve :: "'a \<Rightarrow> 'n \<Rightarrow> 'n option"
    and release :: "'a \<Rightarrow> 'n \<Rightarrow> 'n"
    and sound :: "'n \<Rightarrow> bool"
    and legal :: "'a \<Rightarrow> bool"
  assumes reserve_sound: "sound n \<Longrightarrow> legal a \<Longrightarrow> reserve a n = Some n' \<Longrightarrow> sound n'"
    and release_sound: "sound n \<Longrightarrow> legal a \<Longrightarrow> sound (release a n)"
    and release_reserve: "sound n \<Longrightarrow> legal a \<Longrightarrow> reserve a n = Some n' \<Longrightarrow> release a n' = n"
begin

primrec pool_step :: "'n \<Rightarrow> 'a pool_op \<Rightarrow> 'n" where
  "pool_step n (Reserve a) = (case reserve a n of None \<Rightarrow> n | Some n' \<Rightarrow> n')"
| "pool_step n (Release a) = release a n"

primrec pool_legal :: "'a pool_op \<Rightarrow> bool" where
  "pool_legal (Reserve a) = legal a"
| "pool_legal (Release a) = legal a"

lemma pool_step_sound: "sound n \<Longrightarrow> pool_legal p \<Longrightarrow> sound (pool_step n p)"
  by (cases p) (auto split: option.split intro: reserve_sound release_sound)

lemma pool_run_sound: "sound n \<Longrightarrow> (\<forall>p \<in> set ps. pool_legal p) \<Longrightarrow> sound (foldl pool_step n ps)"
  by (induction ps arbitrary: n) (auto intro: pool_step_sound)

lemma reserve_release_idle:
  "sound n \<Longrightarrow> legal a \<Longrightarrow> reserve a n = Some n' \<Longrightarrow> pool_step (pool_step n (Reserve a)) (Release a) = n"
  by (simp add: release_reserve)

end

interpretation pool: capacity_pool reserveNode subReserved nodeSound amountOk
  by unfold_locales (auto simp: reserveNode_def counter_defs split: if_splits)

section \<open>Placement\<close>

record PlacementRequest =
  rq_memoryMb :: int
  rq_diskMb :: int
  rq_cpuCores :: rat
  rq_templateId :: ident
  rq_preferredLocation :: "string option"
  rq_excludeNodeIds :: "ident list"

definition requestAmount :: "PlacementRequest \<Rightarrow> Amount" where
  "requestAmount r = \<lparr>am_memoryMb = rq_memoryMb r, am_diskMb = rq_diskMb r,
     am_cpuCores = rq_cpuCores r\<rparr>"

record Reservation =
  rv_nodeId :: ident
  rv_nodeName :: string
  rv_memoryMb :: int
  rv_diskMb :: int
  rv_cpuCores :: rat

record CandidateRow =
  cr_id :: ident
  cr_name :: string
  cr_location :: string
  cr_free_memory :: int
  cr_free_disk :: int
  cr_free_cpu :: rat
  cr_total_memory :: int
  cr_total_disk :: int
  cr_total_cpu :: rat

definition HEARTBEAT_STALE_MS :: int where
  "HEARTBEAT_STALE_MS = 60000"

definition candidateRow :: "Node \<Rightarrow> CandidateRow" where
  "candidateRow n = \<lparr>cr_id = n_id n, cr_name = n_name n, cr_location = n_location n,
     cr_free_memory = freeMemory n, cr_free_disk = freeDisk n, cr_free_cpu = freeCpu n,
     cr_total_memory = n_totalMemoryMb n, cr_total_disk = n_totalDiskMb n,
     cr_total_cpu = n_totalCpuCores n\<rparr>"

text \<open>The \<open>WHERE\<close> clause of the candidate query, without the join on the template.\<close>

definition schedulable :: "time \<Rightarrow> PlacementRequest \<Rightarrow> Node \<Rightarrow> bool" where
  "schedulable now req n \<longleftrightarrow>
     n_status n = N_ONLINE \<and> n_enabled n \<and>
     (case n_lastHeartbeat n of None \<Rightarrow> False | Some h \<Rightarrow> now - HEARTBEAT_STALE_MS < h) \<and>
     n_id n \<notin> set (rq_excludeNodeIds req) \<and>
     hasRoom (requestAmount req) n"

definition candidateNodes :: "time \<Rightarrow> PlacementRequest \<Rightarrow> db \<Rightarrow> Node list" where
  "candidateNodes now req s =
     sort_key n_id (filter (schedulable now req)
       (concat (map (\<lambda>n. map (\<lambda>_. n)
          (filter (\<lambda>nt. nt_nodeId nt = n_id n \<and> nt_templateId nt = rq_templateId req)
             (nodeTemplates s))) (nodes s))))"

text \<open>
  \<open>balanceScore\<close> in exact arithmetic. \<open>None\<close> is \<open>NaN\<close>: with a zero total some
  term is \<open>0/0\<close> or \<open>x/0\<close>, and in the second case \<open>Infinity - Infinity\<close> in
  the spread makes the score \<open>NaN\<close> as well.
\<close>

definition balanceScore :: "CandidateRow \<Rightarrow> PlacementRequest \<Rightarrow> rat option" where
  "balanceScore row req =
     (if cr_total_memory row = 0 \<or> cr_total_disk row = 0 \<or> cr_total_cpu row = 0 then None
      else
        let memAfter = 1 - of_int (cr_free_memory row - rq_memoryMb req) / of_int (cr_total_memory row);
            diskAfter = 1 - of_int (cr_free_disk row - rq_diskMb req) / of_int (cr_total_disk row);
            cpuAfter = 1 - (cr_free_cpu row - rq_cpuCores req) / cr_total_cpu row;
            mean = (memAfter + diskAfter + cpuAfter) / 3;
            spread = \<bar>memAfter - mean\<bar> + \<bar>diskAfter - mean\<bar> + \<bar>cpuAfter - mean\<bar>
        in Some (mean * 2 + spread))"

text \<open>\<open><\<close> of JavaScript numbers: false when either side is \<open>NaN\<close>.\<close>

fun numberLess :: "rat option \<Rightarrow> rat option \<Rightarrow> bool" where
  "numberLess (Some x) (Some y) = (x < y)"
| "numberLess _ _ = False"

text \<open>\<open>pool.reduce((best, row) => ...)\<close> from the first row.\<close>

fun pickBest :: "PlacementRequest \<Rightarrow> CandidateRow \<Rightarrow> CandidateRow list \<Rightarrow> CandidateRow" where
  "pickBest req best [] = best"
| "pickBest req best (row # rows) =
     pickBest req (if numberLess (balanceScore row req) (balanceScore best req) then row else best) rows"

text \<open>\<open>null\<close>, \<open>undefined\<close> and the empty string are no preference.\<close>

definition placementPool :: "PlacementRequest \<Rightarrow> CandidateRow list \<Rightarrow> CandidateRow list" where
  "placementPool req candidates =
     (let preferred = (case rq_preferredLocation req of
                         None \<Rightarrow> []
                       | Some l \<Rightarrow> if l = [] then [] else filter (\<lambda>c. cr_location c = l) candidates)
      in if preferred \<noteq> [] then preferred else candidates)"

definition reservationFor :: "CandidateRow \<Rightarrow> PlacementRequest \<Rightarrow> Reservation" where
  "reservationFor row req = \<lparr>rv_nodeId = cr_id row, rv_nodeName = cr_name row,
     rv_memoryMb = rq_memoryMb req, rv_diskMb = rq_diskMb req, rv_cpuCores = rq_cpuCores req\<rparr>"

text \<open>The guarded \<open>UPDATE "Node"\<close>: the number of rows it changed is its result.\<close>

definition reserveUpdate :: "ident \<Rightarrow> Amount \<Rightarrow> nat act" where
  "reserveUpdate i a s =
     (Inr (countWhere (\<lambda>n. n_id n = i \<and> hasRoom a n) (nodes s)),
      s\<lparr>nodes := updateWhere (\<lambda>n. n_id n = i \<and> hasRoom a n) (addReserved a) (nodes s)\<rparr>)"

definition reserveCapacity ::
    "time \<Rightarrow> PlacementRequest \<Rightarrow> (Reservation \<Rightarrow> 'a act) \<Rightarrow> (Reservation \<times> 'a) act" where
  "reserveCapacity now req onReserved = transaction (
     andThen (readState (\<lambda>s. map candidateRow (candidateNodes now req s))) (\<lambda>candidates.
     case placementPool req candidates of
       [] \<Rightarrow> throw NoCapacityError
     | first # rest \<Rightarrow>
         (let chosen = pickBest req first rest;
              reservation = reservationFor chosen req
          in andThen (reserveUpdate (cr_id chosen) (requestAmount req)) (\<lambda>updated.
             andThen (require (updated = 1) NoCapacityError) (\<lambda>_.
             andThen (onReserved reservation) (\<lambda>result.
             ret (reservation, result)))))))"

text \<open>\<open>releaseCapacity\<close>: \<open>GREATEST(0, ...)\<close> on each counter of the named node.\<close>

definition releaseCapacity :: "ident \<Rightarrow> Amount \<Rightarrow> unit act" where
  "releaseCapacity nodeId a =
     writeState (\<lambda>s. s\<lparr>nodes := updateWhere (\<lambda>n. n_id n = nodeId) (subReserved a) (nodes s)\<rparr>)"

text \<open>
  \<open>claimAllocation\<close>: \<open>locked\<close> holds the rows other open transactions have locked, which
  \<open>SKIP LOCKED\<close> passes over.
\<close>

definition freeAllocations :: "ident list \<Rightarrow> ident \<Rightarrow> db \<Rightarrow> Allocation list" where
  "freeAllocations locked nodeId s =
     sort_key a_port (filter (\<lambda>a. a_nodeId a = nodeId \<and> a_serverId a = None \<and> a_id a \<notin> set locked)
       (allocations s))"

definition claimAllocation :: "ident list \<Rightarrow> ident \<Rightarrow> ident \<Rightarrow> Allocation act" where
  "claimAllocation locked nodeId serverId =
     andThen (readState (freeAllocations locked nodeId)) (\<lambda>rows.
     case rows of
       [] \<Rightarrow> throw (Error (''Node '' @ nodeId @ '' has no free network allocation.''))
     | alloc # _ \<Rightarrow>
         andThen (writeState (\<lambda>s. s\<lparr>allocations := updateWhere (\<lambda>a. a_id a = a_id alloc)
             (\<lambda>a. a\<lparr>a_serverId := Some serverId, a_primary := True\<rparr>) (allocations s)\<rparr>)) (\<lambda>_.
         ret alloc))"

section \<open>Recalculation\<close>

definition serverAmount :: "Server \<Rightarrow> Amount" where
  "serverAmount v = \<lparr>am_memoryMb = s_memoryMb v, am_diskMb = s_diskMb v, am_cpuCores = s_cpuCores v\<rparr>"

text \<open>The servers \<open>recalculateNodeReservations\<close> sums over.\<close>

definition placedOn :: "ident \<Rightarrow> Server list \<Rightarrow> Server list" where
  "placedOn nodeId vs = filter (\<lambda>v. s_nodeId v = nodeId \<and> s_status v \<noteq> DELETING) vs"

definition sumAmount :: "Server list \<Rightarrow> Amount" where
  "sumAmount vs = \<lparr>am_memoryMb = sum_list (map s_memoryMb vs), am_diskMb = sum_list (map s_diskMb vs),
     am_cpuCores = sum_list (map s_cpuCores vs)\<rparr>"

definition setReserved :: "Amount \<Rightarrow> Node \<Rightarrow> Node" where
  "setReserved a n = n\<lparr>n_reservedMemoryMb := am_memoryMb a, n_reservedDiskMb := am_diskMb a,
     n_reservedCpuCores := am_cpuCores a\<rparr>"

text \<open>The Redis key it deletes afterwards is read by nothing under \<open>src/\<close>.\<close>

definition recalculateNodeReservations :: "ident \<Rightarrow> unit act" where
  "recalculateNodeReservations nodeId =
     writeState (\<lambda>s. s\<lparr>nodes := updateWhere (\<lambda>n. n_id n = nodeId)
       (setReserved (sumAmount (placedOn nodeId (servers s)))) (nodes s)\<rparr>)"

section \<open>What the placement chooses\<close>

definition hostsTemplate :: "db \<Rightarrow> ident \<Rightarrow> Node \<Rightarrow> bool" where
  "hostsTemplate s t n \<longleftrightarrow>
     (\<exists>nt \<in> set (nodeTemplates s). nt_nodeId nt = n_id n \<and> nt_templateId nt = t)"

definition eligible :: "time \<Rightarrow> PlacementRequest \<Rightarrow> db \<Rightarrow> Node \<Rightarrow> bool" where
  "eligible now req s n \<longleftrightarrow>
     n \<in> set (nodes s) \<and> schedulable now req n \<and> hostsTemplate s (rq_templateId req) n"

lemma set_candidateNodes: "set (candidateNodes now req s) = {n. eligible now req s n}"
  by (auto simp: candidateNodes_def eligible_def hostsTemplate_def)

lemma candidateRow_simps [simp]:
  "cr_id (candidateRow n) = n_id n" "cr_location (candidateRow n) = n_location n"
  "cr_name (candidateRow n) = n_name n"
  by (simp_all add: candidateRow_def)

lemma requestAmount_simps [simp]:
  "am_memoryMb (requestAmount r) = rq_memoryMb r" "am_diskMb (requestAmount r) = rq_diskMb r"
  "am_cpuCores (requestAmount r) = rq_cpuCores r"
  by (simp_all add: requestAmount_def)

lemma addReserved_simps [simp]:
  "n_id (addReserved a n) = n_id n" "n_location (addReserved a n) = n_location n"
  "n_name (addReserved a n) = n_name n" "n_status (addReserved a n) = n_status n"
  "n_enabled (addReserved a n) = n_enabled n" "n_lastHeartbeat (addReserved a n) = n_lastHeartbeat n"
  by (simp_all add: addReserved_def)

lemma subReserved_id [simp]: "n_id (subReserved a n) = n_id n"
  by (simp add: subReserved_def)

lemma setReserved_id [simp]: "n_id (setReserved a n) = n_id n"
  by (simp add: setReserved_def)

lemma pickBest_in: "pickBest req b rs \<in> set (b # rs)"
  by (induction req b rs rule: pickBest.induct) auto

lemma pickBest_NaN: "balanceScore b req = None \<Longrightarrow> pickBest req b rs = b"
  by (induction rs) auto

lemma numberLess_iff: "numberLess a b \<longleftrightarrow> (\<exists>x y. a = Some x \<and> b = Some y \<and> x < y)"
  by (cases a; cases b) auto

lemma pickBest_le_first: "\<not> numberLess (balanceScore b req) (balanceScore (pickBest req b rs) req)"
proof (induction rs arbitrary: b)
  case Nil
  then show ?case by (auto simp: numberLess_iff)
next
  case (Cons r rs)
  show ?case
  proof (cases "numberLess (balanceScore r req) (balanceScore b req)")
    case True
    then show ?thesis using Cons.IH [of r] by (fastforce simp: numberLess_iff)
  next
    case False
    then show ?thesis using Cons.IH [of b] by simp
  qed
qed

lemma pickBest_minimal:
  "r \<in> set (b # rs) \<Longrightarrow> \<not> numberLess (balanceScore r req) (balanceScore (pickBest req b rs) req)"
proof (induction rs arbitrary: b)
  case Nil
  then show ?case by (auto simp: numberLess_iff)
next
  case (Cons q rs)
  consider "r = b" | "r = q" | "r \<in> set rs" using Cons.prems by auto
  then show ?case
  proof cases
    case 1
    then show ?thesis using pickBest_le_first [of b req "q # rs"] by simp
  next
    case 2
    show ?thesis
    proof (cases "balanceScore b req")
      case None
      then show ?thesis by (simp only: pickBest_NaN) (simp add: numberLess_iff)
    next
      case (Some x)
      then show ?thesis
        using 2 pickBest_le_first [of b req rs] pickBest_le_first [of q req rs]
        by (auto simp: numberLess_iff)
    qed
  next
    case 3
    then show ?thesis using Cons.IH by auto
  qed
qed

definition chosenRow :: "PlacementRequest \<Rightarrow> CandidateRow list \<Rightarrow> CandidateRow" where
  "chosenRow req candidates =
     (let pl = placementPool req candidates in pickBest req (hd pl) (tl pl))"

lemma placementPool_subset: "set (placementPool req cs) \<subseteq> set cs"
  by (auto simp: placementPool_def Let_def split: option.splits if_splits)

lemma placementPool_preferred:
  "rq_preferredLocation req = Some l \<Longrightarrow> l \<noteq> [] \<Longrightarrow> c \<in> set cs \<Longrightarrow> cr_location c = l \<Longrightarrow>
   placementPool req cs = filter (\<lambda>c. cr_location c = l) cs"
  by (auto simp: placementPool_def Let_def filter_empty_conv)

lemma placementPool_Nil [simp]: "placementPool req cs = [] \<longleftrightarrow> cs = []"
  by (auto simp: placementPool_def Let_def split: option.splits)

lemma placementPool_empty [simp]: "placementPool req [] = []"
  by simp

lemma chosenRow_in_pool: "cs \<noteq> [] \<Longrightarrow> chosenRow req cs \<in> set (placementPool req cs)"
  using pickBest_in [of req "hd (placementPool req cs)" "tl (placementPool req cs)"]
  by (simp add: chosenRow_def Let_def)

lemma chosenRow_candidate: "cs \<noteq> [] \<Longrightarrow> chosenRow req cs \<in> set cs"
  using chosenRow_in_pool placementPool_subset by blast

lemma chosenRow_minimal:
  "r \<in> set (placementPool req cs) \<Longrightarrow>
   \<not> numberLess (balanceScore r req) (balanceScore (chosenRow req cs) req)"
  using pickBest_minimal [of r "hd (placementPool req cs)" "tl (placementPool req cs)" req]
  by (cases "placementPool req cs") (auto simp: chosenRow_def Let_def)

section \<open>Unfolding the transaction\<close>

lemma reserveCapacity_run:
  "reserveCapacity now req f = transaction (\<lambda>s.
     let cs = map candidateRow (candidateNodes now req s); c = chosenRow req cs
     in if cs = [] then (Inl NoCapacityError, s)
        else andThen (reserveUpdate (cr_id c) (requestAmount req)) (\<lambda>updated.
             andThen (require (updated = 1) NoCapacityError) (\<lambda>_.
             andThen (f (reservationFor c req)) (\<lambda>result.
             ret (reservationFor c req, result)))) s)"
  unfolding reserveCapacity_def
proof (rule arg_cong [where f = transaction], rule ext)
  fix s
  show "andThen (readState (\<lambda>s. map candidateRow (candidateNodes now req s))) (\<lambda>candidates.
      case placementPool req candidates of [] \<Rightarrow> throw NoCapacityError
      | first # rest \<Rightarrow>
         (let chosen = pickBest req first rest; reservation = reservationFor chosen req
          in andThen (reserveUpdate (cr_id chosen) (requestAmount req)) (\<lambda>updated.
             andThen (require (updated = 1) NoCapacityError) (\<lambda>_.
             andThen (f reservation) (\<lambda>result. ret (reservation, result)))))) s =
    (let cs = map candidateRow (candidateNodes now req s); c = chosenRow req cs
     in if cs = [] then (Inl NoCapacityError, s)
        else andThen (reserveUpdate (cr_id c) (requestAmount req)) (\<lambda>updated.
             andThen (require (updated = 1) NoCapacityError) (\<lambda>_.
             andThen (f (reservationFor c req)) (\<lambda>result.
             ret (reservationFor c req, result)))) s)"
    using placementPool_Nil [of req "map candidateRow (candidateNodes now req s)"]
    by (cases "placementPool req (map candidateRow (candidateNodes now req s))")
       (auto simp: andThen_def [of "readState _"] readState_def Let_def chosenRow_def throw_def)
qed

lemma reserveCapacity_cases:
  assumes "reserveCapacity now req f s = (Inr (rv, x), t)"
  obtains n where "eligible now req s n"
    and "candidateRow n = chosenRow req (map candidateRow (candidateNodes now req s))"
    and "rv = reservationFor (candidateRow n) req"
    and "countWhere (\<lambda>m. n_id m = n_id n \<and> hasRoom (requestAmount req) m) (nodes s) = 1"
    and "f rv (s\<lparr>nodes := updateWhere (\<lambda>m. n_id m = n_id n \<and> hasRoom (requestAmount req) m)
           (addReserved (requestAmount req)) (nodes s)\<rparr>) = (Inr x, t)"
proof -
  let ?cs = "map candidateRow (candidateNodes now req s)"
  have ne: "?cs \<noteq> []"
    using assms by (auto simp: reserveCapacity_run transaction_ok Let_def split: if_splits)
  then obtain n where n: "n \<in> set (candidateNodes now req s)" "candidateRow n = chosenRow req ?cs"
    using chosenRow_candidate [of ?cs req] by force
  show thesis
  proof (rule that [of n])
    show "eligible now req s n" using n(1) by (simp add: set_candidateNodes)
    show "candidateRow n = chosenRow req ?cs" by (rule n(2))
    show "rv = reservationFor (candidateRow n) req"
      using assms ne n(2)
      by (auto simp: reserveCapacity_run transaction_ok Let_def andThen_ok ret_def)
    show "countWhere (\<lambda>m. n_id m = n_id n \<and> hasRoom (requestAmount req) m) (nodes s) = 1"
      using assms ne n(2) [symmetric]
      by (auto simp: reserveCapacity_run transaction_ok Let_def andThen_ok reserveUpdate_def
          require_def split: if_splits)
    show "f rv (s\<lparr>nodes := updateWhere (\<lambda>m. n_id m = n_id n \<and> hasRoom (requestAmount req) m)
        (addReserved (requestAmount req)) (nodes s)\<rparr>) = (Inr x, t)"
      using assms ne n(2) [symmetric]
      by (auto simp: reserveCapacity_run transaction_ok Let_def andThen_ok reserveUpdate_def
          require_def ret_def split: if_splits)
  qed
qed

text \<open>A throw anywhere in the transaction, the callback included, leaves the database as it was.\<close>

lemma reserveCapacity_throw: "reserveCapacity now req f s = (Inl e, t) \<Longrightarrow> t = s"
  unfolding reserveCapacity_def by (rule transaction_throw)

section \<open>Soundness of the fleet\<close>

definition fleetSound :: "db \<Rightarrow> bool" where
  "fleetSound s \<longleftrightarrow> (\<forall>n \<in> set (nodes s). nodeSound n)"

lemma fleetSound_frame [simp]:
  "fleetSound (s\<lparr>servers := a\<rparr>) = fleetSound s" "fleetSound (s\<lparr>orders := b\<rparr>) = fleetSound s"
  "fleetSound (s\<lparr>allocations := c\<rparr>) = fleetSound s" "fleetSound (s\<lparr>auditLog := d\<rparr>) = fleetSound s"
  "fleetSound (s\<lparr>invoices := e\<rparr>) = fleetSound s" "fleetSound (s\<lparr>backups := f\<rparr>) = fleetSound s"
  "fleetSound (s\<lparr>migrationJobs := g\<rparr>) = fleetSound s" "fleetSound (s\<lparr>calls := h\<rparr>) = fleetSound s"
  by (simp_all add: fleetSound_def)

lemma reserveNode_SomeI: "hasRoom a n \<Longrightarrow> reserveNode a n = Some (addReserved a n)"
  by (simp add: reserveNode_def)

lemma nodeSound_addReserved: "nodeSound n \<Longrightarrow> amountOk a \<Longrightarrow> hasRoom a n \<Longrightarrow> nodeSound (addReserved a n)"
  by (rule pool.reserve_sound [OF _ _ reserveNode_SomeI])

lemma preserves_reserveUpdate: "amountOk a \<Longrightarrow> preserves fleetSound (reserveUpdate i a)"
  by (auto simp: preserves_def reserveUpdate_def fleetSound_def set_updateWhere
      intro: nodeSound_addReserved)

lemma preserves_releaseCapacity: "amountOk a \<Longrightarrow> preserves fleetSound (releaseCapacity i a)"
  by (auto simp: preserves_def releaseCapacity_def writeState_def fleetSound_def set_updateWhere
      intro: pool.release_sound)

lemma preserves_claimAllocation: "preserves fleetSound (claimAllocation locked i j)"
  by (simp add: preserves_def claimAllocation_def act_defs split: list.split)

lemma preserves_reserveCapacity:
  assumes "\<And>i. preserves I (reserveUpdate i (requestAmount req))" and "\<And>rv. preserves I (f rv)"
  shows "preserves I (reserveCapacity now req f)"
  unfolding reserveCapacity_def
  by (rule preserves_transaction, rule preserves_andThen [OF preserves_readState])
     (auto split: list.split simp: Let_def intro!: pres assms)

section \<open>Exact effect of a reservation\<close>

lemma countWhere_unique:
  "uniqueOn k rows \<Longrightarrow> r \<in> set rows \<Longrightarrow> P r \<Longrightarrow> countWhere (\<lambda>m. k m = k r \<and> P m) rows = 1"
proof (induction rows)
  case (Cons q rows)
  have none: "filter (\<lambda>m. k m = k r \<and> P m) rows = []" if "k r \<notin> k ` set rows"
    using that by (force simp: filter_empty_conv image_iff)
  show ?case using Cons none by (auto simp: countWhere_def uniqueOn_def)
qed simp

lemma updateWhere_unique:
  "uniqueOn k rows \<Longrightarrow> r \<in> set rows \<Longrightarrow> P r \<Longrightarrow>
   updateWhere (\<lambda>m. k m = k r \<and> P m) f rows = updateWhere (\<lambda>m. k m = k r) f rows"
  unfolding updateWhere_def by (rule map_cong) (auto dest: uniqueOn_eq)

lemma eligible_hasRoom: "eligible now req s n \<Longrightarrow> hasRoom (requestAmount req) n"
  by (simp add: eligible_def schedulable_def)

lemma reserveCapacity_chosen:
  fixes f :: "Reservation \<Rightarrow> 'a act"
  assumes uniq: "uniqueOn n_id (nodes s)" and cand: "map candidateRow (candidateNodes now req s) \<noteq> []"
  obtains n where "eligible now req s n"
    and "candidateRow n = chosenRow req (map candidateRow (candidateNodes now req s))"
    and "reserveCapacity now req f s = transaction (\<lambda>_.
           andThen (f (reservationFor (candidateRow n) req))
             (\<lambda>x. ret (reservationFor (candidateRow n) req, x))
             (s\<lparr>nodes := updateWhere (\<lambda>m. n_id m = n_id n) (addReserved (requestAmount req)) (nodes s)\<rparr>)) s"
proof -
  let ?cs = "map candidateRow (candidateNodes now req s)"
  obtain n where n: "n \<in> set (candidateNodes now req s)" "candidateRow n = chosenRow req ?cs"
    using chosenRow_candidate [OF cand, of req] by force
  then have el: "eligible now req s n" by (simp add: set_candidateNodes)
  then have room: "n \<in> set (nodes s)" "hasRoom (requestAmount req) n"
    by (auto simp: eligible_def schedulable_def)
  show thesis
    by (rule that [OF el n(2)])
       (use cand room uniq in \<open>simp add: reserveCapacity_run Let_def n(2) [symmetric] transaction_def
          andThen_def [of "reserveUpdate _ _"] andThen_def [of "require _ _"] reserveUpdate_def
          require_def countWhere_unique updateWhere_unique\<close>)
qed

section \<open>Properties\<close>

text \<open>A reservation never oversells a node: in a fleet where the reservations of every node
  fit beside its overhead, they still fit after \<open>reserveCapacity\<close>, whatever its outcome,
  provided the callback that runs inside the transaction keeps them so.\<close>

theorem reserveCapacity_never_oversells:
  assumes "fleetSound s" and "amountOk (requestAmount req)"
    and "\<forall>rv. preserves fleetSound (onReserved rv)"
  shows "fleetSound (snd (reserveCapacity now req onReserved s))"
  using assms by (blast intro: preservesD preserves_reserveCapacity preserves_reserveUpdate)

text \<open>The reservation that commits is on a node that was online, enabled, fresh, not
  excluded, allowed to host the template and large enough, and it changes exactly that node's
  three counters, by exactly the amounts asked for.\<close>

theorem reserveCapacity_exact:
  assumes "uniqueOn n_id (nodes s)"
    and "reserveCapacity now req (\<lambda>rv. ret ()) s = (Inr (rv, u), t)"
  shows "\<exists>n. eligible now req s n \<and> rv = reservationFor (candidateRow n) req \<and>
    t = s\<lparr>nodes := updateWhere (\<lambda>m. n_id m = n_id n) (addReserved (requestAmount req)) (nodes s)\<rparr>"
proof -
  obtain n where n: "eligible now req s n" "rv = reservationFor (candidateRow n) req"
    "ret () (s\<lparr>nodes := updateWhere (\<lambda>m. n_id m = n_id n \<and> hasRoom (requestAmount req) m)
       (addReserved (requestAmount req)) (nodes s)\<rparr>) = ((Inr u, t) :: (exn + unit) \<times> db)"
    by (rule reserveCapacity_cases [OF assms(2)])
  have "n \<in> set (nodes s)" "hasRoom (requestAmount req) n"
    using n(1) by (auto simp: eligible_def schedulable_def)
  with n assms(1) show ?thesis by (auto simp: ret_def updateWhere_unique)
qed

text \<open>\<open>NoCapacityError\<close> is thrown exactly when no node is eligible: a purchase is never
  refused while some node could take it.\<close>

theorem reserveCapacity_complete:
  assumes "uniqueOn n_id (nodes s)"
  shows "fst (reserveCapacity now req (\<lambda>rv. ret ()) s) = Inl NoCapacityError \<longleftrightarrow>
    (\<nexists>n. eligible now req s n)"
proof (cases "candidateNodes now req s = []")
  case True
  then have "(\<nexists>n. eligible now req s n)"
    using set_candidateNodes [of now req s] by auto
  with True show ?thesis by (simp add: reserveCapacity_run transaction_def)
next
  case False
  then obtain n where "eligible now req s n"
    using set_candidateNodes [of now req s] by (cases "candidateNodes now req s") auto
  moreover have "fst (reserveCapacity now req (\<lambda>rv. ret ()) s) \<noteq> Inl NoCapacityError"
    using False
    by (auto intro: reserveCapacity_chosen [OF assms, of now req "\<lambda>rv. ret ()"]
        simp: transaction_def andThen_def ret_def)
  ultimately show ?thesis by blast
qed

text \<open>The placement policy: if some eligible node is in the preferred location the chosen
  node is in it, and no eligible node of the pool the choice was made from would have been less
  loaded or better balanced after placement.\<close>

theorem reserveCapacity_placement:
  assumes "reserveCapacity now req onReserved s = (Inr (rv, x), t)"
  shows "\<exists>n. eligible now req s n \<and> rv_nodeId rv = n_id n \<and>
    (case rq_preferredLocation req of None \<Rightarrow> True | Some l \<Rightarrow>
       l \<noteq> [] \<longrightarrow> (\<exists>m. eligible now req s m \<and> n_location m = l) \<longrightarrow> n_location n = l) \<and>
    (\<forall>m. eligible now req s m \<longrightarrow> n_location m = n_location n \<longrightarrow>
       \<not> numberLess (balanceScore (candidateRow m) req) (balanceScore (candidateRow n) req))"
proof -
  let ?cs = "map candidateRow (candidateNodes now req s)"
  obtain n where el: "eligible now req s n" and ch: "candidateRow n = chosenRow req ?cs"
    and rv: "rv = reservationFor (candidateRow n) req"
    by (rule reserveCapacity_cases [OF assms])
  have mem: "candidateRow m \<in> set ?cs" if "eligible now req s m" for m
    using that set_candidateNodes [of now req s] by auto
  have inpool: "candidateRow n \<in> set (placementPool req ?cs)"
    using ch chosenRow_in_pool [of ?cs req] mem [OF el] by fastforce
  have pref: "n_location n = l"
    if "rq_preferredLocation req = Some l" "l \<noteq> []" "eligible now req s m" "n_location m = l" for l m
    using inpool mem [OF that(3)] that(1,2,4)
    by (simp add: placementPool_preferred [of req l "candidateRow m"])
  have "candidateRow m \<in> set (placementPool req ?cs)"
    if "eligible now req s m" "n_location m = n_location n" for m
    using inpool mem [OF that(1)] that(2)
    by (auto simp: placementPool_def Let_def split: if_splits option.splits)
  then have best: "\<not> numberLess (balanceScore (candidateRow m) req) (balanceScore (candidateRow n) req)"
    if "eligible now req s m" "n_location m = n_location n" for m
    using that chosenRow_minimal ch by metis
  show ?thesis
  proof (intro exI [of _ n] conjI)
    show "rv_nodeId rv = n_id n" using rv by (simp add: reservationFor_def)
    show "case rq_preferredLocation req of None \<Rightarrow> True | Some l \<Rightarrow>
      l \<noteq> [] \<longrightarrow> (\<exists>m. eligible now req s m \<and> n_location m = l) \<longrightarrow> n_location n = l"
      using pref by (cases "rq_preferredLocation req") auto
    show "\<forall>m. eligible now req s m \<longrightarrow> n_location m = n_location n \<longrightarrow>
       \<not> numberLess (balanceScore (candidateRow m) req) (balanceScore (candidateRow n) req)"
      using best by blast
  qed (rule el)
qed

text \<open>A row of simultaneous purchases of one plan, one transaction after another.\<close>

fun purchases :: "time \<Rightarrow> PlacementRequest \<Rightarrow> nat \<Rightarrow> db \<Rightarrow> nat \<times> db" where
  "purchases now req 0 s = (0, s)"
| "purchases now req (Suc k) s =
     (case reserveCapacity now req (\<lambda>rv. ret ()) s of
        (Inl e, t) \<Rightarrow> purchases now req k t
      | (Inr x, t) \<Rightarrow> (case purchases now req k t of (g, u) \<Rightarrow> (Suc g, u)))"

definition slots :: "Amount \<Rightarrow> Node \<Rightarrow> nat" where
  "slots a n = min (nat (freeMemory n div am_memoryMb a))
     (min (nat (freeDisk n div am_diskMb a)) (nat \<lfloor>freeCpu n / am_cpuCores a\<rfloor>))"

definition amountPos :: "Amount \<Rightarrow> bool" where
  "amountPos a \<longleftrightarrow> 0 < am_memoryMb a \<and> 0 < am_diskMb a \<and> 0 < am_cpuCores a"

lemma hasRoom_slots:
  assumes "amountPos a" shows "hasRoom a n \<longleftrightarrow> 0 < slots a n"
  using assms
  by (auto simp: hasRoom_def slots_def amountPos_def pos_imp_zdiv_pos_iff le_divide_eq_1)

lemma free_addReserved [simp]:
  "freeMemory (addReserved a n) = freeMemory n - am_memoryMb a"
  "freeDisk (addReserved a n) = freeDisk n - am_diskMb a"
  "freeCpu (addReserved a n) = freeCpu n - am_cpuCores a"
  by (simp_all add: freeMemory_def freeDisk_def freeCpu_def addReserved_def)

lemma slots_addReserved:
  assumes "amountPos a"
  shows "slots a (addReserved a n) = slots a n - 1"
proof -
  have "(x - m) div m = x div m - 1" if "0 < m" for x m :: int
    using that div_mult_self1 [of m x "-1"] by simp
  moreover have "\<lfloor>(x - c) / c\<rfloor> = \<lfloor>x / c\<rfloor> - 1" if "0 < c" for x c :: rat
    using that by (simp add: diff_divide_distrib)
  moreover have "nat (i - 1) = nat i - 1" for i :: int by arith
  moreover have "min (i - 1) (min (j - 1) (k - 1)) = min i (min j k) - 1" for i j k :: nat
    by arith
  ultimately show ?thesis using assms by (simp add: slots_def amountPos_def del: One_nat_def)
qed

lemma amountPosOk: "amountPos a \<Longrightarrow> amountOk a"
  by (simp add: amountPos_def amountOk_def)

lemma purchases_single:
  assumes "nodes s = [n]" and "amountPos (requestAmount req)"
    and "hostsTemplate s (rq_templateId req) n"
    and "n_status n = N_ONLINE" "n_enabled n" "n_id n \<notin> set (rq_excludeNodeIds req)"
    and "n_lastHeartbeat n = Some h" "now - HEARTBEAT_STALE_MS < h"
  shows "purchases now req k s = (min k (slots (requestAmount req) n),
    s\<lparr>nodes := [(addReserved (requestAmount req) ^^ min k (slots (requestAmount req) n)) n]\<rparr>)"
  using assms
proof (induction k arbitrary: s n)
  case 0
  then show ?case by simp
next
  case (Suc k)
  let ?a = "requestAmount req"
  have uniq: "uniqueOn n_id (nodes s)" using Suc.prems(1) by (simp add: uniqueOn_def)
  show ?case
  proof (cases "hasRoom ?a n")
    case True
    then have "eligible now req s n"
      using Suc.prems by (simp add: eligible_def schedulable_def)
    then have cand: "map candidateRow (candidateNodes now req s) \<noteq> []"
      using set_candidateNodes [of now req s] by auto
    obtain m where m: "eligible now req s m"
      and run: "reserveCapacity now req (\<lambda>rv. ret ()) s = transaction (\<lambda>_.
           andThen (ret ()) (\<lambda>x. ret (reservationFor (candidateRow m) req, x))
             (s\<lparr>nodes := updateWhere (\<lambda>q. n_id q = n_id m) (addReserved ?a) (nodes s)\<rparr>)) s"
      by (rule reserveCapacity_chosen [OF uniq cand])
    from m have "m = n" using Suc.prems(1) by (simp add: eligible_def)
    with run obtain rv where rv: "reserveCapacity now req (\<lambda>rv. ret ()) s =
        (Inr (rv, ()), s\<lparr>nodes := [addReserved ?a n]\<rparr>)"
      using Suc.prems(1) by (simp add: transaction_def andThen_def ret_def)
    have "purchases now req k (s\<lparr>nodes := [addReserved ?a n]\<rparr>) =
      (min k (slots ?a n - 1),
       s\<lparr>nodes := [(addReserved ?a ^^ min k (slots ?a n - 1)) (addReserved ?a n)]\<rparr>)"
      using Suc.prems Suc.IH [of "s\<lparr>nodes := [addReserved ?a n]\<rparr>" "addReserved ?a n"]
      by (simp add: slots_addReserved hostsTemplate_def)
    moreover have "min (Suc k) (slots ?a n) = Suc (min k (slots ?a n - 1))"
      using True hasRoom_slots [OF Suc.prems(2), of n] by simp
    ultimately show ?thesis using rv by (simp add: funpow_swap1)
  next
    case False
    then have "\<nexists>n. eligible now req s n"
      using Suc.prems(1) by (auto simp: eligible_def schedulable_def)
    then have "candidateNodes now req s = []"
      using set_candidateNodes [of now req s] by auto
    then have "reserveCapacity now req (\<lambda>rv. ret ()) s = (Inl NoCapacityError, s)"
      by (simp add: reserveCapacity_run transaction_def)
    then show ?thesis
      using False hasRoom_slots [OF Suc.prems(2), of n] Suc by simp
  qed
qed

lemma addReserved_funpow:
  "n_reservedMemoryMb ((addReserved a ^^ k) n) = n_reservedMemoryMb n + int k * am_memoryMb a"
  "n_reservedDiskMb ((addReserved a ^^ k) n) = n_reservedDiskMb n + int k * am_diskMb a"
  "n_reservedCpuCores ((addReserved a ^^ k) n) = n_reservedCpuCores n + of_nat k * am_cpuCores a"
  by (induction k) (simp_all add: addReserved_def algebra_simps)

text \<open>Of any number of purchases made at the same time on a one-node fleet, exactly as many
  succeed as fit on the node's scarcest resource, and the counters grow by that many plans.\<close>

theorem purchases_exact:
  assumes "nodes s = [n]" and "amountPos (requestAmount req)"
    and "hostsTemplate s (rq_templateId req) n"
    and "n_status n = N_ONLINE" and "n_enabled n" and "n_id n \<notin> set (rq_excludeNodeIds req)"
    and "n_lastHeartbeat n = Some h" and "now - HEARTBEAT_STALE_MS < h"
  shows "fst (purchases now req k s) = min k (slots (requestAmount req) n) \<and>
    map n_reservedMemoryMb (nodes (snd (purchases now req k s))) =
      [n_reservedMemoryMb n + int (min k (slots (requestAmount req) n)) * rq_memoryMb req]"
  by (simp add: purchases_single [OF assms] addReserved_funpow)

lemma undo_reserved:
  assumes "uniqueOn n_id ns" and "n \<in> set ns" and "nodeSound n" and "amountOk a" and "hasRoom a n"
  shows "updateWhere (\<lambda>m. n_id m = n_id n) (subReserved a)
    (updateWhere (\<lambda>m. n_id m = n_id n) (addReserved a) ns) = ns"
proof -
  have "subReserved a (addReserved a m) = m" if "m \<in> set ns" "n_id m = n_id n" for m
    using that assms uniqueOn_eq [OF assms(1) that(1) assms(2)]
    by (auto intro: pool.release_reserve reserveNode_SomeI)
  then show ?thesis
    unfolding updateWhere_def by (simp add: comp_def) (rule map_idI, auto)
qed

text \<open>Releasing a reservation restores the database it was made in: none of the
  \<open>GREATEST(0, ...)\<close> guards cuts anything off.\<close>

theorem release_undoes_reserve:
  assumes "uniqueOn n_id (nodes s)" and "fleetSound s" and "amountOk (requestAmount req)"
    and "reserveCapacity now req (\<lambda>rv. ret ()) s = (Inr (rv, u), t)"
  shows "releaseCapacity (rv_nodeId rv) (requestAmount req) t = (Inr (), s)"
proof -
  let ?a = "requestAmount req"
  obtain n where n: "eligible now req s n" "rv = reservationFor (candidateRow n) req"
    "t = s\<lparr>nodes := updateWhere (\<lambda>m. n_id m = n_id n) (addReserved ?a) (nodes s)\<rparr>"
    using reserveCapacity_exact [OF assms(1,4)] by blast
  have "n \<in> set (nodes s)" "nodeSound n" "hasRoom ?a n"
    using n(1) assms(2) eligible_hasRoom [OF n(1)] by (auto simp: eligible_def fleetSound_def)
  then have "updateWhere (\<lambda>m. n_id m = n_id n) (subReserved ?a)
      (updateWhere (\<lambda>m. n_id m = n_id n) (addReserved ?a) (nodes s)) = nodes s"
    by (rule undo_reserved [OF assms(1) _ _ assms(3)])
  then show ?thesis
    using n by (simp add: releaseCapacity_def writeState_def reservationFor_def)
qed

lemma claimAllocation_cases:
  assumes "claimAllocation locked nodeId serverId s = (Inr a, t)"
  shows "a \<in> set (freeAllocations locked nodeId s) \<and>
    (\<forall>b \<in> set (freeAllocations locked nodeId s). a_port a \<le> a_port b) \<and>
    t = s\<lparr>allocations := updateWhere (\<lambda>b. a_id b = a_id a)
           (\<lambda>b. b\<lparr>a_serverId := Some serverId, a_primary := True\<rparr>) (allocations s)\<rparr>"
proof (cases "freeAllocations locked nodeId s")
  case Nil
  with assms show ?thesis by (simp add: claimAllocation_def act_defs)
next
  case (Cons b bs)
  have "sorted (map a_port (freeAllocations locked nodeId s))"
    by (simp add: freeAllocations_def)
  with Cons assms show ?thesis
    by (auto simp: claimAllocation_def andThen_def readState_def writeState_def ret_def)
qed

text \<open>A claimed port is the lowest free port of the node the server was placed on, it was
  bound to no server, and binding it changes no other allocation.\<close>

theorem claimAllocation_exclusive:
  assumes "uniqueOn a_id (allocations s)"
    and "claimAllocation locked nodeId serverId s = (Inr a, t)"
  shows "a \<in> set (allocations s) \<and> a_nodeId a = nodeId \<and> a_serverId a = None \<and> a_id a \<notin> set locked \<and>
    (\<forall>b \<in> set (allocations s). a_nodeId b = nodeId \<longrightarrow> a_serverId b = None \<longrightarrow> a_id b \<notin> set locked \<longrightarrow>
       a_port a \<le> a_port b) \<and>
    (\<forall>b \<in> set (allocations t). a_serverId b = Some serverId \<longrightarrow>
       a_id b = a_id a \<or> b \<in> set (allocations s)) \<and>
    {b \<in> set (allocations t). a_id b \<noteq> a_id a} = {b \<in> set (allocations s). a_id b \<noteq> a_id a}"
  using claimAllocation_cases [OF assms(2)]
  by (auto simp: freeAllocations_def set_updateWhere)

end
