(* ===== verification/Samples.thy ===== *)
theory Samples
  imports Scheduler
begin

text \<open>
  A small fleet the witnesses evaluate the model on: one node of 16 GB with no overhead, one
  template, one plan of 2 GB, one order, a customer and a range of two ports.
\<close>

definition sampleNode :: Node where
  "sampleNode = \<lparr>n_id = ''n1'', n_name = ''alpha'', n_hostname = ''alpha.lan'', n_location = ''test'', n_type = VPS, n_status = N_ONLINE,
     n_enabled = True, n_totalMemoryMb = 16384, n_totalDiskMb = 500000, n_totalCpuCores = 32,
     n_reservedMemoryMb = 0, n_reservedDiskMb = 0, n_reservedCpuCores = 0,
     n_overheadMemoryMb = 0, n_overheadDiskMb = 0, n_agentTokenHash = ''h'',
     n_agentVersion = None, n_lastHeartbeat = Some 100000,
     n_daemonPortRangeStart = 25565, n_daemonPortRangeEnd = 25700\<rparr>"

definition sampleTemplate :: GameTemplate where
  "sampleTemplate = \<lparr>t_id = ''t1'', t_key = ''minecraft-java'', t_name = ''Minecraft: Java'', t_dockerImage = ''img'',
     t_startCommand = ''/start'', t_stopCommand = ''stop'', t_variables = []\<rparr>"

definition samplePlan :: Plan where
  "samplePlan = \<lparr>p_id = ''p1'', p_name = ''Sapling'', p_memoryMb = 2048, p_diskMb = 1024,
     p_cpuCores = 1, p_backupMb = 0, p_databaseLimit = 1, p_allocationLimit = 1, p_monthlyPriceCents = 500,
     p_currency = ''USD'', p_templateId = Some ''t1'', p_visible = True\<rparr>"

definition sampleOrder :: Order where
  "sampleOrder = \<lparr>o_id = ''o1'', o_userId = ''u1'', o_planId = ''p1'', o_status = O_PAID,
     o_serverId = None, o_failureReason = None\<rparr>"

definition sampleAllocation :: "string \<Rightarrow> int \<Rightarrow> Allocation" where
  "sampleAllocation i p = \<lparr>a_id = i, a_nodeId = ''n1'', a_ip = ''0.0.0.0'', a_port = p,
     a_serverId = None, a_primary = False\<rparr>"

definition sampleDb :: db where
  "sampleDb = emptyDb\<lparr>
     users := [\<lparr>u_id = ''u1'', u_email = ''a@b.c'', u_passwordHash = ''x'', u_displayName = ''Ann'',
       u_role = CUSTOMER\<rparr>],
     nodes := [sampleNode],
     nodeTemplates := [\<lparr>nt_nodeId = ''n1'', nt_templateId = ''t1''\<rparr>],
     templates := [sampleTemplate], plans := [samplePlan], orders := [sampleOrder],
     allocations := [sampleAllocation ''a2'' 25566, sampleAllocation ''a1'' 25565]\<rparr>"

definition sampleRequest :: PlacementRequest where
  "sampleRequest = \<lparr>rq_memoryMb = 2048, rq_diskMb = 1024, rq_cpuCores = 1, rq_templateId = ''t1'',
     rq_preferredLocation = None, rq_excludeNodeIds = []\<rparr>"

lemmas sample_defs = sampleNode_def sampleTemplate_def samplePlan_def sampleOrder_def
  sampleAllocation_def sampleDb_def sampleRequest_def emptyDb_def

lemmas schedule_defs = reserveCapacity_def candidateNodes_def schedulable_def hasRoom_def
  freeMemory_def freeDisk_def freeCpu_def requestAmount_def HEARTBEAT_STALE_MS_def
  candidateRow_def placementPool_def reserveUpdate_def addReserved_def reservationFor_def
  countWhere_def act_defs Let_def

definition sampleReserved :: db where
  "sampleReserved = sampleDb\<lparr>nodes := [addReserved (requestAmount sampleRequest) sampleNode]\<rparr>"

lemma sample_reserve:
  "reserveCapacity 120000 sampleRequest (\<lambda>rv. ret ()) sampleDb =
     (Inr (reservationFor (candidateRow sampleNode) sampleRequest, ()), sampleReserved)"
  by (simp add: schedule_defs sample_defs sampleReserved_def)

lemma sample_fleetSound: "fleetSound sampleDb"
  by (simp add: fleetSound_def sample_defs counter_defs)

lemma sample_unique: "uniqueOn n_id (nodes sampleDb)" "uniqueOn a_id (allocations sampleDb)"
  by (simp_all add: uniqueOn_def sample_defs)

lemma sample_amount: "amountOk (requestAmount sampleRequest)"
  by (simp add: sample_defs counter_defs requestAmount_def)

section \<open>Witnesses for the scheduler\<close>

theorem reserveCapacity_never_oversells_witness:
  "fleetSound (snd (reserveCapacity 120000 sampleRequest (\<lambda>rv. ret ()) sampleDb))"
  by (rule reserveCapacity_never_oversells [OF sample_fleetSound sample_amount])
     (simp add: preserves_ret)

theorem reserveCapacity_exact_witness:
  "\<exists>n. eligible 120000 sampleRequest sampleDb n \<and>
    reservationFor (candidateRow sampleNode) sampleRequest = reservationFor (candidateRow n) sampleRequest \<and>
    sampleReserved = sampleDb\<lparr>nodes := updateWhere (\<lambda>m. n_id m = n_id n)
      (addReserved (requestAmount sampleRequest)) (nodes sampleDb)\<rparr>"
  by (rule reserveCapacity_exact [OF sample_unique(1) sample_reserve])

theorem reserveCapacity_complete_witness:
  "fst (reserveCapacity 200000 sampleRequest (\<lambda>rv. ret ()) sampleDb) = Inl NoCapacityError \<longleftrightarrow>
    (\<nexists>n. eligible 200000 sampleRequest sampleDb n)"
  by (rule reserveCapacity_complete [OF sample_unique(1)])

theorem reserveCapacity_placement_witness:
  "\<exists>n. eligible 120000 sampleRequest sampleDb n \<and>
    rv_nodeId (reservationFor (candidateRow sampleNode) sampleRequest) = n_id n"
  using reserveCapacity_placement [OF sample_reserve] by blast

theorem purchases_exact_witness:
  "fst (purchases 120000 sampleRequest 10 sampleDb) = 8 \<and>
   map n_reservedMemoryMb (nodes (snd (purchases 120000 sampleRequest 10 sampleDb))) = [16384]"
  using purchases_exact [of sampleDb sampleNode sampleRequest 100000 120000 10]
  by (simp add: sample_defs amountPos_def requestAmount_def hostsTemplate_def HEARTBEAT_STALE_MS_def
      slots_def freeMemory_def freeDisk_def freeCpu_def)

theorem release_undoes_reserve_witness:
  "releaseCapacity (rv_nodeId (reservationFor (candidateRow sampleNode) sampleRequest))
     (requestAmount sampleRequest) sampleReserved = (Inr (), sampleDb)"
  by (rule release_undoes_reserve [OF sample_unique(1) sample_fleetSound sample_amount sample_reserve])

lemma sample_claim:
  "claimAllocation [] ''n1'' ''srv'' sampleDb =
    (Inr (sampleAllocation ''a1'' 25565), sampleDb\<lparr>allocations :=
      [sampleAllocation ''a2'' 25566, (sampleAllocation ''a1'' 25565)\<lparr>a_serverId := Some ''srv'', a_primary := True\<rparr>]\<rparr>)"
  by (simp add: claimAllocation_def freeAllocations_def act_defs sample_defs)

theorem claimAllocation_exclusive_witness:
  "a_serverId (sampleAllocation ''a1'' 25565) = None"
  using claimAllocation_exclusive [OF sample_unique(2) sample_claim] by blast

end
