(* ===== verification/Calendar.thy ===== *)
theory Calendar
  imports Prelude
begin

text \<open>
  The part of ECMAScript's \<open>Date\<close> that billing uses: the proleptic Gregorian calendar in
  UTC, with \<open>getUTCFullYear\<close>, \<open>setUTCMonth\<close> and \<open>setUTCDate\<close> as the language
  defines them (a month or day past the end carries over). It is the standard library's code,
  so nothing here is mapped; the theories that use it are.
\<close>

definition msPerDay :: int where
  "msPerDay = 86400000"

definition dayFromYear :: "int \<Rightarrow> int" where
  "dayFromYear y = 365 * (y - 1970) + (y - 1969) div 4 - (y - 1901) div 100 + (y - 1601) div 400"

definition isLeapYear :: "int \<Rightarrow> bool" where
  "isLeapYear y \<longleftrightarrow> y mod 4 = 0 \<and> (y mod 100 \<noteq> 0 \<or> y mod 400 = 0)"

definition daysInYear :: "int \<Rightarrow> int" where
  "daysInYear y = (if isLeapYear y then 366 else 365)"

lemma div_succ:
  fixes x k :: int
  assumes "0 < k"
  shows "(x + 1) div k = x div k + (if (x + 1) mod k = 0 then 1 else 0)"
proof -
  have x: "x + 1 = k * (x div k) + (x mod k + 1)" by simp
  have r: "0 \<le> x mod k" "x mod k < k" using assms by auto
  show ?thesis
  proof (cases "x mod k + 1 = k")
    case True
    then have "x + 1 = k * (x div k + 1)" using x by (simp only: distrib_left mult_1_right)
    then show ?thesis using assms by simp
  next
    case False
    then have "(x + 1) div k = x div k" "(x + 1) mod k = x mod k + 1"
      using r int_div_pos_eq [OF x] int_mod_pos_eq [OF x] by auto
    then show ?thesis using r by simp
  qed
qed

lemma div_bounds:
  fixes k x :: int
  assumes "0 < k"
  shows "k * (x div k) \<le> x" and "x < k * (x div k) + k"
proof -
  have "x = k * (x div k) + x mod k" by simp
  moreover have "0 \<le> x mod k" "x mod k < k" using assms by auto
  ultimately show "k * (x div k) \<le> x" and "x < k * (x div k) + k"
    by linarith+
qed

lemma dayFromYear_succ: "dayFromYear (y + 1) = dayFromYear y + daysInYear y"
proof -
  have "(y - 1968) mod 4 = 0 \<longleftrightarrow> y mod 4 = 0"
    using mod_mult_self1 [of y "-492" 4] by simp
  then have d4: "(y - 1968) div 4 = (y - 1969) div 4 + (if y mod 4 = 0 then 1 else 0)"
    using div_succ [of 4 "y - 1969"] by simp
  have "(y - 1900) mod 100 = 0 \<longleftrightarrow> y mod 100 = 0"
    using mod_mult_self1 [of y "-19" 100] by simp
  then have d100: "(y - 1900) div 100 = (y - 1901) div 100 + (if y mod 100 = 0 then 1 else 0)"
    using div_succ [of 100 "y - 1901"] by simp
  have "(y - 1600) mod 400 = 0 \<longleftrightarrow> y mod 400 = 0"
    using mod_mult_self1 [of y "-4" 400] by simp
  then have d400: "(y - 1600) div 400 = (y - 1601) div 400 + (if y mod 400 = 0 then 1 else 0)"
    using div_succ [of 400 "y - 1601"] by simp
  have sub: "y mod 400 = 0 \<Longrightarrow> y mod 100 = 0" "y mod 100 = 0 \<Longrightarrow> y mod 4 = 0"
    using dvd_trans [of 100 400 y] dvd_trans [of 4 100 y] by (auto simp: mod_eq_0_iff_dvd)
  define u v w where "u = (y - 1969) div 4" and "v = (y - 1901) div 100" and "w = (y - 1601) div 400"
  have cur: "dayFromYear y = 365 * y - 719050 + u - v + w"
    by (simp add: dayFromYear_def u_def v_def w_def)
  have "dayFromYear (y + 1) = 365 * y - 718685 + (u + (if y mod 4 = 0 then 1 else 0))
      - (v + (if y mod 100 = 0 then 1 else 0)) + (w + (if y mod 400 = 0 then 1 else 0))"
    unfolding u_def v_def w_def d4 [symmetric] d100 [symmetric] d400 [symmetric]
    by (simp add: dayFromYear_def)
  moreover define A B C where "A \<longleftrightarrow> y mod 4 = 0" and "B \<longleftrightarrow> y mod 100 = 0" and "C \<longleftrightarrow> y mod 400 = 0"
  have "C \<Longrightarrow> B" "B \<Longrightarrow> A" using sub by (simp_all only: A_def B_def C_def)
  ultimately show ?thesis
    unfolding daysInYear_def isLeapYear_def cur
      A_def [symmetric] B_def [symmetric] C_def [symmetric]
    by (cases A; cases B; cases C) simp_all
qed

lemma daysInYear_bounds: "365 \<le> daysInYear y" "daysInYear y \<le> 366"
  by (simp_all add: daysInYear_def)

text \<open>\<open>YearFromTime\<close>: the last year that has begun, found upwards from a year that has.\<close>

function yearSearch :: "int \<Rightarrow> int \<Rightarrow> int" where
  "yearSearch y d = (if dayFromYear (y + 1) \<le> d then yearSearch (y + 1) d else y)"
  by pat_completeness auto
termination
proof (relation "measure (\<lambda>(y, d). nat (d - dayFromYear y))")
  show "((y + 1, d), y, d) \<in> measure (\<lambda>(y, d). nat (d - dayFromYear y))"
    if "dayFromYear (y + 1) \<le> d" for y d
    using that daysInYear_bounds [of y] by (simp add: dayFromYear_succ)
qed simp

declare yearSearch.simps [simp del]

definition yearFromDay :: "int \<Rightarrow> int" where
  "yearFromDay d = yearSearch (1969 + d div (if 0 \<le> d then 366 else 365)) d"

lemma yearSearch_spec:
  "dayFromYear y \<le> d \<Longrightarrow> dayFromYear (yearSearch y d) \<le> d \<and> d < dayFromYear (yearSearch y d + 1)"
proof (induction y d rule: yearSearch.induct)
  case (1 y d)
  then show ?case by (cases "dayFromYear (y + 1) \<le> d") (simp_all add: yearSearch.simps [of y d])
qed

lemma yearFromDay_start: "dayFromYear (1969 + d div (if 0 \<le> d then 366 else 365)) \<le> d"
proof (cases "0 \<le> d")
  case True
  define q where "q = d div 366"
  have "0 \<le> q" "366 * q \<le> d" using True by (auto simp: q_def)
  moreover define u v w where "u = q div 4" and "v = (q + 68) div 100" and "w = (q + 368) div 400"
  have "dayFromYear (1969 + q) = 365 * q - 365 + u - v + w"
    by (simp add: dayFromYear_def add.commute u_def v_def w_def)
  moreover have "4 * u \<le> q" "0 \<le> v" "400 * w \<le> q + 368"
    using \<open>0 \<le> q\<close> div_bounds(1) [of 4 q] div_bounds(1) [of 400 "q + 368"]
    by (simp_all add: u_def v_def w_def)
  ultimately have "dayFromYear (1969 + q) \<le> d" by linarith
  then show ?thesis using True by (simp add: q_def)
next
  case False
  define q where "q = d div 365"
  have "365 * q \<le> d" "q < 0" using False by (auto simp: q_def neg_imp_zdiv_neg_iff)
  moreover define u v w where "u = q div 4" and "v = (q + 68) div 100" and "w = (q + 368) div 400"
  have "dayFromYear (1969 + q) = 365 * q - 365 + u - v + w"
    by (simp add: dayFromYear_def add.commute u_def v_def w_def)
  moreover have "4 * u \<le> q" "q + 68 < 100 * v + 100" "400 * w \<le> q + 368"
    using div_bounds(1) [of 4 q] div_bounds(2) [of 100 "q + 68"] div_bounds(1) [of 400 "q + 368"]
    by (simp_all only: u_def v_def w_def)
  ultimately have "dayFromYear (1969 + q) \<le> d" by linarith
  then show ?thesis using False by (simp add: q_def)
qed

lemma yearFromDay_spec: "dayFromYear (yearFromDay d) \<le> d" "d < dayFromYear (yearFromDay d + 1)"
  using yearSearch_spec [OF yearFromDay_start [of d]] by (auto simp: yearFromDay_def)

text \<open>Months are numbered from 0, as in JavaScript.\<close>

definition monthLengths :: "int \<Rightarrow> int list" where
  "monthLengths y = [31, if isLeapYear y then 29 else 28, 31, 30, 31, 30, 31, 31, 30, 31, 30, 31]"

definition daysBeforeMonth :: "int \<Rightarrow> nat \<Rightarrow> int" where
  "daysBeforeMonth y m = sum_list (take m (monthLengths y))"

fun monthSearch :: "int list \<Rightarrow> nat \<Rightarrow> int \<Rightarrow> nat \<times> int" where
  "monthSearch [] m d = (m, d)"
| "monthSearch (l # ls) m d = (if d < l then (m, d) else monthSearch ls (Suc m) (d - l))"

definition monthAndDate :: "int \<Rightarrow> nat \<times> int" where
  "monthAndDate d = (let y = yearFromDay d in monthSearch (monthLengths y) 0 (d - dayFromYear y))"

text \<open>\<open>MakeDay(year, month, date)\<close>, the date counted from 1.\<close>

definition makeDay :: "int \<Rightarrow> int \<Rightarrow> int \<Rightarrow> int" where
  "makeDay y m date =
     (let ym = y + m div 12; mn = nat (m mod 12)
      in dayFromYear ym + daysBeforeMonth ym mn + date - 1)"

definition dayOf :: "time \<Rightarrow> int" where
  "dayOf t = t div msPerDay"

definition timeInDay :: "time \<Rightarrow> int" where
  "timeInDay t = t mod msPerDay"

definition getUTCFullYear :: "time \<Rightarrow> int" where
  "getUTCFullYear t = yearFromDay (dayOf t)"

definition getUTCMonth :: "time \<Rightarrow> int" where
  "getUTCMonth t = int (fst (monthAndDate (dayOf t)))"

definition getUTCDate :: "time \<Rightarrow> int" where
  "getUTCDate t = snd (monthAndDate (dayOf t)) + 1"

definition setUTCMonth :: "time \<Rightarrow> int \<Rightarrow> time" where
  "setUTCMonth t m =
     makeDay (getUTCFullYear t) m (getUTCDate t) * msPerDay + timeInDay t"

definition setUTCDate :: "time \<Rightarrow> int \<Rightarrow> time" where
  "setUTCDate t d =
     makeDay (getUTCFullYear t) (getUTCMonth t) d * msPerDay + timeInDay t"

definition monthLength :: "time \<Rightarrow> int" where
  "monthLength t = monthLengths (getUTCFullYear t) ! nat (getUTCMonth t)"

section \<open>Moving by a month and by days\<close>

lemma sum_monthLengths: "sum_list (monthLengths y) = daysInYear y"
  by (simp add: monthLengths_def daysInYear_def)

lemma length_monthLengths [simp]: "length (monthLengths y) = 12"
  by (simp add: monthLengths_def)

lemma monthSearch_spec:
  "0 \<le> d \<Longrightarrow> d < sum_list ls \<Longrightarrow> monthSearch ls k d = (m, r) \<Longrightarrow>
   k \<le> m \<and> m - k < length ls \<and> 0 \<le> r \<and> r < ls ! (m - k) \<and> d = sum_list (take (m - k) ls) + r"
proof (induction ls k d rule: monthSearch.induct)
  case (1 m d)
  then show ?case by simp
next
  case (2 l ls k d)
  then show ?case
    by (cases "d < l") (auto simp: nth_Cons' take_Cons' Suc_diff_le split: if_splits)
qed

lemma monthAndDate_spec:
  assumes "monthAndDate d = (m, r)"
  shows "m < 12 \<and> 0 \<le> r \<and> r < monthLengths (yearFromDay d) ! m \<and>
    d = dayFromYear (yearFromDay d) + daysBeforeMonth (yearFromDay d) m + r"
proof -
  let ?y = "yearFromDay d"
  have "0 \<le> d - dayFromYear ?y" using yearFromDay_spec(1) [of d] by simp
  moreover have "d - dayFromYear ?y < sum_list (monthLengths ?y)"
    using yearFromDay_spec(2) [of d] by (simp add: sum_monthLengths dayFromYear_succ)
  ultimately show ?thesis
    using assms monthSearch_spec [of "d - dayFromYear ?y" "monthLengths ?y" 0 m r]
    by (simp add: monthAndDate_def daysBeforeMonth_def Let_def)
qed

lemma daysBeforeMonth_Suc: "m < 12 \<Longrightarrow> daysBeforeMonth y (Suc m) = daysBeforeMonth y m + monthLengths y ! m"
  by (simp add: daysBeforeMonth_def take_Suc_conv_app_nth)

lemma makeDay_next_month:
  assumes "m < 12" and "d = dayFromYear y + daysBeforeMonth y m + r"
  shows "makeDay y (int m + 1) (r + 1) = d + monthLengths y ! m"
proof (cases "m = 11")
  case True
  have "daysInYear y = daysBeforeMonth y 12" by (simp add: daysBeforeMonth_def sum_monthLengths)
  also have "\<dots> = daysBeforeMonth y 11 + monthLengths y ! 11"
    using daysBeforeMonth_Suc [of 11 y] by simp
  finally show ?thesis
    using True assms by (simp add: makeDay_def Let_def dayFromYear_succ) (simp add: daysBeforeMonth_def)
next
  case False
  then have "m < 11" using assms by simp
  then have "(int m + 1) div 12 = 0" "(int m + 1) mod 12 = int m + 1" by auto
  moreover have "nat (int m + 1) = Suc m" by simp
  ultimately show ?thesis
    using assms daysBeforeMonth_Suc [of m y] by (simp add: makeDay_def Let_def)
qed

lemma time_split: "dayOf t * msPerDay + timeInDay t = t"
  by (simp add: dayOf_def timeInDay_def)

lemma addMonth: "setUTCMonth t (getUTCMonth t + 1) = t + monthLength t * msPerDay"
proof -
  obtain m r where md: "monthAndDate (dayOf t) = (m, r)" by fastforce
  have "makeDay (getUTCFullYear t) (getUTCMonth t + 1) (getUTCDate t) = dayOf t + monthLength t"
    using monthAndDate_spec [OF md] md
    by (simp add: getUTCFullYear_def getUTCMonth_def getUTCDate_def monthLength_def makeDay_next_month)
  then show ?thesis using time_split [of t] by (simp add: setUTCMonth_def distrib_right)
qed

lemma addDays: "setUTCDate t (getUTCDate t + g) = t + g * msPerDay"
proof -
  obtain m r where md: "monthAndDate (dayOf t) = (m, r)" by fastforce
  have "makeDay (getUTCFullYear t) (getUTCMonth t) (getUTCDate t + g) = dayOf t + g"
    using monthAndDate_spec [OF md] md
    by (simp add: getUTCFullYear_def getUTCMonth_def getUTCDate_def makeDay_def Let_def)
  then show ?thesis using time_split [of t] by (simp add: setUTCDate_def distrib_right)
qed

lemma monthLength_bounds: "28 \<le> monthLength t \<and> monthLength t \<le> 31"
proof -
  obtain m r where md: "monthAndDate (dayOf t) = (m, r)" by fastforce
  then have "monthLength t \<in> set (monthLengths (getUTCFullYear t))"
    using monthAndDate_spec [OF md] by (simp add: monthLength_def getUTCMonth_def)
  then show ?thesis by (auto simp: monthLengths_def split: if_splits)
qed

end
