(* ===== verification/Invoices.thy ===== *)
theory Invoices
  imports Schema Calendar
begin

text \<open>
  The invoice half of \<open>panel/src/lib/billing.ts\<close> (numbers, periods, payment, suspension,
  reactivation) and the payment webhook \<open>api/billing/webhook/route.ts\<close>. The periodic cycle
  over these operations is in the theory \<open>Billing\<close>. \<open>GRACE_DAYS\<close> and the clock are
  arguments; fresh ids come from the caller.
\<close>

section \<open>Numbers\<close>

definition padStart :: "nat \<Rightarrow> char \<Rightarrow> string \<Rightarrow> string" where
  "padStart k c s = replicate (k - length s) c @ s"

definition invoiceNumber :: "time \<Rightarrow> nat \<Rightarrow> string" where
  "invoiceNumber now seq =
     ''DSH-'' @ showInt (getUTCFullYear now) @ ''-'' @ padStart 6 (CHR ''0'') (showNat seq)"

definition numberTaken :: "string \<Rightarrow> db \<Rightarrow> bool" where
  "numberTaken k s \<longleftrightarrow> k \<in> i_number ` set (invoices s)"

fun numberAttempts :: "time \<Rightarrow> nat list \<Rightarrow> db \<Rightarrow> string option" where
  "numberAttempts now [] s = None"
| "numberAttempts now (attempt # rest) s =
     (let candidate = invoiceNumber now (length (invoices s) + 1 + attempt)
      in if numberTaken candidate s then numberAttempts now rest s else Some candidate)"

definition nextInvoiceNumber :: "time \<Rightarrow> db \<Rightarrow> string" where
  "nextInvoiceNumber now s =
     (case numberAttempts now [0..<5] s of
        Some candidate \<Rightarrow> candidate
      | None \<Rightarrow> ''DSH-'' @ showInt (getUTCFullYear now) @ ''-'' @
                (let d = showInt now in drop (length d - 6) d))"

section \<open>Creating an invoice\<close>

definition periodEndOf :: "time \<Rightarrow> time" where
  "periodEndOf start = setUTCMonth start (getUTCMonth start + 1)"

definition dueAtOf :: "int \<Rightarrow> time \<Rightarrow> time" where
  "dueAtOf graceDays start = setUTCDate start (getUTCDate start + graceDays)"

text \<open>\<open>prisma.invoice.create\<close>: the number is unique.\<close>

definition insertInvoice :: "Invoice \<Rightarrow> Invoice act" where
  "insertInvoice iv =
     andThen (readState (numberTaken (i_number iv))) (\<lambda>taken.
     andThen (require (\<not> taken) (UniqueError ''Invoice.number'')) (\<lambda>_.
     andThen (writeState (\<lambda>s. s\<lparr>invoices := invoices s @ [iv]\<rparr>)) (\<lambda>_.
     ret iv)))"

definition createInvoiceForServer :: "ident \<Rightarrow> time \<Rightarrow> int \<Rightarrow> ident \<Rightarrow> time \<Rightarrow> Invoice act" where
  "createInvoiceForServer freshId now graceDays serverId periodStart =
     andThen (orThrow (NotFoundError ''Server'') (findServer serverId)) (\<lambda>server.
     andThen (orThrow (NotFoundError ''Plan'') (findPlan (s_planId server))) (\<lambda>plan.
     andThen (readState (nextInvoiceNumber now)) (\<lambda>number.
     insertInvoice \<lparr>i_id = freshId, i_number = number, i_userId = s_ownerId server,
       i_serverId = Some (s_id server), i_status = I_OPEN,
       i_amountCents = p_monthlyPriceCents plan, i_currency = p_currency plan,
       i_periodStart = periodStart, i_periodEnd = periodEndOf periodStart,
       i_dueAt = dueAtOf graceDays periodStart, i_paidAt = None, i_paymentRef = None\<rparr>)))"

section \<open>Payment, suspension, reactivation\<close>

definition findInvoice :: "ident \<Rightarrow> db \<Rightarrow> Invoice option" where
  "findInvoice i s = List.find (\<lambda>v. i_id v = i) (invoices s)"

definition findByRef :: "string \<Rightarrow> db \<Rightarrow> Invoice option" where
  "findByRef ref s = List.find (\<lambda>v. i_paymentRef v = Some ref) (invoices s)"

definition reactivateServer :: "ident \<Rightarrow> unit act" where
  "reactivateServer serverId =
     andThen (updateServer serverId (\<lambda>v. v\<lparr>s_suspended := False, s_status := OFFLINE\<rparr>)) (\<lambda>_.
     audit None ''server.reactivate'' ''server'' serverId)"

definition markPaid :: "time \<Rightarrow> string \<Rightarrow> Invoice \<Rightarrow> Invoice" where
  "markPaid now ref v = v\<lparr>i_status := I_PAID, i_paidAt := Some now, i_paymentRef := Some ref\<rparr>"

definition reactivateIfSuspended :: "Invoice \<Rightarrow> unit act" where
  "reactivateIfSuspended invoice =
     (case i_serverId invoice of
        None \<Rightarrow> ret ()
      | Some serverId \<Rightarrow>
          andThen (readState (findServer serverId)) (\<lambda>server.
          case server of
            None \<Rightarrow> ret ()
          | Some v \<Rightarrow> if s_suspended v then reactivateServer (s_id v) else ret ()))"

definition markInvoicePaid :: "time \<Rightarrow> ident \<Rightarrow> string \<Rightarrow> Invoice act" where
  "markInvoicePaid now invoiceId paymentRef =
     andThen (readState (findByRef paymentRef)) (\<lambda>existing.
     case existing of
       Some v \<Rightarrow> ret v
     | None \<Rightarrow>
         andThen (orThrow (NotFoundError ''Invoice'') (findInvoice invoiceId)) (\<lambda>old.
         andThen (writeState (\<lambda>s. s\<lparr>invoices :=
           updateWhere (\<lambda>v. i_id v = invoiceId) (markPaid now paymentRef) (invoices s)\<rparr>)) (\<lambda>_.
         let invoice = markPaid now paymentRef old in
         andThen (reactivateIfSuspended invoice) (\<lambda>_.
         andThen (audit None ''invoice.paid'' ''invoice'' (i_id invoice)) (\<lambda>_.
         ret invoice)))))"

definition isAgentError :: "exn \<Rightarrow> bool" where
  "isAgentError e = (case e of AgentError _ _ \<Rightarrow> True | _ \<Rightarrow> False)"

definition suspendServer :: "agent \<Rightarrow> ident \<Rightarrow> unit act" where
  "suspendServer agent serverId =
     andThen (orThrow (NotFoundError ''Server'') (findServer serverId)) (\<lambda>server.
     andThen (orThrow (NotFoundError ''GameTemplate'') (findTemplate (s_templateId server))) (\<lambda>template.
     if s_suspended server then ret ()
     else
       andThen (tryCatch
         (andThen (callAgent agent (s_nodeId server)
            (Server_stop serverId (Some (t_stopCommand template)) (Some 30))) (\<lambda>_. ret ()))
         (\<lambda>e. if isAgentError e then ret () else throw e)) (\<lambda>_.
       andThen (updateServer serverId (\<lambda>v. v\<lparr>s_suspended := True, s_status := SUSPENDED\<rparr>)) (\<lambda>_.
       audit None ''server.suspend'' ''server'' serverId))))"

section \<open>The webhook\<close>

record PaymentEvent =
  pe_invoiceId :: ident
  pe_paymentRef :: string
  pe_amountCents :: int

text \<open>
  \<open>hmac\<close> is \<open>createHmac("sha256", secret).update(raw).digest("hex")\<close>; \<open>parse\<close> is
  \<open>JSON.parse\<close> followed by the schema: \<open>None\<close> when \<open>JSON.parse\<close> throws,
  \<open>Some None\<close> when the schema rejects the event. The signature check compares lengths and
  then bytes, which together is equality.
\<close>

datatype response = Response nat string

definition webhook ::
    "(string \<Rightarrow> string \<Rightarrow> string) \<Rightarrow> (string \<Rightarrow> PaymentEvent option option) \<Rightarrow> string option \<Rightarrow> time \<Rightarrow>
     string \<Rightarrow> string \<Rightarrow> response act" where
  "webhook hmac parse secret now provided raw =
     (case secret of
        None \<Rightarrow> ret (Response 503 ''Webhooks are not configured.'')
      | Some key \<Rightarrow>
          if key = [] then ret (Response 503 ''Webhooks are not configured.'')
          else
            let expected = hmac key raw in
            if length provided \<noteq> length expected \<or> provided \<noteq> expected
            then ret (Response 401 ''Invalid signature.'')
            else (case parse raw of
               None \<Rightarrow> throw (Error ''SyntaxError'')
             | Some None \<Rightarrow> ret (Response 400 ''Unrecognised event.'')
             | Some (Some body) \<Rightarrow>
                 tryCatch
                   (andThen (markInvoicePaid now (pe_invoiceId body) (pe_paymentRef body)) (\<lambda>invoice.
                    andThen (if pe_amountCents body < i_amountCents invoice
                             then audit None ''invoice.underpaid'' ''invoice'' (i_id invoice)
                             else ret ()) (\<lambda>_.
                    ret (Response 200 ''ok''))))
                   (\<lambda>e. ret (Response 500 ''Could not record the payment.''))))"

section \<open>Facts about invoices\<close>

lemma numberAttempts_fresh: "numberAttempts now ks s = Some k \<Longrightarrow> \<not> numberTaken k s"
  by (induction ks) (auto simp: Let_def split: if_splits)

lemma insertInvoice_ok:
  "insertInvoice iv s = (Inr r, t) \<Longrightarrow>
   r = iv \<and> \<not> numberTaken (i_number iv) s \<and> t = s\<lparr>invoices := invoices s @ [iv]\<rparr>"
  by (auto simp: insertInvoice_def act_defs split: if_splits)

lemma insertInvoice_throw: "insertInvoice iv s = (Inl e, t) \<Longrightarrow> t = s \<and> e = UniqueError ''Invoice.number''"
  by (auto simp: insertInvoice_def act_defs split: if_splits)

lemma keeps_insertInvoice [keep]: "(\<And>s f. g (invoices_update f s) = g s) \<Longrightarrow> keeps g (insertInvoice iv)"
  by (simp add: keeps_def insertInvoice_def act_defs)

lemma keeps_createInvoice [keep]:
  "(\<And>s f. g (invoices_update f s) = g s) \<Longrightarrow> keeps g (createInvoiceForServer i now gd sid st)"
  unfolding createInvoiceForServer_def by (intro keep) auto

lemma keeps_reactivateServer [keep]:
  "(\<And>s f. g (servers_update f s) = g s) \<Longrightarrow> (\<And>s f. g (auditLog_update f s) = g s) \<Longrightarrow>
   keeps g (reactivateServer i)"
  unfolding reactivateServer_def by (intro keep) auto

lemma keeps_suspendServer [keep]:
  assumes "\<And>s f. g (servers_update f s) = g s" "\<And>s f. g (auditLog_update f s) = g s"
    "\<And>s f. g (calls_update f s) = g s"
  shows "keeps g (suspendServer agent i)"
  unfolding suspendServer_def by (intro keep) (simp_all add: assms)

lemma updateServer_run:
  "findServer i s = Some v \<Longrightarrow>
   updateServer i f s = (Inr (f v), s\<lparr>servers := updateWhere (\<lambda>v. s_id v = i) f (servers s)\<rparr>)"
  by (simp add: updateServer_def act_defs)

lemma updateServer_missing: "findServer i s = None \<Longrightarrow> updateServer i f s = (Inl (NotFoundError ''Server''), s)"
  by (simp add: updateServer_def act_defs)

lemma suspendServer_run:
  assumes "findServer i s = Some v" and "findTemplate (s_templateId v) s = Some tm" and "\<not> s_suspended v"
  shows "suspendServer agent i s = (Inr (), s\<lparr>
    servers := updateWhere (\<lambda>v. s_id v = i) (\<lambda>v. v\<lparr>s_suspended := True, s_status := SUSPENDED\<rparr>) (servers s),
    auditLog := auditLog s @ [\<lparr>au_actorId = None, au_action = ''server.suspend'',
      au_targetType = ''server'', au_targetId = i\<rparr>],
    calls := calls s @ [(s_nodeId v, Server_stop i (Some (t_stopCommand tm)) (Some 30))]\<rparr>)"
  using assms
  by (simp add: suspendServer_def andThen_def orThrow_def tryCatch_def callAgent_def isAgentError_def
      ret_def updateServer_def findServer_def writeState_def split: sum.split prod.split)

lemma reactivateServer_run:
  "findServer i s = Some v \<Longrightarrow> reactivateServer i s = (Inr (), s\<lparr>
    servers := updateWhere (\<lambda>v. s_id v = i) (\<lambda>v. v\<lparr>s_suspended := False, s_status := OFFLINE\<rparr>) (servers s),
    auditLog := auditLog s @ [\<lparr>au_actorId = None, au_action = ''server.reactivate'',
      au_targetType = ''server'', au_targetId = i\<rparr>]\<rparr>)"
  by (simp add: reactivateServer_def andThen_def updateServer_run)

text \<open>What a first payment leaves in the invoice table.\<close>

lemma markInvoicePaid_first:
  assumes "findByRef ref s = None" and "markInvoicePaid now i ref s = (Inr v, t)"
  shows "\<exists>old. findInvoice i s = Some old \<and> v = markPaid now ref old \<and>
    invoices t = updateWhere (\<lambda>v. i_id v = i) (markPaid now ref) (invoices s)"
proof -
  obtain old where old: "findInvoice i s = Some old"
    using assms by (auto simp: markInvoicePaid_def act_defs split: option.splits)
  let ?s1 = "s\<lparr>invoices := updateWhere (\<lambda>v. i_id v = i) (markPaid now ref) (invoices s)\<rparr>"
  let ?n = "andThen (reactivateIfSuspended (markPaid now ref old)) (\<lambda>_.
     andThen (audit None ''invoice.paid'' ''invoice'' (i_id (markPaid now ref old)))
     (\<lambda>_. ret (markPaid now ref old)))"
  have n: "?n ?s1 = (Inr v, t)"
    using assms old
    by (simp add: markInvoicePaid_def andThen_def [of "readState _"] readState_def
        andThen_def [of "orThrow _ _"] orThrow_def andThen_def [of "writeState _"] writeState_def Let_def)
  have "keeps invoices ?n" unfolding reactivateIfSuspended_def by (intro keep) simp_all
  then have "invoices t = invoices ?s1" using n by (auto dest: keepsD [where s = ?s1])
  moreover have "v = markPaid now ref old" using n by (auto simp: andThen_ok ret_def)
  ultimately show ?thesis using old by simp
qed

lemma findInvoice_in: "findInvoice i s = Some v \<Longrightarrow> v \<in> set (invoices s) \<and> i_id v = i"
  unfolding findInvoice_def by (rule find_key_in)

lemma findByRef_None: "findByRef ref s = None \<Longrightarrow> v \<in> set (invoices s) \<Longrightarrow> i_paymentRef v \<noteq> Some ref"
  by (auto simp: findByRef_def find_None_iff)

section \<open>Properties\<close>

text \<open>An invoice bills the price of the server's plan for exactly one calendar month from its
  start (28 to 31 days), is due the grace period after that start, carries a number no other
  invoice has, and is the only row written.\<close>

theorem createInvoice_period:
  assumes "createInvoiceForServer freshId now graceDays serverId start s = (Inr v, t)"
  shows "\<exists>server plan. findServer serverId s = Some server \<and> findPlan (s_planId server) s = Some plan \<and>
    i_amountCents v = p_monthlyPriceCents plan \<and> i_userId v = s_ownerId server \<and> i_status v = I_OPEN \<and>
    i_periodStart v = start \<and> i_periodEnd v = start + monthLength start * msPerDay \<and>
    28 \<le> monthLength start \<and> monthLength start \<le> 31 \<and>
    i_dueAt v = start + graceDays * msPerDay \<and>
    \<not> numberTaken (i_number v) s \<and> t = s\<lparr>invoices := invoices s @ [v]\<rparr>"
proof -
  obtain server plan where sp: "findServer serverId s = Some server" "findPlan (s_planId server) s = Some plan"
    using assms by (auto simp: createInvoiceForServer_def act_defs split: option.splits)
  have "insertInvoice \<lparr>i_id = freshId, i_number = nextInvoiceNumber now s, i_userId = s_ownerId server,
       i_serverId = Some (s_id server), i_status = I_OPEN,
       i_amountCents = p_monthlyPriceCents plan, i_currency = p_currency plan,
       i_periodStart = start, i_periodEnd = periodEndOf start,
       i_dueAt = dueAtOf graceDays start, i_paidAt = None, i_paymentRef = None\<rparr> s = (Inr v, t)"
    using assms sp by (simp add: createInvoiceForServer_def andThen_def orThrow_def readState_def)
  from insertInvoice_ok [OF this] sp show ?thesis
    by (auto simp: periodEndOf_def dueAtOf_def addMonth addDays monthLength_bounds)
qed

text \<open>A payment is recorded once: after a call that succeeded, any later call with the same
  payment reference, for whatever invoice, returns the invoice paid first and changes nothing,
  so a processor that retries neither credits nor reactivates twice.\<close>

theorem markInvoicePaid_idempotent:
  assumes "uniqueOn i_id (invoices s)"
    and "markInvoicePaid now i ref s = (Inr v, t)"
  shows "markInvoicePaid later j ref t = (Inr v, t)"
proof (cases "findByRef ref s")
  case (Some w)
  then show ?thesis using assms(2) by (simp add: markInvoicePaid_def act_defs)
next
  case None
  obtain old where old: "findInvoice i s = Some old" "v = markPaid now ref old"
    "invoices t = updateWhere (\<lambda>v. i_id v = i) (markPaid now ref) (invoices s)"
    using markInvoicePaid_first [OF None assms(2)] by blast
  have only: "w = v" if "w \<in> set (invoices t)" "i_paymentRef w = Some ref" for w
    using that old(2,3) findByRef_None [OF None] findInvoice_in [OF old(1)] uniqueOn_eq [OF assms(1)]
    by (auto simp: set_updateWhere)
  have "v \<in> set (invoices t)" "i_paymentRef v = Some ref"
    using findInvoice_in [OF old(1)] old(2,3) by (auto simp: set_updateWhere markPaid_def)
  then have "findByRef ref t = Some v"
    unfolding findByRef_def using only by (rule find_only)
  then show ?thesis by (simp add: markInvoicePaid_def act_defs)
qed

text \<open>C6. Only a body signed with the shared secret reaches the database: a webhook request
  that changes anything carried the HMAC of its own raw body under a configured, non-empty
  secret.\<close>

theorem webhook_authentic:
  assumes "webhook hmac parse secret now provided raw s = (r, t)" and "t \<noteq> s"
  shows "\<exists>key. secret = Some key \<and> key \<noteq> [] \<and> provided = hmac key raw"
  using assms by (auto simp: webhook_def ret_def Let_def split: option.splits if_splits)


end
