(* ===== verification/Databases.thy ===== *)
theory Databases
  imports Schema
begin

text \<open>
  \<open>panel/src/lib/databases.ts\<close>: per-server MySQL databases. The SQL strings are the
  statements the template literals are meant to produce (as committed, the doubled backslashes
  end the literals early and the file does not parse). Cryptography is a parameter:
  \<open>enc\<close> is \<open>encryptSecret\<close> on the drawn initialisation vector.
\<close>

section \<open>Identifiers\<close>

definition isWordChar :: "char \<Rightarrow> bool" where
  "isWordChar c \<longleftrightarrow>
     (CHR ''a'' \<le> c \<and> c \<le> CHR ''z'') \<or> (CHR ''A'' \<le> c \<and> c \<le> CHR ''Z'') \<or>
     (CHR ''0'' \<le> c \<and> c \<le> CHR ''9'') \<or> c = CHR ''_''"

text \<open>\<open>/^[a-zA-Z0-9_]{1,48}$/\<close>\<close>

definition safeIdentifier :: "string \<Rightarrow> bool" where
  "safeIdentifier v \<longleftrightarrow> 1 \<le> length v \<and> length v \<le> 48 \<and> list_all isWordChar v"

definition dbNameFor :: "Server \<Rightarrow> string \<Rightarrow> string" where
  "dbNameFor v raw = ''s'' @ s_shortId v @ ''_'' @ raw"

definition usernameFor :: "Server \<Rightarrow> string \<Rightarrow> string" where
  "usernameFor v raw = take 32 (''u'' @ s_shortId v @ ''_'' @ raw)"

section \<open>Hosts\<close>

definition findHost :: "ident \<Rightarrow> db \<Rightarrow> DatabaseHost option" where
  "findHost i s = List.find (\<lambda>h. h_id h = i) (databaseHosts s)"

definition adminConnection :: "mysql \<Rightarrow> ident \<Rightarrow> unit act" where
  "adminConnection mysql hostId =
     andThen (orThrow (NotFoundError ''DatabaseHost'') (findHost hostId)) (\<lambda>host.
     andThen (require (h_enabled host) (Error ''That database host is not accepting new databases.'')) (\<lambda>_.
     query mysql hostId CONNECT))"

text \<open>
  \<open>findFirst\<close> with \<open>orderBy: { nodeId: "desc" }\<close>: PostgreSQL sorts nulls first in a
  descending order, so the hosts without a node come before those of the server's node.
\<close>

definition hostCandidates :: "ident \<Rightarrow> db \<Rightarrow> DatabaseHost list" where
  "hostCandidates nodeId s =
     (let ok = filter (\<lambda>h. h_enabled h \<and> (h_nodeId h = Some nodeId \<or> h_nodeId h = None)) (databaseHosts s)
      in filter (\<lambda>h. h_nodeId h = None) ok @ filter (\<lambda>h. h_nodeId h \<noteq> None) ok)"

section \<open>Operations\<close>

definition insertDatabase :: "ServerDatabase \<Rightarrow> unit act" where
  "insertDatabase d =
     andThen (readState (\<lambda>s. \<exists>e \<in> set (serverDatabases s). d_dbName e = d_dbName d \<or> d_username e = d_username d)) (\<lambda>taken.
     andThen (require (\<not> taken) (UniqueError ''ServerDatabase'')) (\<lambda>_.
     writeState (\<lambda>s. s\<lparr>serverDatabases := serverDatabases s @ [d]\<rparr>)))"

text \<open>A query whose rejection is swallowed by \<open>.catch(() => undefined)\<close>.\<close>

definition queryQuietly :: "mysql \<Rightarrow> ident \<Rightarrow> sql \<Rightarrow> unit act" where
  "queryQuietly mysql hostId q = tryCatch (query mysql hostId q) (\<lambda>_. ret ())"

definition createOnHost :: "mysql \<Rightarrow> ident \<Rightarrow> string \<Rightarrow> string \<Rightarrow> string \<Rightarrow> unit act" where
  "createOnHost mysql hostId dbName username password =
     andThen (query mysql hostId (CREATE_DATABASE dbName)) (\<lambda>_.
     andThen (query mysql hostId (CREATE_USER username password)) (\<lambda>_.
     andThen (query mysql hostId (GRANT_ALL dbName username)) (\<lambda>_.
     query mysql hostId FLUSH_PRIVILEGES)))"

definition createDatabase ::
    "mysql \<Rightarrow> (string \<Rightarrow> string) \<Rightarrow> ident \<Rightarrow> string \<Rightarrow> ident \<Rightarrow> string \<Rightarrow> ident option \<Rightarrow> ServerDatabase act" where
  "createDatabase mysql enc freshId password serverId rawName actorId =
     andThen (require (safeIdentifier rawName) (Error ''Use only letters, numbers and underscores.'')) (\<lambda>_.
     andThen (orThrow (NotFoundError ''Server'') (findServer serverId)) (\<lambda>server.
     andThen (orThrow (NotFoundError ''Plan'') (findPlan (s_planId server))) (\<lambda>plan.
     andThen (readState (\<lambda>s. countWhere (\<lambda>d. d_serverId d = serverId) (serverDatabases s))) (\<lambda>n.
     andThen (require (int n < p_databaseLimit plan) (DatabaseLimitError (p_databaseLimit plan))) (\<lambda>_.
     andThen (readState (hostCandidates (s_nodeId server))) (\<lambda>hosts.
     case hosts of
       [] \<Rightarrow> throw (Error ''No database host is available for this server's node.'')
     | host # _ \<Rightarrow>
         let dbName = dbNameFor server rawName; username = usernameFor server rawName;
             row = \<lparr>d_id = freshId, d_serverId = serverId, d_hostId = h_id host, d_dbName = dbName,
                    d_username = username, d_passwordEnc = enc password\<rparr>
         in andThen (adminConnection mysql (h_id host)) (\<lambda>_.
            andThen (tryCatch (createOnHost mysql (h_id host) dbName username password)
              (\<lambda>e. andThen (queryQuietly mysql (h_id host) (DROP_DATABASE dbName)) (\<lambda>_.
                   andThen (queryQuietly mysql (h_id host) (DROP_USER username)) (\<lambda>_.
                   throw e)))) (\<lambda>_.
            andThen (insertDatabase row) (\<lambda>_.
            andThen (audit actorId ''database.create'' ''server'' serverId) (\<lambda>_.
            ret row))))))))))"

definition findDatabase :: "ident \<Rightarrow> db \<Rightarrow> ServerDatabase option" where
  "findDatabase i s = List.find (\<lambda>d. d_id d = i) (serverDatabases s)"

definition rotateDatabasePassword ::
    "mysql \<Rightarrow> (string \<Rightarrow> string) \<Rightarrow> string \<Rightarrow> ident \<Rightarrow> ident \<Rightarrow> string act" where
  "rotateDatabasePassword mysql enc password serverId databaseId =
     andThen (orThrow (NotFoundError ''ServerDatabase'') (findDatabase databaseId)) (\<lambda>row.
     andThen (require (d_serverId row = serverId) (Error ''That database belongs to another server.'')) (\<lambda>_.
     andThen (adminConnection mysql (d_hostId row)) (\<lambda>_.
     andThen (query mysql (d_hostId row) (ALTER_USER (d_username row) password)) (\<lambda>_.
     andThen (query mysql (d_hostId row) FLUSH_PRIVILEGES) (\<lambda>_.
     andThen (writeState (\<lambda>s. s\<lparr>serverDatabases := updateWhere (\<lambda>d. d_id d = databaseId)
       (\<lambda>d. d\<lparr>d_passwordEnc := enc password\<rparr>) (serverDatabases s)\<rparr>)) (\<lambda>_.
     ret password))))))"

definition deleteDatabase :: "mysql \<Rightarrow> ident \<Rightarrow> ident \<Rightarrow> ident option \<Rightarrow> unit act" where
  "deleteDatabase mysql serverId databaseId actorId =
     andThen (orThrow (NotFoundError ''ServerDatabase'') (findDatabase databaseId)) (\<lambda>row.
     andThen (require (d_serverId row = serverId) (Error ''That database belongs to another server.'')) (\<lambda>_.
     andThen (adminConnection mysql (d_hostId row)) (\<lambda>_.
     andThen (query mysql (d_hostId row) (DROP_DATABASE (d_dbName row))) (\<lambda>_.
     andThen (query mysql (d_hostId row) (DROP_USER (d_username row))) (\<lambda>_.
     andThen (query mysql (d_hostId row) FLUSH_PRIVILEGES) (\<lambda>_.
     andThen (writeState (\<lambda>s. s\<lparr>serverDatabases :=
       deleteWhere (\<lambda>d. d_id d = databaseId) (serverDatabases s)\<rparr>)) (\<lambda>_.
     audit actorId ''database.delete'' ''server'' serverId)))))))"

definition dropAllDatabases :: "mysql \<Rightarrow> ident \<Rightarrow> unit act" where
  "dropAllDatabases mysql serverId =
     andThen (readState (\<lambda>s. filter (\<lambda>d. d_serverId d = serverId) (serverDatabases s))) (\<lambda>databases.
     forEach databases (\<lambda>d. tryCatch (deleteDatabase mysql serverId (d_id d) None) (\<lambda>_. ret ())))"

section \<open>Frames\<close>

lemma keeps_adminConnection [keep]:
  "(\<And>s f. g (sqlLog_update f s) = g s) \<Longrightarrow> keeps g (adminConnection my h)"
  unfolding adminConnection_def by (intro keep) simp_all

lemma keeps_deleteDatabase [keep]:
  "(\<And>s f. g (sqlLog_update f s) = g s) \<Longrightarrow> (\<And>s f. g (serverDatabases_update f s) = g s) \<Longrightarrow>
   (\<And>s f. g (auditLog_update f s) = g s) \<Longrightarrow> keeps g (deleteDatabase my i j a)"
  unfolding deleteDatabase_def by (intro keep) simp_all

lemma keeps_dropAllDatabases [keep]:
  "(\<And>s f. g (sqlLog_update f s) = g s) \<Longrightarrow> (\<And>s f. g (serverDatabases_update f s) = g s) \<Longrightarrow>
   (\<And>s f. g (auditLog_update f s) = g s) \<Longrightarrow> keeps g (dropAllDatabases my i)"
  unfolding dropAllDatabases_def by (intro keep keeps_forEach) simp_all

lemma forEach_quiet: "(\<And>x s. \<exists>t. f x s = (Inr (), t)) \<Longrightarrow> \<exists>t. forEach xs f s = (Inr (), t)"
proof (induction xs arbitrary: s)
  case (Cons x xs)
  obtain t where "f x s = (Inr (), t)" using Cons.prems by blast
  then show ?case using Cons.IH [OF Cons.prems] by simp
qed simp

lemma tryCatch_ret: "\<exists>t. tryCatch m (\<lambda>_. ret ()) s = (Inr (), t)"
  by (auto simp: tryCatch_def ret_def split: prod.split sum.split)

lemma dropAllDatabases_quiet: "\<exists>t. dropAllDatabases my i s = (Inr (), t)"
  unfolding dropAllDatabases_def andThen_def readState_def by (simp add: forEach_quiet tryCatch_ret)

end
