(* ===== verification/Provisioning.thy ===== *)
theory Provisioning
  imports Scheduler Invoices Databases
begin

text \<open>
  \<open>panel/src/lib/provisioning.ts\<close>: from a purchase to a running server, the roll back of a
  failed build, and the deletion of a server. Fresh ids, the clock and the allocations other
  transactions hold are read from an environment, one value per attempt.
\<close>

record ProvisionInput =
  pi_orderId :: ident
  pi_ownerId :: ident
  pi_planId :: ident
  pi_serverName :: string
  pi_preferredLocation :: "string option"
  pi_actorId :: "ident option"

record ProvisionEnv =
  ev_now :: "nat \<Rightarrow> time"
  ev_serverId :: "nat \<Rightarrow> ident"
  ev_shortId :: "nat \<Rightarrow> string"
  ev_invoiceId :: "nat \<Rightarrow> ident"
  ev_locked :: "nat \<Rightarrow> ident list"
  ev_graceDays :: int

section \<open>Environments of a container\<close>

text \<open>\<open>out[key] = value\<close>: overwrites in place, or adds at the end.\<close>

fun putEnv :: "string \<Rightarrow> string \<Rightarrow> environment \<Rightarrow> environment" where
  "putEnv k v [] = [(k, v)]"
| "putEnv k v ((k', v') # e) = (if k = k' then (k, v) # e else (k', v') # putEnv k v e)"

fun defaultEnvironmentLoop :: "TemplateVariable list \<Rightarrow> environment \<Rightarrow> environment" where
  "defaultEnvironmentLoop [] out = out"
| "defaultEnvironmentLoop (v # vs) out =
     defaultEnvironmentLoop vs
       (if v_key v \<noteq> [] then putEnv (v_key v) (case v_default v of None \<Rightarrow> [] | Some d \<Rightarrow> d) out else out)"

definition defaultEnvironment :: "TemplateVariable list \<Rightarrow> environment" where
  "defaultEnvironment variables = defaultEnvironmentLoop variables []"

definition portSpecs :: "Allocation \<Rightarrow> PortSpec list" where
  "portSpecs a = [\<lparr>pt_ip = a_ip a, pt_port = a_port a, pt_protocol = Tcp\<rparr>,
     \<lparr>pt_ip = a_ip a, pt_port = a_port a, pt_protocol = Udp\<rparr>]"

text \<open>The specification sent to the agent, the same in provisioning and in migration.\<close>

definition createSpec :: "Server \<Rightarrow> GameTemplate \<Rightarrow> Allocation \<Rightarrow> Amount \<Rightarrow> CreateServerSpec" where
  "createSpec v template a amount = \<lparr>sp_serverId = s_id v, sp_shortId = s_shortId v,
     sp_image = t_dockerImage template, sp_startCommand = t_startCommand template,
     sp_stopCommand = t_stopCommand template,
     sp_environment = putEnv ''SERVER_MEMORY'' (showInt (am_memoryMb amount))
       (putEnv ''SERVER_PORT'' (showInt (a_port a)) (s_environment v)),
     sp_memoryMb = am_memoryMb amount, sp_diskMb = am_diskMb amount, sp_cpuCores = am_cpuCores amount,
     sp_ports = portSpecs a\<rparr>"

definition planAmount :: "Plan \<Rightarrow> Amount" where
  "planAmount p = \<lparr>am_memoryMb = p_memoryMb p, am_diskMb = p_diskMb p, am_cpuCores = p_cpuCores p\<rparr>"

section \<open>Phase 1: the placement transaction\<close>

definition newServer ::
    "ident \<Rightarrow> string \<Rightarrow> time \<Rightarrow> ProvisionInput \<Rightarrow> Plan \<Rightarrow> GameTemplate \<Rightarrow> ident \<Rightarrow> Server" where
  "newServer sid short now inp plan template nodeId =
     \<lparr>s_id = sid, s_shortId = short, s_name = pi_serverName inp, s_ownerId = pi_ownerId inp,
      s_nodeId = nodeId, s_planId = p_id plan, s_templateId = t_id template,
      s_status = PROVISIONING, s_memoryMb = p_memoryMb plan, s_diskMb = p_diskMb plan,
      s_cpuCores = p_cpuCores plan, s_containerId = None,
      s_environment = defaultEnvironment (t_variables template), s_suspended = False,
      s_createdAt = now\<rparr>"

text \<open>\<open>tx.server.create\<close>: the id and the short id are unique.\<close>

definition insertServer :: "Server \<Rightarrow> Server act" where
  "insertServer v =
     andThen (readState (\<lambda>s. \<exists>w \<in> set (servers s). s_id w = s_id v \<or> s_shortId w = s_shortId v)) (\<lambda>taken.
     andThen (require (\<not> taken) (UniqueError ''Server'')) (\<lambda>_.
     andThen (writeState (\<lambda>s. s\<lparr>servers := servers s @ [v]\<rparr>)) (\<lambda>_.
     ret v)))"

definition provisionRequest :: "ProvisionInput \<Rightarrow> Plan \<Rightarrow> GameTemplate \<Rightarrow> ident list \<Rightarrow> PlacementRequest" where
  "provisionRequest inp plan template attempted =
     \<lparr>rq_memoryMb = p_memoryMb plan, rq_diskMb = p_diskMb plan, rq_cpuCores = p_cpuCores plan,
      rq_templateId = t_id template, rq_preferredLocation = pi_preferredLocation inp,
      rq_excludeNodeIds = attempted\<rparr>"

definition onReserved ::
    "ProvisionEnv \<Rightarrow> nat \<Rightarrow> ProvisionInput \<Rightarrow> Plan \<Rightarrow> GameTemplate \<Rightarrow> Reservation \<Rightarrow> (Server \<times> Allocation) act" where
  "onReserved env attempt inp plan template reservation =
     andThen (insertServer (newServer (ev_serverId env attempt) (ev_shortId env attempt)
       (ev_now env attempt) inp plan template (rv_nodeId reservation))) (\<lambda>server.
     andThen (claimAllocation (ev_locked env attempt) (rv_nodeId reservation) (s_id server)) (\<lambda>allocation.
     andThen (updateOrder (pi_orderId inp)
       (\<lambda>r. r\<lparr>o_status := O_PROVISIONED, o_serverId := Some (s_id server)\<rparr>)) (\<lambda>_.
     ret (server, allocation))))"

definition placeServer ::
    "ProvisionEnv \<Rightarrow> nat \<Rightarrow> ProvisionInput \<Rightarrow> Plan \<Rightarrow> GameTemplate \<Rightarrow> ident list \<Rightarrow>
     (Reservation \<times> Server \<times> Allocation) act" where
  "placeServer env attempt inp plan template attempted =
     reserveCapacity (ev_now env attempt) (provisionRequest inp plan template attempted)
       (onReserved env attempt inp plan template)"

section \<open>Phase 2: the build, and its roll back\<close>

definition setContainer :: "AgentReply \<Rightarrow> Server \<Rightarrow> Server" where
  "setContainer res v = v\<lparr>s_containerId :=
     (case rp_containerId res of None \<Rightarrow> s_containerId v | Some c \<Rightarrow> Some c), s_status := OFFLINE\<rparr>"

definition buildServer ::
    "agent \<Rightarrow> ProvisionEnv \<Rightarrow> nat \<Rightarrow> ProvisionInput \<Rightarrow> Plan \<Rightarrow> GameTemplate \<Rightarrow> Server \<Rightarrow> Allocation \<Rightarrow> Server act" where
  "buildServer agent env attempt inp plan template created allocation =
     andThen (callAgent agent (s_nodeId created)
       (Server_create (createSpec created template allocation (planAmount plan)))) (\<lambda>res.
     andThen (updateServer (s_id created) (setContainer res)) (\<lambda>server.
     andThen (tryCatch
       (andThen (createInvoiceForServer (ev_invoiceId env attempt) (ev_now env attempt)
          (ev_graceDays env) (s_id server) (ev_now env attempt)) (\<lambda>_. ret ()))
       (\<lambda>_. ret ())) (\<lambda>_.
     andThen (audit (pi_actorId inp) ''server.provision'' ''server'' (s_id server)) (\<lambda>_.
     ret server))))"

text \<open>\<open>tx.allocation.updateMany\<close> on the ports of one server.\<close>

definition freePorts :: "ident \<Rightarrow> unit act" where
  "freePorts serverId = writeState (\<lambda>s. s\<lparr>allocations := updateWhere (\<lambda>a. a_serverId a = Some serverId)
     (\<lambda>a. a\<lparr>a_serverId := None, a_primary := False\<rparr>) (allocations s)\<rparr>)"

definition rollbackServer :: "ident \<Rightarrow> Plan \<Rightarrow> ident \<Rightarrow> ident \<Rightarrow> unit act" where
  "rollbackServer orderId plan serverId nodeId = transaction (
     andThen (freePorts serverId) (\<lambda>_.
     andThen (deleteServerRow serverId) (\<lambda>_.
     andThen (releaseCapacity nodeId (planAmount plan)) (\<lambda>_.
     updateOrder orderId (\<lambda>r. r\<lparr>o_status := O_PENDING, o_serverId := None\<rparr>)))))"

text \<open>\<open>String(err)\<close>\<close>

fun showExn :: "exn \<Rightarrow> string" where
  "showExn NoCapacityError = ''NoCapacityError: No node has enough available capacity for this plan.''"
| "showExn (AuthError _ m) = ''Error: '' @ m"
| "showExn (AgentError _ m) = ''AgentError: '' @ m"
| "showExn (NotFoundError m) = ''NotFoundError: No '' @ m @ '' found''"
| "showExn (UniqueError m) = ''PrismaClientKnownRequestError: '' @ m"
| "showExn (BackupQuotaError u l) =
     ''BackupQuotaError: Backup storage is full: '' @ showInt u @ '' MB of '' @ showInt l @ '' MB used.''"
| "showExn (DatabaseLimitError l) = ''DatabaseLimitError: This plan allows '' @ showInt l @ '' database'' @
     (if l = 1 then [] else ''s'') @ ''.''"
| "showExn (ModError m) = ''ModError: '' @ m"
| "showExn ZodError = ''ZodError''"
| "showExn (Error m) = ''Error: '' @ m"

text \<open>
  The loop over the attempts that are left. A placement that throws anything but
  \<open>NoCapacityError\<close> goes on to the next attempt without excluding a node; a build that fails
  is rolled back and its node excluded.
\<close>

fun provisionLoop ::
    "agent \<Rightarrow> ProvisionEnv \<Rightarrow> ProvisionInput \<Rightarrow> Plan \<Rightarrow> GameTemplate \<Rightarrow> nat list \<Rightarrow> ident list \<Rightarrow> string \<Rightarrow> Server act" where
  "provisionLoop agent env inp plan template [] attempted lastError =
     andThen (updateOrder (pi_orderId inp)
       (\<lambda>r. r\<lparr>o_status := O_FAILED, o_failureReason := Some lastError\<rparr>)) (\<lambda>_.
     throw (Error (''Provisioning failed on all candidate nodes: '' @ lastError)))"
| "provisionLoop agent env inp plan template (attempt # rest) attempted lastError = (\<lambda>s.
     case placeServer env attempt inp plan template attempted s of
       (Inl e, t) \<Rightarrow>
         if e = NoCapacityError then (Inl e, t)
         else provisionLoop agent env inp plan template rest attempted (showExn e) t
     | (Inr (reservation, server, allocation), t) \<Rightarrow>
         (case buildServer agent env attempt inp plan template server allocation t of
            (Inr built, u) \<Rightarrow> (Inr built, u)
          | (Inl e, u) \<Rightarrow>
              andThen (rollbackServer (pi_orderId inp) plan (s_id server) (rv_nodeId reservation)) (\<lambda>_.
              andThen (audit (pi_actorId inp) ''server.provision_failed'' ''order'' (pi_orderId inp)) (\<lambda>_.
              provisionLoop agent env inp plan template rest (attempted @ [rv_nodeId reservation]) (showExn e))) u))"

definition provisionServer :: "agent \<Rightarrow> ProvisionEnv \<Rightarrow> ProvisionInput \<Rightarrow> Server act" where
  "provisionServer agent env inp =
     andThen (orThrow (NotFoundError ''Plan'') (findPlan (pi_planId inp))) (\<lambda>plan.
     andThen (orThrow (Error (''Plan \"'' @ p_name plan @ ''\" has no game template assigned.''))
       (\<lambda>s. Option.bind (p_templateId plan) (\<lambda>i. findTemplate i s))) (\<lambda>template.
     andThen (readState (findOrder (pi_orderId inp))) (\<lambda>existing.
     case Option.bind existing o_serverId of
       Some serverId \<Rightarrow> orThrow (NotFoundError ''Server'') (findServer serverId)
     | None \<Rightarrow> provisionLoop agent env inp plan template [0, 1, 2] [] ''undefined'')))"

section \<open>Deletion\<close>

text \<open>The first writes of \<open>deleteServer\<close>, the agent call, and the final transaction.\<close>

definition deleteCommit :: "Server \<Rightarrow> unit act" where
  "deleteCommit server = transaction (
     andThen (freePorts (s_id server)) (\<lambda>_.
     andThen (deleteServerRow (s_id server)) (\<lambda>_.
     releaseCapacity (s_nodeId server) (serverAmount server))))"

definition deleteServer :: "agent \<Rightarrow> mysql \<Rightarrow> ident \<Rightarrow> ident option \<Rightarrow> unit act" where
  "deleteServer agent mysql serverId actorId =
     andThen (orThrow (NotFoundError ''Server'') (findServer serverId)) (\<lambda>server.
     andThen (updateServer serverId (\<lambda>v. v\<lparr>s_status := DELETING\<rparr>)) (\<lambda>_.
     andThen (tryCatch (dropAllDatabases mysql serverId) (\<lambda>_. ret ())) (\<lambda>_.
     andThen (tryCatch
       (andThen (callAgent agent (s_nodeId server) (Server_delete serverId True)) (\<lambda>_. ret ()))
       (\<lambda>_. audit actorId ''server.delete_agent_failed'' ''server'' serverId)) (\<lambda>_.
     andThen (deleteCommit server) (\<lambda>_.
     audit actorId ''server.delete'' ''server'' serverId)))))"

section \<open>One attempt\<close>

text \<open>The tables a placement writes besides the order, and what they must satisfy for a roll back
  to be exact: keys are unique, ports belong to servers that exist, a free port is not primary.\<close>

definition placementWf :: "db \<Rightarrow> bool" where
  "placementWf s \<longleftrightarrow> uniqueOn n_id (nodes s) \<and> uniqueOn a_id (allocations s) \<and>
     (\<forall>a \<in> set (allocations s). case a_serverId a of
        None \<Rightarrow> \<not> a_primary a | Some i \<Rightarrow> i \<in> s_id ` set (servers s))"

definition samePlacement :: "db \<Rightarrow> db \<Rightarrow> bool" where
  "samePlacement s t \<longleftrightarrow> nodes t = nodes s \<and> servers t = servers s \<and> allocations t = allocations s"

lemma samePlacement_refl [simp]: "samePlacement s s"
  by (simp add: samePlacement_def)

lemma samePlacement_trans: "samePlacement s t \<Longrightarrow> samePlacement t u \<Longrightarrow> samePlacement s u"
  by (simp add: samePlacement_def)

lemma samePlacement_wf: "samePlacement s t \<Longrightarrow> placementWf t = placementWf s"
  by (simp add: samePlacement_def placementWf_def cong: option.case_cong)

lemma samePlacement_sound: "samePlacement s t \<Longrightarrow> fleetSound t = fleetSound s"
  by (simp add: samePlacement_def fleetSound_def)

lemma requestAmount_provision [simp]: "requestAmount (provisionRequest inp plan template att) = planAmount plan"
  by (simp add: requestAmount_def provisionRequest_def planAmount_def)

lemma newServer_simps [simp]:
  "s_id (newServer i short now inp plan template n) = i"
  "s_nodeId (newServer i short now inp plan template n) = n"
  by (simp_all add: newServer_def)

definition bindPort :: "ident \<Rightarrow> Allocation \<Rightarrow> Allocation" where
  "bindPort i a = a\<lparr>a_serverId := Some i, a_primary := True\<rparr>"

lemma bindPort_simps [simp]:
  "a_id (bindPort i a) = a_id a" "a_nodeId (bindPort i a) = a_nodeId a" "a_serverId (bindPort i a) = Some i"
  by (simp_all add: bindPort_def)

definition markProvisioned :: "ident \<Rightarrow> Order \<Rightarrow> Order" where
  "markProvisioned i r = r\<lparr>o_status := O_PROVISIONED, o_serverId := Some i\<rparr>"

definition placedState :: "db \<Rightarrow> ident \<Rightarrow> ident \<Rightarrow> Amount \<Rightarrow> Server \<Rightarrow> ident \<Rightarrow> db" where
  "placedState s orderId nodeId amount server allocId = s\<lparr>
     nodes := updateWhere (\<lambda>m. n_id m = nodeId) (addReserved amount) (nodes s),
     servers := servers s @ [server],
     allocations := updateWhere (\<lambda>b. a_id b = allocId) (bindPort (s_id server)) (allocations s),
     orders := updateWhere (\<lambda>r. o_id r = orderId) (markProvisioned (s_id server)) (orders s)\<rparr>"

lemma onReserved_ok:
  assumes "onReserved env attempt inp plan template rv s = (Inr (v, a), t)"
  shows "v = newServer (ev_serverId env attempt) (ev_shortId env attempt) (ev_now env attempt) inp plan
      template (rv_nodeId rv) \<and> (\<forall>w \<in> set (servers s). s_id w \<noteq> s_id v) \<and>
    a \<in> set (freeAllocations (ev_locked env attempt) (rv_nodeId rv) s) \<and>
    findOrder (pi_orderId inp) s \<noteq> None \<and>
    t = s\<lparr>servers := servers s @ [v],
      allocations := updateWhere (\<lambda>b. a_id b = a_id a) (bindPort (s_id v)) (allocations s),
      orders := updateWhere (\<lambda>r. o_id r = pi_orderId inp) (markProvisioned (s_id v)) (orders s)\<rparr>"
proof -
  let ?v = "newServer (ev_serverId env attempt) (ev_shortId env attempt) (ev_now env attempt) inp plan
      template (rv_nodeId rv)"
  let ?s1 = "s\<lparr>servers := servers s @ [?v]\<rparr>"
  obtain s2 where ins: "insertServer ?v s = (Inr ?v, ?s1)" "(\<forall>w \<in> set (servers s). s_id w \<noteq> s_id ?v)"
    and cl: "claimAllocation (ev_locked env attempt) (rv_nodeId rv) (s_id ?v) ?s1 = (Inr a, s2)"
    and up: "updateOrder (pi_orderId inp) (\<lambda>r. r\<lparr>o_status := O_PROVISIONED, o_serverId := Some (s_id ?v)\<rparr>) s2
      = (Inr (), t)" and v: "v = ?v"
    using assms
    by (auto simp: onReserved_def andThen_ok insertServer_def readState_def require_def writeState_def
        ret_def split: if_splits)
  have c: "a \<in> set (freeAllocations (ev_locked env attempt) (rv_nodeId rv) s)"
    "s2 = ?s1\<lparr>allocations := updateWhere (\<lambda>b. a_id b = a_id a) (bindPort (s_id ?v)) (allocations s)\<rparr>"
    using claimAllocation_cases [OF cl] by (auto simp: freeAllocations_def bindPort_def [abs_def])
  have "findOrder (pi_orderId inp) s2 \<noteq> None"
    "t = s2\<lparr>orders := updateWhere (\<lambda>r. o_id r = pi_orderId inp) (markProvisioned (s_id ?v)) (orders s2)\<rparr>"
    using up by (auto simp: updateOrder_def act_defs markProvisioned_def [abs_def] split: option.splits)
  with c v ins(2) show ?thesis by (simp add: findOrder_def)
qed

lemma placeServer_ok:
  assumes "placeServer env attempt inp plan template attempted s = (Inr (rv, v, a), t)"
    and "uniqueOn n_id (nodes s)"
  shows "\<exists>n. eligible (ev_now env attempt) (provisionRequest inp plan template attempted) s n \<and>
    rv_nodeId rv = n_id n \<and>
    v = newServer (ev_serverId env attempt) (ev_shortId env attempt) (ev_now env attempt) inp plan
      template (n_id n) \<and> (\<forall>w \<in> set (servers s). s_id w \<noteq> s_id v) \<and>
    a \<in> set (freeAllocations (ev_locked env attempt) (n_id n) s) \<and>
    findOrder (pi_orderId inp) s \<noteq> None \<and>
    t = placedState s (pi_orderId inp) (n_id n) (planAmount plan) v (a_id a)"
proof -
  let ?req = "provisionRequest inp plan template attempted"
  obtain n where n: "eligible (ev_now env attempt) ?req s n"
    "rv = reservationFor (candidateRow n) ?req"
    "onReserved env attempt inp plan template rv (s\<lparr>nodes :=
       updateWhere (\<lambda>m. n_id m = n_id n \<and> hasRoom (requestAmount ?req) m)
         (addReserved (requestAmount ?req)) (nodes s)\<rparr>) = (Inr (v, a), t)"
    by (rule reserveCapacity_cases [OF assms(1) [unfolded placeServer_def]])
  have "n \<in> set (nodes s)" "hasRoom (planAmount plan) n"
    using n(1) eligible_hasRoom [OF n(1)] by (auto simp: eligible_def)
  then have "updateWhere (\<lambda>m. n_id m = n_id n \<and> hasRoom (planAmount plan) m) (addReserved (planAmount plan)) (nodes s)
      = updateWhere (\<lambda>m. n_id m = n_id n) (addReserved (planAmount plan)) (nodes s)"
    by (rule updateWhere_unique [OF assms(2)])
  with n(1,2) onReserved_ok [OF n(3)] show ?thesis
    by (intro exI [of _ n]) (elim conjE, intro conjI,
      simp_all add: reservationFor_def placedState_def freeAllocations_def findOrder_def)
qed

lemma placeServer_throw: "placeServer env attempt inp plan template attempted s = (Inl e, t) \<Longrightarrow> t = s"
  unfolding placeServer_def by (rule reserveCapacity_throw)

lemma findServer_new:
  "(\<forall>w \<in> set (servers s). s_id w \<noteq> s_id v) \<Longrightarrow> findServer (s_id v) (s\<lparr>servers := servers s @ [v]\<rparr>) = Some v"
proof -
  have "List.find (\<lambda>w. s_id w = s_id v) (ws @ [v]) = Some v" if "\<forall>w \<in> set ws. s_id w \<noteq> s_id v" for ws
    using that by (induction ws) auto
  then show ?thesis if "\<forall>w \<in> set (servers s). s_id w \<noteq> s_id v"
    using that by (simp add: findServer_def)
qed

section \<open>A failed build is rolled back exactly\<close>

text \<open>The order of a purchase is not bound to a server.\<close>

definition orderFree :: "ident \<Rightarrow> db \<Rightarrow> bool" where
  "orderFree i s \<longleftrightarrow> (case findOrder i s of None \<Rightarrow> True | Some r \<Rightarrow> o_serverId r = None)"

lemma findOrder_update [simp]:
  "findOrder i (s\<lparr>orders := updateWhere (\<lambda>r. o_id r = j) f (orders s)\<rparr>) =
     List.find (\<lambda>r. o_id r = i) (updateWhere (\<lambda>r. o_id r = j) f (orders s))"
  by (simp add: findOrder_def)

lemma invoice_and_audit_quiet:
  "\<exists>t. andThen (tryCatch (andThen m (\<lambda>_. ret ())) (\<lambda>_. ret ())) (\<lambda>_.
     andThen (audit a b c d) (\<lambda>_. ret v)) s = (Inr v, t)"
  by (cases "m s"; cases "fst (m s)") (auto simp: andThen_def tryCatch_def ret_def)

lemma buildServer_throw:
  assumes "buildServer agent env attempt inp plan template v a s = (Inl e, t)"
    and "findServer (s_id v) s \<noteq> None"
  shows "\<exists>c. t = s\<lparr>calls := c\<rparr>"
proof -
  let ?call = "callAgent agent (s_nodeId v) (Server_create (createSpec v template a (planAmount plan)))"
  obtain r u where ru: "?call s = (r, u)" and u: "\<exists>c. u = s\<lparr>calls := c\<rparr>"
    using callAgent_state by (cases "?call s") blast
  show ?thesis
  proof (cases r)
    case (Inl e')
    with assms(1) ru u show ?thesis by (simp add: buildServer_def andThen_stop)
  next
    case (Inr res)
    obtain w where "findServer (s_id v) u = Some w" using u assms(2) by (auto simp: findServer_def)
    then obtain z where "updateServer (s_id v) (setContainer res) u = (Inr (setContainer res w), z)"
      by (auto simp: updateServer_def andThen_def orThrow_def writeState_def ret_def)
    with ru Inr have "\<exists>t'. buildServer agent env attempt inp plan template v a s = (Inr (setContainer res w), t')"
      unfolding buildServer_def using invoice_and_audit_quiet by (simp add: andThen_step)
    with assms(1) have False by simp
    then show ?thesis ..
  qed
qed

lemma placedState_server:
  "(\<forall>w \<in> set (servers s). s_id w \<noteq> s_id v) \<Longrightarrow> findServer (s_id v) (placedState s oid n a v al) = Some v"
  using findServer_new [of s v] by (simp add: placedState_def findServer_def)

text \<open>The ports of a server that was just placed: freeing them restores the table.\<close>

lemma free_bound_ports:
  assumes "placementWf s" and "al \<in> set (freeAllocations locked n s)"
    and "\<forall>w \<in> set (servers s). s_id w \<noteq> i"
  shows "updateWhere (\<lambda>a. a_serverId a = Some i) (\<lambda>a. a\<lparr>a_serverId := None, a_primary := False\<rparr>)
    (updateWhere (\<lambda>b. a_id b = a_id al) (bindPort i) (allocations s)) = allocations s"
proof -
  have "(if a_serverId c = Some i then c\<lparr>a_serverId := None, a_primary := False\<rparr> else c) = b"
    if "b \<in> set (allocations s)" "c = (if a_id b = a_id al then bindPort i b else b)" for b c
  proof (cases "a_id b = a_id al")
    case True
    with assms(1,2) that(1) have "b = al"
      by (auto simp: placementWf_def freeAllocations_def dest: uniqueOn_eq)
    then have "a_serverId b = None" "\<not> a_primary b"
      using assms(1,2) that(1) by (auto simp: freeAllocations_def placementWf_def split: option.splits)
    with True that(2) show ?thesis by (simp add: bindPort_def)
  next
    case False
    have "a_serverId b \<noteq> Some i"
      using assms(1,3) that(1) by (auto simp: placementWf_def split: option.splits)
    with False that(2) show ?thesis by simp
  qed
  then show ?thesis
    unfolding updateWhere_def by (simp add: comp_def) (rule map_idI, auto)
qed

text \<open>Freed ports name no server, so the cascade of the deletion leaves them alone.\<close>

lemma no_ports_of: "placementWf s \<Longrightarrow> \<forall>w \<in> set (servers s). s_id w \<noteq> i \<Longrightarrow>
  updateWhere (\<lambda>a. a_serverId a = Some i) f (allocations s) = allocations s"
  by (rule updateWhere_idle) (auto simp: placementWf_def split: option.splits)

lemma rollback_exact:
  assumes wf: "placementWf s" and sound: "fleetSound s" and ok: "amountOk (planAmount plan)"
    and el: "eligible now (provisionRequest inp plan template att) s n"
    and fresh: "\<forall>w \<in> set (servers s). s_id w \<noteq> s_id v"
    and al: "al \<in> set (freeAllocations locked (n_id n) s)"
    and order: "findOrder oid s \<noteq> None"
  shows "\<exists>t. rollbackServer oid plan (s_id v) (n_id n)
      (placedState s oid (n_id n) (planAmount plan) v (a_id al)\<lparr>calls := c\<rparr>) = (Inr (), t) \<and>
    samePlacement s t \<and> orderFree oid t \<and> findOrder oid t \<noteq> None"
proof -
  let ?p = "placedState s oid (n_id n) (planAmount plan) v (a_id al)\<lparr>calls := c\<rparr>"
  let ?s1 = "?p\<lparr>allocations := allocations s\<rparr>"
  have fr: "freePorts (s_id v) ?p = (Inr (), ?s1)"
    using free_bound_ports [OF wf al fresh] by (simp add: freePorts_def writeState_def placedState_def)
  have "findServer (s_id v) ?s1 = Some v"
    using placedState_server [OF fresh] by (simp add: findServer_def)
  moreover have "deleteWhere (\<lambda>w. s_id w = s_id v) (servers ?s1) = servers s"
    using fresh by (simp add: placedState_def deleteWhere_append deleteWhere_idle)
  ultimately obtain s2 where del: "deleteServerRow (s_id v) ?s1 = (Inr (), s2)"
    and s2: "servers s2 = servers s" "allocations s2 = allocations s" "nodes s2 = nodes ?p" "orders s2 = orders ?p"
    using no_ports_of [OF wf fresh]
    by (simp add: deleteServerRow_def andThen_def orThrow_def writeState_def)
  have "n \<in> set (nodes s)" "nodeSound n" "hasRoom (planAmount plan) n"
    using el sound eligible_hasRoom [OF el] by (auto simp: eligible_def fleetSound_def)
  then have "updateWhere (\<lambda>m. n_id m = n_id n) (subReserved (planAmount plan)) (nodes ?p) = nodes s"
    using wf undo_reserved [OF _ _ _ ok] by (simp add: placedState_def placementWf_def)
  then have rel: "releaseCapacity (n_id n) (planAmount plan) s2 = (Inr (), s2\<lparr>nodes := nodes s\<rparr>)"
    by (simp add: releaseCapacity_def writeState_def s2)
  obtain r where r: "List.find (\<lambda>q. o_id q = oid) (orders s) = Some r"
    using order by (auto simp: findOrder_def)
  then have "findOrder oid (s2\<lparr>nodes := nodes s\<rparr>) = Some (markProvisioned (s_id v) r)"
    using find_key_in [OF r]
    by (simp add: findOrder_def s2 placedState_def updateWhere_find [where k = o_id] markProvisioned_def)
  then have up: "updateOrder oid (\<lambda>r. r\<lparr>o_status := O_PENDING, o_serverId := None\<rparr>) (s2\<lparr>nodes := nodes s\<rparr>) =
      (Inr (), s2\<lparr>nodes := nodes s, orders := updateWhere (\<lambda>r. o_id r = oid)
        (\<lambda>r. r\<lparr>o_status := O_PENDING, o_serverId := None\<rparr>) (orders s2)\<rparr>)"
    by (simp add: updateOrder_def andThen_def orThrow_def writeState_def)
  have "rollbackServer oid plan (s_id v) (n_id n) ?p =
      (Inr (), s2\<lparr>nodes := nodes s, orders := updateWhere (\<lambda>r. o_id r = oid)
        (\<lambda>r. r\<lparr>o_status := O_PENDING, o_serverId := None\<rparr>) (orders s2)\<rparr>)"
    unfolding rollbackServer_def transaction_ok andThen_ok using fr del rel up by blast
  then show ?thesis using find_key_in [OF r] r
    by (simp add: samePlacement_def s2 orderFree_def findOrder_def updateWhere_find [where k = o_id]
        placedState_def markProvisioned_def)
qed

text \<open>An attempt that fails leaves nodes, servers and ports as they were and the order unbound.\<close>

definition clean :: "ident \<Rightarrow> db \<Rightarrow> db \<Rightarrow> bool" where
  "clean oid s t \<longleftrightarrow> samePlacement s t \<and> orderFree oid t"

lemma clean_trans: "clean oid s t \<Longrightarrow> clean oid t u \<Longrightarrow> clean oid s u"
  by (auto simp: clean_def intro: samePlacement_trans)

lemma clean_audit: "clean oid s t \<Longrightarrow> clean oid s (t\<lparr>auditLog := l\<rparr>)"
  by (simp add: clean_def samePlacement_def orderFree_def findOrder_def)

lemma updateOrder_failed: "orderFree oid s \<Longrightarrow>
   clean oid s (snd (updateOrder oid (\<lambda>r. r\<lparr>o_status := O_FAILED, o_failureReason := Some m\<rparr>) s))"
  by (auto simp: clean_def samePlacement_def updateOrder_def andThen_def orThrow_def writeState_def orderFree_def
      findOrder_def updateWhere_find [where k = o_id] split: option.splits)

lemma failed_build_undone:
  assumes wf: "placementWf s" and sound: "fleetSound s" and ok: "amountOk (planAmount plan)"
    and placed: "placeServer env attempt inp plan template att s = (Inr (rv, v, al), u)"
    and build: "buildServer agent env attempt inp plan template v al u = (Inl x, w)"
  shows "\<exists>t. rollbackServer (pi_orderId inp) plan (s_id v) (rv_nodeId rv) w = (Inr (), t) \<and>
    clean (pi_orderId inp) s t"
proof -
  have "uniqueOn n_id (nodes s)" using wf by (simp add: placementWf_def)
  then obtain n where n: "eligible (ev_now env attempt) (provisionRequest inp plan template att) s n"
    "rv_nodeId rv = n_id n" "\<forall>w \<in> set (servers s). s_id w \<noteq> s_id v"
    "al \<in> set (freeAllocations (ev_locked env attempt) (n_id n) s)"
    "findOrder (pi_orderId inp) s \<noteq> None"
    "u = placedState s (pi_orderId inp) (n_id n) (planAmount plan) v (a_id al)"
    using placeServer_ok [OF placed] by auto
  obtain c where "w = u\<lparr>calls := c\<rparr>"
    using buildServer_throw [OF build] placedState_server [OF n(3)] n(6) by auto
  then show ?thesis
    using rollback_exact [OF wf sound ok n(1,3,4,5), of c] n(2,6) by (auto simp: clean_def)
qed

section \<open>A build that succeeds\<close>

definition provisioned :: "db \<Rightarrow> ProvisionInput \<Rightarrow> Plan \<Rightarrow> Server \<Rightarrow> db \<Rightarrow> bool" where
  "provisioned s inp plan v t \<longleftrightarrow>
     s_status v = OFFLINE \<and> s_ownerId v = pi_ownerId inp \<and> s_planId v = p_id plan \<and>
     serverAmount v = planAmount plan \<and> (\<forall>w \<in> set (servers s). s_id w \<noteq> s_id v) \<and> servers t = servers s @ [v] \<and>
     (\<exists>n \<in> set (nodes s). s_nodeId v = n_id n \<and> hasRoom (planAmount plan) n \<and>
        nodes t = updateWhere (\<lambda>m. n_id m = n_id n) (addReserved (planAmount plan)) (nodes s)) \<and>
     (\<exists>a \<in> set (allocations s). a_nodeId a = s_nodeId v \<and> a_serverId a = None \<and>
        allocations t = updateWhere (\<lambda>b. a_id b = a_id a) (bindPort (s_id v)) (allocations s)) \<and>
     (\<exists>r. findOrder (pi_orderId inp) t = Some r \<and> o_status r = O_PROVISIONED \<and> o_serverId r = Some (s_id v))"

lemma buildServer_ok:
  assumes "buildServer agent env attempt inp plan template v a s = (Inr b, t)"
    and "findServer (s_id v) s = Some v"
  shows "\<exists>res. b = setContainer res v \<and> nodes t = nodes s \<and> allocations t = allocations s \<and>
    orders t = orders s \<and>
    servers t = updateWhere (\<lambda>w. s_id w = s_id v) (setContainer res) (servers s)"
proof -
  obtain res u where c: "callAgent agent (s_nodeId v)
      (Server_create (createSpec v template a (planAmount plan))) s = (Inr res, u)"
    using assms(1) by (auto simp: buildServer_def andThen_ok)
  have u: "u = s\<lparr>calls := calls u\<rparr>" using callAgent_state [OF c] by simp
  let ?u2 = "u\<lparr>servers := updateWhere (\<lambda>w. s_id w = s_id v) (setContainer res) (servers u)\<rparr>"
  have "findServer (s_id v) u = Some v" using assms(2) by (subst u) (simp add: findServer_def)
  then have up: "updateServer (s_id v) (setContainer res) u = (Inr (setContainer res v), ?u2)"
    by (rule updateServer_run)
  let ?tail = "andThen (tryCatch
       (andThen (createInvoiceForServer (ev_invoiceId env attempt) (ev_now env attempt)
          (ev_graceDays env) (s_id (setContainer res v)) (ev_now env attempt)) (\<lambda>_. ret ()))
       (\<lambda>_. ret ())) (\<lambda>_.
     andThen (audit (pi_actorId inp) ''server.provision'' ''server'' (s_id (setContainer res v))) (\<lambda>_.
     ret (setContainer res v)))"
  have tail: "?tail ?u2 = (Inr b, t)"
    using assms(1) c up unfolding buildServer_def by (simp add: andThen_step)
  have b: "b = setContainer res v" using tail invoice_and_audit_quiet by (metis prod.inject sum.inject(2))
  have k: "keeps (\<lambda>s. (nodes s, servers s, allocations s, orders s)) ?tail"
    by (intro keep) simp_all
  have "(nodes t, servers t, allocations t, orders t) = (nodes ?u2, servers ?u2, allocations ?u2, orders ?u2)"
    using keepsD [OF k, of ?u2] by (simp only: tail snd_conv)
  moreover have "nodes ?u2 = nodes s" "allocations ?u2 = allocations s" "orders ?u2 = orders s"
    "servers ?u2 = updateWhere (\<lambda>w. s_id w = s_id v) (setContainer res) (servers s)"
    by (subst u, simp)+
  ultimately show ?thesis using b by auto
qed

lemma placed_and_built:
  assumes uniq: "uniqueOn n_id (nodes s)"
    and placed: "placeServer env attempt inp plan template att s = (Inr (rv, v, al), u)"
    and built: "buildServer agent env attempt inp plan template v al u = (Inr b, t)"
  shows "provisioned s inp plan b t"
proof -
  obtain n where n: "eligible (ev_now env attempt) (provisionRequest inp plan template att) s n"
    "rv_nodeId rv = n_id n" "\<forall>w \<in> set (servers s). s_id w \<noteq> s_id v"
    "al \<in> set (freeAllocations (ev_locked env attempt) (n_id n) s)"
    "findOrder (pi_orderId inp) s \<noteq> None"
    "u = placedState s (pi_orderId inp) (n_id n) (planAmount plan) v (a_id al)"
    "v = newServer (ev_serverId env attempt) (ev_shortId env attempt) (ev_now env attempt) inp plan
      template (n_id n)"
    using placeServer_ok [OF placed uniq] by auto
  obtain res where res: "b = setContainer res v" "nodes t = nodes u" "allocations t = allocations u"
    "orders t = orders u" "servers t = updateWhere (\<lambda>w. s_id w = s_id v) (setContainer res) (servers u)"
    using buildServer_ok [OF built] placedState_server [OF n(3)] n(6) by auto
  obtain r where r: "List.find (\<lambda>q. o_id q = pi_orderId inp) (orders s) = Some r"
    using n(5) by (auto simp: findOrder_def)
  have "servers t = servers s @ [b]"
    using res n(3,6) by (simp add: placedState_def updateWhere_append updateWhere_idle)
  moreover have "findOrder (pi_orderId inp) t = Some (markProvisioned (s_id v) r)"
    using r find_key_in [OF r] res(4) n(6)
    by (simp add: findOrder_def placedState_def updateWhere_find [where k = o_id] markProvisioned_def)
  moreover have "n \<in> set (nodes s)" "hasRoom (planAmount plan) n"
    using n(1) eligible_hasRoom [OF n(1)] by (auto simp: eligible_def)
  moreover have "s_id b = s_id v" "s_nodeId b = n_id n" "s_ownerId b = pi_ownerId inp"
    "s_planId b = p_id plan" "s_status b = OFFLINE" "serverAmount b = planAmount plan"
    using res(1) n(7) by (simp_all add: setContainer_def newServer_def serverAmount_def planAmount_def)
  moreover have "al \<in> set (allocations s)" "a_nodeId al = n_id n" "a_serverId al = None"
    using n(4) by (simp_all add: freeAllocations_def)
  ultimately show ?thesis using n(3,6) res(2,3)
    unfolding provisioned_def by (auto simp: placedState_def markProvisioned_def)
qed

definition outcome :: "db \<Rightarrow> ProvisionInput \<Rightarrow> Plan \<Rightarrow> exn + Server \<Rightarrow> db \<Rightarrow> bool" where
  "outcome s inp plan r t \<longleftrightarrow>
     (case r of Inl e \<Rightarrow> clean (pi_orderId inp) s t | Inr v \<Rightarrow> provisioned s inp plan v t)"

lemma outcome_trans:
  "clean (pi_orderId inp) s t \<Longrightarrow> outcome t inp plan r u \<Longrightarrow> outcome s inp plan r u"
  by (cases r) (auto simp: outcome_def clean_def samePlacement_def provisioned_def)

lemma provisionLoop_outcome:
  assumes "placementWf s" and "fleetSound s" and ok: "amountOk (planAmount plan)"
    and "orderFree (pi_orderId inp) s"
    and "provisionLoop agent env inp plan template attempts att le s = (r, t)"
  shows "outcome s inp plan r t"
  using assms(1,2,4,5)
proof (induction attempts arbitrary: att le s)
  case Nil
  then show ?case
    using updateOrder_failed [OF Nil.prems(3), of le]
    by (auto simp: outcome_def andThen_def throw_def split: prod.splits sum.splits)
next
  case (Cons attempt rest)
  obtain p u where pu: "placeServer env attempt inp plan template att s = (p, u)" by force
  show ?case
  proof (cases p)
    case (Inl x)
    then have "u = s" using pu placeServer_throw by simp
    with pu Inl Cons show ?thesis by (auto simp: outcome_def clean_def split: if_splits)
  next
    case (Inr y)
    then obtain rv v al where placed: "placeServer env attempt inp plan template att s = (Inr (rv, v, al), u)"
      using pu by (cases y) auto
    obtain q w where qw: "buildServer agent env attempt inp plan template v al u = (q, w)" by force
    show ?thesis
    proof (cases q)
      case (Inr b)
      then show ?thesis
        using Cons.prems(1,4) placed qw placed_and_built [OF _ placed]
        by (auto simp: outcome_def placementWf_def)
    next
      case (Inl x)
      then obtain w2 where w2: "rollbackServer (pi_orderId inp) plan (s_id v) (rv_nodeId rv) w = (Inr (), w2)"
        "clean (pi_orderId inp) s w2"
        using failed_build_undone [OF Cons.prems(1,2) ok placed] qw by blast
      let ?w3 = "snd (audit (pi_actorId inp) ''server.provision_failed'' ''order'' (pi_orderId inp) w2)"
      have w3: "clean (pi_orderId inp) s ?w3" using clean_audit [OF w2(2)] by simp
      then have "placementWf ?w3" "fleetSound ?w3" "orderFree (pi_orderId inp) ?w3"
        using Cons.prems(1,2) samePlacement_wf samePlacement_sound unfolding clean_def by blast+
      moreover have "provisionLoop agent env inp plan template rest (att @ [rv_nodeId rv]) (showExn x) ?w3 = (r, t)"
        using Cons.prems(4) placed qw Inl w2(1) by (simp add: andThen_def)
      ultimately show ?thesis using Cons.IH outcome_trans [OF w3] by blast
    qed
  qed
qed

section \<open>Properties of provisioning\<close>

lemma provisionServer_cases:
  assumes "provisionServer agent env inp s = (r, t)"
  shows "(\<exists>plan template. findPlan (pi_planId inp) s = Some plan \<and> orderFree (pi_orderId inp) s \<and>
      provisionLoop agent env inp plan template [0, 1, 2] [] ''undefined'' s = (r, t)) \<or>
    t = s \<and> (\<forall>v. r = Inr v \<longrightarrow> (\<exists>o'. findOrder (pi_orderId inp) s = Some o' \<and>
      o_serverId o' = Some (s_id v) \<and> v \<in> set (servers s)))"
  using assms
  by (auto simp: provisionServer_def andThen_def orThrow_def readState_def orderFree_def
      dest!: findServer_in split: option.splits bind_splits)


text \<open>C4. A purchase that succeeds, after any number of failed attempts, adds exactly one server
  row, stopped and owned by the buyer, takes exactly the plan from one node that had room for it,
  binds exactly one free port of that node, and ties the order to the server.\<close>

theorem provision_success:
  assumes "placementWf s" and "fleetSound s"
    and "findPlan (pi_planId inp) s = Some plan" and "amountOk (planAmount plan)"
    and "orderFree (pi_orderId inp) s"
    and "provisionServer agent env inp s = (Inr v, t)"
  shows "s_status v = OFFLINE \<and> s_ownerId v = pi_ownerId inp \<and> s_planId v = p_id plan \<and>
     serverAmount v = planAmount plan \<and> (\<forall>w \<in> set (servers s). s_id w \<noteq> s_id v) \<and> servers t = servers s @ [v] \<and>
     (\<exists>n \<in> set (nodes s). s_nodeId v = n_id n \<and> hasRoom (planAmount plan) n \<and>
        nodes t = updateWhere (\<lambda>m. n_id m = n_id n) (addReserved (planAmount plan)) (nodes s)) \<and>
     (\<exists>a \<in> set (allocations s). a_nodeId a = s_nodeId v \<and> a_serverId a = None \<and>
        allocations t = updateWhere (\<lambda>b. a_id b = a_id a) (bindPort (s_id v)) (allocations s)) \<and>
     (\<exists>r. findOrder (pi_orderId inp) t = Some r \<and> o_status r = O_PROVISIONED \<and> o_serverId r = Some (s_id v))"
proof -
  obtain template where "provisionLoop agent env inp plan template [0, 1, 2] [] ''undefined'' s = (Inr v, t)"
    using provisionServer_cases [OF assms(6)] assms(3,5) by (auto simp: orderFree_def)
  from provisionLoop_outcome [OF assms(1,2,4,5) this] show ?thesis
    by (simp add: outcome_def provisioned_def)
qed

lemma keeps_placeServer:
  assumes "\<And>s f. g (nodes_update f s) = g s" "\<And>s f. g (servers_update f s) = g s"
    "\<And>s f. g (allocations_update f s) = g s" "\<And>s f. g (orders_update f s) = g s"
  shows "keeps g (placeServer env attempt inp plan template att)"
  unfolding keeps_iff_preserves placeServer_def onReserved_def insertServer_def claimAllocation_def
  by (intro allI preserves_reserveCapacity pres) (auto simp: assms reserveUpdate_def preserves_def)

lemma keeps_buildServer:
  assumes "\<And>s f. g (calls_update f s) = g s" "\<And>s f. g (servers_update f s) = g s"
    "\<And>s f. g (auditLog_update f s) = g s" "\<And>s f. g (invoices_update f s) = g s"
  shows "keeps g (buildServer agent env attempt inp plan template v a)"
  unfolding buildServer_def by (intro keep) (simp_all add: assms)

abbreviation catalogue :: "db \<Rightarrow> Plan list \<times> GameTemplate list" where
  "catalogue s \<equiv> (plans s, templates s)"

lemma keeps_rollbackServer: "keeps catalogue (rollbackServer oid plan i n)"
  unfolding rollbackServer_def freePorts_def releaseCapacity_def deleteServerRow_def
  by (intro keep) simp_all

lemma keeps_provisionLoop: "keeps catalogue (provisionLoop agent env inp plan template attempts att le)"
proof (induction attempts arbitrary: att le)
  case Nil
  show ?case by (simp only: provisionLoop.simps) (intro keep, simp)
next
  case (Cons attempt rest)
  have p: "keeps catalogue (placeServer env attempt inp plan template att)"
    by (rule keeps_placeServer) simp_all
  have b: "keeps catalogue (buildServer agent env attempt inp plan template v a)" for v a
    by (rule keeps_buildServer) simp_all
  show ?case
  proof (rule keepsI)
    fix s
    obtain r u where pu: "placeServer env attempt inp plan template att s = (r, u)" by force
    have u: "catalogue u = catalogue s" using keepsD [OF p, of s] pu by simp
    show "catalogue (snd (provisionLoop agent env inp plan template (attempt # rest) att le s)) = catalogue s"
    proof (cases r)
      case (Inl e)
      with pu u keepsD [OF Cons.IH] show ?thesis by simp
    next
      case (Inr y)
      then obtain rv v a where y: "r = Inr (rv, v, a)" by (cases y) auto
      obtain q w where qw: "buildServer agent env attempt inp plan template v a u = (q, w)" by force
      have w: "catalogue w = catalogue s" using keepsD [OF b, of v a u] qw u by simp
      have undo: "keeps catalogue (andThen (rollbackServer (pi_orderId inp) plan (s_id v) (rv_nodeId rv)) (\<lambda>_.
          andThen (audit (pi_actorId inp) ''server.provision_failed'' ''order'' (pi_orderId inp)) (\<lambda>_.
          provisionLoop agent env inp plan template rest (att @ [rv_nodeId rv]) m)))" for m
        by (intro keep keeps_rollbackServer Cons.IH) simp
      show ?thesis
        using pu y qw w keepsD [OF undo, of _ w] by (cases q) simp_all
    qed
  qed
qed

text \<open>A retried purchase provisions nothing twice: after a call that succeeded, any further
  call for the same order, with whatever agents, clock and ids, returns the same server and
  changes nothing.\<close>

theorem provision_retry:
  assumes "placementWf s" and "fleetSound s" and "uniqueOn s_id (servers s)"
    and "\<forall>plan. findPlan (pi_planId inp) s = Some plan \<longrightarrow> amountOk (planAmount plan)"
    and "provisionServer agent env inp s = (Inr v, t)"
  shows "provisionServer agent' env' inp t = (Inr v, t)"
proof -
  obtain plan template where pt: "findPlan (pi_planId inp) s = Some plan"
    "Option.bind (p_templateId plan) (\<lambda>i. findTemplate i s) = Some template"
    using assms(5) by (auto simp: provisionServer_def andThen_ok orThrow_def split: option.splits)
  have "catalogue t = catalogue s \<and> (\<exists>o'. findOrder (pi_orderId inp) t = Some o' \<and> o_serverId o' = Some (s_id v)) \<and>
    findServer (s_id v) t = Some v"
  proof (cases "orderFree (pi_orderId inp) s")
    case True
    then obtain tm where run: "provisionLoop agent env inp plan tm [0, 1, 2] [] ''undefined'' s = (Inr v, t)"
      using provisionServer_cases [OF assms(5)] pt by (auto simp: orderFree_def)
    then have "provisioned s inp plan v t"
      using provisionLoop_outcome [OF assms(1,2) _ True run] assms(4) pt(1) by (simp add: outcome_def)
    then show ?thesis
      using findServer_new [of s v] keepsD [OF keeps_provisionLoop, of agent env inp plan tm "[0, 1, 2]" "[]" "''undefined''" s] run
      by (auto simp: provisioned_def findServer_def)
  next
    case False
    then have "t = s" and ex: "\<exists>o'. findOrder (pi_orderId inp) s = Some o' \<and>
      o_serverId o' = Some (s_id v) \<and> v \<in> set (servers s)"
      using provisionServer_cases [OF assms(5)] by auto
    then show ?thesis using find_uniqueOn [OF assms(3)] by (auto simp: findServer_def)
  qed
  with pt show ?thesis
    by (auto simp: provisionServer_def andThen_def orThrow_def readState_def findPlan_def findTemplate_def)
qed

section \<open>Deletion\<close>

lemma deleteServerRow_ok: "findServer i s = Some v \<Longrightarrow> \<exists>t. deleteServerRow i s = (Inr (), t) \<and>
    servers t = deleteWhere (\<lambda>w. s_id w = i) (servers s) \<and> nodes t = nodes s \<and>
    allocations t = updateWhere (\<lambda>a. a_serverId a = Some i) (a_serverId_update (\<lambda>_. None)) (allocations s)"
  by (simp add: deleteServerRow_def andThen_def orThrow_def writeState_def)

lemma freed_and_deleted:
  assumes "findServer i s = Some v"
  shows "\<exists>t. transaction (andThen (freePorts i) (\<lambda>_. andThen (deleteServerRow i) (\<lambda>_. releaseCapacity n a))) s = (Inr (), t) \<and>
      servers t = deleteWhere (\<lambda>w. s_id w = i) (servers s) \<and>
      nodes t = updateWhere (\<lambda>m. n_id m = n) (subReserved a) (nodes s) \<and>
      allocations t = updateWhere (\<lambda>a. a_serverId a = Some i) (a_serverId_update (\<lambda>_. None))
        (updateWhere (\<lambda>a. a_serverId a = Some i) (\<lambda>a. a\<lparr>a_serverId := None, a_primary := False\<rparr>) (allocations s))"
proof -
  let ?s1 = "s\<lparr>allocations := updateWhere (\<lambda>a. a_serverId a = Some i)
     (\<lambda>a. a\<lparr>a_serverId := None, a_primary := False\<rparr>) (allocations s)\<rparr>"
  have "freePorts i s = (Inr (), ?s1)" by (simp add: freePorts_def writeState_def)
  moreover obtain u where u: "deleteServerRow i ?s1 = (Inr (), u)"
    "servers u = deleteWhere (\<lambda>w. s_id w = i) (servers s)" "nodes u = nodes s"
    "allocations u = updateWhere (\<lambda>a. a_serverId a = Some i) (a_serverId_update (\<lambda>_. None)) (allocations ?s1)"
    using deleteServerRow_ok [of i ?s1 v] assms by (auto simp: findServer_def)
  moreover have "releaseCapacity n a u = (Inr (), u\<lparr>nodes := updateWhere (\<lambda>m. n_id m = n) (subReserved a) (nodes u)\<rparr>)"
    by (simp add: releaseCapacity_def writeState_def)
  ultimately have "transaction (andThen (freePorts i) (\<lambda>_. andThen (deleteServerRow i) (\<lambda>_. releaseCapacity n a))) s =
      (Inr (), u\<lparr>nodes := updateWhere (\<lambda>m. n_id m = n) (subReserved a) (nodes u)\<rparr>)"
    unfolding transaction_ok andThen_ok by blast
  with u show ?thesis by simp
qed

text \<open>Deleting a server that exists always completes, whatever its node or its databases do.\<close>

lemma deleteServer_completes:
  assumes "findServer i s = Some v" and "uniqueOn s_id (servers s)"
  shows "\<exists>t. deleteServer agent mysql i actor s = (Inr (), t) \<and> servers t = deleteWhere (\<lambda>w. s_id w = i) (servers s) \<and>
    nodes t = updateWhere (\<lambda>n. n_id n = s_nodeId v) (subReserved (serverAmount v)) (nodes s) \<and>
    allocations t = updateWhere (\<lambda>a. a_serverId a = Some i)
      (\<lambda>a. a\<lparr>a_serverId := None, a_primary := False\<rparr>) (allocations s)"
proof -
  have id: "s_id v = i" using findServer_in [OF assms(1)] by simp
  let ?s1 = "s\<lparr>servers := updateWhere (\<lambda>w. s_id w = i) (\<lambda>v. v\<lparr>s_status := DELETING\<rparr>) (servers s)\<rparr>"
  let ?fr = "\<lambda>s. (servers s, nodes s, allocations s)"
  let ?a = "tryCatch (dropAllDatabases mysql i) (\<lambda>_. ret ())"
  let ?b = "tryCatch (andThen (callAgent agent (s_nodeId v) (Server_delete i True)) (\<lambda>_. ret ()))
       (\<lambda>_. audit actor ''server.delete_agent_failed'' ''server'' i)"
  obtain s2 where s2: "?a ?s1 = (Inr (), s2)"
    using tryCatch_ret [of "dropAllDatabases mysql i" ?s1] by (rule exE)
  have "keeps ?fr ?a" by (intro keep) simp_all
  then have f2: "?fr s2 = ?fr ?s1" using keepsD [of ?fr ?a ?s1] s2 by simp
  obtain s3 where s3: "?b s2 = (Inr (), s3)"
    by (cases "callAgent agent (s_nodeId v) (Server_delete i True) s2";
      cases "fst (callAgent agent (s_nodeId v) (Server_delete i True) s2)")
      (auto simp: tryCatch_def andThen_def ret_def)
  have "keeps ?fr ?b" by (intro keep) simp_all
  then have f3: "?fr s3 = ?fr ?s1" using keepsD [of ?fr ?b s2] s3 f2 by simp
  have "findServer i s3 = Some (v\<lparr>s_status := DELETING\<rparr>)"
    using assms(1) id by (simp add: findServer_def f3 [THEN arg_cong, of fst, simplified] updateWhere_find)
  then have "\<exists>t. deleteCommit v s3 = (Inr (), t) \<and> servers t = deleteWhere (\<lambda>w. s_id w = i) (servers s3) \<and>
      nodes t = updateWhere (\<lambda>n. n_id n = s_nodeId v) (subReserved (serverAmount v)) (nodes s3) \<and>
      allocations t = updateWhere (\<lambda>a. a_serverId a = Some i) (a_serverId_update (\<lambda>_. None))
        (updateWhere (\<lambda>a. a_serverId a = Some i) (\<lambda>a. a\<lparr>a_serverId := None, a_primary := False\<rparr>) (allocations s3))"
    unfolding deleteCommit_def id by (rule freed_and_deleted)
  then obtain t where t: "deleteCommit v s3 = (Inr (), t)" "servers t = deleteWhere (\<lambda>w. s_id w = i) (servers s3)"
    "nodes t = updateWhere (\<lambda>n. n_id n = s_nodeId v) (subReserved (serverAmount v)) (nodes s3)"
    "allocations t = updateWhere (\<lambda>a. a_serverId a = Some i) (a_serverId_update (\<lambda>_. None))
        (updateWhere (\<lambda>a. a_serverId a = Some i) (\<lambda>a. a\<lparr>a_serverId := None, a_primary := False\<rparr>) (allocations s3))"
    by blast
  have "deleteWhere (\<lambda>w. s_id w = i) (updateWhere (\<lambda>w. s_id w = i) (\<lambda>v. v\<lparr>s_status := DELETING\<rparr>) ws) =
    deleteWhere (\<lambda>w. s_id w = i) ws" for ws :: "Server list"
    by (induction ws) auto
  moreover have "updateWhere (\<lambda>a. a_serverId a = Some i) (a_serverId_update (\<lambda>_. None))
        (updateWhere (\<lambda>a. a_serverId a = Some i) (\<lambda>a. a\<lparr>a_serverId := None, a_primary := False\<rparr>) as) =
      updateWhere (\<lambda>a. a_serverId a = Some i) (\<lambda>a. a\<lparr>a_serverId := None, a_primary := False\<rparr>) as" for as :: "Allocation list"
    by (induction as) auto
  moreover have "deleteServer agent mysql i actor s = audit actor ''server.delete'' ''server'' i t"
    using assms(1) s2 s3 t(1) unfolding deleteServer_def
    by (simp add: andThen_def orThrow_def updateServer_run)
  ultimately show ?thesis using t(2-4) f3 by (intro exI [of _ "snd (audit actor ''server.delete'' ''server'' i t)"]) simp
qed

text \<open>C5. Deleting a server always completes and gives back what it held: with its node down,
  its agent failing or its database host refusing, exactly the row of the server goes, the
  counters of its node drop by the resources of the row, and every port it held is free again,
  while the other nodes, servers and ports keep what they had.\<close>

theorem deleteServer_releases:
  assumes "findServer i s = Some v" and "uniqueOn s_id (servers s)"
  shows "\<exists>t. deleteServer agent mysql i actor s = (Inr (), t) \<and> findServer i t = None \<and>
    (\<forall>w. w \<in> set (servers t) \<longleftrightarrow> w \<in> set (servers s) \<and> s_id w \<noteq> i) \<and>
    nodes t = updateWhere (\<lambda>n. n_id n = s_nodeId v) (subReserved (serverAmount v)) (nodes s) \<and>
    (\<forall>a \<in> set (allocations t). a_serverId a \<noteq> Some i) \<and>
    (\<forall>a \<in> set (allocations s). a_serverId a \<noteq> Some i \<longrightarrow> a \<in> set (allocations t))"
  using deleteServer_completes [OF assms, of agent mysql actor]
  by (auto simp: findServer_def find_None_iff set_updateWhere)

end
