(* ===== verification/Witnesses.thy ===== *)
theory Witnesses
  imports Samples Provisioning
begin

text \<open>
  The properties applied at concrete inputs: the fleet of \<open>Samples\<close>, one server on it, one
  open invoice, an agent that never answers and one that always does.
\<close>

section \<open>Inputs\<close>

definition sampleServer :: Server where
  "sampleServer = \<lparr>s_id = ''s1'', s_shortId = ''abcd'', s_name = ''mine'', s_ownerId = ''u1'',
     s_nodeId = ''n1'', s_planId = ''p1'', s_templateId = ''t1'', s_status = OFFLINE,
     s_memoryMb = 2048, s_diskMb = 1024, s_cpuCores = 1, s_containerId = Some ''c1'',
     s_environment = [], s_suspended = False, s_createdAt = 0\<rparr>"

definition sampleInvoice :: Invoice where
  "sampleInvoice = \<lparr>i_id = ''i1'', i_number = ''DSH-2024-000001'', i_userId = ''u1'',
     i_serverId = Some ''s1'', i_status = I_OPEN, i_amountCents = 500, i_currency = ''USD'',
     i_periodStart = 0, i_periodEnd = 2678400000, i_dueAt = 259200000, i_paidAt = None,
     i_paymentRef = None\<rparr>"

definition sampleServed :: db where
  "sampleServed = sampleDb\<lparr>servers := [sampleServer]\<rparr>"

definition sampleBilled :: db where
  "sampleBilled = sampleServed\<lparr>invoices := [sampleInvoice]\<rparr>"

definition sampleInput :: ProvisionInput where
  "sampleInput = \<lparr>pi_orderId = ''o1'', pi_ownerId = ''u1'', pi_planId = ''p1'', pi_serverName = ''mine'',
     pi_preferredLocation = None, pi_actorId = None\<rparr>"

definition sampleEnv :: ProvisionEnv where
  "sampleEnv = \<lparr>ev_now = (\<lambda>_. 120000), ev_serverId = showNat, ev_shortId = showNat,
     ev_invoiceId = showNat, ev_locked = (\<lambda>_. []), ev_graceDays = 3\<rparr>"

definition deadAgent :: agent where
  "deadAgent cs n p = Inl (''timeout'', ''no answer'')"

definition goodAgent :: agent where
  "goodAgent cs n p = Inr (emptyReply\<lparr>rp_containerId := Some ''c1''\<rparr>)"

lemmas input_defs = sampleServer_def sampleInvoice_def sampleServed_def sampleBilled_def
  sampleInput_def sampleEnv_def deadAgent_def goodAgent_def sample_defs

lemmas find_defs = findServer_def findPlan_def findTemplate_def findOrder_def findInvoice_def
  findByRef_def findNode_def findBackup_def findUser_def

lemmas provision_defs = provisionServer_def placeServer_def onReserved_def newServer_def
  insertServer_def provisionRequest_def freeAllocations_def claimAllocation_def updateOrder_def
  buildServer_def callAgent_def createSpec_def planAmount_def rollbackServer_def freePorts_def
  deleteServerRow_def releaseCapacity_def subReserved_def defaultEnvironment_def updateServer_def
  updateWhere_def deleteWhere_def

section \<open>Billing\<close>

theorem createInvoice_period_witness:
  "\<exists>v t. createInvoiceForServer ''i9'' 0 3 ''s1'' 0 sampleServed = (Inr v, t) \<and>
     i_amountCents v = 500 \<and> i_dueAt v = 259200000"
proof -
  obtain v t where "createInvoiceForServer ''i9'' 0 3 ''s1'' 0 sampleServed = (Inr v, t)"
    by (simp add: createInvoiceForServer_def insertInvoice_def numberTaken_def find_defs act_defs input_defs)
  then show ?thesis
    using createInvoice_period [of "''i9''" 0 3 "''s1''" 0 sampleServed v t]
    by (auto simp: find_defs input_defs msPerDay_def)
qed

lemma sample_paid: "\<exists>v t. markInvoicePaid 5 ''i1'' ''ref'' sampleBilled = (Inr v, t)"
  by (simp add: markInvoicePaid_def reactivateIfSuspended_def markPaid_def find_defs act_defs input_defs)

theorem markInvoicePaid_idempotent_witness:
  "\<exists>v t. markInvoicePaid 5 ''i1'' ''ref'' sampleBilled = (Inr v, t) \<and>
     markInvoicePaid 9 ''i7'' ''ref'' t = (Inr v, t)"
proof -
  obtain v t where run: "markInvoicePaid 5 ''i1'' ''ref'' sampleBilled = (Inr v, t)"
    using sample_paid by (elim exE)
  have "uniqueOn i_id (invoices sampleBilled)" by (simp add: uniqueOn_def input_defs)
  from markInvoicePaid_idempotent [OF this run, of 9 "''i7''"] run show ?thesis by (intro exI conjI)
qed

theorem webhook_authentic_witness:
  "\<exists>key. Some ''k'' = Some key \<and> key \<noteq> [] \<and> ''kbody'' = key @ ''body''"
proof -
  let ?parse = "\<lambda>_. Some (Some \<lparr>pe_invoiceId = ''i1'', pe_paymentRef = ''ref'', pe_amountCents = 500\<rparr>)"
  obtain r t where "webhook (@) ?parse (Some ''k'') 5 ''kbody'' ''body'' sampleBilled = (r, t)" "t \<noteq> sampleBilled"
    by (simp add: webhook_def markInvoicePaid_def reactivateIfSuspended_def markPaid_def find_defs act_defs
        input_defs Let_def)
  from webhook_authentic [OF this] show ?thesis by simp
qed


section \<open>Provisioning\<close>

lemma sample_placement: "placementWf sampleDb" "fleetSound sampleDb"
  "findPlan ''p1'' sampleDb = Some samplePlan" "amountOk (planAmount samplePlan)" "orderFree ''o1'' sampleDb"
  by (auto simp: placementWf_def uniqueOn_def fleetSound_def counter_defs find_defs planAmount_def
      orderFree_def input_defs)

lemma sampleInput_ids [simp]: "pi_planId sampleInput = ''p1''" "pi_orderId sampleInput = ''o1''"
  by (simp_all add: sampleInput_def)

lemma sample_provision_dead:
  "\<exists>t. provisionServer deadAgent sampleEnv sampleInput sampleDb = (Inl NoCapacityError, t)"
  by (simp add: provision_defs input_defs find_defs schedule_defs audit_def)

lemma sample_provision_good:
  "\<exists>v t. provisionServer goodAgent sampleEnv sampleInput sampleDb = (Inr v, t)"
proof -
  have "\<not> isl (fst (provisionServer goodAgent sampleEnv sampleInput sampleDb))"
    by (simp add: provision_defs input_defs find_defs schedule_defs setContainer_def audit_def
        createInvoiceForServer_def insertInvoice_def numberTaken_def)
  then show ?thesis
    by (cases "provisionServer goodAgent sampleEnv sampleInput sampleDb";
      cases "fst (provisionServer goodAgent sampleEnv sampleInput sampleDb)") auto
qed


theorem provision_success_witness:
  "\<exists>v t. provisionServer goodAgent sampleEnv sampleInput sampleDb = (Inr v, t) \<and>
     servers t = [v] \<and> s_ownerId v = ''u1''"
proof -
  obtain v t where run: "provisionServer goodAgent sampleEnv sampleInput sampleDb = (Inr v, t)"
    using sample_provision_good by blast
  have "servers t = servers sampleDb @ [v]" "s_ownerId v = pi_ownerId sampleInput"
    using provision_success [OF sample_placement(1,2) _ sample_placement(4) _ run] sample_placement(3,5)
    by simp_all
  with run show ?thesis by (auto simp: input_defs)
qed

theorem provision_retry_witness:
  "\<exists>v t. provisionServer deadAgent sampleEnv sampleInput t = (Inr v, t)"
proof -
  obtain v t where run: "provisionServer goodAgent sampleEnv sampleInput sampleDb = (Inr v, t)"
    using sample_provision_good by blast
  have "uniqueOn s_id (servers sampleDb)" by (simp add: uniqueOn_def input_defs)
  then have "provisionServer deadAgent sampleEnv sampleInput t = (Inr v, t)"
    using provision_retry [OF sample_placement(1,2) _ _ run] sample_placement(3,4) by simp
  then show ?thesis by blast
qed

theorem deleteServer_releases_witness:
  "\<exists>t. deleteServer deadAgent (\<lambda>_ _ _. False) ''s1'' None sampleServed = (Inr (), t) \<and>
     findServer ''s1'' t = None"
  using deleteServer_releases [of "''s1''" sampleServed sampleServer deadAgent "\<lambda>_ _ _. False" None]
  by (auto simp: find_defs input_defs uniqueOn_def)

end
