(* ===== verification/Billing.thy ===== *)
theory Billing
  imports Provisioning
begin

text \<open>
  The worker pass of \<open>panel/src/lib/billing.ts\<close>: \<open>runBillingCycle\<close> renews, suspends
  and reclaims, in this order, and the loop of each part goes on after a failure. The clock of
  \<open>nextInvoiceNumber\<close> and the fresh invoice ids are read from an environment, per server.
\<close>

record BillingEnv =
  be_now :: time
  be_clock :: "ident \<Rightarrow> time"
  be_invoiceId :: "ident \<Rightarrow> ident"
  be_graceDays :: int
  be_retentionDays :: int

record Summary =
  sum_invoiced :: nat
  sum_suspended :: nat
  sum_reclaimed :: nat

section \<open>The three passes\<close>

definition invoicesOf :: "ident \<Rightarrow> db \<Rightarrow> Invoice list" where
  "invoicesOf i s = filter (\<lambda>v. i_serverId v = Some i) (invoices s)"

definition dueServers :: "time \<Rightarrow> db \<Rightarrow> Server list" where
  "dueServers now s = filter (\<lambda>v. \<not> s_suspended v \<and> s_status v \<noteq> DELETING \<and>
     (\<forall>iv \<in> set (invoicesOf (s_id v) s). \<not> now < i_periodEnd iv)) (servers s)"

text \<open>\<open>orderBy: { periodEnd: "desc" }, take: 1\<close>\<close>

definition lastPeriodEnd :: "ident \<Rightarrow> db \<Rightarrow> time option" where
  "lastPeriodEnd i s =
     (case invoicesOf i s of [] \<Rightarrow> None | vs \<Rightarrow> Some (Max (i_periodEnd ` set vs)))"

definition renewalStart :: "time \<Rightarrow> Server \<Rightarrow> db \<Rightarrow> time" where
  "renewalStart now v s =
     (case lastPeriodEnd (s_id v) s of
        None \<Rightarrow> now
      | Some previousEnd \<Rightarrow> if s_createdAt v < previousEnd then previousEnd else now)"

definition renewServer :: "BillingEnv \<Rightarrow> ident \<times> time \<Rightarrow> unit act" where
  "renewServer env due =
     tryCatch (andThen (createInvoiceForServer (be_invoiceId env (fst due)) (be_clock env (fst due))
         (be_graceDays env) (fst due) (snd due)) (\<lambda>_. ret ()))
       (\<lambda>_. ret ())"

definition renewPass :: "BillingEnv \<Rightarrow> nat act" where
  "renewPass env =
     andThen (readState (\<lambda>s. map (\<lambda>v. (s_id v, renewalStart (be_now env) v s)) (dueServers (be_now env) s))) (\<lambda>due.
     andThen (forEach due (renewServer env)) (\<lambda>_.
     ret (length due)))"

definition overdueInvoices :: "time \<Rightarrow> db \<Rightarrow> Invoice list" where
  "overdueInvoices now s =
     filter (\<lambda>v. i_status v = I_OPEN \<and> i_dueAt v < now \<and> i_serverId v \<noteq> None) (invoices s)"

definition updateInvoice :: "ident \<Rightarrow> (Invoice \<Rightarrow> Invoice) \<Rightarrow> unit act" where
  "updateInvoice i f =
     andThen (orThrow (NotFoundError ''Invoice'') (findInvoice i)) (\<lambda>_.
     writeState (\<lambda>s. s\<lparr>invoices := updateWhere (\<lambda>v. i_id v = i) f (invoices s)\<rparr>))"

definition suspendOne :: "agent \<Rightarrow> Invoice \<Rightarrow> unit act" where
  "suspendOne agent iv =
     andThen (updateInvoice (i_id iv) (\<lambda>v. v\<lparr>i_status := I_OVERDUE\<rparr>)) (\<lambda>_.
     tryCatch (suspendServer agent (the (i_serverId iv))) (\<lambda>_. ret ()))"

definition suspendPass :: "agent \<Rightarrow> BillingEnv \<Rightarrow> nat act" where
  "suspendPass agent env =
     andThen (readState (overdueInvoices (be_now env))) (\<lambda>overdue.
     andThen (forEach overdue (suspendOne agent)) (\<lambda>_.
     ret (length overdue)))"

definition abandonedInvoices :: "time \<Rightarrow> db \<Rightarrow> Invoice list" where
  "abandonedInvoices reclaimBefore s =
     filter (\<lambda>v. i_status v = I_OVERDUE \<and> i_dueAt v < reclaimBefore \<and> i_serverId v \<noteq> None) (invoices s)"

definition reclaimOne :: "agent \<Rightarrow> mysql \<Rightarrow> Invoice \<Rightarrow> unit act" where
  "reclaimOne agent mysql iv =
     andThen (tryCatch (deleteServer agent mysql (the (i_serverId iv)) None) (\<lambda>_. ret ())) (\<lambda>_.
     audit None ''server.reclaim'' ''server'' (the (i_serverId iv)))"

definition reclaimPass :: "agent \<Rightarrow> mysql \<Rightarrow> BillingEnv \<Rightarrow> nat act" where
  "reclaimPass agent mysql env =
     andThen (readState (abandonedInvoices (be_now env - be_retentionDays env * msPerDay))) (\<lambda>abandoned.
     andThen (forEach abandoned (reclaimOne agent mysql)) (\<lambda>_.
     ret (length abandoned)))"

definition runBillingCycle :: "agent \<Rightarrow> mysql \<Rightarrow> BillingEnv \<Rightarrow> Summary act" where
  "runBillingCycle agent mysql env =
     andThen (renewPass env) (\<lambda>invoiced.
     andThen (suspendPass agent env) (\<lambda>suspended.
     andThen (reclaimPass agent mysql env) (\<lambda>reclaimed.
     ret \<lparr>sum_invoiced = invoiced, sum_suspended = suspended, sum_reclaimed = reclaimed\<rparr>)))"

section \<open>Numbers in sequence\<close>

lemma digitsValue_padStart [simp]: "digitsValue (padStart k (CHR ''0'') s) = digitsValue s"
  by (simp add: padStart_def)

lemma padStart_digits: "list_all isDigit (padStart k (CHR ''0'') (showNat n))"
  using showNat_digits by (auto simp: padStart_def list_all_iff)

lemma dash_split:
  assumes "a @ CHR ''-'' # b = c @ CHR ''-'' # d" and "list_all isDigit b" and "list_all isDigit d"
  shows "b = d"
proof -
  have no: "takeWhile (\<lambda>x. x \<noteq> CHR ''-'') (rev (a @ CHR ''-'' # b)) = rev b" if "list_all isDigit b" for a b
    using that by (subst rev_append, simp, subst takeWhile_append2) (auto simp: list_all_iff)
  show ?thesis using no [OF assms(2), of a] no [OF assms(3), of c] assms(1) by simp
qed

lemma invoiceNumber_inj: "invoiceNumber t k = invoiceNumber u j \<Longrightarrow> k = j"
proof -
  assume "invoiceNumber t k = invoiceNumber u j"
  then have "(''DSH-'' @ showInt (getUTCFullYear t)) @ CHR ''-'' # padStart 6 (CHR ''0'') (showNat k) =
    (''DSH-'' @ showInt (getUTCFullYear u)) @ CHR ''-'' # padStart 6 (CHR ''0'') (showNat j)"
    by (simp add: invoiceNumber_def)
  then have "padStart 6 (CHR ''0'') (showNat k) = padStart 6 (CHR ''0'') (showNat j)"
    by (rule dash_split [OF _ padStart_digits padStart_digits])
  then show "k = j" by (metis digitsValue_padStart digitsValue_showNat)
qed
section \<open>What a pass leaves alone\<close>

text \<open>Nothing happens to the row of server \<open>i\<close> nor to its invoices.\<close>

definition untouched :: "ident \<Rightarrow> Server \<Rightarrow> Invoice list \<Rightarrow> db \<Rightarrow> bool" where
  "untouched i v ivs s \<longleftrightarrow> findServer i s = Some v \<and> invoicesOf i s = ivs \<and>
     (\<forall>iv \<in> set (invoices s). i_id iv \<in> i_id ` set ivs \<longrightarrow> i_serverId iv = Some i)"

lemma untouched_frames [simp]:
  "untouched i v ivs (auditLog_update f1 s) = untouched i v ivs s"
  "untouched i v ivs (calls_update f2 s) = untouched i v ivs s"
  "untouched i v ivs (sqlLog_update f3 s) = untouched i v ivs s"
  "untouched i v ivs (nodes_update f4 s) = untouched i v ivs s"
  "untouched i v ivs (allocations_update f5 s) = untouched i v ivs s"
  "untouched i v ivs (serverDatabases_update f6 s) = untouched i v ivs s"
  by (simp_all add: untouched_def findServer_def invoicesOf_def)

lemma find_other_update:
  fixes rows :: "Server list"
  shows "i \<noteq> j \<Longrightarrow> (\<And>w. s_id (f w) = s_id w) \<Longrightarrow> List.find (\<lambda>w. s_id w = i) (updateWhere (\<lambda>w. s_id w = j) f rows) =
     List.find (\<lambda>w. s_id w = i) rows"
  by (induction rows) auto

lemma find_other_delete:
  fixes rows :: "Server list"
  shows "i \<noteq> j \<Longrightarrow> List.find (\<lambda>w. s_id w = i) (deleteWhere (\<lambda>w. s_id w = j) rows) = List.find (\<lambda>w. s_id w = i) rows"
  by (induction rows) auto

lemma untouched_updateServer:
  assumes "i \<noteq> j" and "\<And>w. s_id (f w) = s_id w"
  shows "preserves (untouched i v ivs) (updateServer j f)"
  using find_other_update [OF assms]
  by (auto simp: updateServer_def untouched_def findServer_def invoicesOf_def preserves_def act_defs split: option.splits)

lemma untouched_suspendServer:
  assumes "i \<noteq> j" shows "preserves (untouched i v ivs) (suspendServer agent j)"
  unfolding suspendServer_def using assms by (intro pres untouched_updateServer) simp_all

lemma untouched_insertInvoice:
  "i_serverId iv \<noteq> Some i \<Longrightarrow> i_id iv \<notin> i_id ` set ivs \<Longrightarrow> preserves (untouched i v ivs) (insertInvoice iv)"
  by (auto simp: insertInvoice_def preserves_def act_defs untouched_def findServer_def invoicesOf_def)

lemma untouched_createInvoice:
  assumes "i \<noteq> j" and "k \<notin> i_id ` set ivs" shows "preserves (untouched i v ivs) (createInvoiceForServer k now gd j st)"
  unfolding createInvoiceForServer_def
  by (rule preserves_orThrow_found) (use assms in \<open>auto intro!: pres untouched_insertInvoice dest: findServer_in\<close>)

lemma filter_other_update:
  "(\<And>r. r \<in> set rows \<Longrightarrow> p r \<Longrightarrow> \<not> q r) \<Longrightarrow> (\<And>r. p r \<Longrightarrow> q (f r) = q r) \<Longrightarrow>
   filter q (updateWhere p f rows) = filter q rows"
  by (induction rows) auto

lemma untouched_deleteRow:
  assumes "i \<noteq> j" shows "preserves (untouched i v ivs) (deleteServerRow j)"
proof -
  have "filter (\<lambda>v. i_serverId v = Some i) (updateWhere (\<lambda>v. i_serverId v = Some j) (i_serverId_update (\<lambda>_. None)) vs) =
    filter (\<lambda>v. i_serverId v = Some i) vs" for vs :: "Invoice list"
    using assms by (induction vs) auto
  then show ?thesis
    using find_other_delete [OF assms] assms
    by (auto simp: deleteServerRow_def preserves_def act_defs untouched_def findServer_def invoicesOf_def
        set_updateWhere split: option.splits)
qed

lemma untouched_deleteServer:
  assumes "i \<noteq> j" shows "preserves (untouched i v ivs) (deleteServer agent mysql j actor)"
  unfolding deleteServer_def
proof (rule preserves_orThrow_found)
  fix w s assume "findServer j s = Some w"
  then have "s_id w = j" using findServer_in by blast
  have "preserves (untouched i v ivs) (dropAllDatabases mysql j)"
    using keeps_dropAllDatabases [of "untouched i v ivs" mysql j] by (simp add: preserves_def keeps_def)
  then show "preserves (untouched i v ivs) (andThen (updateServer j (\<lambda>v. v\<lparr>s_status := DELETING\<rparr>)) (\<lambda>_.
     andThen (tryCatch (dropAllDatabases mysql j) (\<lambda>_. ret ())) (\<lambda>_.
     andThen (tryCatch
       (andThen (callAgent agent (s_nodeId w) (Server_delete j True)) (\<lambda>_. ret ()))
       (\<lambda>_. audit actor ''server.delete_agent_failed'' ''server'' j)) (\<lambda>_.
     andThen (deleteCommit w) (\<lambda>_.
     audit actor ''server.delete'' ''server'' j)))))"
    unfolding deleteCommit_def freePorts_def releaseCapacity_def \<open>s_id w = j\<close>
    using assms by (intro pres untouched_updateServer untouched_deleteRow) simp_all
qed

lemma untouched_updateInvoice:
  assumes "k \<notin> i_id ` set ivs" and "\<And>w. i_id (f w) = i_id w \<and> i_serverId (f w) = i_serverId w"
  shows "preserves (untouched i v ivs) (updateInvoice k f)"
proof -
  have filter_same: "filter (\<lambda>v. i_serverId v = Some i) (updateWhere (\<lambda>v. i_id v = k) f vs) = filter (\<lambda>v. i_serverId v = Some i) vs"
    if "\<forall>w \<in> set vs. i_serverId w = Some i \<longrightarrow> i_id w \<noteq> k" for vs
    using that assms(2) by (intro filter_other_update) auto
  have keep: "untouched i v ivs (s\<lparr>invoices := updateWhere (\<lambda>v. i_id v = k) f (invoices s)\<rparr>)"
    if u: "untouched i v ivs s" for s
  proof -
    have ids: "\<forall>w \<in> set (invoices s). i_id w \<in> i_id ` set ivs \<longrightarrow> i_serverId w = Some i"
      and ivs: "filter (\<lambda>v. i_serverId v = Some i) (invoices s) = ivs"
      and v: "findServer i s = Some v"
      using u by (auto simp: untouched_def invoicesOf_def)
    have "\<forall>w \<in> set (invoices s). i_serverId w = Some i \<longrightarrow> i_id w \<noteq> k" using assms(1) ivs by auto
    moreover have "i_serverId w = Some i"
      if "w \<in> set (updateWhere (\<lambda>v. i_id v = k) f (invoices s))" "i_id w \<in> i_id ` set ivs" for w
      using that ids assms by (auto simp: set_updateWhere simp del: image_iff)
    ultimately show ?thesis using v ivs by (simp add: untouched_def findServer_def invoicesOf_def filter_same)
  qed
  then show ?thesis unfolding updateInvoice_def
    by (intro preserves_andThen preserves_orThrow preserves_writeState keep)
qed

lemma untouched_invoice:
  "untouched i v ivs s \<Longrightarrow> iv \<in> set (invoices s) \<Longrightarrow> iv \<notin> set ivs \<Longrightarrow>
   i_serverId iv \<noteq> Some i \<and> i_id iv \<notin> i_id ` set ivs"
  by (auto simp: untouched_def invoicesOf_def)

section \<open>Paid-up servers\<close>

definition paidUp :: "BillingEnv \<Rightarrow> Invoice list \<Rightarrow> bool" where
  "paidUp env ivs \<longleftrightarrow> (\<exists>iv \<in> set ivs. be_now env < i_periodEnd iv) \<and>
     (\<forall>iv \<in> set ivs. i_status iv = I_OPEN \<or> i_status iv = I_OVERDUE \<longrightarrow> be_now env \<le> i_dueAt iv)"

lemma untouched_renewPass:
  assumes "paidUp env ivs" and "\<forall>j. be_invoiceId env j \<notin> i_id ` set ivs"
  shows "preserves (untouched i v ivs) (renewPass env)"
  unfolding renewPass_def
proof (rule preserves_read_state)
  fix s assume "untouched i v ivs s"
  then have "\<forall>w \<in> set (dueServers (be_now env) s). i \<noteq> s_id w"
    using assms(1) by (auto simp: untouched_def dueServers_def paidUp_def)
  then show "preserves (untouched i v ivs)
    (andThen (forEach (map (\<lambda>v. (s_id v, renewalStart (be_now env) v s)) (dueServers (be_now env) s)) (renewServer env))
      (\<lambda>_. ret (length (map (\<lambda>v. (s_id v, renewalStart (be_now env) v s)) (dueServers (be_now env) s)))))"
    unfolding renewServer_def using assms(2)
    by (intro pres preserves_forEach untouched_createInvoice) auto
qed

lemma untouched_suspendPass:
  assumes "paidUp env ivs" shows "preserves (untouched i v ivs) (suspendPass agent env)"
  unfolding suspendPass_def
proof (rule preserves_read_state)
  fix s assume s: "untouched i v ivs s"
  have "preserves (untouched i v ivs) (suspendOne agent iv)" if "iv \<in> set (overdueInvoices (be_now env) s)" for iv
  proof -
    have "iv \<notin> set ivs" using assms that by (auto simp: paidUp_def overdueInvoices_def)
    with s that have "i_serverId iv \<noteq> Some i" "i_id iv \<notin> i_id ` set ivs" "i_serverId iv \<noteq> None"
      using untouched_invoice [OF s] by (auto simp: overdueInvoices_def)
    then show ?thesis unfolding suspendOne_def
      by (intro pres untouched_updateInvoice untouched_suspendServer) auto
  qed
  then show "preserves (untouched i v ivs) (andThen (forEach (overdueInvoices (be_now env) s) (suspendOne agent))
      (\<lambda>_. ret (length (overdueInvoices (be_now env) s))))"
    by (intro pres preserves_forEach)
qed

lemma untouched_reclaimPass:
  assumes "paidUp env ivs" and "0 \<le> be_retentionDays env"
  shows "preserves (untouched i v ivs) (reclaimPass agent mysql env)"
  unfolding reclaimPass_def
proof (rule preserves_read_state)
  let ?before = "be_now env - be_retentionDays env * msPerDay"
  have before: "?before \<le> be_now env" using assms(2) by (simp add: msPerDay_def)
  fix s assume s: "untouched i v ivs s"
  have "preserves (untouched i v ivs) (reclaimOne agent mysql iv)" if "iv \<in> set (abandonedInvoices ?before s)" for iv
  proof -
    have "iv \<notin> set ivs" using assms(1) that before by (auto simp: paidUp_def abandonedInvoices_def)
    with s that have "i_serverId iv \<noteq> Some i" "i_serverId iv \<noteq> None"
      using untouched_invoice [OF s] by (auto simp: abandonedInvoices_def)
    then show ?thesis unfolding reclaimOne_def
      by (intro pres untouched_deleteServer) auto
  qed
  then show "preserves (untouched i v ivs) (andThen (forEach (abandonedInvoices ?before s) (reclaimOne agent mysql))
      (\<lambda>_. ret (length (abandonedInvoices ?before s))))"
    by (intro pres preserves_forEach)
qed

text \<open>C8. A customer who is paid up is never touched by the billing cycle: if some invoice of the
  server covers the present moment and no unpaid one is past its due date, the cycle leaves the
  row of the server and its invoices exactly as they were, whatever it does to the others.\<close>

theorem paid_up_server_untouched:
  assumes "findServer i s = Some v" and "paidUp env (invoicesOf i s)"
    and "uniqueOn i_id (invoices s)" and "0 \<le> be_retentionDays env"
    and "\<forall>j. be_invoiceId env j \<notin> i_id ` set (invoices s)"
  shows "findServer i (snd (runBillingCycle agent mysql env s)) = Some v \<and>
    invoicesOf i (snd (runBillingCycle agent mysql env s)) = invoicesOf i s"
proof -
  have "untouched i v (invoicesOf i s) s"
    using assms(1,3) by (auto simp: untouched_def invoicesOf_def dest: uniqueOn_eq)
  moreover have "\<forall>j. be_invoiceId env j \<notin> i_id ` set (invoicesOf i s)"
    using assms(5) by (auto simp: invoicesOf_def)
  moreover have "preserves (untouched i v (invoicesOf i s)) (runBillingCycle agent mysql env)"
    if "\<forall>j. be_invoiceId env j \<notin> i_id ` set (invoicesOf i s)"
    unfolding runBillingCycle_def
    by (intro pres untouched_renewPass untouched_suspendPass untouched_reclaimPass assms(2,4) that)
  ultimately have "untouched i v (invoicesOf i s) (snd (runBillingCycle agent mysql env s))"
    by (blast intro: preservesD)
  then show ?thesis by (simp add: untouched_def)
qed

section \<open>The suspension pass catches every debtor\<close>

lemma suspendServer_quiet: "\<exists>t. tryCatch (suspendServer agent j) (\<lambda>_. ret ()) s = (Inr (), t)"
  by (rule tryCatch_ret)

definition isSuspended :: "ident \<Rightarrow> db \<Rightarrow> bool" where
  "isSuspended j s \<longleftrightarrow> (\<exists>v. findServer j s = Some v \<and> s_suspended v)"

definition hasTemplate :: "ident \<Rightarrow> db \<Rightarrow> bool" where
  "hasTemplate j s \<longleftrightarrow> (\<exists>v tm. findServer j s = Some v \<and> findTemplate (s_templateId v) s = Some tm)"

definition suspendMark :: "Server \<Rightarrow> Server" where
  "suspendMark v = v\<lparr>s_suspended := True, s_status := SUSPENDED\<rparr>"

lemma suspendServer_cases:
  "\<exists>c l. snd (suspendServer agent k s) = s\<lparr>calls := c, auditLog := l\<rparr> \<or>
     snd (suspendServer agent k s) = s\<lparr>calls := c, auditLog := l,
       servers := updateWhere (\<lambda>v. s_id v = k) suspendMark (servers s)\<rparr>"
proof (cases "findServer k s")
  case None
  then have "snd (suspendServer agent k s) = s" by (simp add: suspendServer_def act_defs)
  then show ?thesis by (intro exI [of _ "calls s"] exI [of _ "auditLog s"] disjI1) simp
next
  case (Some v)
  show ?thesis
  proof (cases "findTemplate (s_templateId v) s = None \<or> s_suspended v")
    case True
    then have "snd (suspendServer agent k s) = s" using Some
      by (auto simp: suspendServer_def act_defs split: option.splits)
    then show ?thesis by (intro exI [of _ "calls s"] exI [of _ "auditLog s"] disjI1) simp
  next
    case False
    then obtain tm where tm: "findTemplate (s_templateId v) s = Some tm" "\<not> s_suspended v" by auto
    show ?thesis
      unfolding suspendServer_run [OF Some tm] suspendMark_def [abs_def] snd_conv
      by (intro exI [of _ "calls s @ [(s_nodeId v, Server_stop k (Some (t_stopCommand tm)) (Some 30))]"]
        exI [of _ "auditLog s @ [\<lparr>au_actorId = None, au_action = ''server.suspend'',
          au_targetType = ''server'', au_targetId = k\<rparr>]"] disjI2) simp
  qed
qed

lemma suspendMark_simps [simp]:
  "s_id (suspendMark v) = s_id v" "s_templateId (suspendMark v) = s_templateId v" "s_suspended (suspendMark v)"
  by (simp_all add: suspendMark_def)

lemma find_suspendMark:
  "List.find (\<lambda>v. s_id v = j) (updateWhere (\<lambda>v. s_id v = k) suspendMark vs) =
     map_option (\<lambda>v. if s_id v = k then suspendMark v else v) (List.find (\<lambda>v. s_id v = j) vs)"
  by (rule updateWhere_find) simp

lemma suspendOne_keeps:
  "preserves (isSuspended j) (suspendOne agent iv)" "preserves (hasTemplate j) (suspendOne agent iv)"
proof -
  have "isSuspended j (snd (suspendServer agent k s))" if "isSuspended j s" for k s
    using suspendServer_cases [of agent k s] that
    by (auto simp: isSuspended_def findServer_def find_suspendMark)
  moreover have "hasTemplate j (snd (suspendServer agent k s))" if "hasTemplate j s" for k s
    using suspendServer_cases [of agent k s] that
    by (auto simp: hasTemplate_def findServer_def findTemplate_def find_suspendMark)
  moreover have "isSuspended j (invoices_update f s) = isSuspended j s"
    "hasTemplate j (invoices_update f s) = hasTemplate j s" for f s
    by (simp_all add: isSuspended_def hasTemplate_def findServer_def findTemplate_def)
  ultimately show "preserves (isSuspended j) (suspendOne agent iv)" "preserves (hasTemplate j) (suspendOne agent iv)"
    unfolding suspendOne_def updateInvoice_def by (intro pres preservesI; simp)+
qed

lemma suspendOne_ids: "keeps (\<lambda>s. map i_id (invoices s)) (suspendOne agent iv)"
proof -
  have "map i_id (updateWhere (\<lambda>v. i_id v = k) (\<lambda>v. v\<lparr>i_status := I_OVERDUE\<rparr>) vs) = map i_id vs" for k and vs :: "Invoice list"
    by (rule map_updateWhere) simp
  then show ?thesis unfolding suspendOne_def updateInvoice_def
    by (intro keep keeps_suspendServer) simp_all
qed

lemma suspendOne_run:
  assumes "i_id iv \<in> i_id ` set (invoices s)" and "i_serverId iv = Some j" and "hasTemplate j s"
  shows "\<exists>t. suspendOne agent iv s = (Inr (), t) \<and> isSuspended j t"
proof -
  obtain w where w: "findInvoice (i_id iv) s = Some w"
    using assms(1) find_None_iff_key [of i_id "i_id iv" "invoices s"] by (auto simp: findInvoice_def)
  let ?s1 = "s\<lparr>invoices := updateWhere (\<lambda>v. i_id v = i_id iv) (\<lambda>v. v\<lparr>i_status := I_OVERDUE\<rparr>) (invoices s)\<rparr>"
  obtain v tm where v: "findServer j ?s1 = Some v" "findTemplate (s_templateId v) ?s1 = Some tm"
    using assms(3) by (auto simp: hasTemplate_def findServer_def findTemplate_def)
  have "isSuspended j (snd (suspendServer agent j ?s1))"
  proof (cases "s_suspended v")
    case True
    then show ?thesis using v by (simp add: suspendServer_def act_defs isSuspended_def)
  next
    case False
    have "s_id v = j" using findServer_in [OF v(1)] by simp
    then show ?thesis
      using suspendServer_run [OF v False, of agent] v(1)
      by (simp add: isSuspended_def findServer_def updateWhere_find)
  qed
  moreover have "fst (suspendServer agent j ?s1) = Inr ()"
    using v suspendServer_run [OF v, of agent] by (cases "s_suspended v") (simp_all add: suspendServer_def act_defs)
  ultimately have "tryCatch (suspendServer agent j) (\<lambda>_. ret ()) ?s1 = (Inr (), snd (suspendServer agent j ?s1)) \<and>
      isSuspended j (snd (suspendServer agent j ?s1))"
    by (cases "suspendServer agent j ?s1") (simp add: tryCatch_def)
  then show ?thesis
    using w assms(2) by (simp add: suspendOne_def updateInvoice_def andThen_def orThrow_def writeState_def)
qed

text \<open>No debtor is missed: the suspension pass completes on every invoice it found, marks each
  of them overdue, and every server with an open invoice past its due date is suspended when it
  ends, nodes that do not answer included.\<close>

theorem suspendPass_complete:
  assumes "\<forall>iv \<in> set (overdueInvoices (be_now env) s). hasTemplate (the (i_serverId iv)) s"
  shows "fst (suspendPass agent env s) = Inr (length (overdueInvoices (be_now env) s)) \<and>
    (\<forall>iv \<in> set (overdueInvoices (be_now env) s). isSuspended (the (i_serverId iv)) (snd (suspendPass agent env s)))"
proof -
  have main: "\<exists>t. forEach ivs (suspendOne agent) u = (Inr (), t) \<and> (\<forall>iv \<in> set ivs. isSuspended (the (i_serverId iv)) t)"
    if "\<forall>iv \<in> set ivs. i_serverId iv \<noteq> None \<and> hasTemplate (the (i_serverId iv)) u \<and> i_id iv \<in> i_id ` set (invoices u)" for ivs u
    using that
  proof (induction ivs arbitrary: u)
    case Nil
    then show ?case by simp
  next
    case (Cons iv ivs)
    obtain w where w: "suspendOne agent iv u = (Inr (), w)" "isSuspended (the (i_serverId iv)) w"
      using suspendOne_run [of iv u "the (i_serverId iv)" agent] Cons.prems by auto
    have ids: "set (map i_id (invoices w)) = set (map i_id (invoices u))"
      using keepsD [OF suspendOne_ids, of agent iv u] w(1) by simp
    have "hasTemplate j w" if "hasTemplate j u" for j
      using preservesD [OF suspendOne_keeps(2) that, of agent iv] w(1) by simp
    with Cons.prems ids obtain t where t: "forEach ivs (suspendOne agent) w = (Inr (), t)"
      "\<forall>iv \<in> set ivs. isSuspended (the (i_serverId iv)) t"
      using Cons.IH [of w] by auto
    have "isSuspended (the (i_serverId iv)) t"
      using preservesD [OF preserves_forEach [of ivs "isSuspended _" "suspendOne agent"] w(2)] suspendOne_keeps(1) t(1)
      by (metis snd_conv)
    with w t show ?case by auto
  qed
  have "\<forall>iv \<in> set (overdueInvoices (be_now env) s). i_serverId iv \<noteq> None \<and>
      hasTemplate (the (i_serverId iv)) s \<and> i_id iv \<in> i_id ` set (invoices s)"
    using assms by (auto simp: overdueInvoices_def)
  from main [OF this] show ?thesis
    by (auto simp: suspendPass_def andThen_def readState_def ret_def)
qed

section \<open>Renewal bills everyone once\<close>

definition numbersBelow :: "db \<Rightarrow> bool" where
  "numbersBelow s \<longleftrightarrow> (\<forall>iv \<in> set (invoices s). \<exists>t k. i_number iv = invoiceNumber t k \<and> k \<le> length (invoices s))"

lemma nextInvoiceNumber_sequential:
  assumes "numbersBelow s"
  shows "nextInvoiceNumber now s = invoiceNumber now (length (invoices s) + 1)"
    and "\<not> numberTaken (nextInvoiceNumber now s) s"
proof -
  have "k \<noteq> length (invoices s) + 1" if "k \<le> length (invoices s)" for k using that by simp
  then have free: "\<not> numberTaken (invoiceNumber now (length (invoices s) + 1)) s"
    using assms invoiceNumber_inj unfolding numbersBelow_def numberTaken_def image_iff by metis
  have "[0..<5] = 0 # [1..<5::nat]" by (simp add: upt_rec)
  with free show "nextInvoiceNumber now s = invoiceNumber now (length (invoices s) + 1)"
    by (simp add: nextInvoiceNumber_def Let_def)
  with free show "\<not> numberTaken (nextInvoiceNumber now s) s" by simp
qed

lemma numbersBelow_append:
  assumes "numbersBelow s" and "i_number iv = invoiceNumber now (length (invoices s) + 1)"
  shows "numbersBelow (s\<lparr>invoices := invoices s @ [iv]\<rparr>)"
proof -
  have all: "\<exists>t k. i_number w = invoiceNumber t k \<and> k \<le> length (invoices s @ [iv])" if "w \<in> set (invoices s @ [iv])" for w
  proof (cases "w \<in> set (invoices s)")
    case True
    then obtain t k where "i_number w = invoiceNumber t k" "k \<le> length (invoices s)"
      using assms(1) unfolding numbersBelow_def by blast
    then show ?thesis by (intro exI [of _ t] exI [of _ k]) simp
  next
    case False
    with that have "w = iv" by simp
    with assms(2) show ?thesis by (intro exI [of _ now] exI [of _ "length (invoices s) + 1"]) simp
  qed
  have eq: "invoices (s\<lparr>invoices := invoices s @ [iv]\<rparr>) = invoices s @ [iv]" by simp
  show ?thesis unfolding numbersBelow_def eq by (intro ballI all)
qed

lemma createInvoice_ok:
  assumes "numbersBelow s" and "findServer i s = Some v" and "findPlan (s_planId v) s = Some p"
  shows "\<exists>iv. createInvoiceForServer fresh now gd i st s = (Inr iv, s\<lparr>invoices := invoices s @ [iv]\<rparr>) \<and>
    i_serverId iv = Some i \<and> i_periodStart iv = st \<and> \<not> numberTaken (i_number iv) s \<and>
    numbersBelow (s\<lparr>invoices := invoices s @ [iv]\<rparr>)"
proof -
  let ?iv = "\<lparr>i_id = fresh, i_number = nextInvoiceNumber now s, i_userId = s_ownerId v,
       i_serverId = Some (s_id v), i_status = I_OPEN, i_amountCents = p_monthlyPriceCents p,
       i_currency = p_currency p, i_periodStart = st, i_periodEnd = periodEndOf st,
       i_dueAt = dueAtOf gd st, i_paidAt = None, i_paymentRef = None\<rparr>"
  have "createInvoiceForServer fresh now gd i st s = insertInvoice ?iv s"
    using assms by (simp add: createInvoiceForServer_def andThen_def orThrow_def readState_def)
  also have "\<dots> = (Inr ?iv, s\<lparr>invoices := invoices s @ [?iv]\<rparr>)"
    using nextInvoiceNumber_sequential(2) [OF assms(1)]
    by (simp add: insertInvoice_def andThen_def readState_def require_def writeState_def ret_def)
  moreover have "numbersBelow (s\<lparr>invoices := invoices s @ [?iv]\<rparr>)"
    using assms(1) by (rule numbersBelow_append) (simp add: nextInvoiceNumber_sequential(1) [OF assms(1)])
  ultimately show ?thesis
    using findServer_in [OF assms(2)] nextInvoiceNumber_sequential(2) [OF assms(1)]
    by (intro exI [of _ ?iv]) simp
qed

definition billable :: "db \<Rightarrow> ident \<Rightarrow> bool" where
  "billable s i \<longleftrightarrow> (\<exists>v p. findServer i s = Some v \<and> findPlan (s_planId v) s = Some p)"

lemma billable_invoices [simp]: "billable (s\<lparr>invoices := x\<rparr>) i = billable s i"
  by (simp add: billable_def findServer_def findPlan_def)

lemma renew_loop:
  "numbersBelow s \<Longrightarrow> uniqueOn i_number (invoices s) \<Longrightarrow> \<forall>d \<in> set due. billable s (fst d) \<Longrightarrow>
   \<exists>ivs. forEach due (renewServer env) s = (Inr (), s\<lparr>invoices := invoices s @ ivs\<rparr>) \<and>
     map (\<lambda>iv. (i_serverId iv, i_periodStart iv)) ivs = map (\<lambda>d. (Some (fst d), snd d)) due \<and>
     uniqueOn i_number (invoices s @ ivs) \<and> numbersBelow (s\<lparr>invoices := invoices s @ ivs\<rparr>)"
proof (induction due arbitrary: s)
  case Nil
  then show ?case by (intro exI [of _ "[]"]) simp
next
  case (Cons d due)
  obtain v p where v: "findServer (fst d) s = Some v" "findPlan (s_planId v) s = Some p"
    using Cons.prems(3) by (auto simp: billable_def)
  obtain iv where iv: "createInvoiceForServer (be_invoiceId env (fst d)) (be_clock env (fst d))
      (be_graceDays env) (fst d) (snd d) s = (Inr iv, s\<lparr>invoices := invoices s @ [iv]\<rparr>)"
    "i_serverId iv = Some (fst d)" "i_periodStart iv = snd d" "\<not> numberTaken (i_number iv) s"
    "numbersBelow (s\<lparr>invoices := invoices s @ [iv]\<rparr>)"
    using createInvoice_ok [OF Cons.prems(1) v] by blast
  let ?s = "s\<lparr>invoices := invoices s @ [iv]\<rparr>"
  have u: "uniqueOn i_number (invoices ?s)"
    using Cons.prems(2) iv(4) by (simp add: uniqueOn_append numberTaken_def)
  have run: "renewServer env d s = (Inr (), ?s)"
    using iv(1) by (simp add: renewServer_def tryCatch_def andThen_def ret_def)
  obtain ivs where "forEach due (renewServer env) ?s = (Inr (), ?s\<lparr>invoices := invoices ?s @ ivs\<rparr>)"
    "map (\<lambda>iv. (i_serverId iv, i_periodStart iv)) ivs = map (\<lambda>d. (Some (fst d), snd d)) due"
    "uniqueOn i_number (invoices ?s @ ivs)" "numbersBelow (?s\<lparr>invoices := invoices ?s @ ivs\<rparr>)"
    using Cons.IH [OF iv(5) u] Cons.prems(3) by auto
  then show ?case using run iv(2,3) by (intro exI [of _ "iv # ivs"]) simp
qed

text \<open>C9. Nothing runs for free, and nothing is billed twice: the renewal pass writes exactly one
  invoice for every active server with no invoice covering the present moment, in order, each
  starting where the last period of its server ended (or now, for the first one), and numbers stay
  unique, so that no creation fails.\<close>

theorem renewPass_bills_all:
  assumes "numbersBelow s" and "uniqueOn i_number (invoices s)" and "uniqueOn s_id (servers s)"
    and "\<forall>v \<in> set (servers s). findPlan (s_planId v) s \<noteq> None"
  shows "\<exists>ivs. renewPass env s = (Inr (length ivs), s\<lparr>invoices := invoices s @ ivs\<rparr>) \<and>
    map (\<lambda>iv. (i_serverId iv, i_periodStart iv)) ivs =
      map (\<lambda>v. (Some (s_id v), renewalStart (be_now env) v s)) (dueServers (be_now env) s) \<and>
    uniqueOn i_number (invoices s @ ivs) \<and> numbersBelow (s\<lparr>invoices := invoices s @ ivs\<rparr>)"
proof -
  let ?due = "map (\<lambda>v. (s_id v, renewalStart (be_now env) v s)) (dueServers (be_now env) s)"
  have "billable s (s_id v)" if "v \<in> set (servers s)" for v
    using that assms(4) find_uniqueOn [OF assms(3) that] by (auto simp: billable_def findServer_def)
  then have "\<forall>d \<in> set ?due. billable s (fst d)" by (auto simp: dueServers_def)
  from renew_loop [OF assms(1,2) this, of env] obtain ivs where
    ivs: "forEach ?due (renewServer env) s = (Inr (), s\<lparr>invoices := invoices s @ ivs\<rparr>)"
    "map (\<lambda>iv. (i_serverId iv, i_periodStart iv)) ivs = map (\<lambda>d. (Some (fst d), snd d)) ?due"
    "uniqueOn i_number (invoices s @ ivs)" "numbersBelow (s\<lparr>invoices := invoices s @ ivs\<rparr>)"
    by blast
  have "length ivs = length ?due" using arg_cong [OF ivs(2), of length] by simp
  then have "renewPass env s = (Inr (length ivs), s\<lparr>invoices := invoices s @ ivs\<rparr>)"
    using ivs(1) by (simp add: renewPass_def andThen_def readState_def ret_def)
  with ivs show ?thesis by (intro exI [of _ ivs]) (simp add: comp_def)
qed

end
