(* ===== verification/Access.thy ===== *)
theory Access
  imports Provisioning
begin

text \<open>
  \<open>panel/src/lib/auth.ts\<close> and the routes that decide who may do what: login and
  registration, sub-users, power, startup variables, files, console tickets and orders, with the
  error funnel \<open>api/_helpers.ts\<close>. A request body is \<open>None\<close> when \<open>req.json()\<close>
  or its schema throws. The session cookie, the clock, the hash functions and fresh random values
  are arguments.
\<close>

section \<open>Sessions\<close>

definition SESSION_TTL_MS :: int where
  "SESSION_TTL_MS = 1000 * 60 * 60 * 24 * 7"

record AuthEnv =
  ae_hash :: "string \<Rightarrow> string" \<comment> \<open>hex of sha256\<close>
  ae_now :: time
  ae_cookie :: "string option"

definition createSession :: "AuthEnv \<Rightarrow> string \<Rightarrow> ident \<Rightarrow> string act" where
  "createSession env token userId =
     andThen (writeState (\<lambda>s. s\<lparr>sessions := sessions s @ [\<lparr>ss_userId = userId,
       ss_tokenHash = ae_hash env token, ss_expiresAt = ae_now env + SESSION_TTL_MS\<rparr>]\<rparr>)) (\<lambda>_.
     ret token)"

text \<open>An absent cookie and an empty one are both falsy.\<close>

definition sessionToken :: "AuthEnv \<Rightarrow> string option" where
  "sessionToken env = (case ae_cookie env of None \<Rightarrow> None | Some t \<Rightarrow> if t = [] then None else Some t)"

definition destroySession :: "AuthEnv \<Rightarrow> unit act" where
  "destroySession env =
     (case sessionToken env of
        None \<Rightarrow> ret ()
      | Some t \<Rightarrow> writeState (\<lambda>s. s\<lparr>sessions := deleteWhere (\<lambda>x. ss_tokenHash x = ae_hash env t) (sessions s)\<rparr>))"

definition getSessionUser :: "AuthEnv \<Rightarrow> db \<Rightarrow> User option" where
  "getSessionUser env s =
     (case sessionToken env of
        None \<Rightarrow> None
      | Some t \<Rightarrow>
          (case List.find (\<lambda>x. ss_tokenHash x = ae_hash env t) (sessions s) of
             None \<Rightarrow> None
           | Some x \<Rightarrow> if ss_expiresAt x < ae_now env then None else findUser (ss_userId x) s))"

definition requireUser :: "AuthEnv \<Rightarrow> User act" where
  "requireUser env = orThrow (AuthError 401 ''Sign in to continue.'') (getSessionUser env)"

definition requireAdmin :: "AuthEnv \<Rightarrow> User act" where
  "requireAdmin env =
     andThen (requireUser env) (\<lambda>user.
     andThen (require (u_role user = ADMIN) (AuthError 403 ''Administrator access required.'')) (\<lambda>_.
     ret user))"

section \<open>Access to a server\<close>

datatype ServerPermission =
  Console_view | Console_command | Power_start | Power_stop | Files_read_perm | Files_write_perm
| Files_delete_perm | Backups_read | Backups_create | Settings_write

fun permString :: "ServerPermission \<Rightarrow> string" where
  "permString Console_view = ''console.view''"
| "permString Console_command = ''console.command''"
| "permString Power_start = ''power.start''"
| "permString Power_stop = ''power.stop''"
| "permString Files_read_perm = ''files.read''"
| "permString Files_write_perm = ''files.write''"
| "permString Files_delete_perm = ''files.delete''"
| "permString Backups_read = ''backups.read''"
| "permString Backups_create = ''backups.create''"
| "permString Settings_write = ''settings.write''"

definition subuserOf :: "ident \<Rightarrow> ident \<Rightarrow> db \<Rightarrow> Subuser option" where
  "subuserOf serverId userId s =
     List.find (\<lambda>x. sub_userId x = userId) (filter (\<lambda>x. sub_serverId x = serverId) (subusers s))"

definition subuserMay :: "ServerPermission \<Rightarrow> Subuser option \<Rightarrow> bool" where
  "subuserMay p x = (case x of None \<Rightarrow> False | Some sub \<Rightarrow> permString p \<in> set (sub_permissions sub))"

definition requireServerAccess :: "AuthEnv \<Rightarrow> ident \<Rightarrow> ServerPermission \<Rightarrow> (User \<times> Server) act" where
  "requireServerAccess env serverId permission =
     andThen (requireUser env) (\<lambda>user.
     andThen (orThrow (AuthError 403 ''Server not found.'') (findServer serverId)) (\<lambda>server.
     if u_role user = ADMIN then ret (user, server)
     else if s_ownerId server = u_id user then ret (user, server)
     else andThen (readState (subuserOf serverId (u_id user))) (\<lambda>sub.
       if subuserMay permission sub then ret (user, server)
       else throw (AuthError 403 ''You do not have access to this server.''))))"

section \<open>The error funnel\<close>

fun failResponse :: "exn \<Rightarrow> response" where
  "failResponse (AuthError st m) = Response st m"
| "failResponse NoCapacityError = Response 503
     ''No capacity is available for this plan right now. Try another location or contact support.''"
| "failResponse (AgentError code m) = Response (if code = ''node_offline'' then 503 else 502) m"
| "failResponse _ = Response 500 ''Something went wrong. The team has been notified.''"

definition handler :: "response act \<Rightarrow> response act" where
  "handler m = tryCatch m (\<lambda>e. ret (failResponse e))"

definition parseBody :: "'b option \<Rightarrow> 'b act" where
  "parseBody b = orThrow ZodError (\<lambda>_. b)"

section \<open>Login and registration\<close>

text \<open>Redis counters: the value and the time the key expires, if it does.\<close>

type_synonym counters = "string \<Rightarrow> (nat \<times> time option) option"

definition liveCount :: "time \<Rightarrow> string \<Rightarrow> counters \<Rightarrow> (nat \<times> time option) option" where
  "liveCount now k c =
     (case c k of
        Some (n, Some e) \<Rightarrow> if e \<le> now then None else Some (n, Some e)
      | x \<Rightarrow> x)"

definition incr :: "time \<Rightarrow> string \<Rightarrow> counters \<Rightarrow> nat \<times> counters" where
  "incr now k c =
     (case liveCount now k c of
        None \<Rightarrow> (1, c(k \<mapsto> (1, None)))
      | Some (n, e) \<Rightarrow> (n + 1, c(k \<mapsto> (n + 1, e))))"

definition expire :: "time \<Rightarrow> string \<Rightarrow> int \<Rightarrow> counters \<Rightarrow> counters" where
  "expire now k seconds c =
     (case c k of None \<Rightarrow> c | Some (n, _) \<Rightarrow> c(k \<mapsto> (n, Some (now + seconds * 1000))))"

record Login =
  lg_email :: string
  lg_password :: string

text \<open>\<open>verify\<close> is \<open>bcrypt.compare\<close>.\<close>

definition login ::
    "(string \<Rightarrow> string \<Rightarrow> bool) \<Rightarrow> AuthEnv \<Rightarrow> string \<Rightarrow> string option \<Rightarrow> Login option \<Rightarrow>
     counters \<times> db \<Rightarrow> response \<times> counters \<times> db" where
  "login verify env token forwardedFor body st =
     (case (body, st) of
        (None, _) \<Rightarrow> (failResponse ZodError, st)
      | (Some b, (c, s)) \<Rightarrow>
          let ip = (case forwardedFor of None \<Rightarrow> ''unknown'' | Some i \<Rightarrow> i);
              key = ''login:attempts:'' @ ip;
              (attempts, c1) = incr (ae_now env) key c;
              c2 = (if attempts = 1 then expire (ae_now env) key 900 c1 else c1);
              invalid = Response 401 ''That email and password do not match.''
          in if attempts > 10 then (Response 429 ''Too many attempts. Try again in 15 minutes.'', c2, s)
             else (case List.find (\<lambda>u. u_email u = lg_email b) (users s) of
               None \<Rightarrow> (invalid, c2, s)
             | Some user \<Rightarrow>
                 if \<not> verify (lg_password b) (u_passwordHash user)
                 then (invalid, c2, snd (audit (Some (u_id user)) ''auth.login_failed'' ''user'' (u_id user) s))
                 else (Response 200 (u_id user), c2(key := None),
                   snd (andThen (createSession env token (u_id user)) (\<lambda>_.
                        audit (Some (u_id user)) ''auth.login'' ''user'' (u_id user)) s))))"

record Registration =
  rg_email :: string
  rg_displayName :: string
  rg_password :: string

definition insertUser :: "User \<Rightarrow> unit act" where
  "insertUser u =
     andThen (readState (\<lambda>s. \<exists>w \<in> set (users s). u_email w = u_email u)) (\<lambda>taken.
     andThen (require (\<not> taken) (UniqueError ''User'')) (\<lambda>_.
     writeState (\<lambda>s. s\<lparr>users := users s @ [u]\<rparr>)))"

definition register :: "(string \<Rightarrow> string) \<Rightarrow> AuthEnv \<Rightarrow> string \<Rightarrow> ident \<Rightarrow> Registration option \<Rightarrow> response act" where
  "register hashPassword env token freshId body = handler (
     andThen (parseBody body) (\<lambda>b.
     andThen (readState (\<lambda>s. List.find (\<lambda>u. u_email u = rg_email b) (users s))) (\<lambda>existing.
     if existing \<noteq> None then ret (Response 409 ''That email is already registered.'')
     else
       andThen (insertUser \<lparr>u_id = freshId, u_email = rg_email b,
         u_passwordHash = hashPassword (rg_password b), u_displayName = rg_displayName b,
         u_role = CUSTOMER\<rparr>) (\<lambda>_.
       andThen (createSession env token freshId) (\<lambda>_.
       ret (Response 201 freshId))))))"

section \<open>Sub-users\<close>

definition PERMISSIONS :: "ServerPermission list" where
  "PERMISSIONS = [Console_view, Console_command, Power_start, Power_stop, Files_read_perm,
     Files_write_perm, Files_delete_perm, Backups_read, Backups_create]"

record Grant =
  gr_email :: string
  gr_permissions :: "ServerPermission list"

text \<open>The schema: a list of at least one of \<open>PERMISSIONS\<close>.\<close>

definition grantSchema :: "Grant option \<Rightarrow> Grant option" where
  "grantSchema b = (case b of
     None \<Rightarrow> None
   | Some g \<Rightarrow> if gr_permissions g \<noteq> [] \<and> set (gr_permissions g) \<subseteq> set PERMISSIONS then Some g else None)"

definition upsertSubuser :: "ident \<Rightarrow> ident \<Rightarrow> ident \<Rightarrow> string list \<Rightarrow> unit act" where
  "upsertSubuser freshId serverId userId perms =
     writeState (\<lambda>s. s\<lparr>subusers :=
       (if \<exists>x \<in> set (subusers s). sub_serverId x = serverId \<and> sub_userId x = userId
        then updateWhere (\<lambda>x. sub_serverId x = serverId \<and> sub_userId x = userId)
               (\<lambda>x. x\<lparr>sub_permissions := perms\<rparr>) (subusers s)
        else subusers s @ [\<lparr>sub_id = freshId, sub_serverId = serverId, sub_userId = userId,
               sub_permissions = perms\<rparr>])\<rparr>)"

definition subusersPost :: "AuthEnv \<Rightarrow> ident \<Rightarrow> ident \<Rightarrow> Grant option \<Rightarrow> response act" where
  "subusersPost env freshId serverId body = handler (
     andThen (requireServerAccess env serverId Settings_write) (\<lambda>(user, server).
     if u_role user \<noteq> ADMIN \<and> s_ownerId server \<noteq> u_id user
     then ret (Response 403 ''Only the server owner can manage access.'')
     else
       andThen (parseBody (grantSchema body)) (\<lambda>b.
       andThen (readState (\<lambda>s. List.find (\<lambda>u. u_email u = gr_email b) (users s))) (\<lambda>invitee.
       case invitee of
         None \<Rightarrow> ret (Response 404 ''No account uses that email address.'')
       | Some w \<Rightarrow>
           if u_id w = s_ownerId server then ret (Response 409 ''The owner already has full access.'')
           else
             andThen (upsertSubuser freshId serverId (u_id w) (map permString (gr_permissions b))) (\<lambda>_.
             andThen (audit (Some (u_id user)) ''server.subuser.grant'' ''server'' serverId) (\<lambda>_.
             ret (Response 200 ''ok'')))))))"

definition subusersDelete :: "AuthEnv \<Rightarrow> ident \<Rightarrow> ident option \<Rightarrow> response act" where
  "subusersDelete env serverId body = handler (
     andThen (parseBody body) (\<lambda>subuserId.
     andThen (requireServerAccess env serverId Settings_write) (\<lambda>(user, server).
     if u_role user \<noteq> ADMIN \<and> s_ownerId server \<noteq> u_id user
     then ret (Response 403 ''Only the server owner can manage access.'')
     else
       andThen (orThrow (NotFoundError ''Subuser'')
         (\<lambda>s. List.find (\<lambda>x. sub_id x = subuserId) (subusers s))) (\<lambda>_.
       andThen (writeState (\<lambda>s. s\<lparr>subusers := deleteWhere (\<lambda>x. sub_id x = subuserId) (subusers s)\<rparr>)) (\<lambda>_.
       andThen (audit (Some (u_id user)) ''server.subuser.revoke'' ''server'' serverId) (\<lambda>_.
       ret (Response 200 ''ok'')))))))"

section \<open>Power\<close>

datatype PowerAction = Start | Stop | Restart | Kill

fun powerCommand :: "PowerAction \<Rightarrow> ident \<Rightarrow> string \<Rightarrow> CommandPayload" where
  "powerCommand Start i c = Server_start i"
| "powerCommand Stop i c = Server_stop i (Some c) (Some 30)"
| "powerCommand Restart i c = Server_restart i"
| "powerCommand Kill i c = Server_kill i"

fun powerName :: "PowerAction \<Rightarrow> string" where
  "powerName Start = ''start''"
| "powerName Stop = ''stop''"
| "powerName Restart = ''restart''"
| "powerName Kill = ''kill''"

definition powerStatus :: "PowerAction \<Rightarrow> ServerStatus" where
  "powerStatus action = (if action = Start then STARTING else if action = Stop then STOPPING else STARTING)"

definition powerPost :: "agent \<Rightarrow> AuthEnv \<Rightarrow> ident \<Rightarrow> PowerAction option \<Rightarrow> response act" where
  "powerPost agent env serverId body = handler (
     andThen (parseBody body) (\<lambda>action.
     andThen (requireServerAccess env serverId (if action = Start then Power_start else Power_stop)) (\<lambda>(user, server).
     if s_suspended server
     then ret (Response 409 ''This server is suspended. Settle the outstanding invoice to start it again.'')
     else
       andThen (orThrow (NotFoundError ''GameTemplate'') (findTemplate (s_templateId server))) (\<lambda>template.
       andThen (updateServer serverId (\<lambda>v. v\<lparr>s_status := powerStatus action\<rparr>)) (\<lambda>_.
       andThen (callAgent agent (s_nodeId server) (powerCommand action serverId (t_stopCommand template))) (\<lambda>_.
       andThen (audit (Some (u_id user)) (''server.power.'' @ powerName action) ''server'' serverId) (\<lambda>_.
       ret (Response 200 ''ok''))))))))"

section \<open>Startup variables\<close>

definition editableKeys :: "TemplateVariable list \<Rightarrow> string list" where
  "editableKeys vs = map v_key (filter (\<lambda>v. v_editable v \<noteq> Some False) vs)"

fun mergeEditable :: "string list \<Rightarrow> environment \<Rightarrow> environment \<Rightarrow> environment" where
  "mergeEditable editable [] next' = next'"
| "mergeEditable editable ((k, v) # values) next' =
     mergeEditable editable values (if k \<in> set editable then putEnv k v next' else next')"

definition startupPatch :: "AuthEnv \<Rightarrow> ident \<Rightarrow> environment option \<Rightarrow> response act" where
  "startupPatch env serverId body = handler (
     andThen (requireServerAccess env serverId Settings_write) (\<lambda>(user, server).
     andThen (parseBody body) (\<lambda>values.
     andThen (orThrow (NotFoundError ''GameTemplate'') (findTemplate (s_templateId server))) (\<lambda>template.
     let editable = editableKeys (t_variables template);
         next' = mergeEditable editable values (s_environment server)
     in andThen (updateServer serverId (\<lambda>v. v\<lparr>s_environment := next'\<rparr>)) (\<lambda>_.
        andThen (audit (Some (u_id user)) ''server.startup.update'' ''server'' serverId) (\<lambda>_.
        ret (Response 200 ''Changes apply the next time the server starts.'')))))))"

section \<open>Files\<close>

text \<open>\<open>b64\<close> is the base64 encoding of the UTF-8 bytes.\<close>

record FileWrite =
  fw_path :: string
  fw_content :: string

definition filesGet :: "agent \<Rightarrow> AuthEnv \<Rightarrow> ident \<Rightarrow> string option \<Rightarrow> string option \<Rightarrow> response act" where
  "filesGet agent env serverId path file = handler (
     andThen (requireServerAccess env serverId Files_read_perm) (\<lambda>(user, server).
     case file of
       Some f \<Rightarrow>
         if f \<noteq> [] then
           andThen (callAgent agent (s_nodeId server) (Files_read serverId f (Some 2000000))) (\<lambda>res.
           case rp_content res of
             None \<Rightarrow> throw (Error ''TypeError'')
           | Some c \<Rightarrow> ret (Response 200 c))
         else
           andThen (callAgent agent (s_nodeId server)
             (Files_list serverId (case path of None \<Rightarrow> ''/'' | Some p \<Rightarrow> p))) (\<lambda>_. ret (Response 200 ''entries''))
     | None \<Rightarrow>
         andThen (callAgent agent (s_nodeId server)
           (Files_list serverId (case path of None \<Rightarrow> ''/'' | Some p \<Rightarrow> p))) (\<lambda>_. ret (Response 200 ''entries''))))"

definition filesPut :: "agent \<Rightarrow> (string \<Rightarrow> string) \<Rightarrow> AuthEnv \<Rightarrow> ident \<Rightarrow> FileWrite option \<Rightarrow> response act" where
  "filesPut agent b64 env serverId body = handler (
     andThen (requireServerAccess env serverId Files_write_perm) (\<lambda>(user, server).
     andThen (parseBody body) (\<lambda>b.
     andThen (callAgent agent (s_nodeId server) (Files_write serverId (fw_path b) (b64 (fw_content b)))) (\<lambda>_.
     andThen (audit (Some (u_id user)) ''server.file.write'' ''server'' serverId) (\<lambda>_.
     ret (Response 200 ''ok''))))))"

definition filesDelete :: "agent \<Rightarrow> AuthEnv \<Rightarrow> ident \<Rightarrow> string list option \<Rightarrow> response act" where
  "filesDelete agent env serverId body = handler (
     andThen (requireServerAccess env serverId Files_delete_perm) (\<lambda>(user, server).
     andThen (parseBody body) (\<lambda>paths.
     andThen (callAgent agent (s_nodeId server) (Files_delete serverId paths)) (\<lambda>_.
     andThen (audit (Some (u_id user)) ''server.file.delete'' ''server'' serverId) (\<lambda>_.
     ret (Response 200 ''ok''))))))"

section \<open>Console tickets\<close>

record Ticket =
  tk_serverId :: ident
  tk_nodeId :: ident
  tk_canCommand :: bool

definition consoleTicket :: "AuthEnv \<Rightarrow> ident \<Rightarrow> Ticket act" where
  "consoleTicket env serverId =
     andThen (requireServerAccess env serverId Console_view) (\<lambda>(user, server).
     andThen (readState (subuserOf serverId (u_id user))) (\<lambda>sub.
     ret \<lparr>tk_serverId = serverId, tk_nodeId = s_nodeId server,
       tk_canCommand = (if u_role user = ADMIN \<or> s_ownerId server = u_id user then True
                        else subuserMay Console_command sub)\<rparr>))"

section \<open>Orders\<close>

record Purchase =
  pu_planId :: ident
  pu_serverName :: string
  pu_location :: "string option"

definition ordersPost :: "agent \<Rightarrow> ProvisionEnv \<Rightarrow> AuthEnv \<Rightarrow> ident \<Rightarrow> Purchase option \<Rightarrow> response act" where
  "ordersPost agent penv env freshId body = handler (
     andThen (requireUser env) (\<lambda>user.
     andThen (parseBody body) (\<lambda>b.
     andThen (orThrow (NotFoundError ''Plan'') (findPlan (pu_planId b))) (\<lambda>plan.
     if \<not> p_visible plan then ret (Response 404 ''This plan is not available.'')
     else
       andThen (writeState (\<lambda>s. s\<lparr>orders := orders s @ [\<lparr>o_id = freshId, o_userId = u_id user,
         o_planId = p_id plan, o_status = O_PAID, o_serverId = None, o_failureReason = None\<rparr>]\<rparr>)) (\<lambda>_.
       andThen (provisionServer agent penv \<lparr>pi_orderId = freshId, pi_ownerId = u_id user,
         pi_planId = p_id plan, pi_serverName = pu_serverName b, pi_preferredLocation = pu_location b,
         pi_actorId = Some (u_id user)\<rparr>) (\<lambda>server.
       ret (Response 201 (s_id server))))))))"

section \<open>Who gets through\<close>

lemma requireUser_run:
  "requireUser env s = (case getSessionUser env s of None \<Rightarrow> (Inl (AuthError 401 ''Sign in to continue.''), s)
     | Some u \<Rightarrow> (Inr u, s))"
  by (simp add: requireUser_def orThrow_def)

lemma requireServerAccess_state: "snd (requireServerAccess env i p s) = s"
  by (simp add: requireServerAccess_def andThen_def requireUser_run orThrow_def readState_def ret_def throw_def
      split: option.split)

lemma keeps_requireServerAccess [keep]: "keeps g (requireServerAccess env i p)"
  by (simp add: keeps_def requireServerAccess_state)

lemma keeps_requireUser [keep]: "keeps g (requireUser env)"
  unfolding requireUser_def by (rule keep)

lemma requireServerAccess_ok:
  "requireServerAccess env i p s = (Inr (u, v), t) \<longleftrightarrow>
   t = s \<and> getSessionUser env s = Some u \<and> findServer i s = Some v \<and>
   (u_role u = ADMIN \<or> s_ownerId v = u_id u \<or> subuserMay p (subuserOf i (u_id u) s))"
  by (auto simp: requireServerAccess_def andThen_def requireUser_run orThrow_def readState_def ret_def throw_def
      split: option.splits if_splits)

lemma requireServerAccess_throw:
  "requireServerAccess env i p s = (Inl e, t) \<Longrightarrow> \<exists>st m. e = AuthError st m \<and> st \<noteq> 200"
  by (auto simp: requireServerAccess_def andThen_def requireUser_run orThrow_def readState_def ret_def throw_def
      split: option.splits if_splits)

lemma subuserOf_Some:
  assumes "uniqueOn (\<lambda>x. (sub_serverId x, sub_userId x)) (subusers s)"
  shows "subuserOf i j s = Some x \<longleftrightarrow> x \<in> set (subusers s) \<and> sub_serverId x = i \<and> sub_userId x = j"
proof
  assume "subuserOf i j s = Some x"
  then show "x \<in> set (subusers s) \<and> sub_serverId x = i \<and> sub_userId x = j"
    using find_key_in [of sub_userId j "filter (\<lambda>x. sub_serverId x = i) (subusers s)" x]
    by (simp add: subuserOf_def)
next
  assume x: "x \<in> set (subusers s) \<and> sub_serverId x = i \<and> sub_userId x = j"
  show "subuserOf i j s = Some x"
    unfolding subuserOf_def
  proof (rule find_only)
    fix w assume "w \<in> set (filter (\<lambda>x. sub_serverId x = i) (subusers s))" "sub_userId w = j"
    then show "w = x" using x by (intro uniqueOn_eq [OF assms]) auto
  qed (use x in auto)
qed

lemma subuserOf_unique:
  assumes "uniqueOn (\<lambda>x. (sub_serverId x, sub_userId x)) (subusers s)"
  shows "subuserMay p (subuserOf i j s) \<longleftrightarrow>
    (\<exists>x \<in> set (subusers s). sub_serverId x = i \<and> sub_userId x = j \<and> permString p \<in> set (sub_permissions x))"
proof (cases "subuserOf i j s")
  case None
  then have "\<not> (x \<in> set (subusers s) \<and> sub_serverId x = i \<and> sub_userId x = j)" for x
    using subuserOf_Some [OF assms, of i j x] by simp
  with None show ?thesis by (auto simp: subuserMay_def)
next
  case (Some x)
  have x: "x \<in> set (subusers s) \<and> sub_serverId x = i \<and> sub_userId x = j"
    using Some subuserOf_Some [OF assms, of i j x] by simp
  have only: "y = x" if "y \<in> set (subusers s) \<and> sub_serverId y = i \<and> sub_userId y = j" for y
    using that Some subuserOf_Some [OF assms, of i j y] by simp
  have "subuserMay p (subuserOf i j s) \<longleftrightarrow> permString p \<in> set (sub_permissions x)"
    by (simp add: subuserMay_def Some)
  also have "\<dots> \<longleftrightarrow> (\<exists>y \<in> set (subusers s). sub_serverId y = i \<and> sub_userId y = j \<and>
      permString p \<in> set (sub_permissions y))"
    using x only by blast
  finally show ?thesis .
qed

text \<open>C10. Access to a server is decided by one rule, with no other way in: a request passes exactly
  when it carries a live session whose user is an administrator, the owner of the server, or a
  sub-user of this server that was granted this very permission; and deciding it writes nothing.\<close>

theorem access_rule:
  assumes "uniqueOn (\<lambda>x. (sub_serverId x, sub_userId x)) (subusers s)"
  shows "requireServerAccess env i p s = (Inr (u, v), t) \<longleftrightarrow>
    t = s \<and> getSessionUser env s = Some u \<and> findServer i s = Some v \<and>
    (u_role u = ADMIN \<or> s_ownerId v = u_id u \<or>
     (\<exists>x \<in> set (subusers s). sub_serverId x = i \<and> sub_userId x = u_id u \<and>
        permString p \<in> set (sub_permissions x)))"
  by (simp add: requireServerAccess_ok subuserOf_unique [OF assms])

lemma handler_state: "snd (handler m s) = snd (m s)"
  by (simp add: handler_def tryCatch_def ret_def split: prod.split sum.split)

lemma handler_denied:
  assumes "isl (fst (requireServerAccess env i p s))"
  shows "snd (handler (andThen (requireServerAccess env i p) f) s) = s"
  using assms requireServerAccess_state [of env i p s]
  by (auto simp: handler_state andThen_def split: prod.splits sum.splits)

lemma handler_parse_denied:
  assumes "\<And>b. snd (handler (f b) s) = s"
  shows "snd (handler (andThen (parseBody body) f) s) = s"
  using assms by (cases body) (simp_all add: handler_state andThen_def parseBody_def orThrow_def)

text \<open>A request that is refused changes nothing: on every route of a server, when the access
  check of its permission fails the database, the agents and the audit log are as before.\<close>

theorem refused_request_changes_nothing:
  assumes "\<forall>p. isl (fst (requireServerAccess env i p s))"
  shows "snd (subusersPost env k i grant s) = s \<and> snd (subusersDelete env i sub s) = s \<and>
    snd (powerPost agent env i action s) = s \<and> snd (startupPatch env i values s) = s \<and>
    snd (filesGet agent env i path file s) = s \<and> snd (filesPut agent b64 env i write s) = s \<and>
    snd (filesDelete agent env i paths s) = s \<and> snd (consoleTicket env i s) = s"
proof -
  have den: "snd (handler (andThen (requireServerAccess env i p) f) s) = s" for p f
    using handler_denied assms by blast
  have "snd (consoleTicket env i s) = s"
    using keepsD [of id "consoleTicket env i" s] unfolding consoleTicket_def
    by (auto simp: split_def id_def intro!: keep)
  moreover have "snd (subusersDelete env i sub s) = s" "snd (powerPost agent env i action s) = s"
    unfolding subusersDelete_def powerPost_def by (rule handler_parse_denied, rule den)+
  ultimately show ?thesis
    unfolding subusersPost_def startupPatch_def filesGet_def filesPut_def filesDelete_def
    by (intro conjI den)
qed

section \<open>Grants\<close>

definition grantsOk :: "db \<Rightarrow> bool" where
  "grantsOk s \<longleftrightarrow> (\<forall>x \<in> set (subusers s). set (sub_permissions x) \<subseteq> permString ` set PERMISSIONS)"

lemma settings_not_grantable: "permString Settings_write \<notin> permString ` set PERMISSIONS"
  by (simp add: PERMISSIONS_def)

lemma grantsOk_frames [simp]:
  "grantsOk (auditLog_update f1 s) = grantsOk s" "grantsOk (servers_update f2 s) = grantsOk s"
  by (simp_all add: grantsOk_def)

lemma keeps_preserves: "keeps subusers m \<Longrightarrow> preserves grantsOk m"
  by (simp add: preserves_def grantsOk_def keepsD)

lemma grantsOk_upsert:
  assumes "set perms \<subseteq> set PERMISSIONS"
  shows "preserves grantsOk (upsertSubuser k i j (map permString perms))"
  unfolding upsertSubuser_def
proof (rule preserves_writeState)
  fix s assume "grantsOk s"
  moreover have "permString ` set perms \<subseteq> permString ` set PERMISSIONS" using assms by (rule image_mono)
  ultimately show "grantsOk (s\<lparr>subusers :=
       (if \<exists>x \<in> set (subusers s). sub_serverId x = i \<and> sub_userId x = j
        then updateWhere (\<lambda>x. sub_serverId x = i \<and> sub_userId x = j)
               (\<lambda>x. x\<lparr>sub_permissions := map permString perms\<rparr>) (subusers s)
        else subusers s @ [\<lparr>sub_id = k, sub_serverId = i, sub_userId = j,
               sub_permissions = map permString perms\<rparr>])\<rparr>)"
    by (auto simp: grantsOk_def set_updateWhere)
qed

lemma grantsOk_subusersPost: "preserves grantsOk (subusersPost env k i body)"
proof -
  have grant: "preserves grantsOk (andThen (parseBody (grantSchema body)) f)"
    if "\<And>b. set (gr_permissions b) \<subseteq> set PERMISSIONS \<Longrightarrow> preserves grantsOk (f b)" for f :: "Grant \<Rightarrow> response act"
    unfolding parseBody_def
    by (rule preserves_orThrow_found, rule that) (auto simp: grantSchema_def split: option.splits if_splits)
  show ?thesis
    unfolding subusersPost_def handler_def split_def
    by (rule preserves_tryCatch [OF preserves_andThen [OF keeps_preserves [OF keeps_requireServerAccess]] preserves_ret],
      rule preserves_if, rule preserves_ret, rule grant, intro pres grantsOk_upsert) auto
qed

lemma grantsOk_subusersDelete: "preserves grantsOk (subusersDelete env i body)"
  unfolding subusersDelete_def handler_def split_def parseBody_def
  by (intro pres keeps_preserves [OF keeps_requireServerAccess]) (auto simp: grantsOk_def)

text \<open>Only the owner and administrators manage a server: sub-users can never be granted
  \<open>settings.write\<close>, the two routes that write grants keep it so, and therefore whoever passes
  the check of a route that changes settings, startup variables, databases or access is the owner
  or an administrator.\<close>

theorem settings_owner_only:
  assumes "grantsOk s"
  shows "grantsOk (snd (subusersPost env k i grant s)) \<and> grantsOk (snd (subusersDelete env i sub s)) \<and>
    (\<forall>u v t. requireServerAccess env i Settings_write s = (Inr (u, v), t) \<longrightarrow>
       u_role u = ADMIN \<or> s_ownerId v = u_id u)"
proof -
  have "\<not> subuserMay Settings_write (subuserOf i j s)" for j
    using assms settings_not_grantable find_key_in [of sub_userId j]
    by (fastforce simp: subuserMay_def subuserOf_def grantsOk_def split: option.splits)
  then show ?thesis
    using assms preservesD [OF grantsOk_subusersPost] preservesD [OF grantsOk_subusersDelete]
    by (simp add: requireServerAccess_ok)
qed

section \<open>Power\<close>

text \<open>A suspended server cannot be driven: whatever the action and whoever asks, an
  administrator included, no command reaches an agent and nothing changes. For any other server a
  power request that succeeds issued exactly one command, the one asked for, to the server's own
  node, and left the server in the transitional state of the action.\<close>

theorem power_guarded:
  assumes "findServer i s = Some v"
  shows "(s_suspended v \<longrightarrow> snd (powerPost agent env i body s) = s) \<and>
    (\<forall>m. fst (powerPost agent env i body s) = Inr (Response 200 m) \<longrightarrow>
      (\<exists>action tm. body = Some action \<and> findTemplate (s_templateId v) s = Some tm \<and>
        calls (snd (powerPost agent env i body s)) =
          calls s @ [(s_nodeId v, powerCommand action i (t_stopCommand tm))] \<and>
        servers (snd (powerPost agent env i body s)) =
          updateWhere (\<lambda>v. s_id v = i) (\<lambda>v. v\<lparr>s_status := powerStatus action\<rparr>) (servers s)))"
proof (cases body)
  case None
  then show ?thesis by (simp add: powerPost_def handler_def tryCatch_def andThen_def parseBody_def orThrow_def ret_def)
next
  case (Some action)
  let ?p = "if action = Start then Power_start else Power_stop"
  show ?thesis
  proof (cases "requireServerAccess env i ?p s")
    case (Pair r t)
    then have t: "t = s" using requireServerAccess_state [of env i ?p s] by simp
    show ?thesis
    proof (cases r)
      case (Inl e)
      with Some Pair t show ?thesis
        using requireServerAccess_throw [of env i ?p s e t]
        by (auto simp: powerPost_def handler_def tryCatch_def andThen_def parseBody_def orThrow_def ret_def)
    next
      case (Inr uv)
      then obtain u where uv: "uv = (u, v)" using Pair assms by (cases uv) (auto simp: requireServerAccess_ok)
      show ?thesis
        using Some Pair Inr t uv assms
        by (auto simp: powerPost_def handler_def tryCatch_def andThen_def parseBody_def orThrow_def ret_def
            updateServer_run callAgent_def split: option.splits sum.splits)
    qed
  qed
qed

section \<open>Startup variables\<close>

lemma putEnv_lookup [simp]: "map_of (putEnv k v e) k' = (if k' = k then Some v else map_of e k')"
  by (induction k v e rule: putEnv.induct) auto

lemma map_of_rev:
  assumes "distinct (map fst xs)"
  shows "map_of (rev xs) = map_of xs"
proof -
  have "distinct (map fst (rev xs))" using assms by (simp add: rev_map [symmetric])
  then have "map_of (rev xs) k = Some v \<longleftrightarrow> map_of xs k = Some v" for k v
    using assms by simp
  then show ?thesis by (intro ext) (metis option.exhaust)
qed

lemma mergeEditable_lookup:
  "map_of (mergeEditable editable vals e) k =
    (if k \<in> set editable then (case map_of (rev vals) k of Some v \<Rightarrow> Some v | None \<Rightarrow> map_of e k) else map_of e k)"
proof (induction editable vals e rule: mergeEditable.induct)
  case (2 editable k' v vals e)
  then show ?case by (auto simp: map_add_def split: option.split)
qed simp

text \<open>The startup form changes the variables the template declares editable and nothing else:
  every other variable of the container keeps its value, each editable one takes the submitted
  value, and no command or other server is touched.\<close>

theorem startup_only_editable:
  assumes "findServer i s = Some v" and "findTemplate (s_templateId v) s = Some tm"
    and "requireServerAccess env i Settings_write s = (Inr (u, w), s)" and "distinct (map fst values)"
  shows "\<exists>t v'. startupPatch env i (Some values) s =
      (Inr (Response 200 ''Changes apply the next time the server starts.''), t) \<and>
    findServer i t = Some v' \<and> v' = v\<lparr>s_environment := s_environment v'\<rparr> \<and>
    (\<forall>k. map_of (s_environment v') k =
      (if k \<in> set (editableKeys (t_variables tm)) \<and> k \<in> fst ` set values then map_of values k
       else map_of (s_environment v) k)) \<and> calls t = calls s"
proof -
  let ?next = "mergeEditable (editableKeys (t_variables tm)) values (s_environment v)"
  have w: "w = v" using assms(1,3) by (simp add: requireServerAccess_ok)
  have id: "s_id v = i" using findServer_in [OF assms(1)] by simp
  let ?t = "s\<lparr>servers := updateWhere (\<lambda>v. s_id v = i) (\<lambda>v. v\<lparr>s_environment := ?next\<rparr>) (servers s)\<rparr>"
  have run: "startupPatch env i (Some values) s =
      (Inr (Response 200 ''Changes apply the next time the server starts.''),
       snd (audit (Some (u_id u)) ''server.startup.update'' ''server'' i ?t))"
    using assms(1-3) w
    by (simp add: startupPatch_def handler_def tryCatch_def andThen_def parseBody_def orThrow_def ret_def
        updateServer_run Let_def)
  have "findServer i (snd (audit (Some (u_id u)) ''server.startup.update'' ''server'' i ?t)) =
      Some (v\<lparr>s_environment := ?next\<rparr>)"
    using assms(1) id by (simp add: findServer_def updateWhere_find)
  moreover have "map_of ?next k =
      (if k \<in> set (editableKeys (t_variables tm)) \<and> k \<in> fst ` set values then map_of values k
       else map_of (s_environment v) k)" for k
  proof -
    have "k \<in> fst ` set values \<longleftrightarrow> map_of values k \<noteq> None" by (simp add: map_of_eq_None_iff)
    then show ?thesis
      by (simp only: mergeEditable_lookup map_of_rev [OF assms(4)]) (simp split: option.split)
  qed
  ultimately show ?thesis using run
    by (intro exI [of _ "snd (audit (Some (u_id u)) ''server.startup.update'' ''server'' i ?t)"]
      exI [of _ "v\<lparr>s_environment := ?next\<rparr>"]) simp
qed

section \<open>The login limit\<close>

fun statusOf :: "response \<Rightarrow> nat" where
  "statusOf (Response st m) = st"

text \<open>Requests from one address, one after another, each at its own time.\<close>

fun loginMany ::
    "(string \<Rightarrow> string \<Rightarrow> bool) \<Rightarrow> (string \<Rightarrow> string) \<Rightarrow> string option \<Rightarrow> (time \<times> string \<times> Login) list \<Rightarrow>
     counters \<times> db \<Rightarrow> nat list \<times> counters \<times> db" where
  "loginMany verify hash ip [] st = ([], st)"
| "loginMany verify hash ip ((now, token, b) # reqs) st =
     (case login verify \<lparr>ae_hash = hash, ae_now = now, ae_cookie = None\<rparr> token ip (Some b) st of
        (r, st1) \<Rightarrow> (case loginMany verify hash ip reqs st1 of (rs, st2) \<Rightarrow> (statusOf r # rs, st2)))"

definition wrongPassword :: "(string \<Rightarrow> string \<Rightarrow> bool) \<Rightarrow> db \<Rightarrow> Login \<Rightarrow> bool" where
  "wrongPassword verify s b \<longleftrightarrow>
     (\<forall>u \<in> set (users s). u_email u = lg_email b \<longrightarrow> \<not> verify (lg_password b) (u_passwordHash u))"

definition attemptKey :: "string option \<Rightarrow> string" where
  "attemptKey ip = ''login:attempts:'' @ (case ip of None \<Rightarrow> ''unknown'' | Some i \<Rightarrow> i)"

text \<open>One wrong attempt: the counter after it and what it answers.\<close>

lemma login_wrong:
  assumes "wrongPassword verify s b" and "incr now (attemptKey ip) c = (n, c1)"
  shows "\<exists>r l. login verify \<lparr>ae_hash = hash, ae_now = now, ae_cookie = None\<rparr> token ip (Some b) (c, s) =
      (r, if n = 1 then expire now (attemptKey ip) 900 c1 else c1, s\<lparr>auditLog := l\<rparr>) \<and>
    statusOf r = (if n > 10 then 429 else 401)"
proof (cases "n > 10")
  case True
  then show ?thesis using assms(2)
    by (intro exI [of _ "Response 429 ''Too many attempts. Try again in 15 minutes.''"] exI [of _ "auditLog s"])
      (simp add: login_def Let_def attemptKey_def)
next
  case False
  let ?i = "Response 401 ''That email and password do not match.''"
  show ?thesis
  proof (cases "List.find (\<lambda>u. u_email u = lg_email b) (users s)")
    case None
    then show ?thesis using assms(2) False
      by (intro exI [of _ ?i] exI [of _ "auditLog s"]) (simp add: login_def Let_def attemptKey_def)
  next
    case (Some u)
    then have "\<not> verify (lg_password b) (u_passwordHash u)"
      using assms(1) find_key_in [OF Some] by (auto simp: wrongPassword_def)
    with Some assms(2) False show ?thesis
      by (intro exI [of _ ?i] exI) (simp add: login_def Let_def attemptKey_def)
  qed
qed

lemma incr_live:
  "c k = Some (m, Some e) \<Longrightarrow> now < e \<Longrightarrow> incr now k c = (m + 1, c(k \<mapsto> (m + 1, Some e)))"
  by (simp add: incr_def liveCount_def)

lemma loginMany_counted:
  assumes "c (attemptKey ip) = Some (m, Some e)" and "1 \<le> m"
    and "\<forall>(t, k, b) \<in> set reqs. t < e \<and> wrongPassword verify s b"
  shows "\<exists>c' l. loginMany verify hash ip reqs (c, s) =
    (map (\<lambda>k. if m + k < 10 then 401 else 429) [0..<length reqs], c', s\<lparr>auditLog := l\<rparr>)"
  using assms
proof (induction reqs arbitrary: m c s)
  case Nil
  then show ?case by (intro exI [of _ c] exI [of _ "auditLog s"]) simp
next
  case (Cons q reqs)
  obtain t k b where q: "q = (t, k, b)" by (cases q)
  have w: "wrongPassword verify s b" "t < e" using Cons.prems(3) q by auto
  let ?c = "c(attemptKey ip \<mapsto> (m + 1, Some e))"
  obtain r l where r: "login verify \<lparr>ae_hash = hash, ae_now = t, ae_cookie = None\<rparr> k ip (Some b) (c, s) =
      (r, ?c, s\<lparr>auditLog := l\<rparr>)" "statusOf r = (if m + 1 > 10 then 429 else 401)"
    using login_wrong [OF w(1) incr_live [where k = "attemptKey ip" and c = c, OF Cons.prems(1) w(2)], of hash k] Cons.prems(2)
    by auto
  have "\<forall>(t, k, b) \<in> set reqs. t < e \<and> wrongPassword verify (s\<lparr>auditLog := l\<rparr>) b"
    using Cons.prems(3) by (auto simp: wrongPassword_def)
  then have "\<exists>c' l'. loginMany verify hash ip reqs (?c, s\<lparr>auditLog := l\<rparr>) =
      (map (\<lambda>k. if m + 1 + k < 10 then 401 else 429) [0..<length reqs], c', s\<lparr>auditLog := l\<rparr>\<lparr>auditLog := l'\<rparr>)"
    by (intro Cons.IH) simp_all
  then obtain c' l' where "loginMany verify hash ip reqs (?c, s\<lparr>auditLog := l\<rparr>) =
      (map (\<lambda>k. if m + 1 + k < 10 then 401 else 429) [0..<length reqs], c', s\<lparr>auditLog := l\<rparr>\<lparr>auditLog := l'\<rparr>)"
    by (elim exE)
  then show ?case using q r
    by (intro exI [of _ c'] exI [of _ l']) (simp add: upt_conv_Cons map_Suc_upt [symmetric] comp_def del: upt_Suc)
qed

text \<open>C11. Guessing passwords is limited: of any number of wrong attempts from one address within
  fifteen minutes of the first, exactly the first ten are checked against an account and all the
  others are turned away, and no session is made.\<close>

theorem login_throttled:
  assumes "liveCount t0 (attemptKey ip) c = None"
    and "\<forall>(t, k, b) \<in> set ((t0, k0, b0) # reqs). t < t0 + 900000 \<and> wrongPassword verify s b"
  shows "fst (loginMany verify hash ip ((t0, k0, b0) # reqs) (c, s)) =
      map (\<lambda>k. if k < 10 then 401 else 429) [0..<Suc (length reqs)] \<and>
    sessions (snd (snd (loginMany verify hash ip ((t0, k0, b0) # reqs) (c, s)))) = sessions s"
proof -
  let ?k = "attemptKey ip"
  have i: "incr t0 ?k c = (1, c(?k \<mapsto> (1, None)))" using assms(1) by (simp add: incr_def)
  have w: "wrongPassword verify s b0" using assms(2) by simp
  let ?c = "c(?k \<mapsto> (1, Some (t0 + 900000)))"
  obtain r l where r: "login verify \<lparr>ae_hash = hash, ae_now = t0, ae_cookie = None\<rparr> k0 ip (Some b0) (c, s) =
      (r, ?c, s\<lparr>auditLog := l\<rparr>)" "statusOf r = 401"
    using login_wrong [OF w i, of hash k0] by (auto simp: expire_def)
  have "\<forall>(t, k, b) \<in> set reqs. t < t0 + 900000 \<and> wrongPassword verify (s\<lparr>auditLog := l\<rparr>) b"
    using assms(2) by (auto simp: wrongPassword_def)
  then obtain c' l' where "loginMany verify hash ip reqs (?c, s\<lparr>auditLog := l\<rparr>) =
      (map (\<lambda>k. if 1 + k < 10 then 401 else 429) [0..<length reqs], c', s\<lparr>auditLog := l\<rparr>\<lparr>auditLog := l'\<rparr>)"
    using loginMany_counted [of ?c ip 1 "t0 + 900000" reqs verify "s\<lparr>auditLog := l\<rparr>" hash] by auto
  then show ?thesis using r
    by (simp add: upt_conv_Cons map_Suc_upt [symmetric] comp_def del: upt_Suc)
qed

section \<open>A defect\<close>

text \<open>The route that revokes a sub-user checks the server of the request but not the server of the
  row: the owner of one server can revoke the grants of another.\<close>

lemma revoke_crosses_servers:
  assumes "requireServerAccess env i Settings_write s = (Inr (u, v), s)" and "s_ownerId v = u_id u"
    and "x \<in> set (subusers s)" and "sub_serverId x \<noteq> i" and "uniqueOn sub_id (subusers s)"
  shows "x \<notin> set (subusers (snd (subusersDelete env i (Some (sub_id x)) s)))"
proof -
  have "List.find (\<lambda>y. sub_id y = sub_id x) (subusers s) = Some x"
    by (rule find_uniqueOn [OF assms(5,3)])
  with assms(1,2) show ?thesis
    by (simp add: subusersDelete_def handler_def tryCatch_def andThen_def parseBody_def orThrow_def ret_def writeState_def)
qed

end
