(* ===== verification/Backups.thy ===== *)
theory Backups
  imports Access
begin

unbundle bit_operations_syntax

text \<open>
  \<open>panel/src/lib/backups.ts\<close> and the route \<open>api/servers/[serverId]/backups\<close>: creation
  under a quota, restoring, deletion, the schedules the worker fires and the pruning of old
  archives. Fresh ids and the database's clock are arguments.
\<close>

section \<open>Creating a backup\<close>

text \<open>\<open>Math.round(sum / 1024 / 1024)\<close>\<close>

definition usedMb :: "ident \<Rightarrow> db \<Rightarrow> int" where
  "usedMb serverId s =
     \<lfloor>(of_int (sum_list (map b_bytes (filter (\<lambda>b. b_serverId b = serverId) (backups s)))) / 1048576 + 1 / 2 :: rat)\<rfloor>"

definition updateBackup :: "ident \<Rightarrow> (Backup \<Rightarrow> Backup) \<Rightarrow> Backup act" where
  "updateBackup i f =
     andThen (orThrow (NotFoundError ''Backup'') (findBackup i)) (\<lambda>b.
     andThen (writeState (\<lambda>s. s\<lparr>backups := updateWhere (\<lambda>b. b_id b = i) f (backups s)\<rparr>)) (\<lambda>_.
     ret (f b)))"

definition deleteBackupRow :: "ident \<Rightarrow> unit act" where
  "deleteBackupRow i =
     andThen (orThrow (NotFoundError ''Backup'') (findBackup i)) (\<lambda>_.
     writeState (\<lambda>s. s\<lparr>backups := deleteWhere (\<lambda>b. b_id b = i) (backups s)\<rparr>))"

definition newBackup :: "ident \<Rightarrow> time \<Rightarrow> ident \<Rightarrow> string \<Rightarrow> Backup" where
  "newBackup i clock serverId name = \<lparr>b_id = i, b_serverId = serverId, b_name = name, b_bytes = 0,
     b_checksum = None, b_completed = False, b_createdAt = clock, b_location = LOC_NODE, b_objectKey = None\<rparr>"

definition insertBackup :: "Backup \<Rightarrow> unit act" where
  "insertBackup b =
     andThen (readState (\<lambda>s. \<exists>c \<in> set (backups s). b_id c = b_id b)) (\<lambda>taken.
     andThen (require (\<not> taken) (UniqueError ''Backup'')) (\<lambda>_.
     writeState (\<lambda>s. s\<lparr>backups := backups s @ [b]\<rparr>)))"

text \<open>\<open>BigInt(undefined)\<close> throws; a field that is \<open>undefined\<close> is not written.\<close>

definition finishBackup :: "int \<Rightarrow> AgentReply \<Rightarrow> Backup \<Rightarrow> Backup" where
  "finishBackup bytes r b = b\<lparr>b_bytes := bytes,
     b_checksum := (case rp_checksum r of None \<Rightarrow> b_checksum b | Some c \<Rightarrow> Some c), b_completed := True,
     b_location := (case rp_objectKey r of None \<Rightarrow> LOC_NODE | Some k \<Rightarrow> if k = [] then LOC_NODE else OBJECT_STORE),
     b_objectKey := rp_objectKey r\<rparr>"

definition createBackup ::
    "agent \<Rightarrow> ident \<Rightarrow> time \<Rightarrow> ident \<Rightarrow> string \<Rightarrow> ident option \<Rightarrow> Backup act" where
  "createBackup agent freshId clock serverId name actorId =
     andThen (orThrow (NotFoundError ''Server'') (findServer serverId)) (\<lambda>server.
     andThen (orThrow (NotFoundError ''Plan'') (findPlan (s_planId server))) (\<lambda>plan.
     andThen (readState (usedMb serverId)) (\<lambda>used.
     andThen (require (\<not> (0 < p_backupMb plan \<and> p_backupMb plan \<le> used)) (BackupQuotaError used (p_backupMb plan))) (\<lambda>_.
     andThen (insertBackup (newBackup freshId clock serverId name)) (\<lambda>_.
     tryCatch
       (andThen (callAgent agent (s_nodeId server) (Backup_create serverId freshId)) (\<lambda>result.
        andThen (orThrow (Error ''TypeError'') (\<lambda>_. rp_bytes result)) (\<lambda>bytes.
        andThen (updateBackup freshId (finishBackup bytes result)) (\<lambda>done'.
        andThen (audit actorId ''backup.create'' ''server'' serverId) (\<lambda>_.
        ret done')))))
       (\<lambda>e. andThen (tryCatch (deleteBackupRow freshId) (\<lambda>_. ret ())) (\<lambda>_. throw e)))))))"

section \<open>Restoring and deleting\<close>

definition restoreBackup :: "agent \<Rightarrow> ident \<Rightarrow> ident \<Rightarrow> ident option \<Rightarrow> unit act" where
  "restoreBackup agent serverId backupId actorId =
     andThen (orThrow (NotFoundError ''Server'') (findServer serverId)) (\<lambda>server.
     andThen (orThrow (NotFoundError ''GameTemplate'') (findTemplate (s_templateId server))) (\<lambda>template.
     andThen (orThrow (NotFoundError ''Backup'') (findBackup backupId)) (\<lambda>backup.
     andThen (require (b_serverId backup = serverId) (Error ''That backup belongs to another server.'')) (\<lambda>_.
     andThen (require (b_completed backup) (Error ''That backup did not finish and cannot be restored.'')) (\<lambda>_.
     andThen (callAgent agent (s_nodeId server) (Server_stop serverId (Some (t_stopCommand template)) (Some 60))) (\<lambda>_.
     andThen (callAgent agent (s_nodeId server) (Backup_restore serverId backupId)) (\<lambda>_.
     audit actorId ''backup.restore'' ''server'' serverId)))))))"

definition deleteBackup :: "agent \<Rightarrow> ident \<Rightarrow> ident \<Rightarrow> ident option \<Rightarrow> unit act" where
  "deleteBackup agent serverId backupId actorId =
     andThen (orThrow (NotFoundError ''Server'') (findServer serverId)) (\<lambda>server.
     andThen (callAgent agent (s_nodeId server) (Backup_delete serverId backupId)) (\<lambda>_.
     andThen (deleteBackupRow backupId) (\<lambda>_.
     audit actorId ''backup.delete'' ''server'' serverId)))"

section \<open>Pruning\<close>

text \<open>\<open>xs.slice(k)\<close>: a negative index counts from the end.\<close>

definition sliceFrom :: "int \<Rightarrow> 'x list \<Rightarrow> 'x list" where
  "sliceFrom k xs = (if 0 \<le> k then drop (nat k) xs else drop (length xs - nat (- k)) xs)"

definition completedNewestFirst :: "ident \<Rightarrow> db \<Rightarrow> Backup list" where
  "completedNewestFirst serverId s =
     sort_key (\<lambda>b. - b_createdAt b) (filter (\<lambda>b. b_serverId b = serverId \<and> b_completed b) (backups s))"

definition pruneBackups :: "agent \<Rightarrow> ident \<Rightarrow> int \<Rightarrow> unit act" where
  "pruneBackups agent serverId keepCount =
     andThen (readState (\<lambda>s. sliceFrom keepCount (completedNewestFirst serverId s))) (\<lambda>stale.
     forEach stale (\<lambda>b. tryCatch (deleteBackup agent serverId (b_id b) None) (\<lambda>_. ret ())))"

section \<open>Schedules\<close>

definition minuteOfDay :: "time \<Rightarrow> int" where
  "minuteOfDay now = now div 60000 mod 1440"

definition weekDay :: "time \<Rightarrow> nat" where
  "weekDay now = nat ((now div msPerDay + 4) mod 7)"

text \<open>\<open>now.toISOString().slice(0, 16)\<close> in the years with four digits.\<close>

definition isoMinute :: "time \<Rightarrow> string" where
  "isoMinute now =
     padStart 4 (CHR ''0'') (showInt (getUTCFullYear now)) @ ''-'' @
     padStart 2 (CHR ''0'') (showInt (getUTCMonth now + 1)) @ ''-'' @
     padStart 2 (CHR ''0'') (showInt (getUTCDate now)) @ ''T'' @
     padStart 2 (CHR ''0'') (showInt (minuteOfDay now div 60)) @ '':'' @
     padStart 2 (CHR ''0'') (showInt (minuteOfDay now mod 60))"

text \<open>The row and the flag of its server, as the query joined them.\<close>

definition scheduleCandidates :: "time \<Rightarrow> db \<Rightarrow> (BackupSchedule \<times> bool) list" where
  "scheduleCandidates now s =
     map (\<lambda>b. (b, case findServer (bs_serverId b) s of None \<Rightarrow> False | Some v \<Rightarrow> s_suspended v))
       (filter (\<lambda>b. bs_enabled b \<and> bs_minuteUtc b = minuteOfDay now) (schedules s))"

definition fires :: "time \<Rightarrow> BackupSchedule \<times> bool \<Rightarrow> bool" where
  "fires now = (\<lambda>(b, suspended).
     bs_daysMask b AND push_bit (weekDay now) 1 \<noteq> 0 \<and> \<not> suspended \<and>
     (case bs_lastRunAt b of None \<Rightarrow> True | Some t \<Rightarrow> \<not> (now - t < 90000)))"

definition updateSchedule :: "ident \<Rightarrow> (BackupSchedule \<Rightarrow> BackupSchedule) \<Rightarrow> unit act" where
  "updateSchedule i f =
     andThen (orThrow (NotFoundError ''BackupSchedule'') (\<lambda>s. List.find (\<lambda>b. bs_id b = i) (schedules s))) (\<lambda>_.
     writeState (\<lambda>s. s\<lparr>schedules := updateWhere (\<lambda>b. bs_id b = i) f (schedules s)\<rparr>))"

record BackupEnv =
  bk_now :: time
  bk_id :: "ident \<Rightarrow> ident" \<comment> \<open>fresh id for the backup of a schedule\<close>
  bk_clock :: "ident \<Rightarrow> time"

definition runSchedule :: "agent \<Rightarrow> BackupEnv \<Rightarrow> BackupSchedule \<Rightarrow> nat act" where
  "runSchedule agent env b =
     andThen (tryCatch
       (andThen (createBackup agent (bk_id env (bs_id b)) (bk_clock env (bs_id b)) (bs_serverId b)
          (''Scheduled '' @ isoMinute (bk_now env)) None) (\<lambda>_.
        andThen (pruneBackups agent (bs_serverId b) (bs_keepCount b)) (\<lambda>_. ret 1)))
       (\<lambda>_. ret 0)) (\<lambda>n.
     andThen (updateSchedule (bs_id b) (\<lambda>b. b\<lparr>bs_lastRunAt := Some (bk_now env)\<rparr>)) (\<lambda>_.
     ret n))"

fun schedulePass :: "agent \<Rightarrow> BackupEnv \<Rightarrow> (BackupSchedule \<times> bool) list \<Rightarrow> nat \<Rightarrow> nat act" where
  "schedulePass agent env [] run = ret run"
| "schedulePass agent env (c # cs) run =
     (if fires (bk_now env) c
      then andThen (runSchedule agent env (fst c)) (\<lambda>n. schedulePass agent env cs (run + n))
      else schedulePass agent env cs run)"

definition runScheduledBackups :: "agent \<Rightarrow> BackupEnv \<Rightarrow> nat act" where
  "runScheduledBackups agent env =
     andThen (readState (scheduleCandidates (bk_now env))) (\<lambda>cs. schedulePass agent env cs 0)"

section \<open>The route\<close>

datatype BackupRequest = CreateReq string | RestoreReq ident

definition quotaFunnel :: "response act \<Rightarrow> response act" where
  "quotaFunnel m = tryCatch m (\<lambda>e. ret (case e of
     BackupQuotaError u l \<Rightarrow> Response 409
       (''Backup storage is full: '' @ showInt u @ '' MB of '' @ showInt l @ '' MB used.'')
   | _ \<Rightarrow> failResponse e))"

definition backupsPost :: "agent \<Rightarrow> AuthEnv \<Rightarrow> ident \<Rightarrow> ident \<Rightarrow> BackupRequest option \<Rightarrow> response act" where
  "backupsPost agent env freshId serverId body = quotaFunnel (
     andThen (parseBody body) (\<lambda>b.
     andThen (requireServerAccess env serverId Backups_create) (\<lambda>(user, server).
     case b of
       CreateReq name \<Rightarrow>
         andThen (createBackup agent freshId (ae_now env) serverId name (Some (u_id user))) (\<lambda>backup.
         ret (Response 201 (b_id backup)))
     | RestoreReq i \<Rightarrow>
         andThen (restoreBackup agent serverId i (Some (u_id user))) (\<lambda>_. ret (Response 200 ''ok'')))))"

definition backupsDelete :: "agent \<Rightarrow> AuthEnv \<Rightarrow> ident \<Rightarrow> ident option \<Rightarrow> response act" where
  "backupsDelete agent env serverId body = handler (
     andThen (parseBody body) (\<lambda>backupId.
     andThen (requireServerAccess env serverId Backups_create) (\<lambda>(user, server).
     andThen (deleteBackup agent serverId backupId (Some (u_id user))) (\<lambda>_.
     ret (Response 200 ''ok'')))))"

section \<open>Creation\<close>

lemma createBackup_started:
  assumes "findServer i s = Some v" and "findPlan (s_planId v) s = Some p"
    and "\<not> (0 < p_backupMb p \<and> p_backupMb p \<le> usedMb i s)" and "\<forall>c \<in> set (backups s). b_id c \<noteq> k"
  shows "createBackup agent k clock i name actor s =
    tryCatch
       (andThen (callAgent agent (s_nodeId v) (Backup_create i k)) (\<lambda>result.
        andThen (orThrow (Error ''TypeError'') (\<lambda>_. rp_bytes result)) (\<lambda>bytes.
        andThen (updateBackup k (finishBackup bytes result)) (\<lambda>done'.
        andThen (audit actor ''backup.create'' ''server'' i) (\<lambda>_.
        ret done')))))
       (\<lambda>e. andThen (tryCatch (deleteBackupRow k) (\<lambda>_. ret ())) (\<lambda>_. throw e))
       (s\<lparr>backups := backups s @ [newBackup k clock i name]\<rparr>)"
proof -
  have "(\<exists>c \<in> set (backups s). b_id c = b_id (newBackup k clock i name)) = False"
    using assms(4) by (simp add: newBackup_def)
  then show ?thesis using assms(1-3)
    by (simp add: createBackup_def andThen_def [of "orThrow _ _"] andThen_def [of "readState _"]
        andThen_def [of "require _ _"] andThen_def [of "insertBackup _"] orThrow_def readState_def require_def
        insertBackup_def writeState_def andThen_def)
qed

lemma find_new:
  fixes rows :: "Backup list"
  assumes "\<forall>c \<in> set rows. b_id c \<noteq> k" and "b_id b = k"
  shows "List.find (\<lambda>c. b_id c = k) (rows @ [b]) = Some b"
    and "deleteWhere (\<lambda>c. b_id c = k) (rows @ [b]) = rows"
    and "updateWhere (\<lambda>c. b_id c = k) f (rows @ [b]) = rows @ [f b]"
  using assms by (induction rows) auto

lemma deleteBackupRow_new:
  assumes "\<forall>c \<in> set (backups s). b_id c \<noteq> k" and "backups u = backups s @ [newBackup k clock i name]"
  shows "tryCatch (deleteBackupRow k) (\<lambda>_. ret ()) u = (Inr (), u\<lparr>backups := backups s\<rparr>)"
  using find_new [OF assms(1), of "newBackup k clock i name"]
  by (simp add: deleteBackupRow_def tryCatch_def andThen_def orThrow_def findBackup_def assms(2) writeState_def newBackup_def)

lemma updateBackup_new:
  assumes "\<forall>c \<in> set (backups s). b_id c \<noteq> k" and "backups u = backups s @ [newBackup k clock i name]"
  shows "updateBackup k f u = (Inr (f (newBackup k clock i name)), u\<lparr>backups := backups s @ [f (newBackup k clock i name)]\<rparr>)"
  using find_new [OF assms(1), of "newBackup k clock i name"]
  by (simp add: updateBackup_def andThen_def orThrow_def findBackup_def assms(2) writeState_def ret_def newBackup_def)

text \<open>What a call of \<open>createBackup\<close> can do.\<close>

lemma createBackup_cases:
  assumes fresh: "\<forall>c \<in> set (backups s). b_id c \<noteq> k"
    and run: "createBackup agent k clock i name actor s = (r, t)"
  shows "(\<exists>e c. r = Inl e \<and> t = s\<lparr>calls := c\<rparr>) \<or>
    (\<exists>v p res bytes l. findServer i s = Some v \<and> findPlan (s_planId v) s = Some p \<and>
       \<not> (0 < p_backupMb p \<and> p_backupMb p \<le> usedMb i s) \<and> rp_bytes res = Some bytes \<and>
       r = Inr (finishBackup bytes res (newBackup k clock i name)) \<and>
       t = s\<lparr>backups := backups s @ [finishBackup bytes res (newBackup k clock i name)],
             calls := calls s @ [(s_nodeId v, Backup_create i k)], auditLog := l\<rparr>)"
proof (cases "\<exists>v p. findServer i s = Some v \<and> findPlan (s_planId v) s = Some p \<and>
    \<not> (0 < p_backupMb p \<and> p_backupMb p \<le> usedMb i s)")
  case False
  then have "\<exists>e. (r, t) = (Inl e, s)"
    using run by (auto simp: createBackup_def andThen_def orThrow_def readState_def require_def split: option.splits if_splits)
  then have "\<exists>e. r = Inl e \<and> t = s\<lparr>calls := calls s\<rparr>" by simp
  then show ?thesis by blast
next
  case True
  then obtain v p where vp: "findServer i s = Some v" "findPlan (s_planId v) s = Some p"
    "\<not> (0 < p_backupMb p \<and> p_backupMb p \<le> usedMb i s)" by blast
  let ?s1 = "s\<lparr>backups := backups s @ [newBackup k clock i name]\<rparr>"
  obtain q u where qu: "callAgent agent (s_nodeId v) (Backup_create i k) ?s1 = (q, u)" by force
  have u: "u = ?s1\<lparr>calls := calls s @ [(s_nodeId v, Backup_create i k)]\<rparr>" using callAgent_state [OF qu] by simp
  have bu: "backups u = backups s @ [newBackup k clock i name]" by (simp add: u)
  have undone: "u\<lparr>backups := backups s\<rparr> = s\<lparr>calls := calls s @ [(s_nodeId v, Backup_create i k)]\<rparr>" by (simp add: u)
  show ?thesis
  proof (cases "\<exists>res bytes. q = Inr res \<and> rp_bytes res = Some bytes")
    case True
    then obtain res bytes where rb: "q = Inr res" "rp_bytes res = Some bytes" by blast
    let ?b = "finishBackup bytes res (newBackup k clock i name)"
    have "(r, t) = (Inr ?b, snd (audit actor ''backup.create'' ''server'' i (u\<lparr>backups := backups s @ [?b]\<rparr>)))"
      using run createBackup_started [OF vp fresh, of agent clock name actor] qu rb updateBackup_new [OF fresh bu, of "finishBackup bytes res"]
      by (simp add: tryCatch_def andThen_def orThrow_def ret_def)
    then have "r = Inr ?b" "t = s\<lparr>backups := backups s @ [?b],
        calls := calls s @ [(s_nodeId v, Backup_create i k)], auditLog := auditLog t\<rparr>"
      by (simp_all add: u)
    with vp rb show ?thesis by blast
  next
    case False
    then obtain e where "(r, t) = (Inl e, u\<lparr>backups := backups s\<rparr>)"
      using run createBackup_started [OF vp fresh, of agent clock name actor] qu deleteBackupRow_new [OF fresh bu]
      by (cases q; cases "rp_bytes (projr q)")
        (auto simp: tryCatch_def [of "andThen _ _"] andThen_def orThrow_def throw_def)
    then show ?thesis using undone by blast
  qed
qed

lemma finishBackup_simps [simp]:
  "b_id (finishBackup n r b) = b_id b" "b_serverId (finishBackup n r b) = b_serverId b"
  "b_completed (finishBackup n r b)"
  "b_location (finishBackup n r b) = OBJECT_STORE \<longleftrightarrow>
     b_objectKey (finishBackup n r b) \<noteq> None \<and> b_objectKey (finishBackup n r b) \<noteq> Some []"
  by (simp_all add: finishBackup_def split: option.split)

lemma newBackup_simps [simp]:
  "b_id (newBackup k clock i name) = k" "b_serverId (newBackup k clock i name) = i"
  by (simp_all add: newBackup_def)


section \<open>Restoring\<close>

text \<open>Only a finished backup of the same server is restored, and only onto a server that was
  stopped first: a restore that succeeds sent the stop command and then the restore command to the
  server's own node, nothing else, and changed no row but the audit log.\<close>

theorem restore_stops_first:
  assumes "restoreBackup agent i k actor s = (Inr (), t)"
  shows "\<exists>v tm b l. findServer i s = Some v \<and> findTemplate (s_templateId v) s = Some tm \<and>
    findBackup k s = Some b \<and> b_serverId b = i \<and> b_completed b \<and>
    t = s\<lparr>calls := calls s @ [(s_nodeId v, Server_stop i (Some (t_stopCommand tm)) (Some 60)),
           (s_nodeId v, Backup_restore i k)], auditLog := l\<rparr>"
proof -
  obtain v tm b where f: "findServer i s = Some v" "findTemplate (s_templateId v) s = Some tm"
    "findBackup k s = Some b" "b_serverId b = i" "b_completed b"
    using assms
    by (auto simp: restoreBackup_def andThen_def orThrow_def require_def split: option.splits if_splits)
  obtain x u y w where c: "callAgent agent (s_nodeId v) (Server_stop i (Some (t_stopCommand tm)) (Some 60)) s = (Inr x, u)"
    "callAgent agent (s_nodeId v) (Backup_restore i k) u = (Inr y, w)"
    "audit actor ''backup.restore'' ''server'' i w = (Inr (), t)"
    using assms f by (auto simp: restoreBackup_def andThen_ok orThrow_def require_def)
  show ?thesis using f c(3) callAgent_state [OF c(1)] callAgent_state [OF c(2)] by auto
qed

section \<open>Pruning\<close>

lemma deleteBackup_rows:
  "backups (snd (deleteBackup agent i k actor s)) = backups s \<or>
   backups (snd (deleteBackup agent i k actor s)) = deleteWhere (\<lambda>b. b_id b = k) (backups s)"
proof (cases "findServer i s")
  case None
  then show ?thesis by (simp add: deleteBackup_def andThen_def orThrow_def)
next
  case (Some v)
  obtain q u where qu: "callAgent agent (s_nodeId v) (Backup_delete i k) s = (q, u)" by force
  have "backups u = backups s" using callAgent_state [OF qu] by simp
  with Some qu show ?thesis
    by (cases q; cases "findBackup k u")
      (auto simp: deleteBackup_def andThen_def orThrow_def deleteBackupRow_def writeState_def)
qed

text \<open>A loop of deletions removes only rows with one of the given ids.\<close>

lemma delete_loop:
  fixes stale :: "Backup list" and agent :: agent and i :: ident
  defines "f \<equiv> \<lambda>b :: Backup. tryCatch (deleteBackup agent i (b_id b) None) (\<lambda>_. ret ())"
  shows "set (backups (snd (forEach stale f s))) \<subseteq> set (backups s) \<and>
    {b \<in> set (backups s). b_id b \<notin> b_id ` set stale} \<subseteq> set (backups (snd (forEach stale f s)))"
proof (induction stale arbitrary: s)
  case Nil
  then show ?case by simp
next
  case (Cons c stale)
  obtain u where u: "f c s = (Inr (), u)"
    unfolding f_def by (rule exE [OF tryCatch_ret [of "deleteBackup agent i (b_id c) None" s]])
  have us: "u = snd (deleteBackup agent i (b_id c) None s)"
    using u by (auto simp: f_def tryCatch_def ret_def split: prod.splits sum.splits)
  have "backups u = backups s \<or> backups u = deleteWhere (\<lambda>b. b_id b = b_id c) (backups s)"
    using deleteBackup_rows [of agent i "b_id c" None s] us by simp
  then have bu: "set (backups u) \<subseteq> set (backups s)" "{b \<in> set (backups s). b_id b \<noteq> b_id c} \<subseteq> set (backups u)"
    by auto
  have "forEach (c # stale) f s = forEach stale f u" using u by simp
  with Cons.IH [of u] bu show ?case by auto
qed

definition keptBackups :: "nat \<Rightarrow> ident \<Rightarrow> db \<Rightarrow> Backup list" where
  "keptBackups k i s = take k (completedNewestFirst i s)"

text \<open>Pruning never loses what it should keep: whatever the agent answers, the newest
  \<open>keep\<close> finished backups of the server survive, as do all unfinished ones and every backup
  of another server, and no row appears.\<close>

theorem prune_keeps_newest:
  assumes "uniqueOn b_id (backups s)" and "b \<in> set (backups s)"
    and "b \<in> set (keptBackups k i s) \<or> \<not> b_completed b \<or> b_serverId b \<noteq> i"
  shows "b \<in> set (backups (snd (pruneBackups agent i (int k) s))) \<and>
    set (backups (snd (pruneBackups agent i (int k) s))) \<subseteq> set (backups s)"
proof -
  let ?all = "completedNewestFirst i s"
  have run: "snd (pruneBackups agent i (int k) s) =
      snd (forEach (drop k ?all) (\<lambda>b. tryCatch (deleteBackup agent i (b_id b) None) (\<lambda>_. ret ())) s)"
    by (simp add: pruneBackups_def andThen_def readState_def sliceFrom_def)
  have sub: "set (drop k ?all) \<subseteq> set ?all" by (rule set_drop_subset)
  have all: "set ?all = {b \<in> set (backups s). b_serverId b = i \<and> b_completed b}"
    by (auto simp: completedNewestFirst_def)
  have dist: "distinct ?all"
    using assms(1) by (simp add: completedNewestFirst_def uniqueOn_def distinct_map)
  have "b \<notin> set (drop k ?all)"
  proof
    assume d: "b \<in> set (drop k ?all)"
    then have "b \<in> set ?all" using sub by blast
    then have "b \<in> set (take k ?all)" using assms(3) all by (auto simp: keptBackups_def)
    with d dist show False using set_take_disj_set_drop_if_distinct [of ?all k k] by auto
  qed
  then have "b_id b \<notin> b_id ` set (drop k ?all)"
    using assms(1,2) sub all by (auto dest: uniqueOn_eq)
  then show ?thesis unfolding run using delete_loop [where agent = agent and i = i and stale = "drop k ?all" and s = s] assms(2) by blast
qed

section \<open>Schedules\<close>

lemma keeps_createBackup [keep]:
  assumes "\<And>s f. g (backups_update f s) = g s" "\<And>s f. g (calls_update f s) = g s" "\<And>s f. g (auditLog_update f s) = g s"
  shows "keeps g (createBackup agent k clock i name actor)"
  unfolding createBackup_def insertBackup_def updateBackup_def deleteBackupRow_def
  by (intro keep) (simp_all add: assms)

lemma keeps_deleteBackup [keep]:
  assumes "\<And>s f. g (backups_update f s) = g s" "\<And>s f. g (calls_update f s) = g s" "\<And>s f. g (auditLog_update f s) = g s"
  shows "keeps g (deleteBackup agent i k actor)"
  unfolding deleteBackup_def deleteBackupRow_def by (intro keep) (simp_all add: assms)

lemma keeps_pruneBackups [keep]:
  assumes "\<And>s f. g (backups_update f s) = g s" "\<And>s f. g (calls_update f s) = g s" "\<And>s f. g (auditLog_update f s) = g s"
  shows "keeps g (pruneBackups agent i k)"
  unfolding pruneBackups_def by (intro keep keeps_forEach) (simp_all add: assms)

definition ranAt :: "time \<Rightarrow> ident \<Rightarrow> db \<Rightarrow> bool" where
  "ranAt now k s \<longleftrightarrow> (\<forall>b \<in> set (schedules s). bs_id b = k \<longrightarrow> bs_lastRunAt b = Some now)"

lemma runSchedule_marks:
  assumes "runSchedule agent env b s = (Inr n, t)"
  shows "ranAt (bk_now env) (bs_id b) t" and "ranAt (bk_now env) k s \<Longrightarrow> ranAt (bk_now env) k t"
proof -
  let ?m = "tryCatch
       (andThen (createBackup agent (bk_id env (bs_id b)) (bk_clock env (bs_id b)) (bs_serverId b)
          (''Scheduled '' @ isoMinute (bk_now env)) None) (\<lambda>_.
        andThen (pruneBackups agent (bs_serverId b) (bs_keepCount b)) (\<lambda>_. ret 1)))
       (\<lambda>_. ret (0::nat))"
  have k: "keeps schedules ?m" by (intro keep) simp_all
  obtain n' u where u: "?m s = (Inr n', u)"
    and up: "updateSchedule (bs_id b) (\<lambda>b. b\<lparr>bs_lastRunAt := Some (bk_now env)\<rparr>) u = (Inr (), t)"
    using assms by (auto simp: runSchedule_def andThen_ok ret_def)
  have "schedules u = schedules s" using keepsD [OF k, of s] u by simp
  moreover have "schedules t = updateWhere (\<lambda>x. bs_id x = bs_id b) (\<lambda>b. b\<lparr>bs_lastRunAt := Some (bk_now env)\<rparr>) (schedules u)"
    using up by (auto simp: updateSchedule_def andThen_ok orThrow_def writeState_def split: option.splits)
  ultimately show "ranAt (bk_now env) (bs_id b) t" and "ranAt (bk_now env) k s \<Longrightarrow> ranAt (bk_now env) k t"
    by (auto simp: ranAt_def set_updateWhere)
qed

lemma schedulePass_marks:
  assumes "schedulePass agent env cs n s = (Inr m, t)"
  shows "(\<forall>c \<in> set cs. fires (bk_now env) c \<longrightarrow> ranAt (bk_now env) (bs_id (fst c)) t) \<and>
    (\<forall>k. ranAt (bk_now env) k s \<longrightarrow> ranAt (bk_now env) k t)"
  using assms
proof (induction cs arbitrary: n s)
  case Nil
  then show ?case by (simp add: ret_def)
next
  case (Cons c cs)
  show ?case
  proof (cases "fires (bk_now env) c")
    case False
    with Cons show ?thesis by auto
  next
    case True
    then obtain q u where u: "runSchedule agent env (fst c) s = (Inr q, u)"
      "schedulePass agent env cs (n + q) u = (Inr m, t)"
      using Cons.prems by (auto simp: andThen_ok)
    show ?thesis using Cons.IH [OF u(2)] runSchedule_marks [OF u(1)] by auto
  qed
qed

text \<open>A schedule fires at most once for its minute: after a pass that completed, a second pass
  within ninety seconds, such as that of a restarted worker, runs none of the schedules the first
  one ran, whether their backups succeeded or failed.\<close>

theorem schedule_fires_once:
  assumes "runScheduledBackups agent env s = (Inr n, t)"
    and "c \<in> set (scheduleCandidates (bk_now env) s)" and "fires (bk_now env) c"
    and "later < bk_now env + 90000"
    and "d \<in> set (scheduleCandidates later t)" and "bs_id (fst d) = bs_id (fst c)"
  shows "\<not> fires later d"
proof -
  have "schedulePass agent env (scheduleCandidates (bk_now env) s) 0 s = (Inr n, t)"
    using assms(1) by (simp add: runScheduledBackups_def andThen_def readState_def)
  then have "ranAt (bk_now env) (bs_id (fst c)) t"
    using schedulePass_marks assms(2,3) by blast
  moreover have "fst d \<in> set (schedules t)" using assms(5) by (auto simp: scheduleCandidates_def)
  ultimately have "bs_lastRunAt (fst d) = Some (bk_now env)" using assms(6) by (simp add: ranAt_def)
  then show ?thesis using assms(4) by (auto simp: fires_def split_def)
qed

section \<open>A defect\<close>

text \<open>Deletion checks the server of the request, not the server of the backup: with an agent that
  answers, whoever may manage the backups of one server can delete the record of another's.\<close>

lemma delete_crosses_servers:
  assumes "findServer i s = Some v" and "findBackup k s = Some b" and "b_serverId b \<noteq> i"
    and "agent (calls s) (s_nodeId v) (Backup_delete i k) = Inr r"
  shows "findBackup k (snd (deleteBackup agent i k actor s)) = None"
  using assms
  by (simp add: deleteBackup_def andThen_def orThrow_def callAgent_def deleteBackupRow_def findBackup_def
      writeState_def find_None_iff)

end
