(* ===== verification/Gateway.thy ===== *)
theory Gateway
  imports Access
begin

text \<open>
  \<open>apps/gateway/src/index.ts\<close>: the process agents and browser consoles connect to. Its state is
  one record; every callback of a socket, of Redis and of a timer is one event, and any
  interleaving of events is a run. A handler runs as one step, except the redemption of a console
  ticket, whose read and whose deletion are separate steps, because other sockets are served
  while the first of them is awaited. JSON is represented by the value it encodes
  (\<open>None\<close>: it does not parse); \<open>verify\<close> is \<open>bcrypt.compare\<close>.
\<close>

section \<open>Messages\<close>

type_synonym sock = nat

definition PROTOCOL_VERSION :: int where
  "PROTOCOL_VERSION = 1"

definition HEARTBEAT_INTERVAL_MS :: int where
  "HEARTBEAT_INTERVAL_MS = 15000"

definition ONLINE_TTL_SECONDS :: int where
  "ONLINE_TTL_SECONDS = 45"

record AgentHello =
  hl_protocol :: int
  hl_agentVersion :: string
  hl_token :: string
  hl_nodeId :: ident
  hl_cpuCores :: rat
  hl_totalMemoryMb :: int
  hl_totalDiskMb :: int

record ConsoleLine =
  cl_serverId :: ident
  cl_stderr :: bool
  cl_line :: string
  cl_at :: time

record AgentResult =
  ar_id :: string
  ar_ok :: bool
  ar_data :: AgentReply
  ar_error :: "(string \<times> string) option"

datatype AgentMessage =
  Hello AgentHello
| Heartbeat time
| ConsoleMsg ConsoleLine
| StateMsg ident ContainerState "int option"
| ResultMsg AgentResult
| OtherMsg

datatype Outgoing =
  HelloAck "ident list"
| ToAgent string CommandPayload
| LineOut ConsoleLine
| StateOut ident ServerStatus

text \<open>What a browser sends: its \<open>type\<close>, and \<open>command\<close> when it is a string.\<close>

record ClientMessage =
  cm_type :: string
  cm_command :: "string option"

section \<open>The state\<close>

record AgentConnection =
  ac_nodeId :: ident
  ac_alive :: bool
  ac_version :: string

record gateway =
  g_db :: db
  g_conns :: "sock \<Rightarrow> AgentConnection option" \<comment> \<open>the variable \<open>conn\<close> of each agent socket\<close>
  g_agents :: "ident \<Rightarrow> sock option"
  g_open :: "sock \<Rightarrow> bool" \<comment> \<open>\<open>readyState === OPEN\<close>\<close>
  g_closed :: "(sock \<times> nat) list" \<comment> \<open>close codes sent, oldest first\<close>
  g_online :: "ident \<Rightarrow> time option" \<comment> \<open>Redis \<open>agent:online:*\<close>, with its expiry\<close>
  g_subscribed :: "ident list"
  g_viewers :: "ident \<Rightarrow> sock list option"
  g_clients :: "sock \<Rightarrow> Ticket option" \<comment> \<open>the ticket a browser socket was admitted with\<close>
  g_redeeming :: "sock \<Rightarrow> (string \<times> Ticket) option" \<comment> \<open>read, not deleted yet\<close>
  g_tickets :: "string \<Rightarrow> (Ticket \<times> time) option"
  g_buffer :: "ident \<Rightarrow> (ConsoleLine list \<times> time) option" \<comment> \<open>newest first\<close>
  g_sent :: "(sock \<times> Outgoing) list"
  g_published :: "(ident \<times> string \<times> CommandPayload) list"
  g_replies :: "AgentResult list"
  g_pinged :: "sock list"

definition closeSock :: "sock \<Rightarrow> nat \<Rightarrow> gateway \<Rightarrow> gateway" where
  "closeSock ws code g =
     (if g_open g ws then g\<lparr>g_open := (g_open g)(ws := False), g_closed := g_closed g @ [(ws, code)]\<rparr> else g)"

definition send :: "sock \<Rightarrow> Outgoing \<Rightarrow> gateway \<Rightarrow> gateway" where
  "send ws m g = (if g_open g ws then g\<lparr>g_sent := g_sent g @ [(ws, m)]\<rparr> else g)"

fun sendAll :: "sock list \<Rightarrow> Outgoing \<Rightarrow> gateway \<Rightarrow> gateway" where
  "sendAll [] m g = g"
| "sendAll (v # vs) m g = sendAll vs m (send v m g)"

definition publishCommand :: "ident \<Rightarrow> string \<Rightarrow> CommandPayload \<Rightarrow> gateway \<Rightarrow> gateway" where
  "publishCommand nodeId i p g = g\<lparr>g_published := g_published g @ [(nodeId, i, p)]\<rparr>"

definition updateNode :: "ident \<Rightarrow> (Node \<Rightarrow> Node) \<Rightarrow> gateway \<Rightarrow> gateway" where
  "updateNode i f g = g\<lparr>g_db := (g_db g)\<lparr>nodes := updateWhere (\<lambda>n. n_id n = i) f (nodes (g_db g))\<rparr>\<rparr>"

section \<open>Agent sockets\<close>

definition subscribeCommands :: "ident \<Rightarrow> gateway \<Rightarrow> gateway" where
  "subscribeCommands i g =
     (if i \<in> set (g_subscribed g) then g else g\<lparr>g_subscribed := g_subscribed g @ [i]\<rparr>)"

text \<open>\<open>x || y\<close> on numbers\<close>

definition orElse :: "'n::zero \<Rightarrow> 'n \<Rightarrow> 'n" where
  "orElse x y = (if x = 0 then y else x)"

definition nodeOnline :: "time \<Rightarrow> AgentHello \<Rightarrow> Node \<Rightarrow> Node" where
  "nodeOnline now h n = n\<lparr>n_status := N_ONLINE, n_agentVersion := Some (hl_agentVersion h),
     n_lastHeartbeat := Some now,
     n_totalCpuCores := orElse (n_totalCpuCores n) (hl_cpuCores h),
     n_totalMemoryMb := orElse (n_totalMemoryMb n) (hl_totalMemoryMb h),
     n_totalDiskMb := orElse (n_totalDiskMb n) (hl_totalDiskMb h)\<rparr>"

definition expectedServers :: "ident \<Rightarrow> db \<Rightarrow> ident list" where
  "expectedServers i s = map s_id (filter (\<lambda>v. s_nodeId v = i \<and> s_status v \<noteq> DELETING) (servers s))"

definition acceptAgent :: "time \<Rightarrow> sock \<Rightarrow> AgentHello \<Rightarrow> ident \<Rightarrow> gateway \<Rightarrow> gateway" where
  "acceptAgent now ws h i g =
     (let g1 = (case g_agents g i of None \<Rightarrow> g | Some old \<Rightarrow> closeSock old 4000 g);
          g2 = g1\<lparr>g_conns := (g_conns g1)(ws \<mapsto> \<lparr>ac_nodeId = i, ac_alive = True, ac_version = hl_agentVersion h\<rparr>),
                  g_agents := (g_agents g1)(i \<mapsto> ws)\<rparr>;
          g3 = updateNode i (nodeOnline now h) g2;
          g4 = g3\<lparr>g_online := (g_online g3)(i \<mapsto> now + ONLINE_TTL_SECONDS * 1000)\<rparr>;
          g5 = subscribeCommands i g4
      in send ws (HelloAck (expectedServers i (g_db g5))) g5)"

definition onHello :: "(string \<Rightarrow> string \<Rightarrow> bool) \<Rightarrow> time \<Rightarrow> sock \<Rightarrow> AgentMessage \<Rightarrow> gateway \<Rightarrow> gateway" where
  "onHello verify now ws m g =
     (case m of
        Hello h \<Rightarrow>
          if hl_protocol h \<noteq> PROTOCOL_VERSION then closeSock ws 4426 g
          else (case findNode (hl_nodeId h) (g_db g) of
            None \<Rightarrow> closeSock ws 4404 g
          | Some node \<Rightarrow>
              if \<not> verify (hl_token h) (n_agentTokenHash node) then closeSock ws 4403 g
              else acceptAgent now ws h (n_id node) g)
      | _ \<Rightarrow> closeSock ws 4401 g)"

definition setAlive :: "bool \<Rightarrow> sock \<Rightarrow> gateway \<Rightarrow> gateway" where
  "setAlive b ws g = (case g_conns g ws of
     None \<Rightarrow> g | Some c \<Rightarrow> g\<lparr>g_conns := (g_conns g)(ws \<mapsto> c\<lparr>ac_alive := b\<rparr>)\<rparr>)"

definition onHeartbeat :: "time \<Rightarrow> sock \<Rightarrow> ident \<Rightarrow> time \<Rightarrow> gateway \<Rightarrow> gateway" where
  "onHeartbeat now ws i sentAt g =
     (let g1 = setAlive True ws g;
          g2 = g1\<lparr>g_online := (g_online g1)(i \<mapsto> now + ONLINE_TTL_SECONDS * 1000)\<rparr>
      in updateNode i (\<lambda>n. n\<lparr>n_lastHeartbeat := Some sentAt, n_status := N_ONLINE\<rparr>) g2)"

definition liveBuffer :: "time \<Rightarrow> ident \<Rightarrow> gateway \<Rightarrow> ConsoleLine list" where
  "liveBuffer now i g =
     (case g_buffer g i of None \<Rightarrow> [] | Some (ls, e) \<Rightarrow> if e \<le> now then [] else ls)"

definition viewersOf :: "ident \<Rightarrow> gateway \<Rightarrow> sock list" where
  "viewersOf i g = (case g_viewers g i of None \<Rightarrow> [] | Some vs \<Rightarrow> vs)"

definition onConsole :: "time \<Rightarrow> ConsoleLine \<Rightarrow> gateway \<Rightarrow> gateway" where
  "onConsole now l g =
     (let i = cl_serverId l;
          g1 = sendAll (viewersOf i g) (LineOut l) g
      in g1\<lparr>g_buffer := (g_buffer g1)(i \<mapsto> (take 500 (l # liveBuffer now i g1), now + 3600 * 1000))\<rparr>)"

definition statusOfState :: "ContainerState \<Rightarrow> int option \<Rightarrow> ServerStatus" where
  "statusOfState st exitCode =
     (if st = C_running then RUNNING
      else if st = C_restarting then STARTING
      else (case exitCode of
        None \<Rightarrow> OFFLINE
      | Some k \<Rightarrow> if k \<noteq> 0 then CRASHED else OFFLINE))"

definition onState :: "ident \<Rightarrow> ContainerState \<Rightarrow> int option \<Rightarrow> gateway \<Rightarrow> gateway" where
  "onState i st exitCode g =
     (let status = statusOfState st exitCode;
          g1 = g\<lparr>g_db := snd (updateServer i (\<lambda>v. v\<lparr>s_status := status\<rparr>) (g_db g))\<rparr>
      in sendAll (viewersOf i g1) (StateOut i status) g1)"

definition onAgentMessage ::
    "(string \<Rightarrow> string \<Rightarrow> bool) \<Rightarrow> time \<Rightarrow> sock \<Rightarrow> AgentMessage option \<Rightarrow> gateway \<Rightarrow> gateway" where
  "onAgentMessage verify now ws raw g =
     (case raw of
        None \<Rightarrow> closeSock ws 4400 g
      | Some m \<Rightarrow>
          (case g_conns g ws of
             None \<Rightarrow> onHello verify now ws m g
           | Some c \<Rightarrow>
               (case m of
                  Heartbeat sentAt \<Rightarrow> onHeartbeat now ws (ac_nodeId c) sentAt g
                | ConsoleMsg l \<Rightarrow> onConsole now l g
                | StateMsg i st k \<Rightarrow> onState i st k g
                | ResultMsg r \<Rightarrow> g\<lparr>g_replies := g_replies g @ [r]\<rparr>
                | _ \<Rightarrow> g)))"

definition onAgentClose :: "sock \<Rightarrow> gateway \<Rightarrow> gateway" where
  "onAgentClose ws g0 =
     (let g = g0\<lparr>g_open := (g_open g0)(ws := False)\<rparr> in
      case g_conns g ws of
        None \<Rightarrow> g
      | Some c \<Rightarrow>
          if g_agents g (ac_nodeId c) = Some ws
          then updateNode (ac_nodeId c) (\<lambda>n. n\<lparr>n_status := N_OFFLINE\<rparr>)
                 (g\<lparr>g_agents := (g_agents g)(ac_nodeId c := None),
                    g_online := (g_online g)(ac_nodeId c := None)\<rparr>)
          else g)"

text \<open>The timer set when an agent socket connects.\<close>

definition onHelloTimeout :: "sock \<Rightarrow> gateway \<Rightarrow> gateway" where
  "onHelloTimeout ws g = (if g_conns g ws = None then closeSock ws 4401 g else g)"

text \<open>A command that arrives on the Redis channel of a node.\<close>

definition onCommand :: "ident \<Rightarrow> string \<Rightarrow> CommandPayload \<Rightarrow> gateway \<Rightarrow> gateway" where
  "onCommand nodeId i p g =
     (case g_agents g nodeId of None \<Rightarrow> g | Some ws \<Rightarrow> send ws (ToAgent i p) g)"

section \<open>Browser consoles\<close>

definition redeemTicket :: "time \<Rightarrow> sock \<Rightarrow> string option \<Rightarrow> gateway \<Rightarrow> gateway" where
  "redeemTicket now ws ticket g =
     (case ticket of
        None \<Rightarrow> closeSock ws 4401 g
      | Some t \<Rightarrow>
          if t = [] then closeSock ws 4401 g
          else (case g_tickets g t of
            None \<Rightarrow> closeSock ws 4401 g
          | Some (tk, e) \<Rightarrow>
              if e \<le> now then closeSock ws 4401 g
              else g\<lparr>g_redeeming := (g_redeeming g)(ws \<mapsto> (t, tk))\<rparr>))"

definition admitViewer :: "time \<Rightarrow> sock \<Rightarrow> gateway \<Rightarrow> gateway" where
  "admitViewer now ws g =
     (case g_redeeming g ws of
        None \<Rightarrow> g
      | Some (t, tk) \<Rightarrow>
          let i = tk_serverId tk;
              g1 = g\<lparr>g_redeeming := (g_redeeming g)(ws := None), g_tickets := (g_tickets g)(t := None),
                     g_clients := (g_clients g)(ws \<mapsto> tk)\<rparr>;
              g2 = (if g_viewers g1 i = None
                    then publishCommand (tk_nodeId tk) (''attach-'' @ i) (Console_attach i 200) g1 else g1);
              vs = viewersOf i g2;
              g3 = g2\<lparr>g_viewers := (g_viewers g2)(i \<mapsto> (if ws \<in> set vs then vs else vs @ [ws]))\<rparr>
          in fold (\<lambda>l. send ws (LineOut l)) (rev (take 200 (liveBuffer now i g3))) g3)"

definition onViewerMessage :: "string \<Rightarrow> sock \<Rightarrow> ClientMessage option \<Rightarrow> gateway \<Rightarrow> gateway" where
  "onViewerMessage msgId ws raw g =
     (case g_clients g ws of
        None \<Rightarrow> g
      | Some tk \<Rightarrow>
          if \<not> tk_canCommand tk then g
          else (case raw of
            None \<Rightarrow> g
          | Some m \<Rightarrow>
              if cm_type m = ''command'' then
                (case cm_command m of
                   None \<Rightarrow> g
                 | Some c \<Rightarrow> publishCommand (tk_nodeId tk) msgId
                     (Server_command (tk_serverId tk) (take 2000 c)) g)
              else g))"

definition onViewerClose :: "sock \<Rightarrow> gateway \<Rightarrow> gateway" where
  "onViewerClose ws g0 =
     (let g = g0\<lparr>g_open := (g_open g0)(ws := False)\<rparr> in
      case g_clients g ws of
        None \<Rightarrow> g
      | Some tk \<Rightarrow>
          let i = tk_serverId tk; vs = removeAll ws (viewersOf i g)
          in if vs = []
             then publishCommand (tk_nodeId tk) (''detach-'' @ i) (Console_detach i)
                    (g\<lparr>g_viewers := (g_viewers g)(i := None)\<rparr>)
             else g\<lparr>g_viewers := (g_viewers g)(i \<mapsto> vs)\<rparr>)"

section \<open>Liveness\<close>

text \<open>\<open>terminate()\<close> destroys the socket; its \<open>close\<close> callback is an event of its own.\<close>

definition livenessOne :: "sock \<Rightarrow> gateway \<Rightarrow> gateway" where
  "livenessOne ws g =
     (case g_conns g ws of
        None \<Rightarrow> g
      | Some c \<Rightarrow>
          if \<not> ac_alive c then g\<lparr>g_open := (g_open g)(ws := False)\<rparr>
          else (setAlive False ws g)\<lparr>g_pinged := g_pinged g @ [ws]\<rparr>)"

text \<open>The sockets of \<open>agents.values()\<close>, for the nodes of the given list.\<close>

definition livenessTick :: "ident list \<Rightarrow> gateway \<Rightarrow> gateway" where
  "livenessTick ids g = fold livenessOne (List.map_filter (g_agents g) ids) g"

definition sweepNodes :: "time \<Rightarrow> gateway \<Rightarrow> gateway" where
  "sweepNodes now g = g\<lparr>g_db := (g_db g)\<lparr>nodes :=
     updateWhere (\<lambda>n. n_status n = N_ONLINE \<and> (case n_lastHeartbeat n of None \<Rightarrow> False | Some h \<Rightarrow> h < now - 60000))
       (\<lambda>n. n\<lparr>n_status := N_UNREACHABLE\<rparr>) (nodes (g_db g))\<rparr>\<rparr>"

section \<open>Runs\<close>

datatype event =
  AgentMessageEv sock "AgentMessage option"
| AgentCloseEv sock
| AgentPongEv sock
| HelloTimeoutEv sock
| CommandEv ident string CommandPayload
| RedeemEv sock "string option"
| AdmitEv sock
| ViewerMessageEv string sock "ClientMessage option"
| ViewerCloseEv sock
| TickEv "ident list"
| SweepEv

text \<open>A browser socket connects once, so it redeems at most one ticket.\<close>

fun gatewayStep :: "(string \<Rightarrow> string \<Rightarrow> bool) \<Rightarrow> time \<Rightarrow> event \<Rightarrow> gateway \<Rightarrow> gateway" where
  "gatewayStep verify now (AgentMessageEv ws m) g = onAgentMessage verify now ws m g"
| "gatewayStep verify now (AgentCloseEv ws) g = onAgentClose ws g"
| "gatewayStep verify now (AgentPongEv ws) g = setAlive True ws g"
| "gatewayStep verify now (HelloTimeoutEv ws) g = onHelloTimeout ws g"
| "gatewayStep verify now (CommandEv n i p) g = onCommand n i p g"
| "gatewayStep verify now (RedeemEv ws t) g =
     (if g_clients g ws = None \<and> g_redeeming g ws = None then redeemTicket now ws t g else g)"
| "gatewayStep verify now (AdmitEv ws) g = admitViewer now ws g"
| "gatewayStep verify now (ViewerMessageEv k ws m) g = onViewerMessage k ws m g"
| "gatewayStep verify now (ViewerCloseEv ws) g = onViewerClose ws g"
| "gatewayStep verify now (TickEv ids) g = livenessTick ids g"
| "gatewayStep verify now SweepEv g = sweepNodes now g"

definition startGateway :: "db \<Rightarrow> (string \<Rightarrow> (Ticket \<times> time) option) \<Rightarrow> (sock \<Rightarrow> bool) \<Rightarrow> gateway" where
  "startGateway s tickets opened = \<lparr>g_db = s, g_conns = (\<lambda>_. None), g_agents = (\<lambda>_. None), g_open = opened,
     g_closed = [], g_online = (\<lambda>_. None), g_subscribed = [], g_viewers = (\<lambda>_. None), g_clients = (\<lambda>_. None),
     g_redeeming = (\<lambda>_. None), g_tickets = tickets, g_buffer = (\<lambda>_. None), g_sent = [], g_published = [],
     g_replies = [], g_pinged = []\<rparr>"

inductive reachable :: "(string \<Rightarrow> string \<Rightarrow> bool) \<Rightarrow> gateway \<Rightarrow> gateway \<Rightarrow> bool"
  for verify :: "string \<Rightarrow> string \<Rightarrow> bool" and g0 :: gateway where
  start: "reachable verify g0 g0"
| step: "reachable verify g0 g \<Longrightarrow> reachable verify g0 (gatewayStep verify now e g)"

section \<open>Frames\<close>

named_theorems gw_frames \<open>what the sending operations leave alone\<close>

lemma closeSock_frames [gw_frames]:
  "g_db (closeSock ws k g) = g_db g" "g_conns (closeSock ws k g) = g_conns g" "g_agents (closeSock ws k g) = g_agents g"
  "g_viewers (closeSock ws k g) = g_viewers g" "g_clients (closeSock ws k g) = g_clients g"
  "g_buffer (closeSock ws k g) = g_buffer g" "g_redeeming (closeSock ws k g) = g_redeeming g"
  "g_tickets (closeSock ws k g) = g_tickets g" "g_published (closeSock ws k g) = g_published g"
  "g_online (closeSock ws k g) = g_online g"
  by (simp_all add: closeSock_def)

lemma send_frames [gw_frames]:
  "g_db (send ws m g) = g_db g" "g_conns (send ws m g) = g_conns g" "g_agents (send ws m g) = g_agents g"
  "g_viewers (send ws m g) = g_viewers g" "g_clients (send ws m g) = g_clients g"
  "g_buffer (send ws m g) = g_buffer g" "g_redeeming (send ws m g) = g_redeeming g"
  "g_tickets (send ws m g) = g_tickets g" "g_published (send ws m g) = g_published g"
  "g_online (send ws m g) = g_online g" "g_open (send ws m g) = g_open g"
  by (simp_all add: send_def)

lemma sendAll_frames [gw_frames]:
  "g_db (sendAll vs m g) = g_db g" "g_conns (sendAll vs m g) = g_conns g" "g_agents (sendAll vs m g) = g_agents g"
  "g_viewers (sendAll vs m g) = g_viewers g" "g_clients (sendAll vs m g) = g_clients g"
  "g_buffer (sendAll vs m g) = g_buffer g" "g_redeeming (sendAll vs m g) = g_redeeming g"
  "g_tickets (sendAll vs m g) = g_tickets g" "g_published (sendAll vs m g) = g_published g"
  by (induction vs arbitrary: g) (simp_all add: gw_frames)

lemma fold_send_frames [gw_frames]:
  "g_db (fold (\<lambda>l. send ws (LineOut l)) ls g) = g_db g" "g_conns (fold (\<lambda>l. send ws (LineOut l)) ls g) = g_conns g"
  "g_agents (fold (\<lambda>l. send ws (LineOut l)) ls g) = g_agents g"
  "g_viewers (fold (\<lambda>l. send ws (LineOut l)) ls g) = g_viewers g"
  "g_clients (fold (\<lambda>l. send ws (LineOut l)) ls g) = g_clients g"
  "g_buffer (fold (\<lambda>l. send ws (LineOut l)) ls g) = g_buffer g"
  "g_redeeming (fold (\<lambda>l. send ws (LineOut l)) ls g) = g_redeeming g"
  "g_tickets (fold (\<lambda>l. send ws (LineOut l)) ls g) = g_tickets g"
  "g_published (fold (\<lambda>l. send ws (LineOut l)) ls g) = g_published g"
  by (induction ls arbitrary: g) (simp_all add: gw_frames)

lemma updateNode_frames [gw_frames]:
  "g_conns (updateNode i f g) = g_conns g" "g_agents (updateNode i f g) = g_agents g"
  "g_viewers (updateNode i f g) = g_viewers g" "g_clients (updateNode i f g) = g_clients g"
  "g_buffer (updateNode i f g) = g_buffer g" "g_open (updateNode i f g) = g_open g"
  "g_online (updateNode i f g) = g_online g" "g_tickets (updateNode i f g) = g_tickets g"
  "g_published (updateNode i f g) = g_published g"
  by (simp_all add: updateNode_def)

lemma subscribe_frames [gw_frames]:
  "g_conns (subscribeCommands i g) = g_conns g" "g_agents (subscribeCommands i g) = g_agents g"
  "g_viewers (subscribeCommands i g) = g_viewers g" "g_clients (subscribeCommands i g) = g_clients g"
  "g_buffer (subscribeCommands i g) = g_buffer g" "g_db (subscribeCommands i g) = g_db g"
  "g_open (subscribeCommands i g) = g_open g" "g_online (subscribeCommands i g) = g_online g"
  by (simp_all add: subscribeCommands_def)

section \<open>Authentication\<close>

text \<open>Nothing an unauthenticated socket sends has any effect but its own closing: unless the
  message is a hello of this protocol version, for a node that exists, with a token that matches
  the hash of that node, the gateway only closes the socket.\<close>

theorem unauthenticated_changes_nothing:
  assumes "g_conns g ws = None"
    and "\<forall>h node. raw = Some (Hello h) \<longrightarrow> hl_protocol h = PROTOCOL_VERSION \<longrightarrow>
      findNode (hl_nodeId h) (g_db g) = Some node \<longrightarrow> \<not> verify (hl_token h) (n_agentTokenHash node)"
  shows "\<exists>code. onAgentMessage verify now ws raw g = closeSock ws code g"
proof (cases raw)
  case None
  then show ?thesis by (auto simp: onAgentMessage_def)
next
  case (Some m)
  then show ?thesis using assms
    by (cases m) (auto simp: onAgentMessage_def onHello_def split: option.split)
qed

section \<open>The invariant of the gateway\<close>

definition agentsOk :: "gateway \<Rightarrow> bool" where
  "agentsOk g \<longleftrightarrow> (\<forall>i ws. g_agents g i = Some ws \<longrightarrow> (\<exists>c. g_conns g ws = Some c \<and> ac_nodeId c = i))"

definition viewersOk :: "gateway \<Rightarrow> bool" where
  "viewersOk g \<longleftrightarrow> (\<forall>i vs. g_viewers g i = Some vs \<longrightarrow> vs \<noteq> [] \<and> distinct vs \<and>
     (\<forall>v \<in> set vs. \<exists>tk. g_clients g v = Some tk \<and> tk_serverId tk = i)) \<and>
     (\<forall>v. g_redeeming g v \<noteq> None \<longrightarrow> g_clients g v = None)"

definition buffersOk :: "gateway \<Rightarrow> bool" where
  "buffersOk g \<longleftrightarrow> (\<forall>i ls e. g_buffer g i = Some (ls, e) \<longrightarrow> length ls \<le> 500)"

text \<open>The parts each of the three reads, so that a step that leaves them alone keeps it.\<close>

lemma agentsOk_cong: "g_agents h = g_agents g \<Longrightarrow> g_conns h = g_conns g \<Longrightarrow> agentsOk h = agentsOk g"
  by (simp add: agentsOk_def)

lemma viewersOk_cong:
  "g_viewers h = g_viewers g \<Longrightarrow> g_clients h = g_clients g \<Longrightarrow> g_redeeming h = g_redeeming g \<Longrightarrow> viewersOk h = viewersOk g"
  by (simp add: viewersOk_def)

lemma buffersOk_cong: "g_buffer h = g_buffer g \<Longrightarrow> buffersOk h = buffersOk g"
  by (simp add: buffersOk_def)

lemma redeeming_frames [gw_frames]:
  "g_redeeming (updateNode i f g) = g_redeeming g" "g_redeeming (subscribeCommands i g) = g_redeeming g"
  by (simp_all add: updateNode_def subscribeCommands_def)

lemma setAlive_frames [gw_frames]:
  "g_db (setAlive b ws g) = g_db g" "g_agents (setAlive b ws g) = g_agents g" "g_viewers (setAlive b ws g) = g_viewers g"
  "g_clients (setAlive b ws g) = g_clients g" "g_redeeming (setAlive b ws g) = g_redeeming g"
  "g_buffer (setAlive b ws g) = g_buffer g" "g_open (setAlive b ws g) = g_open g" "g_pinged (setAlive b ws g) = g_pinged g"
  by (simp_all add: setAlive_def split: option.split)

lemma agentsOk_setAlive: "agentsOk g \<Longrightarrow> agentsOk (setAlive b ws g)"
  by (fastforce simp: agentsOk_def setAlive_def split: option.split)

lemma livenessOne_frames [gw_frames]:
  "g_viewers (livenessOne ws g) = g_viewers g" "g_clients (livenessOne ws g) = g_clients g"
  "g_redeeming (livenessOne ws g) = g_redeeming g" "g_buffer (livenessOne ws g) = g_buffer g"
  "g_agents (livenessOne ws g) = g_agents g" "g_db (livenessOne ws g) = g_db g"
  by (simp_all add: livenessOne_def gw_frames split: option.split)

lemma fold_liveness_frames [gw_frames]:
  "g_viewers (fold livenessOne l g) = g_viewers g" "g_clients (fold livenessOne l g) = g_clients g"
  "g_redeeming (fold livenessOne l g) = g_redeeming g" "g_buffer (fold livenessOne l g) = g_buffer g"
  "g_agents (fold livenessOne l g) = g_agents g" "g_db (fold livenessOne l g) = g_db g"
  by (induction l arbitrary: g) (simp_all add: gw_frames)

lemma agentsOk_livenessOne: "agentsOk g \<Longrightarrow> agentsOk (livenessOne ws g)"
proof -
  assume ok: "agentsOk g"
  have "agentsOk ((setAlive False ws g)\<lparr>g_pinged := p\<rparr>)" for p
    using agentsOk_setAlive [OF ok, of False ws] agentsOk_cong [of "(setAlive False ws g)\<lparr>g_pinged := p\<rparr>" "setAlive False ws g"]
    by simp
  moreover have "agentsOk (g\<lparr>g_open := q\<rparr>)" for q
    using ok agentsOk_cong [of "g\<lparr>g_open := q\<rparr>" g] by simp
  ultimately show ?thesis using ok by (simp add: livenessOne_def split: option.split)
qed

lemma agentsOk_fold: "agentsOk g \<Longrightarrow> agentsOk (fold livenessOne l g)"
  by (induction l arbitrary: g) (simp_all add: agentsOk_livenessOne)

lemma agentsOk_accept:
  assumes "agentsOk g" and "g_conns g ws = None"
  shows "agentsOk (acceptAgent now ws h i g)"
proof -
  have "g_agents (acceptAgent now ws h i g) = (g_agents g)(i \<mapsto> ws)"
    "g_conns (acceptAgent now ws h i g) = (g_conns g)(ws \<mapsto> \<lparr>ac_nodeId = i, ac_alive = True, ac_version = hl_agentVersion h\<rparr>)"
    by (simp_all add: acceptAgent_def Let_def gw_frames split: option.split)
  then show ?thesis using assms by (fastforce simp: agentsOk_def)
qed

lemma acceptAgent_frames [gw_frames]:
  "g_viewers (acceptAgent now ws h i g) = g_viewers g" "g_clients (acceptAgent now ws h i g) = g_clients g"
  "g_redeeming (acceptAgent now ws h i g) = g_redeeming g" "g_buffer (acceptAgent now ws h i g) = g_buffer g"
  by (simp_all add: acceptAgent_def Let_def gw_frames split: option.split)

lemma agentsOk_step: "agentsOk g \<Longrightarrow> agentsOk (gatewayStep verify now e g)"
proof (cases e)
  case (AgentMessageEv ws m)
  assume ok: "agentsOk g"
  have hello: "agentsOk (onHello verify now ws x g)" if "g_conns g ws = None" for x
    using ok that agentsOk_accept [OF ok that]
    by (auto simp: onHello_def agentsOk_cong [OF closeSock_frames(3,2)] split: AgentMessage.split option.split)
  have hb: "agentsOk (onHeartbeat now ws i a g)" for i a
    using agentsOk_setAlive [OF ok, of True ws] agentsOk_cong [of "onHeartbeat now ws i a g" "setAlive True ws g"]
    by (simp add: onHeartbeat_def Let_def gw_frames)
  have co: "agentsOk (onConsole now l g)" "agentsOk (onState i st k g)" for l i st k
    using ok agentsOk_cong [of "onConsole now l g" g] agentsOk_cong [of "onState i st k g" g]
    by (simp_all add: onConsole_def onState_def Let_def gw_frames)
  have cl: "agentsOk (closeSock ws k g)" "agentsOk (g\<lparr>g_replies := r\<rparr>)" for k r
    using ok agentsOk_cong [of "closeSock ws k g" g] agentsOk_cong [of "g\<lparr>g_replies := r\<rparr>" g] by (simp_all add: gw_frames)
  show ?thesis using AgentMessageEv ok hello hb co cl
    by (auto simp: onAgentMessage_def split: option.split AgentMessage.split)
next
  case (AgentCloseEv ws)
  assume "agentsOk g"
  with AgentCloseEv show ?thesis
    by (auto simp: agentsOk_def onAgentClose_def Let_def gw_frames split: option.split)
next
  case (TickEv ids)
  assume "agentsOk g"
  with TickEv show ?thesis by (simp add: livenessTick_def agentsOk_fold)
next
  case (AgentPongEv ws)
  assume "agentsOk g"
  with AgentPongEv show ?thesis by (simp add: agentsOk_setAlive)
qed (auto simp: agentsOk_def onHelloTimeout_def onCommand_def redeemTicket_def admitViewer_def onViewerMessage_def
    onViewerClose_def sweepNodes_def publishCommand_def Let_def gw_frames split: option.split)

lemma viewersOf_frames [gw_frames]:
  "viewersOf i (g_redeeming_update f1 g) = viewersOf i g" "viewersOf i (g_tickets_update f2 g) = viewersOf i g"
  "viewersOf i (g_clients_update f3 g) = viewersOf i g" "viewersOf i (g_published_update f4 g) = viewersOf i g"
  "viewersOf i (g_open_update f5 g) = viewersOf i g"
  by (simp_all add: viewersOf_def)

lemma viewersOf_ok:
  "viewersOk g \<Longrightarrow> distinct (viewersOf i g) \<and> (\<forall>v \<in> set (viewersOf i g). \<exists>tk. g_clients g v = Some tk \<and> tk_serverId tk = i)"
  by (cases "g_viewers g i") (simp_all add: viewersOk_def viewersOf_def)

lemma viewersOk_set:
  assumes "viewersOk g" and "h = g\<lparr>g_viewers := (g_viewers g)(i := Some vs)\<rparr>" and "vs \<noteq> []" and "distinct vs"
    and "\<forall>v \<in> set vs. \<exists>tk. g_clients g v = Some tk \<and> tk_serverId tk = i"
  shows "viewersOk h"
  using assms by (simp add: viewersOk_def)

lemma viewersOk_admit:
  assumes ok: "viewersOk g" shows "viewersOk (admitViewer now ws g)"
proof (cases "g_redeeming g ws")
  case None
  with ok show ?thesis by (simp add: admitViewer_def)
next
  case (Some q)
  obtain t tk where q: "q = (t, tk)" by (cases q)
  let ?i = "tk_serverId tk"
  have fresh: "g_clients g ws = None" using ok Some by (simp add: viewersOk_def)
  let ?g1 = "g\<lparr>g_redeeming := (g_redeeming g)(ws := None), g_clients := (g_clients g)(ws \<mapsto> tk)\<rparr>"
  have ok1: "viewersOk ?g1"
    using ok fresh by (fastforce simp: viewersOk_def)
  have notin: "ws \<notin> set (viewersOf ?i g)" using viewersOf_ok [OF ok, of ?i] fresh by fastforce
  have vs: "viewersOf ?i ?g1 = viewersOf ?i g" by (simp add: gw_frames)
  let ?h = "?g1\<lparr>g_viewers := (g_viewers ?g1)(?i := Some (viewersOf ?i g @ [ws]))\<rparr>"
  have "viewersOk ?h"
    by (rule viewersOk_set [OF ok1 refl]) (use notin viewersOf_ok [OF ok1, of ?i] vs in simp_all)
  moreover have "g_clients (admitViewer now ws g) = g_clients ?h" "g_redeeming (admitViewer now ws g) = g_redeeming ?h"
    "g_viewers (admitViewer now ws g) = g_viewers ?h"
    using notin by (simp_all add: admitViewer_def Some q Let_def gw_frames publishCommand_def)
  ultimately show ?thesis using viewersOk_cong by blast
qed

lemma viewersOk_close:
  assumes ok: "viewersOk g" shows "viewersOk (onViewerClose ws g)"
proof (cases "g_clients g ws")
  case None
  with ok show ?thesis by (simp add: onViewerClose_def viewersOk_def)
next
  case (Some tk)
  let ?i = "tk_serverId tk" and ?vs = "removeAll ws (viewersOf (tk_serverId tk) g)"
  have v: "viewersOf j (g\<lparr>g_open := q\<rparr>) = viewersOf j g" for j q by (simp add: viewersOf_def)
  show ?thesis
  proof (cases "?vs = []")
    case True
    then show ?thesis using ok Some
      by (simp add: onViewerClose_def Let_def v publishCommand_def viewersOk_def)
  next
    case False
    have "viewersOk (g\<lparr>g_viewers := (g_viewers g)(?i := Some ?vs)\<rparr>)"
      by (rule viewersOk_set [OF ok refl False]) (use viewersOf_ok [OF ok, of ?i] in \<open>auto simp: distinct_removeAll\<close>)
    then show ?thesis using False Some
      by (simp add: onViewerClose_def Let_def v viewersOk_def)
  qed
qed

lemma onAgentMessage_viewers:
  "g_viewers (onAgentMessage verify now ws m g) = g_viewers g"
  "g_clients (onAgentMessage verify now ws m g) = g_clients g"
  "g_redeeming (onAgentMessage verify now ws m g) = g_redeeming g"
  by (simp_all add: onAgentMessage_def onHello_def onHeartbeat_def onConsole_def onState_def Let_def gw_frames
      split: option.split AgentMessage.split)

lemma viewersOk_step: "viewersOk g \<Longrightarrow> viewersOk (gatewayStep verify now e g)"
proof (cases e)
  case (AgentMessageEv ws m)
  assume "viewersOk g"
  with AgentMessageEv show ?thesis by (simp add: viewersOk_def onAgentMessage_viewers)
next
  case (AgentCloseEv ws)
  assume "viewersOk g"
  with AgentCloseEv show ?thesis
    by (auto simp: viewersOk_def onAgentClose_def Let_def gw_frames split: option.split)
next
  case (RedeemEv ws t)
  assume "viewersOk g"
  with RedeemEv show ?thesis
    by (auto simp: redeemTicket_def viewersOk_def gw_frames split: option.split)
next
  case (AdmitEv ws)
  assume "viewersOk g"
  with AdmitEv show ?thesis by (simp add: viewersOk_admit)
next
  case (ViewerCloseEv ws)
  assume "viewersOk g"
  with ViewerCloseEv show ?thesis by (simp add: viewersOk_close)
qed (simp_all add: viewersOk_def onHelloTimeout_def onCommand_def onViewerMessage_def
    sweepNodes_def livenessTick_def publishCommand_def gw_frames split: option.split)

lemma buffersOk_step: "buffersOk g \<Longrightarrow> buffersOk (gatewayStep verify now e g)"
proof (cases e)
  case (AgentMessageEv ws m)
  assume ok: "buffersOk g"
  have "buffersOk (onConsole now l g)" for l
    using ok by (auto simp: buffersOk_def onConsole_def Let_def gw_frames)
  moreover have "buffersOk (onState i st k g)" "buffersOk (onHello verify now ws m' g)" "buffersOk (onHeartbeat now ws i t g)"
    "buffersOk (closeSock ws n g)" for i st k m' t n
    using ok by (simp_all add: buffersOk_def onState_def onHello_def onHeartbeat_def Let_def gw_frames
        split: option.split AgentMessage.split)
  ultimately show ?thesis using ok AgentMessageEv
    by (simp add: onAgentMessage_def split: option.split AgentMessage.split) (simp add: buffersOk_def)
next
  case (AgentCloseEv ws)
  assume "buffersOk g"
  with AgentCloseEv show ?thesis by (auto simp: buffersOk_def onAgentClose_def Let_def gw_frames split: option.split)
qed (auto simp: buffersOk_def onHelloTimeout_def onCommand_def redeemTicket_def admitViewer_def onViewerMessage_def
    onViewerClose_def sweepNodes_def livenessTick_def publishCommand_def Let_def gw_frames split: option.split)


section \<open>Reconnecting\<close>

text \<open>A reconnect survives the end of the connection it replaced: when an authenticated agent
  takes over the node of an older socket, the old socket is closed, and when its close arrives
  later the node is still online on the new socket, still marked online in Redis, and still
  receives its commands.\<close>

theorem reconnect_survives_old_close:
  assumes "agentsOk g" and "g_agents g i = Some old" and "g_conns g new = None"
    and "findNode i (g_db g) = Some node"
    and "h = onAgentClose old (acceptAgent now new hello i g)"
  shows "\<not> g_open h old \<and> g_agents h i = Some new \<and>
    g_online h i = Some (now + ONLINE_TTL_SECONDS * 1000) \<and>
    map_option n_status (findNode i (g_db h)) = Some N_ONLINE"
proof -
  obtain c where c: "g_conns g old = Some c" "ac_nodeId c = i" using assms(1,2) by (auto simp: agentsOk_def)
  then have ne: "old \<noteq> new" using assms(3) by auto
  let ?a = "acceptAgent now new hello i g"
  have a: "g_agents ?a = (g_agents g)(i \<mapsto> new)" "g_conns ?a old = Some c"
    "g_online ?a i = Some (now + ONLINE_TTL_SECONDS * 1000)"
    "nodes (g_db ?a) = updateWhere (\<lambda>n. n_id n = i) (nodeOnline now hello) (nodes (g_db g))"
    using ne c by (simp_all add: acceptAgent_def assms(2) Let_def gw_frames updateNode_def subscribeCommands_def)
  have h: "h = ?a\<lparr>g_open := (g_open ?a)(old := False)\<rparr>"
    using a ne c by (simp add: assms(5) onAgentClose_def Let_def)
  have "n_id (nodeOnline now hello n) = n_id n" for n by (simp add: nodeOnline_def)
  then have "map_option n_status (findNode i (g_db ?a)) = Some N_ONLINE"
    using assms(4) findNode_in [OF assms(4)] by (simp add: findNode_def a(4) updateWhere_find nodeOnline_def)
  then show ?thesis using a by (simp add: h)
qed

section \<open>Consoles\<close>

text \<open>Console input is confined: a message of a browser changes nothing but the commands
  published, and it publishes one only when the browser was admitted with a ticket that allows
  commands; this one goes to the node and the server of the ticket, whatever the message says,
  and its text is cut to two thousand characters.\<close>

theorem console_input_confined:
  "\<exists>cs. onViewerMessage k ws raw g = g\<lparr>g_published := g_published g @ cs\<rparr> \<and>
    (cs = [] \<or> (\<exists>tk m c. g_clients g ws = Some tk \<and> tk_canCommand tk \<and> raw = Some m \<and> cm_command m = Some c \<and>
       cs = [(tk_nodeId tk, k, Server_command (tk_serverId tk) (take 2000 c))]))"
proof (cases "\<exists>tk m c. g_clients g ws = Some tk \<and> tk_canCommand tk \<and> raw = Some m \<and> cm_type m = ''command'' \<and>
    cm_command m = Some c")
  case True
  then show ?thesis by (auto simp: onViewerMessage_def publishCommand_def)
next
  case False
  then have "onViewerMessage k ws raw g = g" by (auto simp: onViewerMessage_def split: option.split)
  then show ?thesis by (intro exI [of _ "[]"]) simp
qed

lemma redeem_none: "g_tickets g t = None \<Longrightarrow> g_redeeming (redeemTicket now ws (Some t) g) ws = g_redeeming g ws"
  by (simp add: redeemTicket_def gw_frames)

text \<open>A browser sees what it may and from where it should: admission spends the ticket, adds
  the browser to the console of the ticket's server and to no other, attaches the console on the
  node exactly when nobody was watching yet, and replays the last two hundred lines of that
  server, oldest first.\<close>

theorem admission_exact:
  assumes "g_redeeming g ws = Some (t, tk)" and "g_open g ws" and "h = admitViewer now ws g"
  shows "g_tickets h t = None \<and> ws \<in> set (viewersOf (tk_serverId tk) h) \<and>
    (\<forall>j. j \<noteq> tk_serverId tk \<longrightarrow> viewersOf j h = viewersOf j g) \<and>
    g_published h = g_published g @ (if g_viewers g (tk_serverId tk) = None
      then [(tk_nodeId tk, ''attach-'' @ tk_serverId tk, Console_attach (tk_serverId tk) 200)] else []) \<and>
    g_sent h = g_sent g @ map (\<lambda>l. (ws, LineOut l)) (rev (take 200 (liveBuffer now (tk_serverId tk) g)))"
proof -
  have sends: "g_sent (fold (\<lambda>l. send ws (LineOut l)) ls x) = g_sent x @ map (\<lambda>l. (ws, LineOut l)) ls"
    if "g_open x ws" for ls x
    using that by (induction ls arbitrary: x) (simp_all add: send_def)
  show ?thesis
    using assms(1,2)
    by (simp add: assms(3) admitViewer_def Let_def gw_frames sends publishCommand_def viewersOf_def liveBuffer_def
      split: option.split)
qed

section \<open>Liveness\<close>

lemma livenessOne_dead:
  "g_conns g ws = Some c \<Longrightarrow> \<not> ac_alive c \<Longrightarrow> livenessOne ws g = g\<lparr>g_open := (g_open g)(ws := False)\<rparr>"
  by (simp add: livenessOne_def)

lemma livenessOne_alive:
  "g_conns g ws = Some c \<Longrightarrow> ac_alive c \<Longrightarrow>
   livenessOne ws g = g\<lparr>g_conns := (g_conns g)(ws \<mapsto> c\<lparr>ac_alive := False\<rparr>), g_pinged := g_pinged g @ [ws]\<rparr>"
  by (simp add: livenessOne_def setAlive_def)

text \<open>Silence is noticed within two ticks and life is not mistaken for it: a connected agent
  that answers neither ping nor heartbeat between two ticks has its socket terminated by the
  second one, while one that answered keeps its socket.\<close>

theorem two_ticks_end_silence:
  assumes "g_agents g i = Some ws" and "g_conns g ws = Some c" and "ac_alive c" and "g_open g ws"
  shows "\<not> g_open (livenessTick [i] (livenessTick [i] g)) ws \<and>
    g_open (livenessTick [i] (gatewayStep verify now (AgentPongEv ws) (livenessTick [i] g))) ws \<and>
    g_open (livenessTick [i] (gatewayStep verify now (AgentMessageEv ws (Some (Heartbeat t))) (livenessTick [i] g))) ws"
proof -
  let ?g1 = "g\<lparr>g_conns := (g_conns g)(ws \<mapsto> c\<lparr>ac_alive := False\<rparr>), g_pinged := g_pinged g @ [ws]\<rparr>"
  have t1: "livenessTick [i] g = ?g1"
    using assms by (simp add: livenessTick_def map_filter_def livenessOne_alive)
  have "livenessTick [i] ?g1 = ?g1\<lparr>g_open := (g_open g)(ws := False)\<rparr>"
    using assms(1) by (simp add: livenessTick_def map_filter_def livenessOne_dead)
  moreover have "g_open (livenessTick [i] x) ws"
    if "g_agents x i = Some ws" "g_conns x ws = Some d" "ac_alive d" "g_open x ws" for x d
    using that by (simp add: livenessTick_def map_filter_def livenessOne_alive)
  ultimately show ?thesis
    using assms(1,4) unfolding t1
    by (simp add: setAlive_def onAgentMessage_def onHeartbeat_def Let_def gw_frames)
qed

text \<open>The sweep leaves the scheduler nothing stale: a node it leaves online has a heartbeat of the
  last minute, or never sent one.\<close>

lemma sweep_complete:
  "n \<in> set (nodes (g_db (sweepNodes now g))) \<Longrightarrow> n_status n = N_ONLINE \<Longrightarrow>
   n_lastHeartbeat n = Some h \<Longrightarrow> now - 60000 \<le> h"
  by (auto simp: sweepNodes_def set_updateWhere split: option.splits)

section \<open>Defects\<close>

text \<open>A ticket is read and deleted in two steps: two browsers that both read it before either
  deletes it are both admitted.\<close>

lemma redeem_live:
  "g_tickets g t = Some (tk, e) \<Longrightarrow> now < e \<Longrightarrow> t \<noteq> [] \<Longrightarrow>
   redeemTicket now ws (Some t) g = g\<lparr>g_redeeming := (g_redeeming g)(ws \<mapsto> (t, tk))\<rparr>"
  by (simp add: redeemTicket_def)

lemma admit_clients:
  "g_clients (admitViewer now ws g) =
   (case g_redeeming g ws of None \<Rightarrow> g_clients g | Some (t, tk) \<Rightarrow> (g_clients g)(ws \<mapsto> tk))"
  by (simp add: admitViewer_def Let_def gw_frames publishCommand_def split: option.split)

lemma admit_redeeming: "a \<noteq> b \<Longrightarrow> g_redeeming (admitViewer now a g) b = g_redeeming g b"
  by (simp add: admitViewer_def Let_def gw_frames publishCommand_def split: option.split)

lemma ticket_race:
  assumes t: "g_tickets g t = Some (tk, e)" "now < e" "t \<noteq> []" and ab: "a \<noteq> b"
    and free: "g_clients g a = None" "g_clients g b = None" "g_redeeming g a = None" "g_redeeming g b = None"
    and r: "r = gatewayStep verify now (RedeemEv b (Some t)) (gatewayStep verify now (RedeemEv a (Some t)) g)"
    and h: "h = gatewayStep verify now (AdmitEv b) (gatewayStep verify now (AdmitEv a) r)"
  shows "g_clients h a = Some tk \<and> g_clients h b = Some tk"
proof -
  have "g_redeeming r a = Some (t, tk)" "g_redeeming r b = Some (t, tk)"
    using ab t free by (simp_all add: r redeem_live)
  then show ?thesis
    using ab by (simp add: h admit_clients admit_redeeming)
qed

text \<open>A state message is applied to the server it names, whichever node sent it.\<close>

lemma state_crosses_nodes:
  assumes "g_conns g ws = Some c" and "findServer i (g_db g) = Some v" and "s_nodeId v \<noteq> ac_nodeId c"
  shows "map_option s_status (findServer i (g_db (onAgentMessage verify now ws (Some (StateMsg i C_running None)) g))) = Some RUNNING"
proof -
  have "s_id v = i" using findServer_in [OF assms(2)] by simp
  then show ?thesis using assms
    by (simp add: onAgentMessage_def onState_def Let_def gw_frames updateServer_run statusOfState_def)
      (simp add: findServer_def updateWhere_find)
qed

end
