(* ===== verification/Scenarios.thy ===== *)
theory Scenarios
  imports Witnesses Billing Backups Gateway
begin

text \<open>
  The properties of the billing cycle, the routes, the backups and the gateway applied at concrete
  inputs.
\<close>

section \<open>Inputs\<close>

definition sampleBillingEnv :: BillingEnv where
  "sampleBillingEnv = \<lparr>be_now = 5, be_clock = (\<lambda>_. 5), be_invoiceId = (\<lambda>i. ''new-'' @ i), be_graceDays = 3,
     be_retentionDays = 14\<rparr>"

definition lateBillingEnv :: BillingEnv where
  "lateBillingEnv = sampleBillingEnv\<lparr>be_now := 300000000\<rparr>"

definition sampleAuth :: AuthEnv where
  "sampleAuth = \<lparr>ae_hash = (\<lambda>t. t), ae_now = 5, ae_cookie = Some ''tok''\<rparr>"

definition noAuth :: AuthEnv where
  "noAuth = sampleAuth\<lparr>ae_cookie := None\<rparr>"

definition signedIn :: db where
  "signedIn = sampleServed\<lparr>sessions := [\<lparr>ss_userId = ''u1'', ss_tokenHash = ''tok'', ss_expiresAt = 1000\<rparr>]\<rparr>"

definition sampleBackup :: "string \<Rightarrow> time \<Rightarrow> Backup" where
  "sampleBackup k t = \<lparr>b_id = k, b_serverId = ''s1'', b_name = ''b'', b_bytes = 10, b_checksum = None, b_completed = True,
     b_createdAt = t, b_location = LOC_NODE, b_objectKey = None\<rparr>"

definition sampleSchedule :: BackupSchedule where
  "sampleSchedule = \<lparr>bs_id = ''bs1'', bs_serverId = ''s1'', bs_minuteUtc = 0, bs_daysMask = 127, bs_keepCount = 1,
     bs_enabled = True, bs_lastRunAt = None\<rparr>"

definition backedUp :: db where
  "backedUp = sampleServed\<lparr>backups := [sampleBackup ''b1'' 1, sampleBackup ''b2'' 2], schedules := [sampleSchedule]\<rparr>"

definition backupAgent :: agent where
  "backupAgent cs n p = Inr (emptyReply\<lparr>rp_bytes := Some 10\<rparr>)"

definition sampleBackupEnv :: BackupEnv where
  "sampleBackupEnv = \<lparr>bk_now = 5, bk_id = (\<lambda>i. ''of-'' @ i), bk_clock = (\<lambda>_. 5)\<rparr>"

lemmas scenario_defs = sampleBillingEnv_def lateBillingEnv_def sampleAuth_def noAuth_def signedIn_def
  sampleBackup_def sampleSchedule_def backedUp_def backupAgent_def sampleBackupEnv_def input_defs

section \<open>The billing cycle\<close>

theorem paid_up_server_untouched_witness:
  "findServer ''s1'' (snd (runBillingCycle deadAgent (\<lambda>_ _ _. False) sampleBillingEnv sampleBilled)) = Some sampleServer"
proof -
  have "findServer ''s1'' sampleBilled = Some sampleServer" "invoicesOf ''s1'' sampleBilled = [sampleInvoice]"
    by (simp_all add: find_defs invoicesOf_def scenario_defs)
  then show ?thesis
    using paid_up_server_untouched [of "''s1''" sampleBilled sampleServer sampleBillingEnv deadAgent "\<lambda>_ _ _. False"]
    by (simp add: paidUp_def uniqueOn_def scenario_defs)
qed

theorem suspendPass_complete_witness:
  "isSuspended ''s1'' (snd (suspendPass deadAgent lateBillingEnv sampleBilled))"
proof -
  have due: "overdueInvoices (be_now lateBillingEnv) sampleBilled = [sampleInvoice]"
    by (simp add: overdueInvoices_def scenario_defs)
  have "hasTemplate ''s1'' sampleBilled" by (simp add: hasTemplate_def find_defs scenario_defs)
  moreover have "i_serverId sampleInvoice = Some ''s1''" by (simp add: scenario_defs)
  ultimately show ?thesis
    using suspendPass_complete [of lateBillingEnv sampleBilled deadAgent] by (simp add: due)
qed

theorem renewPass_bills_all_witness:
  "\<exists>ivs. renewPass sampleBillingEnv sampleServed = (Inr (length ivs), sampleServed\<lparr>invoices := ivs\<rparr>) \<and>
     map (\<lambda>iv. (i_serverId iv, i_periodStart iv)) ivs = [(Some ''s1'', 5)]"
proof -
  have "dueServers (be_now sampleBillingEnv) sampleServed = [sampleServer]" "s_id sampleServer = ''s1''"
    "renewalStart (be_now sampleBillingEnv) sampleServer sampleServed = 5"
    by (simp_all add: dueServers_def invoicesOf_def renewalStart_def lastPeriodEnd_def scenario_defs)
  moreover have empty: "invoices sampleServed = []" by (simp add: scenario_defs)
  moreover have "numbersBelow sampleServed" "uniqueOn i_number (invoices sampleServed)" "uniqueOn s_id (servers sampleServed)"
    "\<forall>v \<in> set (servers sampleServed). findPlan (s_planId v) sampleServed \<noteq> None"
    by (simp_all add: numbersBelow_def uniqueOn_def find_defs scenario_defs)
  note renewPass_bills_all [OF this, of sampleBillingEnv]
  ultimately show ?thesis by auto
qed

section \<open>Routes\<close>

lemma signed_in: "getSessionUser sampleAuth signedIn = Some (hd (users sampleDb))"
  "findServer ''s1'' signedIn = Some sampleServer" "s_ownerId sampleServer = u_id (hd (users sampleDb))"
  "findTemplate (s_templateId sampleServer) signedIn = Some sampleTemplate" "subusers signedIn = []"
  "findServer ''s1'' sampleServed = Some sampleServer"
  by (simp_all add: getSessionUser_def sessionToken_def find_defs scenario_defs)

theorem access_rule_witness:
  "requireServerAccess sampleAuth ''s1'' Settings_write signedIn = (Inr (hd (users sampleDb), sampleServer), signedIn)"
  by (subst access_rule) (simp_all add: signed_in uniqueOn_def)

theorem refused_request_changes_nothing_witness:
  "snd (filesDelete goodAgent noAuth ''s1'' (Some [''/world'']) sampleServed) = sampleServed"
proof -
  have "isl (fst (requireServerAccess noAuth ''s1'' p sampleServed))" for p
    by (simp add: requireServerAccess_def requireUser_run getSessionUser_def sessionToken_def act_defs scenario_defs)
  then show ?thesis using refused_request_changes_nothing [of noAuth "''s1''" sampleServed] by blast
qed

theorem settings_owner_only_witness:
  "grantsOk (snd (subusersPost sampleAuth ''k'' ''s1'' None signedIn))"
  using settings_owner_only [of signedIn] by (simp add: grantsOk_def signed_in)

theorem power_guarded_witness:
  "snd (powerPost goodAgent sampleAuth ''s1'' (Some Start) (signedIn\<lparr>servers := [sampleServer\<lparr>s_suspended := True\<rparr>]\<rparr>)) =
     signedIn\<lparr>servers := [sampleServer\<lparr>s_suspended := True\<rparr>]\<rparr>"
  using power_guarded [of "''s1''" "signedIn\<lparr>servers := [sampleServer\<lparr>s_suspended := True\<rparr>]\<rparr>"
    "sampleServer\<lparr>s_suspended := True\<rparr>" goodAgent sampleAuth "Some Start"]
  by (simp add: find_defs scenario_defs)

theorem startup_only_editable_witness:
  "\<exists>t v. startupPatch sampleAuth ''s1'' (Some [(''EULA'', ''x'')]) signedIn =
      (Inr (Response 200 ''Changes apply the next time the server starts.''), t) \<and>
    findServer ''s1'' t = Some v \<and> map_of (s_environment v) ''EULA'' = None"
proof -
  have "t_variables sampleTemplate = []" "s_environment sampleServer = []" by (simp_all add: scenario_defs)
  then show ?thesis
    using startup_only_editable [OF signed_in(2,4) access_rule_witness, of "[(''EULA'', ''x'')]"]
    by (fastforce simp: editableKeys_def)
qed

lemma sample_wrong: "wrongPassword (\<lambda>_ _. False) s b"
  by (simp add: wrongPassword_def)

theorem login_throttled_witness:
  "fst (loginMany (\<lambda>_ _. False) (\<lambda>t. t) None (replicate 12 (0, ''t'', \<lparr>lg_email = ''a@b.c'', lg_password = ''p''\<rparr>))
     ((\<lambda>_. None), sampleServed)) = replicate 10 401 @ [429, 429]"
proof -
  let ?b = "(0, ''t'', \<lparr>lg_email = ''a@b.c'', lg_password = ''p''\<rparr>)"
  have "replicate 12 ?b = ?b # replicate 11 ?b" by (simp add: numeral_eq_Suc)
  then show ?thesis
    using login_throttled [of 0 None "\<lambda>_. None" "''t''" "\<lparr>lg_email = ''a@b.c'', lg_password = ''p''\<rparr>"
      "replicate 11 ?b" "\<lambda>_ _. False" sampleServed "\<lambda>t. t"]
    by (simp add: liveCount_def sample_wrong upt_rec numeral_eq_Suc)
qed

section \<open>Backups\<close>


theorem restore_stops_first_witness:
  "\<exists>t l. restoreBackup goodAgent ''s1'' ''b1'' None backedUp = (Inr (), t) \<and>
     t = backedUp\<lparr>calls := [(''n1'', Server_stop ''s1'' (Some ''stop'') (Some 60)), (''n1'', Backup_restore ''s1'' ''b1'')],
       auditLog := l\<rparr>"
proof -
  have "fst (restoreBackup goodAgent ''s1'' ''b1'' None backedUp) = Inr ()"
    by (simp add: restoreBackup_def callAgent_def audit_def find_defs act_defs scenario_defs)
  then obtain t where run: "restoreBackup goodAgent ''s1'' ''b1'' None backedUp = (Inr (), t)"
    by (metis prod.collapse)
  have "findServer ''s1'' backedUp = Some sampleServer" "findTemplate ''t1'' backedUp = Some sampleTemplate"
    "s_templateId sampleServer = ''t1''" "s_nodeId sampleServer = ''n1''" "t_stopCommand sampleTemplate = ''stop''"
    "calls backedUp = []"
    by (simp_all add: find_defs scenario_defs)
  with restore_stops_first [OF run] obtain l where
    "t = backedUp\<lparr>calls := [(''n1'', Server_stop ''s1'' (Some ''stop'') (Some 60)), (''n1'', Backup_restore ''s1'' ''b1'')],
       auditLog := l\<rparr>" by auto
  with run show ?thesis by blast
qed

theorem prune_keeps_newest_witness:
  "sampleBackup ''b2'' 2 \<in> set (backups (snd (pruneBackups goodAgent ''s1'' 1 backedUp)))"
proof -
  have "keptBackups 1 ''s1'' backedUp = [sampleBackup ''b2'' 2]"
    by (simp add: keptBackups_def completedNewestFirst_def scenario_defs)
  moreover have "uniqueOn b_id (backups backedUp)" "sampleBackup ''b2'' 2 \<in> set (backups backedUp)"
    by (simp_all add: uniqueOn_def scenario_defs)
  ultimately show ?thesis
    using prune_keeps_newest [of backedUp "sampleBackup ''b2'' 2" 1 "''s1''" goodAgent] by simp
qed

lemma sample_pass: "\<exists>n t. runScheduledBackups deadAgent sampleBackupEnv backedUp = (Inr n, t) \<and>
    scheduleCandidates 50 t = [(sampleSchedule\<lparr>bs_lastRunAt := Some 5\<rparr>, False)]"
  by (simp add: runScheduledBackups_def runSchedule_def scheduleCandidates_def fires_def minuteOfDay_def weekDay_def
      createBackup_def insertBackup_def callAgent_def deleteBackupRow_def updateSchedule_def find_defs act_defs
      scenario_defs msPerDay_def)

theorem schedule_fires_once_witness:
  "\<exists>n t d. runScheduledBackups deadAgent sampleBackupEnv backedUp = (Inr n, t) \<and>
     d \<in> set (scheduleCandidates 50 t) \<and> \<not> fires 50 d"
proof -
  obtain n t where run: "runScheduledBackups deadAgent sampleBackupEnv backedUp = (Inr n, t)"
    and d: "scheduleCandidates 50 t = [(sampleSchedule\<lparr>bs_lastRunAt := Some 5\<rparr>, False)]"
    using sample_pass by blast
  have "(sampleSchedule, False) \<in> set (scheduleCandidates (bk_now sampleBackupEnv) backedUp)"
    and "fires (bk_now sampleBackupEnv) (sampleSchedule, False)" "50 < bk_now sampleBackupEnv + 90000"
    by (simp_all add: scheduleCandidates_def fires_def minuteOfDay_def weekDay_def find_defs scenario_defs msPerDay_def)
  from schedule_fires_once [OF run this, of "(sampleSchedule\<lparr>bs_lastRunAt := Some 5\<rparr>, False)"] run d show ?thesis
    by (auto simp: scenario_defs)
qed

section \<open>The gateway\<close>

definition sampleTicket :: Ticket where
  "sampleTicket = \<lparr>tk_serverId = ''s1'', tk_nodeId = ''n1'', tk_canCommand = True\<rparr>"

definition sampleGateway :: gateway where
  "sampleGateway = startGateway sampleServed ((\<lambda>_. None)(''t'' \<mapsto> (sampleTicket, 100))) (\<lambda>_. True)"

definition sampleHello :: AgentHello where
  "sampleHello = \<lparr>hl_protocol = PROTOCOL_VERSION, hl_agentVersion = ''1'', hl_token = ''bad'', hl_nodeId = ''n1'',
     hl_cpuCores = 4, hl_totalMemoryMb = 1, hl_totalDiskMb = 1\<rparr>"

definition sampleConnected :: gateway where
  "sampleConnected = acceptAgent 10 1 sampleHello ''n1'' sampleGateway"

lemma sampleGateway_fields [simp]:
  "g_conns sampleGateway = (\<lambda>_. None)" "g_agents sampleGateway = (\<lambda>_. None)" "g_open sampleGateway = (\<lambda>_. True)"
  "g_db sampleGateway = sampleServed" "g_clients sampleGateway = (\<lambda>_. None)" "g_redeeming sampleGateway = (\<lambda>_. None)"
  "g_tickets sampleGateway = (\<lambda>_. None)(''t'' \<mapsto> (sampleTicket, 100))" "g_viewers sampleGateway = (\<lambda>_. None)"
  by (simp_all add: sampleGateway_def startGateway_def)

lemma sampleConnected_fields:
  "g_agents sampleConnected ''n1'' = Some 1" "\<exists>c. g_conns sampleConnected 1 = Some c \<and> ac_nodeId c = ''n1'' \<and> ac_alive c"
  "g_conns sampleConnected 2 = None" "g_open sampleConnected 1" "agentsOk sampleConnected" "\<exists>node. findNode ''n1'' (g_db sampleConnected) = Some node"
  by (auto simp: sampleConnected_def acceptAgent_def Let_def gw_frames agentsOk_def updateNode_def subscribeCommands_def
      nodeOnline_def find_defs scenario_defs)

theorem unauthenticated_changes_nothing_witness:
  "\<exists>code. onAgentMessage (\<lambda>_ _. False) 10 1 (Some (Hello sampleHello)) sampleGateway = closeSock 1 code sampleGateway"
  by (rule unauthenticated_changes_nothing) simp_all


theorem reconnect_survives_old_close_witness:
  "g_agents (onAgentClose 1 (acceptAgent 20 2 sampleHello ''n1'' sampleConnected)) ''n1'' = Some 2"
proof -
  obtain node where "findNode ''n1'' (g_db sampleConnected) = Some node" using sampleConnected_fields(6) by blast
  from reconnect_survives_old_close [OF sampleConnected_fields(5,1,3) this refl] show ?thesis by blast
qed

theorem admission_exact_witness:
  "''t'' \<notin> dom (g_tickets (admitViewer 20 7 (redeemTicket 20 7 (Some ''t'') sampleGateway)))"
proof -
  have "g_redeeming (redeemTicket 20 7 (Some ''t'') sampleGateway) 7 = Some (''t'', sampleTicket)"
    "g_open (redeemTicket 20 7 (Some ''t'') sampleGateway) 7"
    by (simp_all add: redeemTicket_def)
  from admission_exact [OF this refl] show ?thesis by (auto simp: dom_def)
qed

theorem two_ticks_end_silence_witness:
  "\<not> g_open (livenessTick [''n1''] (livenessTick [''n1''] sampleConnected)) 1"
proof -
  obtain c where "g_conns sampleConnected 1 = Some c" "ac_alive c" using sampleConnected_fields(2) by blast
  from two_ticks_end_silence [OF sampleConnected_fields(1) this sampleConnected_fields(4)] show ?thesis by blast
qed

end
