(* ===== verification/Strings.thy ===== *)
theory Strings
  imports Prelude "HOL-Library.Sublist"
begin

text \<open>
  The string operations of JavaScript that the agent and the configuration editors use:
  splitting and joining, trimming, and replacing runs of characters.
\<close>

section \<open>Splitting and joining\<close>

text \<open>\<open>s.split(c)\<close> for one character: never empty.\<close>

fun splitOn :: "char \<Rightarrow> string \<Rightarrow> string list" where
  "splitOn c [] = [[]]"
| "splitOn c (x # s) =
     (if x = c then [] # splitOn c s
      else (case splitOn c s of [] \<Rightarrow> [[x]] | w # ws \<Rightarrow> (x # w) # ws))"

fun joinWith :: "string \<Rightarrow> string list \<Rightarrow> string" where
  "joinWith sep [] = []"
| "joinWith sep [w] = w"
| "joinWith sep (w # v # ws) = w @ sep @ joinWith sep (v # ws)"

lemma splitOn_nonempty [simp]: "splitOn c s \<noteq> []"
  by (cases s) (auto split: list.split)

lemma splitOn_parts: "w \<in> set (splitOn c s) \<Longrightarrow> c \<notin> set w"
proof (induction s arbitrary: w)
  case Nil
  then show ?case by simp
next
  case (Cons x s)
  obtain v vs where "splitOn c s = v # vs" by (cases "splitOn c s") auto
  then show ?case using Cons by (auto split: if_splits)
qed

lemma splitOn_plain: "c \<notin> set s \<Longrightarrow> splitOn c s = [s]"
  by (induction s) auto

lemma splitOn_append_sep: "c \<notin> set w \<Longrightarrow> splitOn c (w @ c # s) = w # splitOn c s"
  by (induction w) auto

lemma join_splitOn: "joinWith [c] (splitOn c s) = s"
proof (induction s)
  case (Cons x s)
  obtain v vs where "splitOn c s = v # vs" by (cases "splitOn c s") auto
  then show ?case using Cons by (cases vs) auto
qed simp

lemma split_joinWith:
  "ws \<noteq> [] \<Longrightarrow> \<forall>w \<in> set ws. c \<notin> set w \<Longrightarrow> splitOn c (joinWith [c] ws) = ws"
proof (induction ws)
  case (Cons w ws)
  then show ?case by (cases ws) (simp_all add: splitOn_plain splitOn_append_sep)
qed simp

text \<open>Splitting a text that arrives in two pieces: the last part of the first piece is carried
  over to the second.\<close>

lemma splitOn_append:
  "splitOn c (s @ t) = butlast (splitOn c s) @ splitOn c (last (splitOn c s) @ t)"
proof (induction s)
  case Nil
  then show ?case by simp
next
  case (Cons x s)
  obtain v vs where v: "splitOn c s = v # vs" by (cases "splitOn c s") auto
  show ?case
  proof (cases "x = c")
    case True
    then show ?thesis using Cons v by simp
  next
    case False
    show ?thesis
    proof (cases vs)
      case Nil
      then show ?thesis using False Cons v splitOn_parts [of v c s] by simp
    next
      case (Cons u us)
      then show ?thesis using False Cons.IH v by (cases us) (auto split: list.split)
    qed
  qed
qed

lemma splitOn_last_plain: "splitOn c (last (splitOn c s)) = [last (splitOn c s)]"
  by (rule splitOn_plain) (rule splitOn_parts [OF last_in_set], simp)

section \<open>Trimming and replacing\<close>

definition isSpace :: "char \<Rightarrow> bool" where
  "isSpace c \<longleftrightarrow> c \<in> {CHR '' '', CHR 0x09, CHR 0x0A, CHR 0x0B, CHR 0x0C, CHR 0x0D, CHR 0xA0}"

definition trimStart :: "string \<Rightarrow> string" where
  "trimStart s = dropWhile isSpace s"

definition trimEnd :: "string \<Rightarrow> string" where
  "trimEnd s = rev (dropWhile isSpace (rev s))"

definition trim :: "string \<Rightarrow> string" where
  "trim s = trimEnd (trimStart s)"

text \<open>\<open>s.replace(/[p]+/g, r)\<close>: every maximal run of characters satisfying \<open>p\<close>.\<close>

function replaceRuns :: "(char \<Rightarrow> bool) \<Rightarrow> string \<Rightarrow> string \<Rightarrow> string" where
  "replaceRuns p r [] = []"
| "replaceRuns p r (c # s) =
     (if p c then r @ replaceRuns p r (dropWhile p s) else c # replaceRuns p r s)"
  by pat_completeness auto
termination
  by (relation "measure (\<lambda>(p, r, s). length s)") (auto simp: le_imp_less_Suc length_dropWhile_le)

text \<open>\<open>s.replace(/[p]/g, r)\<close>: every single character.\<close>

definition replaceEach :: "(char \<Rightarrow> bool) \<Rightarrow> string \<Rightarrow> string \<Rightarrow> string" where
  "replaceEach p r s = concat (map (\<lambda>c. if p c then r else [c]) s)"

lemma set_replaceRuns: "set (replaceRuns p r s) \<subseteq> set r \<union> {c \<in> set s. \<not> p c}"
proof (induction p r s rule: replaceRuns.induct)
  case (2 p r c s)
  then show ?case using set_dropWhileD [of _ p s] by auto
qed simp

lemma replaceRuns_idle: "(\<And>c. c \<in> set s \<Longrightarrow> \<not> p c) \<Longrightarrow> replaceRuns p r s = s"
  by (induction s) auto

lemma set_replaceEach: "set (replaceEach p r s) \<subseteq> set r \<union> {c \<in> set s. \<not> p c}"
  by (auto simp: replaceEach_def split: if_splits)

lemma trimStart_idle: "s = [] \<or> \<not> isSpace (hd s) \<Longrightarrow> trimStart s = s"
  by (cases s) (auto simp: trimStart_def)

lemma trimEnd_idle: "s = [] \<or> \<not> isSpace (last s) \<Longrightarrow> trimEnd s = s"
  by (cases s rule: rev_cases) (auto simp: trimEnd_def)

lemma trim_idle: "s = [] \<or> \<not> isSpace (hd s) \<and> \<not> isSpace (last s) \<Longrightarrow> trim s = s"
  by (auto simp: trim_def trimStart_idle trimEnd_idle)

lemma set_trim: "set (trim s) \<subseteq> set s"
proof -
  have sub: "set (dropWhile P xs) \<subseteq> set xs" for P :: "char \<Rightarrow> bool" and xs by (auto dest: set_dropWhileD)
  show ?thesis
    using sub [of isSpace "rev (dropWhile isSpace s)"] sub [of isSpace s] by (auto simp: trim_def trimEnd_def trimStart_def)
qed

end
