(* ===== verification/AgentFiles.thy ===== *)
theory AgentFiles
  imports Strings Schema "HOL-Library.Product_Lexorder"
begin

text \<open>
  The file operations of \<open>apps/agent/src/providers/docker.ts\<close>: a file system as the table
  of its entries, the resolution of paths the operating system does, \<open>resolveInVolume\<close>
  and the operations that go through it, with what confines a customer to the volume of the server.
\<close>

section \<open>File systems\<close>

type_synonym path = "string list" \<comment> \<open>an absolute path, without its slashes\<close>

datatype fsEntry = DirE | FileE string | LinkE bool "string list"
  \<comment> \<open>a link: absolute or not, and the parts of its target\<close>

type_synonym fs = "(path \<times> fsEntry) list"

datatype fsError =
  ENOENT | ENOTDIR | ELOOP | EISDIR | EEXIST | ENOTEMPTY | EINVAL | Thrown string

definition entry :: "fs \<Rightarrow> path \<Rightarrow> fsEntry option" where
  "entry fs p = (if p = [] then Some DirE else map_of fs p)"

definition putEntry :: "path \<Rightarrow> fsEntry \<Rightarrow> fs \<Rightarrow> fs" where
  "putEntry p e fs = (p, e) # filter (\<lambda>(q, _). q \<noteq> p) fs"

definition removeTree :: "path \<Rightarrow> fs \<Rightarrow> fs" where
  "removeTree p fs = filter (\<lambda>(q, _). \<not> prefix p q) fs"

definition moveTree :: "path \<Rightarrow> path \<Rightarrow> fs \<Rightarrow> fs" where
  "moveTree p q fs = map (\<lambda>(x, e). (if prefix p x then q @ drop (length p) x else x, e)) (removeTree q fs)"

text \<open>
  What the kernel makes of a path: the entry it leads to, the place where a file would be created,
  or an error. Symbolic links are followed at every component, at most \<open>n\<close> of them.
\<close>

datatype found = Found path | Creatable path | Fails fsError

fun walk :: "fs \<Rightarrow> nat \<Rightarrow> path \<Rightarrow> string list \<Rightarrow> found" where
  "walk fs n cur [] = Found cur"
| "walk fs n cur (s # r) =
     (if s = [] \<or> s = ''.'' then walk fs n cur r
      else if s = ''..'' then walk fs n (butlast cur) r
      else (case entry fs (cur @ [s]) of
        None \<Rightarrow> if r = [] then Creatable (cur @ [s]) else Fails ENOENT
      | Some DirE \<Rightarrow> walk fs n (cur @ [s]) r
      | Some (FileE c) \<Rightarrow> if r = [] then Found (cur @ [s]) else Fails ENOTDIR
      | Some (LinkE ab t) \<Rightarrow>
          (case n of 0 \<Rightarrow> Fails ELOOP | Suc m \<Rightarrow> walk fs m (if ab then [] else cur) (t @ r))))"

declare walk.simps [simp del]

definition MAXSYMLINKS :: nat where
  "MAXSYMLINKS = 40"

definition realpath :: "fs \<Rightarrow> path \<Rightarrow> found" where
  "realpath fs p = walk fs MAXSYMLINKS [] p"

section \<open>Paths\<close>

definition stepSegment :: "path \<Rightarrow> string \<Rightarrow> path" where
  "stepSegment acc s = (if s = [] \<or> s = ''.'' then acc else if s = ''..'' then butlast acc else acc @ [s])"

definition normalizeSegments :: "string list \<Rightarrow> path" where
  "normalizeSegments ss = foldl stepSegment [] ss"

definition pathString :: "path \<Rightarrow> string" where
  "pathString p = (if p = [] then ''/'' else concat (map (\<lambda>s. CHR ''/'' # s) p))"

definition volumePath :: "string \<Rightarrow> string \<Rightarrow> path" where
  "volumePath dataRoot serverId = normalizeSegments (splitOn (CHR ''/'') (dataRoot @ ''/'' @ serverId))"

section \<open>The jail\<close>

text \<open>\<open>candidate !== rt && !candidate.startsWith(rt + path.sep)\<close>, on the strings.\<close>

definition outsideRoot :: "path \<Rightarrow> path \<Rightarrow> bool" where
  "outsideRoot rt p \<longleftrightarrow> pathString p \<noteq> pathString rt \<and> \<not> startsWith (pathString p) (pathString rt @ ''/'')"

definition outsideError :: fsError where
  "outsideError = Thrown ''Path is outside the server directory.''"

definition candidatePath :: "path \<Rightarrow> string \<Rightarrow> path" where
  "candidatePath rt requested = rt @ normalizeSegments (splitOn (CHR ''/'') requested)"

text \<open>The loop over the ancestors; \<open>k\<close> is the number of components of \<open>probe\<close>.\<close>

fun probeLoop :: "fs \<Rightarrow> path \<Rightarrow> path \<Rightarrow> nat \<Rightarrow> fsError + path" where
  "probeLoop fs rt candidate k =
     (case realpath fs (take k candidate) of
        Found r \<Rightarrow>
          (let final = r @ drop k candidate
           in if outsideRoot rt final then Inl outsideError else Inr final)
      | Creatable _ \<Rightarrow> (case k of 0 \<Rightarrow> Inr candidate | Suc j \<Rightarrow> probeLoop fs rt candidate j)
      | Fails e \<Rightarrow>
          if e \<noteq> ENOENT then Inl e
          else (case k of 0 \<Rightarrow> Inr candidate | Suc j \<Rightarrow> probeLoop fs rt candidate j))"

declare probeLoop.simps [simp del]

definition resolveInVolume :: "path \<Rightarrow> string \<Rightarrow> fs \<Rightarrow> fsError + path" where
  "resolveInVolume rt requested fs =
     (let candidate = candidatePath rt requested
      in if outsideRoot rt candidate then Inl outsideError
         else probeLoop fs rt candidate (length candidate))"

section \<open>Operations\<close>

type_synonym 'a fsact = "(fs, fsError, 'a) action"

definition inVolume :: "path \<Rightarrow> string \<Rightarrow> path fsact" where
  "inVolume rt requested fs = (resolveInVolume rt requested fs, fs)"

text \<open>What \<open>lstat\<close> reports besides the kind: the size of a directory or link, the time, the mode.\<close>

record inode =
  ino_size :: nat
  ino_mtimeMs :: time
  ino_mode :: nat

record FileEntry =
  fi_name :: string
  fi_path :: string
  fi_directory :: bool
  fi_sizeBytes :: nat
  fi_modifiedAt :: time
  fi_mode :: string

fun showOctal :: "nat \<Rightarrow> string" where
  "showOctal n = (if n < 8 then [char_of (48 + n)] else showOctal (n div 8) @ [char_of (48 + n mod 8)])"

declare showOctal.simps [simp del]

definition sizeOf :: "(path \<Rightarrow> inode) \<Rightarrow> path \<Rightarrow> fsEntry \<Rightarrow> nat" where
  "sizeOf lstat p e = (case e of FileE c \<Rightarrow> length c | _ \<Rightarrow> ino_size (lstat p))"

definition childrenOf :: "path \<Rightarrow> fs \<Rightarrow> (string \<times> fsEntry) list" where
  "childrenOf d fs = map (\<lambda>(p, e). (last p, e)) (filter (\<lambda>(p, _). p \<noteq> [] \<and> butlast p = d) fs)"

definition readdir :: "path \<Rightarrow> (string \<times> fsEntry) list fsact" where
  "readdir p fs =
     ((case realpath fs p of
         Found d \<Rightarrow> if entry fs d = Some DirE then Inr (childrenOf d fs) else Inl ENOTDIR
       | Creatable _ \<Rightarrow> Inl ENOENT
       | Fails e \<Rightarrow> Inl e), fs)"

definition fileEntry :: "(path \<Rightarrow> inode) \<Rightarrow> path \<Rightarrow> path \<Rightarrow> string \<times> fsEntry \<Rightarrow> FileEntry" where
  "fileEntry lstat rt target = (\<lambda>(name, e).
     let full = target @ [name] in
     \<lparr>fi_name = name, fi_path = ''/'' @ joinWith ''/'' (drop (length rt) full), fi_directory = (e = DirE),
      fi_sizeBytes = sizeOf lstat full e, fi_modifiedAt = ino_mtimeMs (lstat full),
      fi_mode = showOctal (ino_mode (lstat full) mod 512)\<rparr>)"

text \<open>\<open>localeCompare\<close> orders by the collation key of the name, \<open>collate\<close>.\<close>

definition getFiles :: "(path \<Rightarrow> inode) \<Rightarrow> (string \<Rightarrow> nat list) \<Rightarrow> path \<Rightarrow> string \<Rightarrow> FileEntry list fsact" where
  "getFiles lstat collate rt dir =
     andThen (inVolume rt dir) (\<lambda>target.
     andThen (readdir target) (\<lambda>entries.
     ret (sort_key (\<lambda>e. (\<not> fi_directory e, collate (fi_name e))) (map (fileEntry lstat rt target) entries))))"

definition readFile :: "(path \<Rightarrow> inode) \<Rightarrow> path \<Rightarrow> string \<Rightarrow> nat \<Rightarrow> string fsact" where
  "readFile lstat rt requested maxBytes =
     andThen (inVolume rt requested) (\<lambda>target.
     andThen (orThrow ENOENT (\<lambda>fs. case realpath fs target of Found q \<Rightarrow> map_option (Pair q) (entry fs q) | _ \<Rightarrow> None)) (\<lambda>(q, e).
     andThen (require (sizeOf lstat q e \<le> maxBytes)
       (Thrown (''File is larger than '' @ showNat maxBytes @ '' bytes.''))) (\<lambda>_.
     case e of FileE c \<Rightarrow> ret c | _ \<Rightarrow> throw EISDIR)))"

text \<open>\<open>mkdir(p, { recursive: true })\<close>: from the root down, each missing directory.\<close>

definition mkdirOne :: "path \<Rightarrow> unit fsact" where
  "mkdirOne p fs =
     (if p = [] then (Inr (), fs)
      else (case realpath fs (butlast p) of
        Found d \<Rightarrow>
          (case entry fs (d @ [last p]) of
             None \<Rightarrow> if entry fs d = Some DirE then (Inr (), putEntry (d @ [last p]) DirE fs) else (Inl ENOTDIR, fs)
           | Some _ \<Rightarrow>
               (case realpath fs p of
                  Found q \<Rightarrow> if entry fs q = Some DirE then (Inr (), fs) else (Inl EEXIST, fs)
                | _ \<Rightarrow> (Inl EEXIST, fs)))
      | Creatable _ \<Rightarrow> (Inl ENOENT, fs)
      | Fails e \<Rightarrow> (Inl e, fs)))"

definition mkdirs :: "path \<Rightarrow> unit fsact" where
  "mkdirs p = forEach (map (\<lambda>k. take k p) [0..<Suc (length p)]) mkdirOne"

text \<open>Opening for writing follows links, dangling ones too, and creates what they name.\<close>

definition putFile :: "path \<Rightarrow> string \<Rightarrow> unit fsact" where
  "putFile p content fs =
     (case realpath fs p of
        Found q \<Rightarrow> if entry fs q = Some DirE then (Inl EISDIR, fs) else (Inr (), putEntry q (FileE content) fs)
      | Creatable q \<Rightarrow> (Inr (), putEntry q (FileE content) fs)
      | Fails e \<Rightarrow> (Inl e, fs))"

definition writeFile :: "path \<Rightarrow> string \<Rightarrow> string \<Rightarrow> unit fsact" where
  "writeFile rt requested content =
     andThen (inVolume rt requested) (\<lambda>target.
     andThen (mkdirs (butlast target)) (\<lambda>_. putFile target content))"

text \<open>\<open>rm(p, { recursive: true, force: true })\<close> removes a link, not what it names.\<close>

definition rmForce :: "path \<Rightarrow> fs \<Rightarrow> fs" where
  "rmForce p fs =
     (if p = [] then fs
      else (case realpath fs (butlast p) of Found d \<Rightarrow> removeTree (d @ [last p]) fs | _ \<Rightarrow> fs))"

definition deleteFiles :: "path \<Rightarrow> string list \<Rightarrow> unit fsact" where
  "deleteFiles rt paths = forEach paths (\<lambda>p.
     andThen (inVolume rt p) (\<lambda>target.
     andThen (require (target \<noteq> rt) (Thrown ''Cannot delete the server root.'')) (\<lambda>_.
     writeState (rmForce target))))"

definition makeDirectory :: "path \<Rightarrow> string \<Rightarrow> unit fsact" where
  "makeDirectory rt dir = andThen (inVolume rt dir) mkdirs"

text \<open>\<open>rename(2)\<close>, on the entries the parents of the two paths lead to.\<close>

definition renameEntry :: "path \<Rightarrow> path \<Rightarrow> fs \<Rightarrow> (fsError + unit) \<times> fs" where
  "renameEntry p q fs =
     (if p = [] \<or> q = [] then (Inl EINVAL, fs)
      else (case (realpath fs (butlast p), realpath fs (butlast q)) of
        (Found d, Found d') \<Rightarrow>
          (let src = d @ [last p]; dst = d' @ [last q] in
           case entry fs src of
             None \<Rightarrow> (Inl ENOENT, fs)
           | Some e \<Rightarrow>
               if entry fs d' \<noteq> Some DirE then (Inl ENOTDIR, fs)
               else if src = dst then (Inr (), fs)
               else if prefix src dst then (Inl EINVAL, fs)
               else if e = DirE \<and> entry fs dst = Some DirE \<and> childrenOf dst fs \<noteq> [] then (Inl ENOTEMPTY, fs)
               else if e = DirE \<and> entry fs dst \<notin> {None, Some DirE} then (Inl ENOTDIR, fs)
               else if e \<noteq> DirE \<and> entry fs dst = Some DirE then (Inl EISDIR, fs)
               else (Inr (), moveTree src dst fs))
      | (Fails e, _) \<Rightarrow> (Inl e, fs)
      | _ \<Rightarrow> (Inl ENOENT, fs)))"

definition renameFile :: "path \<Rightarrow> string \<Rightarrow> string \<Rightarrow> unit fsact" where
  "renameFile rt old new =
     andThen (inVolume rt old) (\<lambda>p. andThen (inVolume rt new) (\<lambda>q. renameEntry p q))"

section \<open>What the kernel resolves\<close>

definition ordinary :: "string \<Rightarrow> bool" where
  "ordinary s \<longleftrightarrow> s \<noteq> [] \<and> s \<noteq> ''.'' \<and> s \<noteq> ''..''"

definition solidDir :: "fs \<Rightarrow> path \<Rightarrow> bool" where
  "solidDir fs p \<longleftrightarrow> list_all ordinary p \<and> (\<forall>k \<le> length p. entry fs (take k p) = Some DirE)"

definition settled :: "fs \<Rightarrow> path \<Rightarrow> bool" where
  "settled fs p \<longleftrightarrow> solidDir fs p \<or>
     (p \<noteq> [] \<and> solidDir fs (butlast p) \<and> ordinary (last p) \<and> (\<exists>c. entry fs p = Some (FileE c)))"

definition missing :: "found \<Rightarrow> bool" where
  "missing l \<longleftrightarrow> (case l of Creatable _ \<Rightarrow> True | Fails e \<Rightarrow> e = ENOENT | Found _ \<Rightarrow> False)"

definition faithful :: "fs \<Rightarrow> path \<Rightarrow> bool" where
  "faithful fs p \<longleftrightarrow> (\<forall>k q. realpath fs (take k p) = Found q \<longrightarrow> q = take k p)"

lemma missing_simps [simp]: "missing (Creatable p)" "missing (Fails e) \<longleftrightarrow> e = ENOENT" "\<not> missing (Found p)"
  by (simp_all add: missing_def)

lemma solidDir_Nil [simp]: "solidDir fs []"
  by (simp add: solidDir_def entry_def)

lemma solidDir_snoc: "solidDir fs (p @ [s]) \<longleftrightarrow> solidDir fs p \<and> ordinary s \<and> entry fs (p @ [s]) = Some DirE"
  by (auto simp: solidDir_def le_Suc_eq)

lemma solidDir_butlast: "solidDir fs p \<Longrightarrow> solidDir fs (butlast p)"
  by (cases p rule: rev_cases) (simp_all add: solidDir_snoc)

lemma solidDir_entry: "solidDir fs p \<Longrightarrow> entry fs p = Some DirE"
  by (metis le_refl solidDir_def take_all_iff)

lemma solidDir_take: "solidDir fs p \<Longrightarrow> solidDir fs (take k p)"
  by (auto simp: solidDir_def list_all_iff min_def dest: in_set_takeD)

text \<open>The steps of the walk, and induction along them.\<close>

lemma walk_Nil [simp]: "walk fs n cur [] = Found cur"
  by (simp add: walk.simps)

lemma walk_skip: "\<not> ordinary s \<Longrightarrow> s \<noteq> ''..'' \<Longrightarrow> walk fs n cur (s # r) = walk fs n cur r"
  by (subst walk.simps) (auto simp: ordinary_def)

lemma walk_up: "walk fs n cur (''..'' # r) = walk fs n (butlast cur) r"
  by (subst walk.simps) simp

lemma walk_none: "ordinary s \<Longrightarrow> entry fs (cur @ [s]) = None \<Longrightarrow>
  walk fs n cur (s # r) = (if r = [] then Creatable (cur @ [s]) else Fails ENOENT)"
  by (subst walk.simps) (simp add: ordinary_def)

lemma walk_dir: "ordinary s \<Longrightarrow> entry fs (cur @ [s]) = Some DirE \<Longrightarrow> walk fs n cur (s # r) = walk fs n (cur @ [s]) r"
  by (subst walk.simps) (simp add: ordinary_def)

lemma walk_file: "ordinary s \<Longrightarrow> entry fs (cur @ [s]) = Some (FileE c) \<Longrightarrow>
  walk fs n cur (s # r) = (if r = [] then Found (cur @ [s]) else Fails ENOTDIR)"
  by (subst walk.simps) (simp add: ordinary_def)

lemma walk_loop: "ordinary s \<Longrightarrow> entry fs (cur @ [s]) = Some (LinkE ab t) \<Longrightarrow> walk fs 0 cur (s # r) = Fails ELOOP"
  by (subst walk.simps) (simp add: ordinary_def)

lemma walk_link: "ordinary s \<Longrightarrow> entry fs (cur @ [s]) = Some (LinkE ab t) \<Longrightarrow>
  walk fs (Suc m) cur (s # r) = walk fs m (if ab then [] else cur) (t @ r)"
  by (subst walk.simps) (simp add: ordinary_def)

lemmas walk_steps = walk_skip walk_up walk_none walk_dir walk_file walk_loop walk_link

lemma walk_induct [case_names nil skip up none dir plain loop link]:
  assumes nil: "\<And>n cur. P n cur []"
    and skip: "\<And>n cur s r. \<not> ordinary s \<Longrightarrow> s \<noteq> ''..'' \<Longrightarrow> P n cur r \<Longrightarrow> P n cur (s # r)"
    and up: "\<And>n cur r. P n (butlast cur) r \<Longrightarrow> P n cur (''..'' # r)"
    and none: "\<And>n cur s r. ordinary s \<Longrightarrow> entry fs (cur @ [s]) = None \<Longrightarrow> P n cur (s # r)"
    and dir: "\<And>n cur s r. ordinary s \<Longrightarrow> entry fs (cur @ [s]) = Some DirE \<Longrightarrow> P n (cur @ [s]) r \<Longrightarrow> P n cur (s # r)"
    and plain: "\<And>n cur s r c. ordinary s \<Longrightarrow> entry fs (cur @ [s]) = Some (FileE c) \<Longrightarrow> P n cur (s # r)"
    and loop: "\<And>cur s r ab t. ordinary s \<Longrightarrow> entry fs (cur @ [s]) = Some (LinkE ab t) \<Longrightarrow> P 0 cur (s # r)"
    and link: "\<And>m cur s r ab t. ordinary s \<Longrightarrow> entry fs (cur @ [s]) = Some (LinkE ab t) \<Longrightarrow>
      P m (if ab then [] else cur) (t @ r) \<Longrightarrow> P (Suc m) cur (s # r)"
  shows "P n cur r"
proof (induction n arbitrary: cur r)
  case (0 cur r)
  have step: "P 0 cur (s # r)" if "\<And>c. P 0 c r" for cur s r
    by (cases "s = ''..''"; cases "ordinary s"; cases "entry fs (cur @ [s])"; cases "the (entry fs (cur @ [s]))")
      (auto simp: ordinary_def intro: skip up none dir plain loop that)
  have "\<forall>cur. P 0 cur r" by (induction r) (auto intro: nil step)
  then show ?case by blast
next
  case (Suc n cur r)
  have step: "P (Suc n) cur (s # r)" if "\<And>c. P (Suc n) c r" for cur s r
    by (cases "s = ''..''"; cases "ordinary s"; cases "entry fs (cur @ [s])"; cases "the (entry fs (cur @ [s]))")
      (auto simp: ordinary_def intro: skip up none dir plain link that Suc)
  have "\<forall>cur. P (Suc n) cur r" by (induction r) (auto intro: nil step)
  then show ?case by blast
qed

lemma walk_Found_settled: "walk fs n cur r = Found q \<Longrightarrow> solidDir fs cur \<Longrightarrow> settled fs q"
  by (induction n cur r rule: walk_induct [where fs = fs])
    (auto simp: walk_steps settled_def solidDir_butlast solidDir_snoc split: if_splits)

lemma walk_solid: "solidDir fs (cur @ p) \<Longrightarrow> walk fs n cur (p @ r) = walk fs n (cur @ p) r"
proof (induction p arbitrary: cur)
  case (Cons s p)
  have "solidDir fs (cur @ [s])" using solidDir_take [OF Cons.prems, of "Suc (length cur)"] by simp
  then show ?case using Cons.IH [of "cur @ [s]"] Cons.prems
    by (simp add: solidDir_snoc walk_dir)
qed simp

lemma realpath_settled:
  assumes "settled fs q"
  shows "walk fs n [] q = Found q"
proof (cases "solidDir fs q")
  case True
  then show ?thesis using walk_solid [of fs "[]" q n "[]"] by simp
next
  case False
  then obtain c where c: "q \<noteq> []" "solidDir fs (butlast q)" "ordinary (last q)" "entry fs q = Some (FileE c)"
    using assms by (auto simp: settled_def)
  then have "walk fs n [] (butlast q @ [last q]) = walk fs n (butlast q) [last q]"
    using walk_solid [of fs "[]" "butlast q" n "[last q]"] by simp
  then show ?thesis using c walk_file [of "last q" fs "butlast q" c n "[]"] by simp
qed

lemma walk_missing_more: "missing (walk fs n cur a) \<Longrightarrow> missing (walk fs n cur (a @ b))"
  by (induction n cur a rule: walk_induct [where fs = fs]) (auto simp: walk_steps split: if_splits)

lemma walk_fuel: "walk fs m cur r = l \<Longrightarrow> l \<noteq> Fails ELOOP \<Longrightarrow> m \<le> n \<Longrightarrow> walk fs n cur r = l"
proof (induction m cur r arbitrary: n rule: walk_induct [where fs = fs])
  case (link m cur s r ab t)
  then show ?case by (cases n) (simp_all add: walk_link)
qed (simp_all add: walk_skip walk_up walk_none walk_dir walk_file walk_loop)

lemma walk_continue:
  "walk fs n cur r = Found q \<Longrightarrow> solidDir fs q \<Longrightarrow> \<exists>m \<le> n. \<forall>b. walk fs n cur (r @ b) = walk fs m q b"
proof (induction n cur r rule: walk_induct [where fs = fs])
  case (plain n cur s r c)
  then show ?case using solidDir_entry [of fs q] by (auto simp: walk_file split: if_splits)
next
  case (link m cur s r ab t)
  then show ?case by (auto simp: walk_link intro: le_SucI)
qed (auto simp: walk_steps split: if_splits)

lemma walk_file_more:
  "walk fs n cur r = Found q \<Longrightarrow> solidDir fs cur \<Longrightarrow> \<not> solidDir fs q \<Longrightarrow> ordinary s \<Longrightarrow>
   walk fs n cur (r @ s # b) = Fails ENOTDIR"
  by (induction n cur r rule: walk_induct [where fs = fs])
    (auto simp: walk_steps solidDir_butlast solidDir_snoc split: if_splits)

section \<open>The jail holds\<close>

definition clean :: "path \<Rightarrow> bool" where
  "clean p \<longleftrightarrow> (\<forall>s \<in> set p. ordinary s \<and> CHR ''/'' \<notin> set s)"

definition linksClean :: "fs \<Rightarrow> bool" where
  "linksClean fs \<longleftrightarrow> (\<forall>(p, e) \<in> set fs. case e of LinkE ab t \<Rightarrow> (\<forall>s \<in> set t. CHR ''/'' \<notin> set s) | _ \<Rightarrow> True)"

lemma clean_simps [simp]: "clean []" "clean (p @ q) \<longleftrightarrow> clean p \<and> clean q"
  "clean (s # p) \<longleftrightarrow> ordinary s \<and> CHR ''/'' \<notin> set s \<and> clean p"
  by (auto simp: clean_def)

lemma clean_take: "clean p \<Longrightarrow> clean (take k p)"
  by (auto simp: clean_def dest: in_set_takeD)

lemma clean_drop: "clean p \<Longrightarrow> clean (drop k p)"
  by (auto simp: clean_def dest: in_set_dropD)

lemma clean_butlast: "clean p \<Longrightarrow> clean (butlast p)"
  by (auto simp: clean_def dest: in_set_butlastD)

lemma linksClean_entry:
  "linksClean fs \<Longrightarrow> entry fs p = Some (LinkE ab t) \<Longrightarrow> s \<in> set t \<Longrightarrow> CHR ''/'' \<notin> set s"
  by (fastforce simp: linksClean_def entry_def split: if_splits dest: map_of_SomeD)

lemma walk_clean:
  "walk fs n cur r = Found q \<Longrightarrow> linksClean fs \<Longrightarrow> clean cur \<Longrightarrow> \<forall>s \<in> set r. CHR ''/'' \<notin> set s \<Longrightarrow> clean q"
proof (induction n cur r rule: walk_induct [where fs = fs])
  case (link m cur s r ab t)
  then show ?case using linksClean_entry [OF link.prems(2) link.hyps(2)] by (auto simp: walk_link split: if_splits)
qed (auto simp: walk_steps clean_butlast split: if_splits)

lemma normalize_clean:
  assumes "\<forall>s \<in> set ss. CHR ''/'' \<notin> set s"
  shows "clean (normalizeSegments ss)"
proof -
  have "clean (foldl stepSegment acc ss)" if "clean acc" for acc
    using that assms by (induction ss arbitrary: acc) (auto simp: stepSegment_def ordinary_def clean_butlast)
  then show ?thesis by (simp add: normalizeSegments_def)
qed

lemma splitOn_segments: "\<forall>s \<in> set (splitOn c w). c \<notin> set s"
  using splitOn_parts by blast

lemma splitOn_sep: "splitOn c (s @ c # t) = splitOn c s @ splitOn c t"
proof (induction s)
  case (Cons x s)
  obtain v vs where "splitOn c s = v # vs" by (cases "splitOn c s") auto
  then show ?case using Cons by auto
qed simp

lemma splitOn_path:
  assumes "clean p" and "p \<noteq> []"
  shows "splitOn (CHR ''/'') (pathString p) = [] # p"
proof -
  have "splitOn (CHR ''/'') (concat (map ((#) (CHR ''/'')) p)) = [] # p" using assms(1)
  proof (induction p rule: rev_induct)
    case (snoc s p)
    then show ?case using splitOn_sep [of "CHR ''/''" "concat (map ((#) (CHR ''/'')) p)" s]
      by (simp add: splitOn_plain)
  qed simp
  then show ?thesis using assms(2) by (simp add: pathString_def)
qed

text \<open>On real paths, the test of the code on strings is the one on components.\<close>

lemma outsideRoot_iff:
  assumes "clean rt" and "clean p" and "rt \<noteq> []"
  shows "outsideRoot rt p \<longleftrightarrow> \<not> prefix rt p"
proof
  assume "\<not> prefix rt p"
  show "outsideRoot rt p" unfolding outsideRoot_def
  proof (intro conjI notI)
    assume e: "pathString p = pathString rt"
    have "p \<noteq> []"
    proof
      assume "p = []"
      then have "splitOn (CHR ''/'') ''/'' = [] # rt" using e splitOn_path [OF assms(1,3)] by (simp add: pathString_def)
      then show False using assms(1) by (auto simp: ordinary_def)
    qed
    then have "p = rt" using e splitOn_path [OF assms(1,3)] splitOn_path [OF assms(2)] by simp
    with \<open>\<not> prefix rt p\<close> show False by simp
  next
    assume "startsWith (pathString p) (pathString rt @ ''/'')"
    then obtain t where t: "pathString p = pathString rt @ CHR ''/'' # t" by (auto simp: startsWith_iff)
    have "p \<noteq> []" using t assms(3) by (cases rt) (auto simp: pathString_def)
    then have "[] # p = ([] # rt) @ splitOn (CHR ''/'') t"
      using t splitOn_sep [of "CHR ''/''" "pathString rt" t] splitOn_path [OF assms(1,3)] splitOn_path [OF assms(2)] by simp
    with \<open>\<not> prefix rt p\<close> show False by simp
  qed
next
  assume o: "outsideRoot rt p"
  show "\<not> prefix rt p"
  proof
    assume "prefix rt p"
    then obtain q where q: "p = rt @ q" by (auto simp: prefix_def)
    show False
    proof (cases q)
      case Nil
      with o q show False by (simp add: outsideRoot_def)
    next
      case (Cons s q')
      then have "pathString p = (pathString rt @ ''/'') @ s @ concat (map ((#) (CHR ''/'')) q')"
        using q assms(3) by (simp add: pathString_def)
      with o show False by (simp only: outsideRoot_def startsWith_append not_True_eq_False simp_thms)
    qed
  qed
qed

lemma realpath_Nil: "realpath fs [] = Found []"
  by (simp add: realpath_def)

lemma probeLoop_found:
  assumes "probeLoop fs rt cand k = Inr p" and "k \<le> length cand"
    and "\<forall>i. k < i \<and> i \<le> length cand \<longrightarrow> missing (realpath fs (take i cand))"
  shows "\<exists>j r. j \<le> k \<and> realpath fs (take j cand) = Found r \<and> p = r @ drop j cand \<and> \<not> outsideRoot rt p \<and>
    (\<forall>i. j < i \<and> i \<le> length cand \<longrightarrow> missing (realpath fs (take i cand)))"
  using assms
proof (induction k)
  case 0
  then show ?case by (subst (asm) probeLoop.simps) (auto simp: realpath_Nil Let_def split: if_splits)
next
  case (Suc k)
  show ?case
  proof (cases "realpath fs (take (Suc k) cand)")
    case (Found r)
    then show ?thesis using Suc.prems
      by (subst (asm) probeLoop.simps) (auto simp: Let_def split: if_splits intro!: exI [of _ "Suc k"])
  next
    case (Creatable q)
    then have "probeLoop fs rt cand k = Inr p" using Suc.prems(1) by (subst (asm) probeLoop.simps) simp
    moreover have "\<forall>i. k < i \<and> i \<le> length cand \<longrightarrow> missing (realpath fs (take i cand))"
      using Suc.prems(3) Creatable by (metis Suc_lessI missing_simps(1))
    ultimately show ?thesis using Suc.IH Suc_leD [OF Suc.prems(2)] le_SucI by blast
  next
    case (Fails e)
    then have e: "e = ENOENT" "probeLoop fs rt cand k = Inr p"
      using Suc.prems(1) by (subst (asm) probeLoop.simps, simp split: if_splits)+
    then have "\<forall>i. k < i \<and> i \<le> length cand \<longrightarrow> missing (realpath fs (take i cand))"
      using Suc.prems(3) Fails by (metis Suc_lessI missing_simps(2))
    then show ?thesis using Suc.IH [OF e(2) Suc_leD [OF Suc.prems(2)]] le_SucI by blast
  qed
qed

lemma candidate_clean: "clean rt \<Longrightarrow> clean (candidatePath rt requested)"
  by (simp add: candidatePath_def normalize_clean splitOn_segments)

lemma faithful_settled:
  assumes "settled fs r" and "\<forall>b s. suffix' = s # b \<longrightarrow> missing (walk fs MAXSYMLINKS [] (r @ [s]))"
  shows "faithful fs (r @ suffix')"
  unfolding faithful_def
proof (intro allI impI)
  fix k q assume q: "realpath fs (take k (r @ suffix')) = Found q"
  show "q = take k (r @ suffix')"
  proof (cases "k \<le> length r \<or> suffix' = []")
    case True
    have "settled fs (take k r)"
      using assms(1) solidDir_take [of fs r k] solidDir_take [of fs "butlast r" k]
      by (cases "length r \<le> k") (auto simp: settled_def take_butlast)
    then have "walk fs MAXSYMLINKS [] (take k r) = Found (take k r)" by (rule realpath_settled)
    then show ?thesis using q True by (auto simp: realpath_def)
  next
    case False
    then obtain s b where s: "take k (r @ suffix') = (r @ [s]) @ b" "\<exists>c. suffix' = s # c"
      by (cases suffix'; cases "k - length r") auto
    then have "missing (walk fs MAXSYMLINKS [] ((r @ [s]) @ b))" using assms(2) by (blast intro: walk_missing_more)
    then show ?thesis using q s(1) by (simp add: realpath_def)
  qed
qed

lemma volume_jailed:
  assumes "clean rt" and "rt \<noteq> []" and "linksClean fs" and "resolveInVolume rt requested fs = Inr p"
  shows "prefix rt p \<and> faithful fs p"
proof -
  let ?c = "candidatePath rt requested"
  have run: "probeLoop fs rt ?c (length ?c) = Inr p"
    using assms(4) by (auto simp: resolveInVolume_def Let_def split: if_splits)
  have "\<forall>i. length ?c < i \<and> i \<le> length ?c \<longrightarrow> missing (realpath fs (take i ?c))" by auto
  from probeLoop_found [OF run le_refl this] have "\<exists>j r. j \<le> length ?c \<and> realpath fs (take j ?c) = Found r \<and> p = r @ drop j ?c \<and>
    \<not> outsideRoot rt p \<and> (\<forall>i. j < i \<and> i \<le> length ?c \<longrightarrow> missing (realpath fs (take i ?c)))"
    .
  then obtain j r where j: "j \<le> length ?c" "realpath fs (take j ?c) = Found r"
    "p = r @ drop j ?c" "\<not> outsideRoot rt p" "\<forall>i. j < i \<and> i \<le> length ?c \<longrightarrow> missing (realpath fs (take i ?c))"
    by blast
  have c: "clean ?c" using assms(1) by (rule candidate_clean)
  have "clean r"
    using walk_clean [OF j(2) [unfolded realpath_def] assms(3)] clean_take [OF c] by (simp add: clean_def)
  then have "clean p" using j(3) c by (simp add: clean_drop)
  then have inside: "prefix rt p" using j(4) outsideRoot_iff assms(1,2) by blast
  have set': "settled fs r" using walk_Found_settled [OF j(2) [unfolded realpath_def]] by simp
  have "missing (walk fs MAXSYMLINKS [] (r @ [s]))" if "drop j ?c = s # b" for s b
  proof -
    have "j < length ?c" using that by (cases "j < length ?c") auto
    have s: "take (Suc j) ?c = take j ?c @ [s]" using \<open>j < length ?c\<close> that
      by (metis hd_drop_conv_nth list.sel(1) take_Suc_conv_app_nth)
    have ord: "ordinary s" using clean_drop [OF c, of j] that by simp
    have m: "missing (walk fs MAXSYMLINKS [] (take j ?c @ [s]))"
      using j(5) \<open>j < length ?c\<close> s by (metis Suc_leI lessI realpath_def)
    then have "solidDir fs r"
      using walk_file_more [OF j(2) [unfolded realpath_def] _ _ ord, of "[]"] by fastforce
    then obtain n where n: "n \<le> MAXSYMLINKS" "walk fs MAXSYMLINKS [] (take j ?c @ [s]) = walk fs n r [s]"
      using walk_continue [OF j(2) [unfolded realpath_def]] by blast
    have "walk fs n r [s] \<noteq> Fails ELOOP" using m [unfolded n(2)] by auto
    from walk_fuel [OF refl this n(1)] have "walk fs MAXSYMLINKS r [s] = walk fs n r [s]" .
    then show ?thesis using m n(2) walk_solid [of fs "[]" r MAXSYMLINKS "[s]"] \<open>solidDir fs r\<close> by simp
  qed
  then show ?thesis using inside faithful_settled [OF set', of "drop j ?c"] j(3) by simp
qed


section \<open>Confinement\<close>

text \<open>The contract of a jail, and what every operation that resolves its paths through one keeps.\<close>

locale jail =
  fixes resolve :: "string \<Rightarrow> path fsact" and rt :: path and ok :: "fs \<Rightarrow> bool"
  assumes resolve_reads: "snd (resolve w fs) = fs"
    and resolve_inside: "ok fs \<Longrightarrow> fst (resolve w fs) = Inr p \<Longrightarrow> prefix rt p \<and> faithful fs p"
begin

lemma jailed:
  assumes "\<And>p fs. ok fs \<Longrightarrow> prefix rt p \<Longrightarrow> faithful fs p \<Longrightarrow> ok (snd (f p fs)) \<and> g (snd (f p fs)) = g fs"
  shows "preserves (\<lambda>fs. ok fs \<and> g fs = c) (andThen (resolve w) f)"
proof (rule preservesI)
  fix fs assume ok: "ok fs \<and> g fs = c"
  obtain r where r: "resolve w fs = (r, fs)" using resolve_reads [of w fs] by (cases "resolve w fs") simp
  show "ok (snd (andThen (resolve w) f fs)) \<and> g (snd (andThen (resolve w) f fs)) = c"
    using assms ok resolve_inside [of fs w] r by (cases r) (auto simp: andThen_def)
qed

lemma jailed_twice:
  assumes "\<And>p q fs. ok fs \<Longrightarrow> prefix rt p \<Longrightarrow> faithful fs p \<Longrightarrow> prefix rt q \<Longrightarrow> faithful fs q \<Longrightarrow>
    ok (snd (f p q fs)) \<and> g (snd (f p q fs)) = g fs"
  shows "preserves (\<lambda>fs. ok fs \<and> g fs = c) (andThen (resolve w) (\<lambda>p. andThen (resolve v) (f p)))"
proof (rule jailed)
  fix p fs assume "ok fs" "prefix rt p" "faithful fs p"
  then show "ok (snd (andThen (resolve v) (f p) fs)) \<and> g (snd (andThen (resolve v) (f p) fs)) = g fs"
    using assms resolve_inside [of fs v] resolve_reads [of v fs]
    by (cases "resolve v fs"; cases "fst (resolve v fs)") (auto simp: andThen_def)
qed

end

definition jailOk :: "path \<Rightarrow> fs \<Rightarrow> bool" where
  "jailOk rt fs \<longleftrightarrow> clean rt \<and> rt \<noteq> [] \<and> linksClean fs"

lemma resolve_jailed:
  assumes "jailOk rt fs" and "resolveInVolume rt w fs = Inr p"
  shows "prefix rt p \<and> faithful fs p"
  using volume_jailed assms by (auto simp: jailOk_def)

interpretation volume: jail "inVolume rt" rt "jailOk rt" for rt
  by unfold_locales (simp_all add: inVolume_def resolve_jailed)

lemma linksClean_filter: "linksClean fs \<Longrightarrow> linksClean (filter P fs)"
  by (auto simp: linksClean_def)

lemma linksClean_removeTree [intro]: "linksClean fs \<Longrightarrow> linksClean (removeTree p fs)"
  by (simp add: removeTree_def linksClean_filter)

lemma linksClean_moveTree [intro]: "linksClean fs \<Longrightarrow> linksClean (moveTree p q fs)"
  using linksClean_removeTree [of fs q] by (fastforce simp: moveTree_def linksClean_def)

lemma entry_removeTree: "entry (removeTree p fs) q = (if prefix p q \<and> q \<noteq> [] then None else entry fs q)"
proof -
  have "map_of (filter (\<lambda>(q, _). \<not> prefix p q) fs) q = (if prefix p q then None else map_of fs q)"
    by (induction fs) auto
  then show ?thesis by (simp add: entry_def removeTree_def)
qed

lemma entry_moveTree:
  assumes "\<not> prefix p x" and "\<not> prefix q x"
  shows "entry (moveTree p q fs) x = entry fs x"
proof -
  have "map_of (map (\<lambda>(y, e). (if prefix p y then q @ drop (length p) y else y, e)) l) x = map_of l x" for l :: fs
    using assms by (induction l) (auto simp: prefix_def)
  then have "map_of (moveTree p q fs) x = map_of (removeTree q fs) x" by (simp add: moveTree_def)
  then show ?thesis using assms(2) entry_removeTree [of q fs x] by (auto simp: entry_def split: if_splits)
qed

lemma faithful_parent:
  "faithful fs p \<Longrightarrow> realpath fs (butlast p) = Found d \<Longrightarrow> d = butlast p"
  by (simp add: faithful_def butlast_conv_take)

lemma faithful_self: "faithful fs p \<Longrightarrow> realpath fs p = Found q \<Longrightarrow> q = p"
  by (metis faithful_def order_refl take_all_iff)

lemma rmForce_faithful:
  assumes "faithful fs p" and "p \<noteq> []"
  shows "rmForce p fs = removeTree p fs \<or> rmForce p fs = fs"
proof (cases "realpath fs (butlast p)")
  case (Found d)
  then have "d @ [last p] = p" using faithful_parent [OF assms(1)] assms(2) by simp
  then show ?thesis using Found assms(2) by (simp add: rmForce_def)
qed (use assms(2) in \<open>simp_all add: rmForce_def\<close>)

lemma deleteFiles_confined:
  assumes "\<not> strict_prefix rt x"
  shows "preserves (\<lambda>fs. jailOk rt fs \<and> entry fs x = c) (deleteFiles rt paths)"
  unfolding deleteFiles_def
proof (rule preserves_forEach, rule volume.jailed)
  fix w p fs assume a: "jailOk rt fs" "prefix rt p" "faithful fs p"
  let ?t = "snd (andThen (require (p \<noteq> rt) (Thrown ''Cannot delete the server root.'')) (\<lambda>_. writeState (rmForce p)) fs)"
  have "p \<noteq> []" using a by (auto simp: jailOk_def)
  show "jailOk rt ?t \<and> entry ?t x = entry fs x"
  proof (cases "p = rt")
    case True
    then show ?thesis using a(1) by (simp add: andThen_def require_def)
  next
    case False
    then have "\<not> prefix p x" using assms a(2) by (auto simp: strict_prefix_def prefix_order.dual_order.antisym
        dest: prefix_order.trans)
    then show ?thesis using False a(1) rmForce_faithful [OF a(3) \<open>p \<noteq> []\<close>]
      by (auto simp: andThen_def require_def writeState_def jailOk_def entry_removeTree)
  qed
qed

lemma renameEntry_confined:
  assumes "faithful fs p" and "faithful fs q" and "\<not> prefix p x" and "\<not> prefix q x" and "linksClean fs"
  shows "linksClean (snd (renameEntry p q fs)) \<and> entry (snd (renameEntry p q fs)) x = entry fs x"
proof -
  have "d @ [last p] = p" if "realpath fs (butlast p) = Found d" "p \<noteq> []" for d
    using faithful_parent [OF assms(1) that(1)] that(2) by simp
  moreover have "d @ [last q] = q" if "realpath fs (butlast q) = Found d" "q \<noteq> []" for d
    using faithful_parent [OF assms(2) that(1)] that(2) by simp
  ultimately show ?thesis
    using entry_moveTree [OF assms(3,4)] assms(5)
    by (auto simp: renameEntry_def Let_def split: found.split option.split)
qed

lemma renameFile_confined:
  assumes "\<not> prefix rt x"
  shows "preserves (\<lambda>fs. jailOk rt fs \<and> entry fs x = c) (renameFile rt old new)"
  unfolding renameFile_def
proof (rule volume.jailed_twice)
  fix p q fs assume a: "jailOk rt fs" "prefix rt p" "faithful fs p" "prefix rt q" "faithful fs q"
  have "\<not> prefix p x" "\<not> prefix q x" using a(2,4) assms prefix_order.trans by blast+
  from renameEntry_confined [OF a(3,5) this] a(1)
  show "jailOk rt (snd (renameEntry p q fs)) \<and> entry (snd (renameEntry p q fs)) x = entry fs x"
    by (simp add: jailOk_def)
qed

lemma readFile_confined:
  assumes "jailOk rt fs" and "readFile lstat rt w k fs = (Inr c, fs')"
  shows "fs' = fs \<and> length c \<le> k \<and> (\<exists>p. prefix rt p \<and> entry fs p = Some (FileE c))"
proof -
  obtain p where p: "resolveInVolume rt w fs = Inr p"
    using assms(2) by (cases "resolveInVolume rt w fs") (simp_all add: readFile_def andThen_def inVolume_def)
  obtain q e where q: "realpath fs p = Found q" "entry fs q = Some e" "sizeOf lstat q e \<le> k"
    "(case e of FileE c \<Rightarrow> ret c | _ \<Rightarrow> throw EISDIR) fs = (Inr c, fs')"
    using assms(2) p
    by (auto simp: readFile_def andThen_def inVolume_def orThrow_def require_def split: option.splits found.splits if_splits)
  then have "e = FileE c" "fs' = fs" by (cases e; simp add: ret_def throw_def)+
  moreover have "q = p" using resolve_jailed [OF assms(1) p] faithful_self q(1) by blast
  ultimately show ?thesis using q(2,3) resolve_jailed [OF assms(1) p] by (auto simp: sizeOf_def)
qed

text \<open>The file operations stay in the volume: a read returns a file of the volume, of at most the
  requested size; a deletion changes no entry outside the volume, nor the volume's root itself,
  and a renaming none outside the volume - for every file system, links included, and whichever of
  the requests in the list fails.\<close>

theorem file_operations_confined:
  assumes "clean rt" and "rt \<noteq> []" and "linksClean fs"
  shows "(\<forall>c fs'. readFile lstat rt w k fs = (Inr c, fs') \<longrightarrow>
      length c \<le> k \<and> (\<exists>p. prefix rt p \<and> entry fs p = Some (FileE c))) \<and>
    (\<forall>x. \<not> strict_prefix rt x \<longrightarrow> entry (snd (deleteFiles rt paths fs)) x = entry fs x) \<and>
    (\<forall>x. \<not> prefix rt x \<longrightarrow> entry (snd (renameFile rt old new fs)) x = entry fs x)"
proof -
  have ok: "jailOk rt fs" using assms by (simp add: jailOk_def)
  show ?thesis
    using readFile_confined [OF ok] preservesD [OF deleteFiles_confined] preservesD [OF renameFile_confined] ok
    by blast
qed

section \<open>What escapes it\<close>

text \<open>A link whose target does not exist is invisible to \<open>realpath\<close>, but the write follows it:
  the file is created outside the volume.\<close>

lemma dangling_link_escapes:
  "entry (snd (writeFile [''v''] ''x'' content
     [([''v''], DirE), ([''etc''], DirE), ([''v'', ''x''], LinkE True [''etc'', ''new''])])) [''etc'', ''new''] =
   Some (FileE content)"
  by code_simp

text \<open>A data directory that is itself reached through a link makes every request an error.\<close>

lemma linked_root_refused:
  assumes "clean rt" and "rt \<noteq> []" and "realpath fs rt = Found r" and "clean r" and "\<not> prefix rt r"
  shows "resolveInVolume rt ''/'' fs = Inl outsideError"
proof -
  have "candidatePath rt ''/'' = rt" by (simp add: candidatePath_def normalizeSegments_def stepSegment_def)
  moreover have "\<not> outsideRoot rt rt" "outsideRoot rt r" using outsideRoot_iff assms by simp_all
  ultimately show ?thesis
    by (simp add: resolveInVolume_def Let_def) (subst probeLoop.simps, simp add: assms(3) Let_def)
qed

end
