(* ===== verification/Docker.thy ===== *)
theory Docker
  imports AgentFiles
begin

text \<open>
  The container operations of \<open>apps/agent/src/providers/docker.ts\<close>. The Docker daemon is a
  service: its answer to a call is a function \<open>de_daemon\<close> of the calls made so far and the call,
  and each call takes some time, \<open>de_latency\<close>. The state of the host is its file system,
  its clock and the calls made.
\<close>

section \<open>The host\<close>

record ContainerConfig =
  cc_name :: string
  cc_Image :: string
  cc_Cmd :: "string list"
  cc_Env :: "string list"
  cc_User :: string
  cc_ExposedPorts :: "string list"
  cc_Labels :: "(string \<times> string) list"
  cc_Binds :: "string list"
  cc_PortBindings :: "(string \<times> string \<times> string) list"
  cc_Memory :: int
  cc_MemorySwap :: int
  cc_CpuQuota :: int
  cc_CpuPeriod :: int
  cc_PidsLimit :: nat
  cc_Privileged :: bool
  cc_CapDrop :: "string list"
  cc_SecurityOpt :: "string list"
  cc_RestartPolicy :: string

datatype DockerCall =
  ListImages string
| Pull string
| CreateContainer ContainerConfig
| RemoveContainer string
| StartContainer string
| StopContainer string nat
| KillContainer string
| Inspect string
| Stats string
| ListContainers
| AttachStdin string string
| Logs string

record ContainerInfo =
  ci_Id :: string
  ci_State :: ContainerState
  ci_serverId :: "string option" \<comment> \<open>the label \<open>dev.deers.server-id\<close>\<close>
  ci_StartedAt :: "time option"

record ContainerStats =
  cs_total :: rat
  cs_pretotal :: rat
  cs_system :: rat
  cs_presystem :: "rat option"
  cs_onlineCpus :: "rat option"
  cs_usage :: "rat option"
  cs_limit :: "rat option"

record DockerReply =
  dr_images :: nat
  dr_info :: ContainerInfo
  dr_stats :: ContainerStats
  dr_containers :: "ContainerInfo list"

record dockerEnv =
  de_daemon :: "DockerCall list \<Rightarrow> DockerCall \<Rightarrow> string + DockerReply"
  de_latency :: "DockerCall list \<Rightarrow> nat"
  de_dataRoot :: string

record host =
  h_fs :: fs
  h_now :: time
  h_docker :: "DockerCall list"

type_synonym 'a hostact = "(host, fsError, 'a) action"

definition docker :: "dockerEnv \<Rightarrow> DockerCall \<Rightarrow> DockerReply hostact" where
  "docker env c h =
     (case de_daemon env (h_docker h) c of Inl m \<Rightarrow> Inl (Thrown m) | Inr r \<Rightarrow> Inr r,
      h\<lparr>h_docker := h_docker h @ [c], h_now := h_now h + int (de_latency env (h_docker h))\<rparr>)"

definition onFiles :: "'a fsact \<Rightarrow> 'a hostact" where
  "onFiles m h = (case m (h_fs h) of (r, fs) \<Rightarrow> (r, h\<lparr>h_fs := fs\<rparr>))"

text \<open>\<open>.catch(() => undefined)\<close>\<close>

definition ignoring :: "'a hostact \<Rightarrow> unit hostact" where
  "ignoring m = tryCatch (andThen m (\<lambda>_. ret ())) (\<lambda>_. ret ())"

definition containerName :: "ident \<Rightarrow> string" where
  "containerName serverId = ''deers-'' @ serverId"

definition volumeOf :: "dockerEnv \<Rightarrow> ident \<Rightarrow> path" where
  "volumeOf env serverId = volumePath (de_dataRoot env) serverId"

section \<open>Creation\<close>

definition mathRound :: "rat \<Rightarrow> int" where
  "mathRound x = \<lfloor>x + 1 / 2\<rfloor>"

definition RUN_AS :: string where
  "RUN_AS = ''988:988''"

definition portKey :: "PortSpec \<Rightarrow> string" where
  "portKey p = showInt (pt_port p) @ ''/'' @ (case pt_protocol p of Tcp \<Rightarrow> ''tcp'' | Udp \<Rightarrow> ''udp'')"

text \<open>An object property written twice keeps its place and takes the last value.\<close>

fun setProp :: "'k \<Rightarrow> 'v \<Rightarrow> ('k \<times> 'v) list \<Rightarrow> ('k \<times> 'v) list" where
  "setProp k v [] = [(k, v)]"
| "setProp k v ((j, w) # kvs) = (if j = k then (j, v) # kvs else (j, w) # setProp k v kvs)"

definition portBindings :: "PortSpec list \<Rightarrow> (string \<times> string \<times> string) list" where
  "portBindings ps = foldl (\<lambda>kvs p. setProp (portKey p) (pt_ip p, showInt (pt_port p)) kvs) [] ps"

definition containerConfig :: "dockerEnv \<Rightarrow> CreateServerSpec \<Rightarrow> ContainerConfig" where
  "containerConfig env spec =
     (let volume = pathString (volumeOf env (sp_serverId spec)); bindings = portBindings (sp_ports spec) in
      \<lparr>cc_name = containerName (sp_serverId spec), cc_Image = sp_image spec,
       cc_Cmd = [''/bin/sh'', ''-c'', sp_startCommand spec],
       cc_Env = map (\<lambda>(k, v). k @ ''='' @ v) (sp_environment spec), cc_User = RUN_AS,
       cc_ExposedPorts = map fst bindings,
       cc_Labels = [(''dev.deers.managed'', ''true''), (''dev.deers.server-id'', sp_serverId spec),
         (''dev.deers.short-id'', sp_shortId spec)],
       cc_Binds = [volume @ '':/home/container:rw''], cc_PortBindings = bindings,
       cc_Memory = sp_memoryMb spec * 1024 * 1024, cc_MemorySwap = sp_memoryMb spec * 1024 * 1024,
       cc_CpuQuota = mathRound (sp_cpuCores spec * 100000), cc_CpuPeriod = 100000, cc_PidsLimit = 512,
       cc_Privileged = False, cc_CapDrop = [''ALL''], cc_SecurityOpt = [''no-new-privileges''],
       cc_RestartPolicy = ''no''\<rparr>)"

definition pullImage :: "dockerEnv \<Rightarrow> string \<Rightarrow> unit hostact" where
  "pullImage env img =
     andThen (docker env (ListImages img)) (\<lambda>r.
     if 0 < dr_images r then ret () else andThen (docker env (Pull img)) (\<lambda>_. ret ()))"

definition createServer :: "dockerEnv \<Rightarrow> CreateServerSpec \<Rightarrow> string hostact" where
  "createServer env spec =
     andThen (onFiles (mkdirs (volumeOf env (sp_serverId spec)))) (\<lambda>_.
     andThen (pullImage env (sp_image spec)) (\<lambda>_.
     andThen (docker env (CreateContainer (containerConfig env spec))) (\<lambda>r.
     ret (ci_Id (dr_info r)))))"

definition deleteServer' :: "dockerEnv \<Rightarrow> ident \<Rightarrow> bool \<Rightarrow> unit hostact" where
  "deleteServer' env serverId wipeVolume =
     andThen (ignoring (docker env (RemoveContainer (containerName serverId)))) (\<lambda>_.
     if wipeVolume then onFiles (writeState (rmForce (volumeOf env serverId))) else ret ())"

section \<open>Power\<close>

definition startServer :: "dockerEnv \<Rightarrow> ident \<Rightarrow> unit hostact" where
  "startServer env serverId = andThen (docker env (StartContainer (containerName serverId))) (\<lambda>_. ret ())"

definition getStatus :: "dockerEnv \<Rightarrow> ident \<Rightarrow> ContainerState hostact" where
  "getStatus env serverId =
     tryCatch (andThen (docker env (Inspect (containerName serverId))) (\<lambda>r. ret (ci_State (dr_info r))))
       (\<lambda>_. ret C_dead)"

text \<open>\<open>command.replace(/[\r\n]+/g, " ") + "\n"\<close>\<close>

definition stdinLine :: "string \<Rightarrow> string" where
  "stdinLine command = replaceRuns (\<lambda>c. c = CHR 0x0D \<or> c = CHR 0x0A) '' '' command @ [CHR 0x0A]"

definition sendCommand :: "dockerEnv \<Rightarrow> ident \<Rightarrow> string \<Rightarrow> unit hostact" where
  "sendCommand env serverId command =
     andThen (docker env (AttachStdin (containerName serverId) (stdinLine command))) (\<lambda>_. ret ())"

text \<open>The loop of \<open>stopServer\<close>: whether the container was seen to have stopped. A timer of one
  second fires no sooner than a second later, so every round moves the clock on.\<close>

function pollStopped :: "dockerEnv \<Rightarrow> ident \<Rightarrow> time \<Rightarrow> host \<Rightarrow> bool \<times> host" where
  "pollStopped env serverId deadline h =
     (if h_now h < deadline then
        (case getStatus env serverId h of
           (Inl e, h1) \<Rightarrow> (True, h1)
         | (Inr st, h1) \<Rightarrow>
             if st \<noteq> C_running then (True, h1)
             else pollStopped env serverId deadline (h1\<lparr>h_now := h_now h1 + 1000\<rparr>))
      else (False, h))"
  by pat_completeness auto

text \<open>A call appends itself to the history and takes its time.\<close>

lemma docker_run: "docker env c h = (r, h1) \<Longrightarrow>
  h_docker h1 = h_docker h @ [c] \<and> h_now h \<le> h_now h1 \<and> h_fs h1 = h_fs h"
  by (auto simp: docker_def)

lemma getStatus_run: "\<exists>st h1. getStatus env serverId h = (Inr st, h1) \<and>
  h_docker h1 = h_docker h @ [Inspect (containerName serverId)] \<and> h_now h \<le> h_now h1 \<and> h_fs h1 = h_fs h"
  by (cases "docker env (Inspect (containerName serverId)) h"; cases "fst (docker env (Inspect (containerName serverId)) h)")
    (auto simp: getStatus_def tryCatch_def andThen_def ret_def dest: docker_run)

termination pollStopped
proof (relation "measure (\<lambda>(env, i, deadline, h). nat (deadline - h_now h))", goal_cases)
  case (2 env serverId deadline h)
  then show ?case using getStatus_run [of env serverId h] by auto
qed simp

declare pollStopped.simps [simp del]

definition stopServer :: "dockerEnv \<Rightarrow> ident \<Rightarrow> string option \<Rightarrow> nat \<Rightarrow> unit hostact" where
  "stopServer env serverId stopCommand timeoutSeconds h =
     (case (case stopCommand of
        Some c \<Rightarrow>
          if c = [] then (False, h)
          else (let h1 = snd (ignoring (sendCommand env serverId c) h)
                in pollStopped env serverId (h_now h1 + int timeoutSeconds * 1000) h1)
      | None \<Rightarrow> (False, h)) of
      (stopped, h2) \<Rightarrow>
        if stopped then (Inr (), h2)
        else ignoring (docker env (StopContainer (containerName serverId) 10)) h2)"

definition restartServer :: "dockerEnv \<Rightarrow> ident \<Rightarrow> unit hostact" where
  "restartServer env serverId =
     andThen (stopServer env serverId None 30) (\<lambda>_. startServer env serverId)"

definition killServer :: "dockerEnv \<Rightarrow> ident \<Rightarrow> unit hostact" where
  "killServer env serverId = ignoring (docker env (KillContainer (containerName serverId)))"

section \<open>Statistics\<close>

text \<open>\<open>Number(x.toFixed(2))\<close>\<close>

definition toFixed2 :: "rat \<Rightarrow> rat" where
  "toFixed2 x = (if x < 0 then - of_int \<lfloor>- x * 100 + 1 / 2\<rfloor> / 100 else of_int \<lfloor>x * 100 + 1 / 2\<rfloor> / 100)"

definition cpuPercentOf :: "ContainerStats \<Rightarrow> rat" where
  "cpuPercentOf st =
     (let cpuDelta = cs_total st - cs_pretotal st;
          sysDelta = cs_system st - (case cs_presystem st of None \<Rightarrow> 0 | Some x \<Rightarrow> x);
          cores = (case cs_onlineCpus st of None \<Rightarrow> 1 | Some c \<Rightarrow> c)
      in if 0 < sysDelta then cpuDelta / sysDelta * cores * 100 else 0)"

definition bytesToMb :: "rat option \<Rightarrow> int" where
  "bytesToMb b = mathRound ((case b of None \<Rightarrow> 0 | Some x \<Rightarrow> x) / 1024 / 1024)"

text \<open>The walk of \<open>directorySizeMb\<close>: links are skipped, directories entered.\<close>

function dirBytes :: "fs \<Rightarrow> path \<Rightarrow> nat" where
  "dirBytes fs d =
     sum_list (map (\<lambda>(p, e). case e of LinkE _ _ \<Rightarrow> 0 | DirE \<Rightarrow> dirBytes fs p | FileE c \<Rightarrow> length c)
       (filter (\<lambda>(p, _). p \<noteq> [] \<and> butlast p = d) fs))"
  by pat_completeness auto
termination
proof (relation "measure (\<lambda>(fs, d). Suc (Max (insert 0 (length ` fst ` set fs))) - length d)")
  fix fs :: fs and d x p e
  assume x: "x \<in> set (filter (\<lambda>(p, _). p \<noteq> [] \<and> butlast p = d) fs)" "(p, e) = x" "e = DirE"
  then have "length p = Suc (length d)" by (cases p rule: rev_cases) auto
  moreover have "length p \<le> Max (insert 0 (length ` fst ` set fs))"
    using x by (intro Max_ge) force+
  ultimately show "((fs, p), fs, d) \<in> measure (\<lambda>(fs, d). Suc (Max (insert 0 (length ` fst ` set fs))) - length d)"
    by simp
qed simp

declare dirBytes.simps [simp del]

definition directorySizeMb :: "path \<Rightarrow> fs \<Rightarrow> int" where
  "directorySizeMb d fs =
     (case realpath fs d of
        Found q \<Rightarrow> mathRound (of_nat (dirBytes fs q) / 1024 / 1024)
      | _ \<Rightarrow> 0)"

definition stub :: "ident \<Rightarrow> ContainerInfo \<Rightarrow> ContainerSummary" where
  "stub serverId c = \<lparr>c_serverId = serverId, c_containerId = ci_Id c, c_state = ci_State c, c_cpuPercent = 0,
     c_memoryUsedMb = 0, c_diskUsedMb = 0\<rparr>"

definition getStats :: "dockerEnv \<Rightarrow> ident \<Rightarrow> ContainerSummary hostact" where
  "getStats env serverId =
     andThen (docker env (Inspect (containerName serverId))) (\<lambda>i.
     andThen (docker env (Stats (containerName serverId))) (\<lambda>r.
     andThen (readState (\<lambda>h. directorySizeMb (volumeOf env serverId) (h_fs h))) (\<lambda>disk.
     ret \<lparr>c_serverId = serverId, c_containerId = ci_Id (dr_info i), c_state = ci_State (dr_info i),
       c_cpuPercent = toFixed2 (cpuPercentOf (dr_stats r)), c_memoryUsedMb = bytesToMb (cs_usage (dr_stats r)),
       c_diskUsedMb = disk\<rparr>)))"

fun listEach :: "dockerEnv \<Rightarrow> ContainerInfo list \<Rightarrow> ContainerSummary list \<Rightarrow> ContainerSummary list hostact" where
  "listEach env [] out = ret out"
| "listEach env (c # cs) out =
     (case ci_serverId c of
        None \<Rightarrow> listEach env cs out
      | Some serverId \<Rightarrow>
          if serverId = [] then listEach env cs out
          else if ci_State c = C_running
          then andThen (tryCatch (getStats env serverId) (\<lambda>_. ret (stub serverId c))) (\<lambda>s. listEach env cs (out @ [s]))
          else listEach env cs (out @ [stub serverId c]))"

definition listServers :: "dockerEnv \<Rightarrow> ContainerSummary list hostact" where
  "listServers env = andThen (docker env ListContainers) (\<lambda>r. listEach env (dr_containers r) [])"

section \<open>Consoles\<close>

text \<open>\<open>line.replace(/\x1b\[[0-9;]*m/g, "")\<close>\<close>

definition ansiParam :: "char \<Rightarrow> bool" where
  "ansiParam c \<longleftrightarrow> isDigit c \<or> c = CHR '';''"

text \<open>The rest of the text behind a colour sequence at its beginning, if it begins with one.\<close>

definition afterSequence :: "string \<Rightarrow> string option" where
  "afterSequence s =
     (if startsWith s [CHR 0x1B, CHR ''['']
      then (case dropWhile ansiParam (drop 2 s) of [] \<Rightarrow> None | c # r \<Rightarrow> if c = CHR ''m'' then Some r else None)
      else None)"

lemma afterSequence_shorter: "afterSequence s = Some r \<Longrightarrow> length r < length s"
proof -
  assume "afterSequence s = Some r"
  then obtain c where "dropWhile ansiParam (drop 2 s) = c # r"
    by (auto simp: afterSequence_def split: if_splits list.splits)
  then have "Suc (length r) \<le> length (drop 2 s)" using length_dropWhile_le [of ansiParam "drop 2 s"] by simp
  then show ?thesis by simp
qed

function stripAnsi :: "string \<Rightarrow> string" where
  "stripAnsi [] = []"
| "stripAnsi (c # s) = (case afterSequence (c # s) of Some r \<Rightarrow> stripAnsi r | None \<Rightarrow> c # stripAnsi s)"
  by pat_completeness auto
termination
  by (relation "measure length") (auto dest: afterSequence_shorter)

text \<open>One chunk of a stream: the lines it completes, and what is carried to the next.\<close>

definition pushChunk :: "string \<Rightarrow> string \<Rightarrow> string list \<times> string" where
  "pushChunk carry b =
     (let parts = splitOn (CHR 0x0A) (carry @ b) in (map stripAnsi (butlast parts), last parts))"

fun feedChunks :: "string \<Rightarrow> string list \<Rightarrow> string list \<times> string" where
  "feedChunks carry [] = ([], carry)"
| "feedChunks carry (b # bs) =
     (case pushChunk carry b of (lines, c) \<Rightarrow> case feedChunks c bs of (ls, d) \<Rightarrow> (lines @ ls, d))"

section \<open>Stopping\<close>

definition seenStopped :: "dockerEnv \<Rightarrow> ident \<Rightarrow> DockerCall list \<Rightarrow> bool" where
  "seenStopped env serverId hist =
     (case de_daemon env hist (Inspect (containerName serverId)) of
        Inl _ \<Rightarrow> True | Inr r \<Rightarrow> ci_State (dr_info r) \<noteq> C_running)"

lemma getStatus_stopped:
  assumes "getStatus env i h = (Inr st, h1)"
  shows "st \<noteq> C_running \<longleftrightarrow> seenStopped env i (h_docker h)"
  using assms
  by (cases "de_daemon env (h_docker h) (Inspect (containerName i))")
    (auto simp: getStatus_def tryCatch_def andThen_def ret_def docker_def seenStopped_def)

lemma pollStopped_run:
  assumes "pollStopped env i deadline h = (b, h1)" and "deadline \<le> h_now h + int n * 1000"
  shows "\<exists>k \<le> n. h_docker h1 = h_docker h @ replicate k (Inspect (containerName i)) \<and> h_fs h1 = h_fs h \<and>
    (b \<longrightarrow> 0 < k \<and> seenStopped env i (h_docker h @ replicate (k - 1) (Inspect (containerName i))))"
  using assms
proof (induction env i deadline h arbitrary: n rule: pollStopped.induct)
  case (1 env i deadline h)
  obtain st g where g: "getStatus env i h = (Inr st, g)" "h_docker g = h_docker h @ [Inspect (containerName i)]"
    "h_now h \<le> h_now g" "h_fs g = h_fs h" using getStatus_run [of env i h] by blast
  show ?case
  proof (cases "h_now h < deadline")
    case False
    then show ?thesis using 1(2) by (subst (asm) pollStopped.simps) (auto intro: exI [of _ 0])
  next
    case True
    then obtain m where n: "n = Suc m" using 1(3) by (cases n) auto
    show ?thesis
    proof (cases "st = C_running")
      case False
      then have "b" "h1 = g" using 1(2) True g(1) by (subst (asm) pollStopped.simps, simp)+
      then show ?thesis using g(2,4) getStatus_stopped [OF g(1)] False n by (intro exI [of _ 1]) simp
    next
      case running: True
      let ?g = "g\<lparr>h_now := h_now g + 1000\<rparr>"
      have "pollStopped env i deadline ?g = (b, h1)" using 1(2) True g(1) running by (subst (asm) pollStopped.simps) simp
      moreover have "deadline \<le> h_now ?g + int m * 1000" using 1(3) g(3) n by simp
      ultimately obtain k where k: "k \<le> m" "h_docker h1 = h_docker ?g @ replicate k (Inspect (containerName i))"
        "h_fs h1 = h_fs ?g" "b \<longrightarrow> 0 < k \<and> seenStopped env i (h_docker ?g @ replicate (k - 1) (Inspect (containerName i)))"
        using 1(1) [OF True g(1) [symmetric] refl, of m] running by auto
      then show ?thesis using g(2,4) n by (intro exI [of _ "Suc k"]) (auto simp: gr0_conv_Suc)
    qed
  qed
qed

lemma ignoring_run: "ignoring (docker env c) h = (Inr (), snd (docker env c h))"
  by (simp add: ignoring_def tryCatch_def andThen_def ret_def split: prod.split sum.split)

lemma docker_calls: "h_docker (snd (docker env c h)) = h_docker h @ [c]" "h_fs (snd (docker env c h)) = h_fs h"
  by (simp_all add: docker_def)

lemma sendCommand_run: "ignoring (sendCommand env i c) h = (Inr (), snd (docker env (AttachStdin (containerName i) (stdinLine c)) h))"
  by (simp add: ignoring_def sendCommand_def tryCatch_def andThen_def ret_def split: prod.split sum.split)


section \<open>Consoles and standard input\<close>


text \<open>One command is one line: what is written to the standard input of the game has exactly one
  line end, its last character, whatever the customer typed.\<close>

theorem stdin_single_line:
  "\<exists>l. stdinLine command = l @ [CHR 0x0A] \<and> CHR 0x0A \<notin> set l \<and> CHR 0x0D \<notin> set l"
  using set_replaceRuns [of "\<lambda>c. c = CHR 0x0D \<or> c = CHR 0x0A" "'' ''" command] by (auto simp: stdinLine_def)

section \<open>Isolation\<close>

lemma setProp_lookup: "map_of (setProp k v kvs) j = (if j = k then Some v else map_of kvs j)"
  by (induction kvs) auto

lemma portBindings_lookup:
  "map_of (portBindings ps) k = map_of (rev (map (\<lambda>p. (portKey p, (pt_ip p, showInt (pt_port p)))) ps)) k"
proof -
  have "map_of (foldl (\<lambda>kvs p. setProp (portKey p) (pt_ip p, showInt (pt_port p)) kvs) acc ps) k =
      (case map_of (rev (map (\<lambda>p. (portKey p, (pt_ip p, showInt (pt_port p)))) ps)) k of None \<Rightarrow> map_of acc k | Some v \<Rightarrow> Some v)"
    for acc
    by (induction ps arbitrary: acc)
      (auto simp: setProp_lookup map_add_def split: option.split)
  from this [of "[]"] show ?thesis by (simp add: portBindings_def split: option.split)
qed

lemma volumeOf_simple:
  assumes "ordinary i" and "CHR ''/'' \<notin> set i"
  shows "volumeOf env i = normalizeSegments (splitOn (CHR ''/'') (de_dataRoot env)) @ [i]"
  using assms splitOn_sep [of "CHR ''/''" "de_dataRoot env" i]
  by (simp add: volumeOf_def volumePath_def normalizeSegments_def splitOn_plain stepSegment_def ordinary_def)

text \<open>C15. Containers are isolated: the one directory bound into a container is the volume of its
  server, the volumes of two servers do not contain each other, and no container has privileges,
  capabilities or memory beyond its plan.\<close>

theorem container_isolated:
  assumes "ordinary i" and "CHR ''/'' \<notin> set i" and "ordinary j" and "CHR ''/'' \<notin> set j" and "i \<noteq> j"
    and "sp_serverId spec = i" and "createServer env spec h = (Inr cid, h1)"
  shows "\<exists>cfg. last (h_docker h1) = CreateContainer cfg \<and>
    cc_Binds cfg = [pathString (volumeOf env i) @ '':/home/container:rw''] \<and>
    \<not> prefix (volumeOf env i) (volumeOf env j) \<and> \<not> cc_Privileged cfg \<and> cc_CapDrop cfg = [''ALL''] \<and>
    cc_Memory cfg = sp_memoryMb spec * 1048576 \<and> cc_MemorySwap cfg = cc_Memory cfg"
proof -
  obtain h0 r where "docker env (CreateContainer (containerConfig env spec)) h0 = (r, h1)"
    using assms(7) by (auto simp: createServer_def andThen_ok ret_def)
  then have "last (h_docker h1) = CreateContainer (containerConfig env spec)" using docker_run by fastforce
  moreover have "\<not> prefix (volumeOf env i) (volumeOf env j)" using assms(1-5) by (simp add: volumeOf_simple)
  ultimately show ?thesis using assms(6) by (simp add: containerConfig_def Let_def)
qed

section \<open>The size of a directory\<close>

definition treeWf :: "fs \<Rightarrow> bool" where
  "treeWf fs \<longleftrightarrow> distinct (map fst fs) \<and> (\<forall>(p, e) \<in> set fs. p \<noteq> [] \<and> (butlast p = [] \<or> (butlast p, DirE) \<in> set fs))"

definition fileSize :: "fsEntry \<Rightarrow> nat" where
  "fileSize e = (case e of FileE c \<Rightarrow> length c | _ \<Rightarrow> 0)"

definition below :: "fs \<Rightarrow> path \<Rightarrow> (path \<times> fsEntry) set" where
  "below fs d = {x \<in> set fs. strict_prefix d (fst x)}"

definition children :: "fs \<Rightarrow> path \<Rightarrow> (path \<times> fsEntry) set" where
  "children fs d = {x \<in> set fs. fst x \<noteq> [] \<and> butlast (fst x) = d}"

lemma treeWf_eq: "treeWf fs \<Longrightarrow> (p, e) \<in> set fs \<Longrightarrow> (p, e') \<in> set fs \<Longrightarrow> e = e'"
  by (auto simp: treeWf_def dest: eq_key_imp_eq_value)

lemma strict_prefix_snoc: "strict_prefix d (p @ [s]) \<longleftrightarrow> prefix d p"
  by (auto simp: strict_prefix_def)

lemma butlast_strict: "p \<noteq> [] \<Longrightarrow> strict_prefix (butlast p) p"
  by (cases p rule: rev_cases) (simp_all add: strict_prefix_snoc)

lemma strict_butlast: "strict_prefix d p \<Longrightarrow> butlast p \<noteq> d \<Longrightarrow> strict_prefix d (butlast p)"
  by (cases p rule: rev_cases) (auto simp: strict_prefix_snoc strict_prefix_def)

lemma below_child:
  assumes "treeWf fs" and "x \<in> below fs d"
  shows "x \<in> children fs d \<or> (\<exists>c \<in> children fs d. snd c = DirE \<and> x \<in> below fs (fst c))"
  using assms(2)
proof (induction "length (fst x)" arbitrary: x rule: less_induct)
  case less
  obtain p e where x: "x = (p, e)" "(p, e) \<in> set fs" "strict_prefix d p" using less.prems by (cases x) (auto simp: below_def)
  have p: "p \<noteq> []" "butlast p = [] \<or> (butlast p, DirE) \<in> set fs" using x(2) assms(1) by (auto simp: treeWf_def)
  show ?case
  proof (cases "butlast p = d")
    case True
    then show ?thesis using x p(1) by (simp add: children_def)
  next
    case False
    then have s: "strict_prefix d (butlast p)" using x(3) by (intro strict_butlast)
    then have m: "(butlast p, DirE) \<in> set fs" using p(2) by auto
    have "strict_prefix (butlast p) p" using p(1) by (rule butlast_strict)
    moreover have "(butlast p, DirE) \<in> children fs d \<or>
        (\<exists>c \<in> children fs d. snd c = DirE \<and> (butlast p, DirE) \<in> below fs (fst c))"
      using less.hyps [of "(butlast p, DirE)"] p(1) s m x(1) by (simp add: below_def)
    ultimately show ?thesis using x(1,2) by (fastforce simp: below_def)
  qed
qed

lemma children_prefix: "c \<in> children fs d \<Longrightarrow> strict_prefix d (fst c)"
  using butlast_strict by (auto simp: children_def)

lemma below_split:
  assumes "treeWf fs"
  shows "below fs d = (\<Union>c \<in> children fs d. insert c (if snd c = DirE then below fs (fst c) else {}))"
proof (intro set_eqI iffI)
  fix x assume "x \<in> below fs d"
  from below_child [OF assms this]
  show "x \<in> (\<Union>c \<in> children fs d. insert c (if snd c = DirE then below fs (fst c) else {}))"
    by (elim disjE bexE conjE) (rule UN_I, assumption, simp)+
next
  fix x assume "x \<in> (\<Union>c \<in> children fs d. insert c (if snd c = DirE then below fs (fst c) else {}))"
  then obtain c where c: "c \<in> children fs d" "x = c \<or> x \<in> below fs (fst c)" by (auto split: if_splits)
  then show "x \<in> below fs d"
    using children_prefix [OF c(1)] by (auto simp: below_def children_def intro: prefix_order.less_trans)
qed

lemma children_apart:
  assumes "treeWf fs" and "c \<in> children fs d" and "c' \<in> children fs d" and "c \<noteq> c'"
  shows "insert c (below fs (fst c)) \<inter> insert c' (below fs (fst c')) = {}"
proof -
  have "fst c \<noteq> fst c'" using assms treeWf_eq [OF assms(1)] by (cases c; cases c') (auto simp: children_def)
  moreover have "length (fst c) = length (fst c')"
    using assms(2,3) by (cases "fst c" rule: rev_cases; cases "fst c'" rule: rev_cases) (auto simp: children_def)
  ultimately have n: "\<not> prefix (fst c) (fst c')" "\<not> prefix (fst c') (fst c)" by (auto simp: prefix_def)
  then have "\<not> (prefix (fst c) q \<and> prefix (fst c') q)" for q using prefix_same_cases by blast
  then show ?thesis by (auto simp: below_def strict_prefix_def)
qed

text \<open>The reported disk usage of a server is the sum of the sizes of the files below its volume:
  the recursive walk agrees with the flat sum on every well-formed file system.\<close>

theorem dirBytes_flat:
  assumes "treeWf fs"
  shows "dirBytes fs d = (\<Sum>x \<in> below fs d. fileSize (snd x))"
  using assms
proof (induction fs d rule: dirBytes.induct)
  case (1 fs d)
  let ?f = "\<lambda>(p, e). case e of LinkE _ _ \<Rightarrow> 0 | DirE \<Rightarrow> dirBytes fs p | FileE c \<Rightarrow> length c"
  let ?T = "\<lambda>c. insert c (if snd c = DirE then below fs (fst c) else {})"
  have fin: "finite (below fs p)" "finite (children fs p)" for p by (simp_all add: below_def children_def)
  have d: "distinct fs" using 1(2) by (simp add: treeWf_def distinct_map)
  have set': "set (filter (\<lambda>(p, _). p \<noteq> [] \<and> butlast p = d) fs) = children fs d" by (auto simp: children_def)
  have one: "?f c = (\<Sum>x \<in> ?T c. fileSize (snd x))" if "c \<in> children fs d" for c
  proof (cases "snd c = DirE")
    case True
    then have "dirBytes fs (fst c) = (\<Sum>x \<in> below fs (fst c). fileSize (snd x))"
      using 1(1) [of c "fst c" "snd c" ] 1(2) that True by (cases c) (auto simp: children_def)
    moreover have "c \<notin> below fs (fst c)" by (simp add: below_def)
    ultimately show ?thesis using True fin by (cases c) (simp add: fileSize_def)
  next
    case False
    then show ?thesis by (cases c; cases "snd c") (simp_all add: fileSize_def)
  qed
  have "dirBytes fs d = (\<Sum>c \<in> children fs d. ?f c)"
    using d by (subst dirBytes.simps) (simp add: sum_list_distinct_conv_sum_set set' [symmetric] del: set_filter)
  also have "\<dots> = (\<Sum>c \<in> children fs d. \<Sum>x \<in> ?T c. fileSize (snd x))" using one by (rule sum.cong [OF refl])
  also have "\<dots> = (\<Sum>x \<in> (\<Union>c \<in> children fs d. ?T c). fileSize (snd x))"
    using fin children_apart [OF 1(2)] by (subst sum.UNION_disjoint) (auto split: if_splits)
  also have "\<dots> = (\<Sum>x \<in> below fs d. fileSize (snd x))" using below_split [OF 1(2)] by simp
  finally show ?case .
qed

end
