(* ===== verification/Archives.thy ===== *)
theory Archives
  imports Docker
begin

text \<open>
  Backups on the node: \<open>createBackup\<close>, \<open>restoreBackup\<close> and \<open>deleteBackup\<close> of
  \<open>apps/agent/src/providers/docker.ts\<close> over the archive store of
  \<open>apps/agent/src/storage/local.ts\<close>.
\<close>

section \<open>Archives\<close>

text \<open>
  The archives are kept by \<open>apps/agent/src/storage/local.ts\<close>. What \<open>tar-fs\<close> and
  \<open>zlib\<close> make of a directory, and back, is given by \<open>pack\<close> and \<open>unpack\<close>: the
  entries an archive holds, by their path below the directory, and whether it could be read to its end.
  \<open>backupKey\<close> is the name of an archive in the store.
\<close>

definition resolveKey :: "string \<Rightarrow> string \<Rightarrow> fsError + path" where
  "resolveKey backupRoot key =
     (let target = normalizeSegments ((if startsWith key ''/'' then [] else splitOn (CHR ''/'') backupRoot) @
            splitOn (CHR ''/'') key);
          base = normalizeSegments (splitOn (CHR ''/'') backupRoot)
      in if startsWith (pathString target) (pathString base @ ''/'') then Inr target
         else Inl (Thrown ''Backup key escapes the backup root.''))"

definition resolveKeyA :: "string \<Rightarrow> string \<Rightarrow> path fsact" where
  "resolveKeyA backupRoot key fs = (resolveKey backupRoot key, fs)"

definition fileAt :: "path \<Rightarrow> fs \<Rightarrow> string option" where
  "fileAt p fs = (case realpath fs p of
     Found q \<Rightarrow> (case entry fs q of Some (FileE c) \<Rightarrow> Some c | _ \<Rightarrow> None) | _ \<Rightarrow> None)"

definition storePut :: "string \<Rightarrow> string \<Rightarrow> string \<Rightarrow> nat fsact" where
  "storePut backupRoot key body =
     andThen (resolveKeyA backupRoot key) (\<lambda>target.
     andThen (mkdirs (butlast target)) (\<lambda>_.
     andThen (putFile target body) (\<lambda>_.
     andThen (orThrow ENOENT (fileAt target)) (\<lambda>c. ret (length c)))))"

definition storeGet :: "string \<Rightarrow> string \<Rightarrow> string fsact" where
  "storeGet backupRoot key =
     andThen (resolveKeyA backupRoot key) (\<lambda>target. orThrow ENOENT (fileAt target))"

definition storeDelete :: "string \<Rightarrow> string \<Rightarrow> unit fsact" where
  "storeDelete backupRoot key =
     andThen (resolveKeyA backupRoot key) (\<lambda>target. writeState (rmForce target))"

definition storeExists :: "string \<Rightarrow> string \<Rightarrow> bool fsact" where
  "storeExists backupRoot key =
     andThen (resolveKeyA backupRoot key) (\<lambda>target.
     readState (\<lambda>fs. case realpath fs target of Found _ \<Rightarrow> True | _ \<Rightarrow> False))"

record archiver =
  ar_backupRoot :: string
  ar_key :: "ident \<Rightarrow> ident \<Rightarrow> string"
  ar_pack :: "fs \<Rightarrow> path \<Rightarrow> string"
  ar_unpack :: "string \<Rightarrow> (path \<times> fsEntry) list \<times> bool"
  ar_sha256 :: "string \<Rightarrow> string"

text \<open>The archive streams into the store and the hash at once.\<close>

definition createArchive :: "archiver \<Rightarrow> dockerEnv \<Rightarrow> ident \<Rightarrow> ident \<Rightarrow> (nat \<times> string) fsact" where
  "createArchive ar env serverId backupId =
     andThen (readState (\<lambda>fs. ar_pack ar fs (volumeOf env serverId))) (\<lambda>body.
     andThen (storePut (ar_backupRoot ar) (ar_key ar serverId backupId) body) (\<lambda>bytes.
     ret (bytes, ar_sha256 ar body)))"

definition siblingPath :: "path \<Rightarrow> string \<Rightarrow> path" where
  "siblingPath p suffix' = butlast p @ [last p @ suffix']"

definition extractTo :: "archiver \<Rightarrow> path \<Rightarrow> string \<Rightarrow> unit fsact" where
  "extractTo ar staging body fs =
     (case ar_unpack ar body of (es, whole) \<Rightarrow>
        (if whole then Inr () else Inl (Thrown ''unexpected end of file''),
         foldl (\<lambda>fs (p, e). putEntry (staging @ p) e fs) fs es))"

definition restoreArchive :: "archiver \<Rightarrow> dockerEnv \<Rightarrow> ident \<Rightarrow> ident \<Rightarrow> unit fsact" where
  "restoreArchive ar env serverId backupId =
     (let key = ar_key ar serverId backupId; volume = volumeOf env serverId;
          staging = siblingPath volume ''.restoring''; previous = siblingPath volume ''.previous'' in
      andThen (storeExists (ar_backupRoot ar) key) (\<lambda>there.
      andThen (require there (Thrown ''That backup is no longer in storage.'')) (\<lambda>_.
      andThen (writeState (rmForce staging)) (\<lambda>_.
      andThen (mkdirs staging) (\<lambda>_.
      andThen (tryCatch (andThen (storeGet (ar_backupRoot ar) key) (extractTo ar staging))
        (\<lambda>e. andThen (writeState (rmForce staging)) (\<lambda>_. throw e))) (\<lambda>_.
      andThen (writeState (rmForce previous)) (\<lambda>_.
      andThen (tryCatch (renameEntry volume previous) (\<lambda>_. ret ())) (\<lambda>_.
      andThen (renameEntry staging volume) (\<lambda>_.
      writeState (rmForce previous))))))))))"

definition deleteArchive :: "archiver \<Rightarrow> ident \<Rightarrow> ident \<Rightarrow> unit fsact" where
  "deleteArchive ar serverId backupId = storeDelete (ar_backupRoot ar) (ar_key ar serverId backupId)"

section \<open>The archive store\<close>

text \<open>What the provider relies on when it keeps an archive and fetches it again.\<close>

locale archive_store =
  fixes put :: "string \<Rightarrow> string \<Rightarrow> ('s, 'e, nat) action"
    and get :: "string \<Rightarrow> ('s, 'e, string) action"
    and there :: "string \<Rightarrow> ('s, 'e, bool) action"
  assumes get_put: "put k b s = (Inr n, s') \<Longrightarrow> get k s' = (Inr b, s')"
    and put_size: "put k b s = (Inr n, s') \<Longrightarrow> n = length b"
    and there_put: "put k b s = (Inr n, s') \<Longrightarrow> there k s' = (Inr True, s')"
begin

text \<open>What was put can be fetched behind the existence check of a restore.\<close>

lemma fetch:
  assumes "put k b s = (Inr n, s')"
  shows "andThen (there k) (\<lambda>t. andThen (require t e) (\<lambda>_. get k)) s' = (Inr b, s')"
  using get_put [OF assms] there_put [OF assms] by (simp add: andThen_def require_def)

end

lemma entry_putEntry: "entry (putEntry p e fs) q = (if q = p \<and> p \<noteq> [] then Some e else entry fs q)"
proof -
  have "map_of (filter (\<lambda>(q, _). q \<noteq> p) fs) q = (if q = p then None else map_of fs q)" by (induction fs) auto
  then show ?thesis by (auto simp: entry_def putEntry_def)
qed

lemma walk_Creatable: "walk fs n cur r = Creatable q \<Longrightarrow> q \<noteq> [] \<and> entry fs q = None"
  by (induction n cur r rule: walk_induct [where fs = fs]) (auto simp: walk_steps split: if_splits)

lemma walk_put:
  assumes "q \<noteq> []" and "entry fs q = None \<or> (\<exists>d. entry fs q = Some (FileE d))"
  shows "walk fs n cur r = Creatable q \<or> walk fs n cur r = Found q \<Longrightarrow>
    walk (putEntry q (FileE c) fs) n cur r = Found q"
proof (induction n cur r rule: walk_induct [where fs = fs])
  case (none n cur s r)
  then have "q = cur @ [s]" "r = []" by (auto simp: walk_none split: if_splits)
  then show ?case using none(1) assms(1) by (subst walk_file) (auto simp: entry_putEntry)
next
  case (dir n cur s r)
  have "cur @ [s] \<noteq> q" using dir(2) assms(2) by auto
  then show ?case using dir by (simp add: walk_dir entry_putEntry)
next
  case (plain n cur s r d)
  then have "q = cur @ [s]" "r = []" by (auto simp: walk_file split: if_splits)
  then show ?case using plain(1) assms(1) by (subst walk_file) (auto simp: entry_putEntry)
next
  case (link m cur s r ab t)
  have "cur @ [s] \<noteq> q" using link(2) assms(2) by auto
  then show ?case using link by (simp add: walk_link entry_putEntry)
qed (auto simp: walk_skip walk_up walk_loop)

lemma putFile_ok:
  assumes "putFile p c fs = (Inr x, fs')"
  shows "\<exists>q. realpath fs' p = Found q \<and> entry fs' q = Some (FileE c)"
proof -
  obtain q where q: "fs' = putEntry q (FileE c) fs" "realpath fs p = Creatable q \<or> realpath fs p = Found q"
    "realpath fs p = Found q \<longrightarrow> entry fs q \<noteq> Some DirE"
    using assms by (auto simp: putFile_def split: found.splits if_splits)
  have e: "q \<noteq> [] \<and> (entry fs q = None \<or> (\<exists>d. entry fs q = Some (FileE d)))"
  proof (cases "realpath fs p = Creatable q")
    case True
    then show ?thesis using walk_Creatable by (auto simp: realpath_def)
  next
    case False
    then have f: "realpath fs p = Found q" using q(2) by blast
    then have "settled fs q" using walk_Found_settled [of fs MAXSYMLINKS "[]" p q] by (simp add: realpath_def)
    then show ?thesis using q(3) f solidDir_entry by (auto simp: settled_def)
  qed
  then have "realpath fs' p = Found q" using walk_put q(1,2) by (auto simp: realpath_def)
  then show ?thesis using e q(1) by (auto simp: entry_putEntry)
qed

lemma storePut_ok:
  assumes "storePut rt k b s = (Inr n, s')"
  shows "\<exists>p. resolveKey rt k = Inr p \<and> fileAt p s' = Some b \<and> n = length b"
proof -
  obtain p u c where p: "resolveKey rt k = Inr p" "putFile p b u = (Inr (), s')" "fileAt p s' = Some c" "n = length c"
    using assms
    by (cases "resolveKey rt k")
      (auto simp: storePut_def andThen_ok resolveKeyA_def orThrow_def ret_def split: option.splits)
  then show ?thesis using putFile_ok [OF p(2)] by (auto simp: fileAt_def)
qed

interpretation local_store: archive_store "storePut rt" "storeGet rt" "storeExists rt" for rt
proof
  fix k b s n s'
  assume "storePut rt k b s = (Inr n, s')"
  from storePut_ok [OF this] obtain p where p: "resolveKey rt k = Inr p" "fileAt p s' = Some b" "n = length b" by blast
  then show "storeGet rt k s' = (Inr b, s')" "n = length b"
    by (simp_all add: storeGet_def andThen_def resolveKeyA_def orThrow_def)
  show "storeExists rt k s' = (Inr True, s')"
    using p by (auto simp: storeExists_def andThen_def resolveKeyA_def readState_def fileAt_def split: found.splits)
qed

section \<open>Restoring\<close>

lemma solidDir_cong: "(\<And>k. entry fs' (take k p) = entry fs (take k p)) \<Longrightarrow> solidDir fs' p = solidDir fs p"
  by (simp add: solidDir_def)

lemma settled_cong:
  assumes "\<And>k. entry fs' (take k p) = entry fs (take k p)"
  shows "settled fs' p = settled fs p"
  using solidDir_cong [of fs' p fs] solidDir_cong [of fs' "butlast p" fs] assms assms [of "length p"]
  by (simp add: settled_def butlast_conv_take min_def)

lemma realpath_solid: "solidDir fs d \<Longrightarrow> realpath fs d = Found d"
  by (simp add: realpath_def realpath_settled settled_def)

lemma rmForce_child: "solidDir fs d \<Longrightarrow> rmForce (d @ [x]) fs = removeTree (d @ [x]) fs"
  by (simp add: rmForce_def realpath_solid)

lemma solid_removeTree: "solidDir (removeTree (d @ [x]) fs) d = solidDir fs d"
proof (rule solidDir_cong)
  fix k
  have "\<not> prefix (d @ [x]) (take k d)" using prefix_length_le [of "d @ [x]" "take k d"] by auto
  then show "entry (removeTree (d @ [x]) fs) (take k d) = entry fs (take k d)" by (simp add: entry_removeTree)
qed

lemma mkdirs_child:
  assumes "solidDir fs d" and "ordinary x" and "entry fs (d @ [x]) = None"
  shows "mkdirs (d @ [x]) fs = (Inr (), putEntry (d @ [x]) DirE fs)"
proof -
  have up: "mkdirOne (take k d) fs = (Inr (), fs)" for k
  proof (cases "take k d = []")
    case False
    have s: "solidDir fs (take k d)" "solidDir fs (butlast (take k d))"
      using solidDir_take [OF assms(1)] solidDir_butlast by blast+
    then show ?thesis using False solidDir_entry [OF s(1)] by (simp add: mkdirOne_def realpath_solid)
  qed (simp add: mkdirOne_def)
  have "forEach (map (\<lambda>k. take k d) ks) mkdirOne fs = (Inr (), fs)" for ks
    using up by (induction ks) simp_all
  moreover have "map (\<lambda>k. take k (d @ [x])) [0..<Suc (length (d @ [x]))] =
      map (\<lambda>k. take k d) [0..<Suc (length d)] @ [d @ [x]]"
  proof -
    have "map (\<lambda>k. take k (d @ [x])) [0..<Suc (length d)] = map (\<lambda>k. take k d) [0..<Suc (length d)]"
      by (rule map_cong) auto
    then show ?thesis by simp
  qed
  moreover have "mkdirOne (d @ [x]) fs = (Inr (), putEntry (d @ [x]) DirE fs)"
    using assms(1,3) solidDir_entry [OF assms(1)] by (simp add: mkdirOne_def realpath_solid)
  ultimately show ?thesis
    by (simp only: mkdirs_def forEach_append andThen_def) simp
qed

lemma sibling_apart: "x \<noteq> y \<Longrightarrow> \<not> prefix (d @ [x]) (d @ [y] @ z)"
  by (auto simp: prefix_def)

lemma entry_moved:
  assumes "\<not> prefix q (p @ x)" and "q \<noteq> []" and "p \<noteq> []"
  shows "entry (moveTree p q fs) (q @ x) = entry fs (p @ x)"
proof -
  have "map_of (map (\<lambda>(y, e). (if prefix p y then q @ drop (length p) y else y, e)) l) (q @ x) = map_of l (p @ x)"
    if "\<forall>y \<in> fst ` set l. \<not> prefix q y" for l :: fs
    using that by (induction l) (auto simp: prefix_def split: if_splits)
  from this [of "removeTree q fs"] have "map_of (moveTree p q fs) (q @ x) = map_of (removeTree q fs) (p @ x)"
    by (auto simp: moveTree_def removeTree_def)
  then show ?thesis using assms entry_removeTree [of q fs "p @ x"] by (simp add: entry_def)
qed

lemma entry_moved_away:
  assumes "\<not> prefix q (p @ x)" and "p \<noteq> []"
  shows "entry (moveTree p q fs) (p @ x) = None"
proof -
  have "map_of (map (\<lambda>(y, e). (if prefix p y then q @ drop (length p) y else y, e)) l) (p @ x) = None" for l :: fs
    using assms(1) by (induction l) (auto simp: prefix_def split: if_splits)
  then show ?thesis using assms(2) by (simp add: entry_def moveTree_def)
qed

lemma entry_extract:
  assumes "s \<noteq> []"
  shows "entry (foldl (\<lambda>fs (p, e). putEntry (s @ p) e fs) fs es) q =
    (if prefix s q then (case map_of (rev es) (drop (length s) q) of None \<Rightarrow> entry fs q | Some e \<Rightarrow> Some e)
     else entry fs q)"
proof (induction es arbitrary: fs)
  case (Cons x es)
  obtain p e where x: "x = (p, e)" by (cases x)
  have "q = s @ p \<longleftrightarrow> prefix s q \<and> drop (length s) q = p" by (auto simp: prefix_def)
  then show ?case using Cons assms x
    by (auto simp: entry_putEntry map_add_def split: option.split)
qed simp

lemma renameEntry_siblings:
  assumes "solidDir fs d" and "x \<noteq> y" and "entry fs (d @ [y]) = None"
  shows "renameEntry (d @ [x]) (d @ [y]) fs =
    (if entry fs (d @ [x]) = None then (Inl ENOENT, fs) else (Inr (), moveTree (d @ [x]) (d @ [y]) fs))"
  using assms sibling_apart [OF assms(2), of d "[]"] solidDir_entry [OF assms(1)]
  by (auto simp: renameEntry_def realpath_solid Let_def split: option.split)

lemma solid_unchanged:
  assumes "\<And>q. \<not> prefix (d @ [x]) q \<Longrightarrow> \<not> prefix (d @ [y]) q \<Longrightarrow> entry fs' q = entry fs q"
  shows "solidDir fs' d = solidDir fs d"
proof (rule solidDir_cong)
  fix k
  have n: "\<not> prefix (d @ [z]) (take k d)" for z using prefix_length_le [of "d @ [z]" "take k d"] by auto
  show "entry fs' (take k d) = entry fs (take k d)" by (rule assms [OF n n])
qed

text \<open>What the staging of a restore leads to: the directory beside the volume holds the archive.\<close>

lemma staging_ready:
  assumes "solidDir fs d" and "ordinary s" and "settled fs t" and "entry fs t = Some (FileE body)" and "\<not> prefix (d @ [s]) t"
    and "fs2 = putEntry (d @ [s]) DirE (removeTree (d @ [s]) fs)"
  shows "mkdirs (d @ [s]) (rmForce (d @ [s]) fs) = (Inr (), fs2)" and "fileAt t fs2 = Some body" and "fileAt t fs = Some body"
    and "entry fs2 q = (if prefix (d @ [s]) q then if q = d @ [s] then Some DirE else None else entry fs q)"
proof -
  show "mkdirs (d @ [s]) (rmForce (d @ [s]) fs) = (Inr (), fs2)"
    using assms(1,2) by (simp add: rmForce_child assms(6) mkdirs_child solid_removeTree entry_removeTree)
  show e: "entry fs2 q = (if prefix (d @ [s]) q then if q = d @ [s] then Some DirE else None else entry fs q)" for q
    by (simp add: assms(6) entry_putEntry entry_removeTree)
  have "\<not> prefix (d @ [s]) (take k t)" for k using assms(5) take_is_prefix [of k t] prefix_order.trans by blast
  then have "settled fs2 t" using assms(3) settled_cong [of fs2 t fs] e by simp
  then show "fileAt t fs2 = Some body" using assms(4,5) e [of t] by (simp add: fileAt_def realpath_def realpath_settled)
  show "fileAt t fs = Some body" using assms(3,4) by (simp add: fileAt_def realpath_def realpath_settled)
qed

lemma swap_in:
  assumes "solidDir fs d" and "distinct [v, s, p]" and "entry fs (d @ [s]) = Some DirE"
  shows "\<exists>fs'. andThen (writeState (rmForce (d @ [p]))) (\<lambda>_.
      andThen (tryCatch (renameEntry (d @ [v]) (d @ [p])) (\<lambda>_. ret ())) (\<lambda>_.
      andThen (renameEntry (d @ [s]) (d @ [v])) (\<lambda>_. writeState (rmForce (d @ [p]))))) fs = (Inr (), fs') \<and>
    (\<forall>x. entry fs' ((d @ [v]) @ x) = entry fs ((d @ [s]) @ x)) \<and>
    (\<forall>q. \<not> prefix (d @ [v]) q \<and> \<not> prefix (d @ [s]) q \<and> \<not> prefix (d @ [p]) q \<longrightarrow> entry fs' q = entry fs q)"
proof -
  let ?V = "d @ [v]" and ?S = "d @ [s]" and ?P = "d @ [p]"
  have ap: "\<not> prefix ?V (?S @ x)" "\<not> prefix ?V (?P @ x)" "\<not> prefix ?S (?V @ x)" "\<not> prefix ?S (?P @ x)"
    "\<not> prefix ?P (?V @ x)" "\<not> prefix ?P (?S @ x)" for x
    using assms(2) sibling_apart [of _ _ d x] by auto
  have ap0: "\<not> prefix ?V ?S" "\<not> prefix ?V ?P" "\<not> prefix ?S ?V" "\<not> prefix ?S ?P" "\<not> prefix ?P ?V" "\<not> prefix ?P ?S"
    using ap [of "[]"] by simp_all
  define f1 where "f1 = removeTree ?P fs"
  define f2 where "f2 = (if entry f1 ?V = None then f1 else moveTree ?V ?P f1)"
  define f3 where "f3 = moveTree ?S ?V f2"
  have s1: "solidDir f1 d" using assms(1) by (simp add: f1_def solid_removeTree)
  have e1: "entry f1 q = (if prefix ?P q then None else entry fs q)" for q
    by (auto simp: f1_def entry_removeTree)
  have e2: "entry f2 q = entry fs q" if "\<not> prefix ?V q" "\<not> prefix ?P q" for q
    using that e1 [of q] entry_moveTree [OF that] by (simp add: f2_def)
  have s2: "solidDir f2 d" using assms(1) e2 solid_unchanged [of d v p f2 fs] by blast
  have v2: "entry f2 ?V = None" using entry_moved_away [of ?P ?V "[]" f1] ap0 by (simp add: f2_def)
  have e3: "entry f3 q = entry f2 q" if "\<not> prefix ?V q" "\<not> prefix ?S q" for q
    using entry_moveTree [OF that(2,1)] by (simp add: f3_def)
  have s3: "solidDir f3 d" using s2 e3 solid_unchanged [of d v s f3 f2] by blast
  have r1: "tryCatch (renameEntry ?V ?P) (\<lambda>_. ret ()) f1 = (Inr (), f2)"
    using renameEntry_siblings [OF s1, of v p] e1 [of ?P] assms(2)
    by (simp add: f2_def tryCatch_def ret_def)
  have "entry f2 ?S = Some DirE" using e2 [of ?S] ap0 assms(3) by simp
  then have r2: "renameEntry ?S ?V f2 = (Inr (), f3)"
    using renameEntry_siblings [OF s2 _ v2, of s] assms(2) by (auto simp: f3_def)
  have f: "andThen (writeState (rmForce ?P)) (\<lambda>_. andThen (tryCatch (renameEntry ?V ?P) (\<lambda>_. ret ())) (\<lambda>_.
      andThen (renameEntry ?S ?V) (\<lambda>_. writeState (rmForce ?P)))) fs = (Inr (), removeTree ?P f3)"
    using r1 r2 assms(1) s3 by (simp add: andThen_def writeState_def rmForce_child f1_def)
  have "entry (removeTree ?P f3) (?V @ x) = entry fs (?S @ x)" for x
    using entry_moved [of ?V ?S x f2] e2 [of "?S @ x"] ap [of x] by (simp add: entry_removeTree f3_def del: append_assoc)
  moreover have "entry (removeTree ?P f3) q = entry fs q" if "\<not> prefix ?V q" "\<not> prefix ?S q" "\<not> prefix ?P q" for q
    using that e2 e3 by (simp add: entry_removeTree)
  ultimately show ?thesis using f by blast
qed

lemma restoreArchive_run:
  assumes "volumeOf env i = d @ [v]" and "solidDir fs d" and "ordinary v"
    and "resolveKey (ar_backupRoot ar) (ar_key ar i k) = Inr t" and "settled fs t" and "entry fs t = Some (FileE body)"
    and "\<not> prefix (d @ [v @ ''.restoring'']) t" and "ar_unpack ar body = (es, whole)" and "[] \<notin> fst ` set es"
    and "restoreArchive ar env i k fs = (r, fs')"
  shows "if whole
    then r = Inr () \<and> (\<forall>x. x \<noteq> [] \<longrightarrow> entry fs' (d @ [v] @ x) = map_of (rev es) x) \<and>
      (\<forall>q. \<not> prefix (d @ [v]) q \<and> \<not> prefix (d @ [v @ ''.restoring'']) q \<and> \<not> prefix (d @ [v @ ''.previous'']) q \<longrightarrow>
        entry fs' q = entry fs q)
    else isl r \<and> (\<forall>q. \<not> prefix (d @ [v @ ''.restoring'']) q \<longrightarrow> entry fs' q = entry fs q)"
proof -
  let ?s = "v @ ''.restoring''" and ?p = "v @ ''.previous''"
  define fs2 where "fs2 = putEntry (d @ [?s]) DirE (removeTree (d @ [?s]) fs)"
  define fs3 where "fs3 = foldl (\<lambda>fs (p, e). putEntry ((d @ [?s]) @ p) e fs) fs2 es"
  have os: "ordinary ?s" using assms(3) by (cases v) (auto simp: ordinary_def)
  note st = staging_ready [OF assms(2) os assms(5-7) fs2_def]
  have sib: "siblingPath (d @ [v]) ''.restoring'' = d @ [?s]" "siblingPath (d @ [v]) ''.previous'' = d @ [?p]"
    by (simp_all add: siblingPath_def)
  have there: "storeExists (ar_backupRoot ar) (ar_key ar i k) fs = (Inr True, fs)"
    using assms(4) st(3)
    by (auto simp: storeExists_def andThen_def resolveKeyA_def readState_def fileAt_def split: found.splits)
  have get: "storeGet (ar_backupRoot ar) (ar_key ar i k) fs2 = (Inr body, fs2)"
    using assms(4) st(2) by (simp add: storeGet_def andThen_def resolveKeyA_def orThrow_def)
  have ext: "extractTo ar (d @ [?s]) body fs2 = (if whole then Inr () else Inl (Thrown ''unexpected end of file''), fs3)"
    using assms(8) by (simp add: extractTo_def fs3_def)
  have e3: "entry fs3 q = (if prefix (d @ [?s]) q then (case map_of (rev es) (drop (length (d @ [?s])) q) of
      None \<Rightarrow> if q = d @ [?s] then Some DirE else None | Some e \<Rightarrow> Some e) else entry fs q)" for q
    using entry_extract [of "d @ [?s]" fs2 es q] st(4) [of q] by (auto simp: fs3_def split: option.split)
  have s3: "solidDir fs3 d" using solid_unchanged [of d ?s ?s fs3 fs] e3 assms(2) by auto
  show ?thesis
  proof (cases whole)
    case True
    have "distinct [v, ?s, ?p]" by simp
    moreover have "map_of (rev es) [] = None" using assms(9) by (simp add: map_of_eq_None_iff)
    then have "entry fs3 (d @ [?s]) = Some DirE" using e3 [of "d @ [?s]"] by simp
    ultimately obtain f where f: "andThen (writeState (rmForce (d @ [?p]))) (\<lambda>_.
      andThen (tryCatch (renameEntry (d @ [v]) (d @ [?p])) (\<lambda>_. ret ())) (\<lambda>_.
      andThen (renameEntry (d @ [?s]) (d @ [v])) (\<lambda>_. writeState (rmForce (d @ [?p]))))) fs3 = (Inr (), f)"
      "\<forall>x. entry f ((d @ [v]) @ x) = entry fs3 ((d @ [?s]) @ x)"
      "\<forall>q. \<not> prefix (d @ [v]) q \<and> \<not> prefix (d @ [?s]) q \<and> \<not> prefix (d @ [?p]) q \<longrightarrow> entry f q = entry fs3 q"
      using swap_in [OF s3, of v ?s ?p] by blast
    have "restoreArchive ar env i k fs = (Inr (), f)"
      unfolding restoreArchive_def Let_def assms(1) sib
      using there get ext st(1) f(1) True
      by (simp add: andThen_def require_def writeState_def tryCatch_def)
    then have rf: "r = Inr ()" "fs' = f" using assms(10) by simp_all
    have "entry fs' (d @ [v] @ x) = map_of (rev es) x" if "x \<noteq> []" for x
    proof -
      have "entry fs' ((d @ [v]) @ x) = entry fs3 ((d @ [?s]) @ x)" using f(2) rf by blast
      also have "\<dots> = map_of (rev es) x" using e3 [of "(d @ [?s]) @ x"] that by (auto split: option.split)
      finally show ?thesis by simp
    qed
    moreover have "entry fs' q = entry fs q" if "\<not> prefix (d @ [v]) q \<and> \<not> prefix (d @ [?s]) q \<and> \<not> prefix (d @ [?p]) q" for q
      using f(3) that e3 [of q] rf by simp
    ultimately show ?thesis using True rf by simp
  next
    case False
    have "restoreArchive ar env i k fs = (Inl (Thrown ''unexpected end of file''), removeTree (d @ [?s]) fs3)"
      unfolding restoreArchive_def Let_def assms(1) sib
      using there get ext st(1) False s3
      by (simp add: andThen_def require_def writeState_def tryCatch_def throw_def rmForce_child)
    then show ?thesis using False assms(10) e3 by (auto simp: entry_removeTree)
  qed
qed

text \<open>C18. A restore is all or nothing: from an archive that can be read to its end, the volume becomes
  exactly the contents of the archive; from one that cannot, it stays what it was; and in both cases
  nothing outside the volume and its two working directories changes.\<close>

theorem restore_all_or_nothing:
  assumes "volumeOf env i = d @ [v]" and "solidDir fs d" and "ordinary v"
    and "resolveKey (ar_backupRoot ar) (ar_key ar i k) = Inr t" and "settled fs t" and "entry fs t = Some (FileE body)"
    and "\<not> prefix (d @ [v @ ''.restoring'']) t" and "ar_unpack ar body = (es, whole)" and "[] \<notin> fst ` set es"
    and "restoreArchive ar env i k fs = (r, fs')"
  shows "if whole
    then r = Inr () \<and> (\<forall>x. x \<noteq> [] \<longrightarrow> entry fs' (d @ [v] @ x) = map_of (rev es) x) \<and>
      (\<forall>q. \<not> prefix (d @ [v]) q \<and> \<not> prefix (d @ [v @ ''.restoring'']) q \<and> \<not> prefix (d @ [v @ ''.previous'']) q \<longrightarrow>
        entry fs' q = entry fs q)
    else isl r \<and> (\<forall>q. \<not> prefix (d @ [v @ ''.restoring'']) q \<longrightarrow> entry fs' q = entry fs q)"
  using assms by (rule restoreArchive_run)

text \<open>C19. A backup can be restored: if \<open>tar\<close> and \<open>gzip\<close> give back what they were given, then
  restoring an archive - however much later, as long as the stored file is still there - makes the
  volume what it was when the backup was made.\<close>

theorem backup_roundtrip:
  assumes "\<forall>fs p x. x \<noteq> [] \<longrightarrow> map_of (rev (fst (ar_unpack ar (ar_pack ar fs p)))) x = entry fs (p @ x)"
    and "\<forall>fs p. snd (ar_unpack ar (ar_pack ar fs p)) \<and> [] \<notin> fst ` set (fst (ar_unpack ar (ar_pack ar fs p)))"
    and "createArchive ar env i k fs0 = (Inr (n, h), fs1)" and "resolveKey (ar_backupRoot ar) (ar_key ar i k) = Inr t"
    and "fileAt t fs2 = fileAt t fs1" and "settled fs2 t" and "volumeOf env i = d @ [v]" and "solidDir fs2 d" and "ordinary v"
    and "\<not> prefix (d @ [v @ ''.restoring'']) t" and "restoreArchive ar env i k fs2 = (r, fs3)"
  shows "r = Inr () \<and> n = length (ar_pack ar fs0 (d @ [v])) \<and>
    (\<forall>x. x \<noteq> [] \<longrightarrow> entry fs3 (d @ [v] @ x) = entry fs0 (d @ [v] @ x))"
proof -
  let ?b = "ar_pack ar fs0 (d @ [v])"
  have "storePut (ar_backupRoot ar) (ar_key ar i k) ?b fs0 = (Inr n, fs1)"
    using assms(3,7) by (auto simp: createArchive_def andThen_ok readState_def ret_def)
  from storePut_ok [OF this] assms(4) have b: "fileAt t fs1 = Some ?b" "n = length ?b" by auto
  then have "entry fs2 t = Some (FileE ?b)"
    using assms(5,6) by (auto simp: fileAt_def realpath_def realpath_settled split: option.splits fsEntry.splits)
  moreover obtain es whole where es: "ar_unpack ar ?b = (es, whole)" by (cases "ar_unpack ar ?b")
  moreover have "whole" "[] \<notin> fst ` set es" using assms(2) es by (metis fst_conv snd_conv)+
  ultimately have "r = Inr () \<and> (\<forall>x. x \<noteq> [] \<longrightarrow> entry fs3 (d @ [v] @ x) = map_of (rev es) x)"
    using restoreArchive_run [OF assms(7-9) assms(4,6) _ assms(10) _ _ assms(11), of ?b es whole] by simp
  moreover have "map_of (rev es) x = entry fs0 ((d @ [v]) @ x)" if "x \<noteq> []" for x
    using assms(1) [rule_format, OF that, of fs0 "d @ [v]"] es by simp
  ultimately show ?thesis using b(2) by simp
qed

end
