(* ===== verification/Updater.thy ===== *)
theory Updater
  imports Archives
begin

text \<open>
  Self-update of the agent: \<open>applyUpdate\<close> and \<open>rollback\<close> of
  \<open>apps/agent/src/updater.ts\<close> and \<open>checkForUpdate\<close> of \<open>apps/agent/src/index.ts\<close>.
  \<open>fetch\<close> is what the network answers to a request, an error or a status and a body;
  \<open>sha\<close> is the hexadecimal SHA-256.
\<close>

section \<open>Operations\<close>

record UpdateOffer =
  uo_version :: string
  uo_url :: string
  uo_sha256 :: string

definition copyFile :: "path \<Rightarrow> path \<Rightarrow> unit fsact" where
  "copyFile src dst = andThen (orThrow ENOENT (fileAt src)) (putFile dst)"

definition fetchBody :: "(string \<Rightarrow> string + nat \<times> string) \<Rightarrow> string \<Rightarrow> (nat \<times> string) fsact" where
  "fetchBody fetch url = (case fetch url of Inl m \<Rightarrow> throw (Thrown m) | Inr r \<Rightarrow> ret r)"

definition httpOk :: "nat \<Rightarrow> bool" where
  "httpOk st \<longleftrightarrow> 200 \<le> st \<and> st \<le> 299"

definition applyUpdate ::
    "(string \<Rightarrow> string + nat \<times> string) \<Rightarrow> (string \<Rightarrow> string) \<Rightarrow> path \<Rightarrow> UpdateOffer \<Rightarrow> string \<Rightarrow> bool fsact" where
  "applyUpdate fetch sha install offer currentVersion =
     (if uo_version offer = currentVersion then ret False
      else
        andThen (fetchBody fetch (uo_url offer)) (\<lambda>(st, payload).
        andThen (require (httpOk st) (Thrown (''Update download failed with HTTP '' @ showNat st))) (\<lambda>_.
        andThen (require (sha payload = uo_sha256 offer)
          (Thrown (''Update checksum mismatch: expected '' @ uo_sha256 offer @ '', got '' @ sha payload))) (\<lambda>_.
        andThen (putFile (siblingPath install ''.new'') payload) (\<lambda>_.
        andThen (tryCatch (copyFile install (siblingPath install ''.previous'')) (\<lambda>_. ret ())) (\<lambda>_.
        andThen (renameEntry (siblingPath install ''.new'') install) (\<lambda>_. ret True)))))))"

definition rollback :: "path \<Rightarrow> unit fsact" where
  "rollback install =
     andThen (readState (\<lambda>fs. case realpath fs (siblingPath install ''.previous'') of Found _ \<Rightarrow> True | _ \<Rightarrow> False)) (\<lambda>there.
     andThen (require there (Thrown ''No previous agent binary to roll back to.'')) (\<lambda>_.
     copyFile (siblingPath install ''.previous'') install))"

record Release =
  rl_version :: string
  rl_url :: "string option"
  rl_sha256 :: "string option"

definition releaseUrl :: "string \<Rightarrow> string" where
  "releaseUrl panelUrl =
     (let a = (if startsWith panelUrl ''wss:'' then ''https:'' @ drop 4 panelUrl else panelUrl);
          b = (if startsWith a ''ws:'' then ''http:'' @ drop 3 a else a);
          c = (if endsWith b ''/agent'' then take (length b - 6) b else b)
      in c @ ''/api/agent/version'')"

text \<open>A missing and an empty field are both falsy.\<close>

definition truthy :: "string option \<Rightarrow> string option" where
  "truthy x = (if x = Some [] then None else x)"

text \<open>\<open>parse\<close> is the release a JSON text stands for; the result says whether it was installed.\<close>

definition checkForUpdate ::
    "(string \<Rightarrow> string + nat \<times> string) \<Rightarrow> (string \<Rightarrow> string) \<Rightarrow> (string \<Rightarrow> Release option) \<Rightarrow>
     bool \<Rightarrow> string \<Rightarrow> string \<Rightarrow> path \<Rightarrow> bool fsact" where
  "checkForUpdate fetch sha parse autoUpdate panelUrl agentVersion target =
     (if \<not> autoUpdate then ret False
      else tryCatch
        (andThen (fetchBody fetch (releaseUrl panelUrl)) (\<lambda>(st, text).
         if \<not> httpOk st then ret False
         else
           andThen (orThrow (Thrown ''SyntaxError'') (\<lambda>_. parse text)) (\<lambda>release.
           case (truthy (rl_url release), truthy (rl_sha256 release)) of
             (Some url, Some digest) \<Rightarrow>
               if rl_version release = agentVersion then ret False
               else
                 andThen (fetchBody fetch url) (\<lambda>(_, bundle).
                 if sha bundle \<noteq> digest then ret False
                 else
                   andThen (putFile (siblingPath target ''.new'') bundle) (\<lambda>_.
                   andThen (renameEntry (siblingPath target ''.new'') target) (\<lambda>_. ret True)))
           | _ \<Rightarrow> ret False)))
        (\<lambda>_. ret False))"

section \<open>The binary and its neighbours\<close>

lemma realpath_child:
  assumes "solidDir fs d" and "ordinary x"
  shows "realpath fs (d @ [x]) = walk fs MAXSYMLINKS d [x]"
  using walk_solid [of fs "[]" d MAXSYMLINKS "[x]"] assms(1) by (simp add: realpath_def)

lemma putFile_child:
  assumes "solidDir fs d" and "ordinary x" and "\<forall>ab t. entry fs (d @ [x]) \<noteq> Some (LinkE ab t)"
  shows "putFile (d @ [x]) c fs =
    (if entry fs (d @ [x]) = Some DirE then (Inl EISDIR, fs) else (Inr (), putEntry (d @ [x]) (FileE c) fs))"
proof (cases "entry fs (d @ [x])")
  case None
  then show ?thesis using assms by (simp add: putFile_def realpath_child walk_none)
next
  case (Some e)
  then show ?thesis using assms
    by (cases e) (simp_all add: putFile_def realpath_child walk_file walk_dir)
qed

lemma fileAt_child:
  assumes "solidDir fs d" and "ordinary x" and "entry fs (d @ [x]) = Some (FileE c)"
  shows "fileAt (d @ [x]) fs = Some c"
  using assms by (simp add: fileAt_def realpath_child walk_file)

lemma solid_putEntry: "solidDir (putEntry (d @ [x]) e fs) d = solidDir fs d"
proof (rule solidDir_cong)
  fix k
  have "take k d \<noteq> d @ [x]"
  proof
    assume "take k d = d @ [x]"
    then have "length (take k d) = length (d @ [x])" by simp
    then show False by simp
  qed
  then show "entry (putEntry (d @ [x]) e fs) (take k d) = entry fs (take k d)" by (simp add: entry_putEntry)
qed

text \<open>Replacing a file by the one staged beside it.\<close>

lemma rename_staged:
  assumes "solidDir fs d" and "x \<noteq> y" and "entry fs (d @ [x]) = Some (FileE c)" and "entry fs (d @ [y]) \<noteq> Some DirE"
  shows "\<exists>fs'. renameEntry (d @ [x]) (d @ [y]) fs = (Inr (), fs') \<and> entry fs' (d @ [y]) = Some (FileE c) \<and>
    solidDir fs' d \<and> (\<forall>q. \<not> prefix (d @ [x]) q \<and> \<not> prefix (d @ [y]) q \<longrightarrow> entry fs' q = entry fs q)"
proof -
  let ?f = "moveTree (d @ [x]) (d @ [y]) fs"
  have ap: "\<not> prefix (d @ [x]) (d @ [y])" "\<not> prefix (d @ [y]) (d @ [x])"
    using sibling_apart [of x y d "[]"] sibling_apart [of y x d "[]"] assms(2) by auto
  have "renameEntry (d @ [x]) (d @ [y]) fs = (Inr (), ?f)"
    using assms ap solidDir_entry [OF assms(1)] by (simp add: renameEntry_def realpath_solid Let_def)
  moreover have "entry ?f (d @ [y]) = Some (FileE c)"
    using entry_moved [of "d @ [y]" "d @ [x]" "[]" fs] ap assms(3) by simp
  moreover have o: "entry ?f q = entry fs q" if "\<not> prefix (d @ [x]) q" "\<not> prefix (d @ [y]) q" for q
    using entry_moveTree [OF that] .
  moreover have "solidDir ?f d" using solid_unchanged [of d x y ?f fs] o assms(1) by blast
  ultimately show ?thesis by blast
qed

definition installable :: "path \<Rightarrow> string \<Rightarrow> fs \<Rightarrow> bool" where
  "installable d x fs \<longleftrightarrow> solidDir fs d \<and> ordinary x \<and> (\<exists>c. entry fs (d @ [x]) = Some (FileE c)) \<and>
     (\<forall>ab t. entry fs (d @ [x @ ''.new'']) \<noteq> Some (LinkE ab t)) \<and>
     (\<forall>ab t. entry fs (d @ [x @ ''.previous'']) \<noteq> Some (LinkE ab t))"

lemma ordinary_append: "ordinary x \<Longrightarrow> 2 < length y \<Longrightarrow> ordinary (x @ y)"
  by (cases x; cases "tl x") (auto simp: ordinary_def)

lemma siblingPath_simp [simp]: "siblingPath (d @ [x]) w = d @ [x @ w]"
  by (simp add: siblingPath_def)

text \<open>Staging the payload, keeping the old binary, and swapping.\<close>

lemma install_run:
  assumes "installable d x fs" and "entry fs (d @ [x]) = Some (FileE old)" and "entry fs (d @ [x @ ''.new'']) \<noteq> Some DirE"
  shows "\<exists>fs'. andThen (putFile (d @ [x @ ''.new'']) c) (\<lambda>_.
      andThen (tryCatch (copyFile (d @ [x]) (d @ [x @ ''.previous''])) (\<lambda>_. ret ())) (\<lambda>_.
      andThen (renameEntry (d @ [x @ ''.new'']) (d @ [x])) (\<lambda>_. ret True))) fs = (Inr True, fs') \<and>
    entry fs' (d @ [x]) = Some (FileE c) \<and> solidDir fs' d \<and>
    (entry fs (d @ [x @ ''.previous'']) \<noteq> Some DirE \<longrightarrow> entry fs' (d @ [x @ ''.previous'']) = Some (FileE old))"
proof -
  let ?n = "x @ ''.new''" and ?p = "x @ ''.previous''"
  have i: "solidDir fs d" "ordinary x" "ordinary ?n" "ordinary ?p" using assms(1) ordinary_append by (auto simp: installable_def)
  define f1 where "f1 = putEntry (d @ [?n]) (FileE c) fs"
  define f2 where "f2 = (if entry fs (d @ [?p]) = Some DirE then f1 else putEntry (d @ [?p]) (FileE old) f1)"
  have s: "solidDir f1 d" "solidDir f2 d" using i(1) by (simp_all add: f1_def f2_def solid_putEntry)
  have e1: "entry f1 (d @ [x]) = Some (FileE old)" "entry f1 (d @ [?p]) = entry fs (d @ [?p])"
    using assms(2) by (simp_all add: f1_def entry_putEntry)
  have r1: "putFile (d @ [?n]) c fs = (Inr (), f1)"
    using putFile_child [OF i(1,3), of c] assms(1,3) by (simp add: installable_def f1_def)
  have r2: "tryCatch (copyFile (d @ [x]) (d @ [?p])) (\<lambda>_. ret ()) f1 = (Inr (), f2)"
    using fileAt_child [OF s(1) i(2) e1(1)] putFile_child [OF s(1) i(4), of old] assms(1) e1(2)
    by (simp add: copyFile_def andThen_def orThrow_def tryCatch_def ret_def installable_def f2_def)
  have "entry f2 (d @ [?n]) = Some (FileE c)" "entry f2 (d @ [x]) \<noteq> Some DirE"
    using e1(1) by (simp_all add: f2_def f1_def entry_putEntry)
  then obtain f3 where f3: "renameEntry (d @ [?n]) (d @ [x]) f2 = (Inr (), f3)" "entry f3 (d @ [x]) = Some (FileE c)"
    "solidDir f3 d" "\<forall>q. \<not> prefix (d @ [?n]) q \<and> \<not> prefix (d @ [x]) q \<longrightarrow> entry f3 q = entry f2 q"
    using rename_staged [OF s(2), of ?n x c] by auto
  have "entry f3 (d @ [?p]) = entry f2 (d @ [?p])"
    using f3(4) sibling_apart [of ?n ?p d "[]"] sibling_apart [of x ?p d "[]"] by simp
  then have "entry fs (d @ [?p]) \<noteq> Some DirE \<longrightarrow> entry f3 (d @ [?p]) = Some (FileE old)"
    by (simp add: f2_def entry_putEntry)
  then show ?thesis using r1 r2 f3(1-3) by (simp add: andThen_def ret_def)
qed

lemma applyUpdate_steps:
  "applyUpdate fetch sha (d @ [x]) offer cur fs =
    (if uo_version offer = cur then (Inr False, fs)
     else case fetch (uo_url offer) of Inl m \<Rightarrow> (Inl (Thrown m), fs)
     | Inr (st, body) \<Rightarrow>
         if httpOk st \<and> sha body = uo_sha256 offer then
           andThen (putFile (d @ [x @ ''.new'']) body) (\<lambda>_.
             andThen (tryCatch (copyFile (d @ [x]) (d @ [x @ ''.previous''])) (\<lambda>_. ret ())) (\<lambda>_.
             andThen (renameEntry (d @ [x @ ''.new'']) (d @ [x])) (\<lambda>_. ret True))) fs
         else (Inl (if httpOk st then Thrown (''Update checksum mismatch: expected '' @ uo_sha256 offer @ '', got '' @ sha body)
            else Thrown (''Update download failed with HTTP '' @ showNat st)), fs))"
  by (simp add: applyUpdate_def fetchBody_def andThen_def require_def ret_def throw_def split: sum.split prod.split)

text \<open>C20. No unverified binary is ever installed: after an update the agent's binary is either what it
  was or a download whose SHA-256 is the one offered, and it is replaced exactly when the update
  reports that it was applied.\<close>

theorem update_verified:
  assumes "installable d x fs" and "applyUpdate fetch sha (d @ [x]) offer cur fs = (r, fs')"
  shows "if r = Inr True
    then \<exists>st body. fetch (uo_url offer) = Inr (st, body) \<and> sha body = uo_sha256 offer \<and> entry fs' (d @ [x]) = Some (FileE body)
    else entry fs' (d @ [x]) = entry fs (d @ [x])"
proof -
  obtain old where old: "entry fs (d @ [x]) = Some (FileE old)" using assms(1) by (auto simp: installable_def)
  show ?thesis
  proof (cases "entry fs (d @ [x @ ''.new'']) = Some DirE")
    case True
    have "ordinary (x @ ''.new'')" using assms(1) ordinary_append by (auto simp: installable_def)
    then have "putFile (d @ [x @ ''.new'']) c fs = (Inl EISDIR, fs)" for c
      using putFile_child [of fs d "x @ ''.new''" c] True assms(1) by (simp add: installable_def)
    then show ?thesis using assms(2)
      by (auto simp: applyUpdate_steps andThen_def split: sum.splits if_splits)
  next
    case False
    note run = install_run [OF assms(1) old False]
    show ?thesis
    proof (cases "fetch (uo_url offer)")
      case (Inl m)
      then show ?thesis using assms(2) by (auto simp: applyUpdate_steps split: if_splits)
    next
      case (Inr res)
      obtain st body where sb: "res = (st, body)" by (cases res)
      then show ?thesis using Inr assms(2) run [of body]
        by (fastforce simp: applyUpdate_steps split: if_splits)
    qed
  qed
qed

text \<open>An update can be undone: after an applied update, \<open>rollback\<close> puts the binary back that was
  running before.\<close>

theorem rollback_restores:
  assumes "installable d x fs" and "entry fs (d @ [x]) = Some (FileE old)" and "entry fs (d @ [x @ ''.previous'']) \<noteq> Some DirE"
    and "applyUpdate fetch sha (d @ [x]) offer cur fs = (Inr True, fs')"
  shows "\<exists>fs''. rollback (d @ [x]) fs' = (Inr (), fs'') \<and> entry fs'' (d @ [x]) = Some (FileE old)"
proof -
  let ?p = "x @ ''.previous''"
  have o: "ordinary x" "ordinary ?p" using assms(1) ordinary_append by (auto simp: installable_def)
  have new: "entry fs (d @ [x @ ''.new'']) \<noteq> Some DirE"
  proof
    assume e: "entry fs (d @ [x @ ''.new'']) = Some DirE"
    have "ordinary (x @ ''.new'')" using o(1) by (rule ordinary_append) simp
    then have "putFile (d @ [x @ ''.new'']) c fs = (Inl EISDIR, fs)" for c
      using putFile_child [of fs d "x @ ''.new''" c] e assms(1) by (simp add: installable_def)
    then show False using assms(4) by (auto simp: applyUpdate_steps andThen_def split: sum.splits if_splits)
  qed
  obtain c where "andThen (putFile (d @ [x @ ''.new'']) c) (\<lambda>_.
      andThen (tryCatch (copyFile (d @ [x]) (d @ [?p])) (\<lambda>_. ret ())) (\<lambda>_.
      andThen (renameEntry (d @ [x @ ''.new'']) (d @ [x])) (\<lambda>_. ret True))) fs = (Inr True, fs')"
    using assms(4) by (auto simp: applyUpdate_steps split: sum.splits if_splits)
  then have f: "entry fs' (d @ [x]) = Some (FileE c)" "solidDir fs' d" "entry fs' (d @ [?p]) = Some (FileE old)"
    using install_run [OF assms(1,2) new, of c] assms(3) by auto
  have "fileAt (d @ [?p]) fs' = Some old" using fileAt_child [OF f(2) o(2) f(3)] .
  moreover have "putFile (d @ [x]) old fs' = (Inr (), putEntry (d @ [x]) (FileE old) fs')"
    using putFile_child [OF f(2) o(1), of old] f(1) by simp
  ultimately show ?thesis
    by (auto simp: rollback_def andThen_def readState_def require_def copyFile_def orThrow_def fileAt_def
      entry_putEntry split: found.splits)
qed

end
