(* ===== verification/AgentRuntime.thy ===== *)
theory AgentRuntime
  imports Updater Gateway
begin

text \<open>
  The agent of a node, \<open>apps/agent/src/index.ts\<close>: its connection to the gateway, the commands it
  carries out through the Docker provider, the consoles it streams, reconciliation and updates.
  A command that fails is answered with the message of its exception.
\<close>

section \<open>The state\<close>

text \<open>\<open>re_toBase64\<close> and \<open>re_fromBase64\<close> are \<open>Buffer\<close>'s; \<open>re_collate\<close> the collation keys of
  \<open>localeCompare\<close>.\<close>

record runtimeEnv =
  re_docker :: dockerEnv
  re_archiver :: archiver
  re_lstat :: "path \<Rightarrow> inode"
  re_collate :: "string \<Rightarrow> nat list"
  re_toBase64 :: "string \<Rightarrow> string"
  re_fromBase64 :: "string \<Rightarrow> string"
  re_fetch :: "string \<Rightarrow> string + nat \<times> string"
  re_parseRelease :: "string \<Rightarrow> Release option"
  re_autoUpdate :: bool
  re_panelUrl :: string
  re_nodeId :: ident
  re_token :: string
  re_install :: path
  re_argv1 :: path

record console =
  co_out :: string
  co_err :: string

record runtime =
  ag_host :: host
  ag_open :: bool
  ag_sent :: "AgentMessage list"
  ag_consoles :: "ident \<Rightarrow> console option" \<comment> \<open>\<open>consoleAttachments\<close>, with the unfinished lines of the stream\<close>
  ag_heartbeat :: "int option"
  ag_reconnectAttempt :: nat
  ag_shuttingDown :: bool
  ag_timers :: "rat list" \<comment> \<open>delays of the reconnects scheduled\<close>
  ag_exiting :: bool

type_synonym 'a ract = "(runtime, fsError, 'a) action"

definition AGENT_VERSION :: string where
  "AGENT_VERSION = ''1.0.0''"

definition sendMsg :: "AgentMessage \<Rightarrow> runtime \<Rightarrow> runtime" where
  "sendMsg m s = (if ag_open s then s\<lparr>ag_sent := ag_sent s @ [m]\<rparr> else s)"

definition reply :: "string \<Rightarrow> bool \<Rightarrow> AgentReply \<Rightarrow> (string \<times> string) option \<Rightarrow> runtime \<Rightarrow> runtime" where
  "reply i ok d e = sendMsg (ResultMsg \<lparr>ar_id = i, ar_ok = ok, ar_data = d, ar_error = e\<rparr>)"

definition onHost :: "'a hostact \<Rightarrow> 'a ract" where
  "onHost m s = (case m (ag_host s) of (r, h) \<Rightarrow> (r, s\<lparr>ag_host := h\<rparr>))"

definition onVolume :: "'a fsact \<Rightarrow> 'a ract" where
  "onVolume m = onHost (onFiles m)"

definition send_state :: "ident \<Rightarrow> ContainerState \<Rightarrow> unit ract" where
  "send_state i st = writeState (sendMsg (StateMsg i st None))"

section \<open>Consoles\<close>

definition attachConsole :: "runtimeEnv \<Rightarrow> ident \<Rightarrow> unit ract" where
  "attachConsole env serverId =
     andThen (readState (\<lambda>s. ag_consoles s serverId \<noteq> None)) (\<lambda>there.
     if there then ret ()
     else
       andThen (onHost (docker (re_docker env) (Logs (containerName serverId)))) (\<lambda>_.
       writeState (\<lambda>s. s\<lparr>ag_consoles := (ag_consoles s)(serverId \<mapsto> \<lparr>co_out = [], co_err = []\<rparr>)\<rparr>)))"

definition detachConsole :: "ident \<Rightarrow> runtime \<Rightarrow> runtime" where
  "detachConsole serverId s = s\<lparr>ag_consoles := (ag_consoles s)(serverId := None)\<rparr>"

text \<open>A chunk on one of the two streams of an attached console.\<close>

definition onChunk :: "ident \<Rightarrow> bool \<Rightarrow> string \<Rightarrow> runtime \<Rightarrow> runtime" where
  "onChunk serverId stderr b s =
     (case ag_consoles s serverId of
        None \<Rightarrow> s
      | Some c \<Rightarrow>
          (case pushChunk (if stderr then co_err c else co_out c) b of (lines, carry) \<Rightarrow>
            fold (\<lambda>l. sendMsg (ConsoleMsg \<lparr>cl_serverId = serverId, cl_stderr = stderr, cl_line = l,
                cl_at = h_now (ag_host s)\<rparr>)) lines
              (s\<lparr>ag_consoles := (ag_consoles s)(serverId \<mapsto>
                 (if stderr then c\<lparr>co_err := carry\<rparr> else c\<lparr>co_out := carry\<rparr>))\<rparr>)))"

section \<open>Commands\<close>

definition volumeRoot :: "runtimeEnv \<Rightarrow> ident \<Rightarrow> path" where
  "volumeRoot env serverId = volumeOf (re_docker env) serverId"

fun runPayload :: "runtimeEnv \<Rightarrow> CommandPayload \<Rightarrow> AgentReply ract" where
  "runPayload env (Server_create spec) =
     andThen (onHost (createServer (re_docker env) spec)) (\<lambda>cid. ret (emptyReply\<lparr>rp_containerId := Some cid\<rparr>))"
| "runPayload env (Server_delete i wipe) =
     andThen (onHost (deleteServer' (re_docker env) i wipe)) (\<lambda>_.
     andThen (writeState (detachConsole i)) (\<lambda>_. ret emptyReply))"
| "runPayload env (Server_start i) =
     andThen (onHost (startServer (re_docker env) i)) (\<lambda>_.
     andThen (send_state i C_running) (\<lambda>_. ret emptyReply))"
| "runPayload env (Server_stop i cmd timeout) =
     andThen (onHost (stopServer (re_docker env) i cmd (case timeout of None \<Rightarrow> 30 | Some t \<Rightarrow> t))) (\<lambda>_.
     andThen (send_state i C_exited) (\<lambda>_. ret emptyReply))"
| "runPayload env (Server_restart i) =
     andThen (onHost (restartServer (re_docker env) i)) (\<lambda>_.
     andThen (send_state i C_running) (\<lambda>_. ret emptyReply))"
| "runPayload env (Server_kill i) = andThen (onHost (killServer (re_docker env) i)) (\<lambda>_. ret emptyReply)"
| "runPayload env (Server_status i) = andThen (onHost (getStatus (re_docker env) i)) (\<lambda>_. ret emptyReply)"
| "runPayload env (Server_stats i) =
     andThen (onHost (getStats (re_docker env) i)) (\<lambda>c. ret (emptyReply\<lparr>rp_containerId := Some (c_containerId c)\<rparr>))"
| "runPayload env (Server_command i c) = andThen (onHost (sendCommand (re_docker env) i c)) (\<lambda>_. ret emptyReply)"
| "runPayload env (Console_attach i n) = andThen (attachConsole env i) (\<lambda>_. ret emptyReply)"
| "runPayload env (Console_detach i) = andThen (writeState (detachConsole i)) (\<lambda>_. ret emptyReply)"
| "runPayload env (Files_list i p) =
     andThen (onVolume (getFiles (re_lstat env) (re_collate env) (volumeRoot env i) p)) (\<lambda>_. ret emptyReply)"
| "runPayload env (Files_read i p k) =
     andThen (onVolume (readFile (re_lstat env) (volumeRoot env i) p (case k of None \<Rightarrow> 2000000 | Some m \<Rightarrow> m)))
       (\<lambda>c. ret (emptyReply\<lparr>rp_content := Some (re_toBase64 env c)\<rparr>))"
| "runPayload env (Files_write i p c) =
     andThen (onVolume (writeFile (volumeRoot env i) p (re_fromBase64 env c))) (\<lambda>_. ret emptyReply)"
| "runPayload env (Files_delete i ps) = andThen (onVolume (deleteFiles (volumeRoot env i) ps)) (\<lambda>_. ret emptyReply)"
| "runPayload env (Files_mkdir i p) = andThen (onVolume (makeDirectory (volumeRoot env i) p)) (\<lambda>_. ret emptyReply)"
| "runPayload env (Files_rename i p q) = andThen (onVolume (renameFile (volumeRoot env i) p q)) (\<lambda>_. ret emptyReply)"
| "runPayload env (Backup_create i k) =
     andThen (onVolume (createArchive (re_archiver env) (re_docker env) i k)) (\<lambda>(n, d).
     ret (emptyReply\<lparr>rp_bytes := Some (int n), rp_checksum := Some d\<rparr>))"
| "runPayload env (Backup_restore i k) =
     andThen (onVolume (restoreArchive (re_archiver env) (re_docker env) i k)) (\<lambda>_. ret emptyReply)"
| "runPayload env (Backup_delete i k) =
     andThen (onVolume (deleteArchive (re_archiver env) i k)) (\<lambda>_. ret emptyReply)"
| "runPayload env (Agent_update v u d) =
     andThen (onVolume (applyUpdate (re_fetch env) (ar_sha256 (re_archiver env)) (re_install env)
       \<lparr>uo_version = v, uo_url = u, uo_sha256 = d\<rparr> AGENT_VERSION)) (\<lambda>applied.
     andThen (writeState (\<lambda>s. s\<lparr>ag_exiting := ag_exiting s \<or> applied\<rparr>)) (\<lambda>_. ret emptyReply))"
| "runPayload env Agent_rollback =
     andThen (onVolume (rollback (re_install env))) (\<lambda>_.
     andThen (writeState (\<lambda>s. s\<lparr>ag_exiting := True\<rparr>)) (\<lambda>_. ret emptyReply))"

fun errorMessage :: "fsError \<Rightarrow> string" where
  "errorMessage (Thrown m) = m"
| "errorMessage ENOENT = ''ENOENT''"
| "errorMessage ENOTDIR = ''ENOTDIR''"
| "errorMessage ELOOP = ''ELOOP''"
| "errorMessage EISDIR = ''EISDIR''"
| "errorMessage EEXIST = ''EEXIST''"
| "errorMessage ENOTEMPTY = ''ENOTEMPTY''"
| "errorMessage EINVAL = ''EINVAL''"

text \<open>\<open>None\<close> is a payload whose \<open>op\<close> the agent does not know.\<close>

definition handleCommand :: "runtimeEnv \<Rightarrow> string \<Rightarrow> CommandPayload option \<Rightarrow> runtime \<Rightarrow> runtime" where
  "handleCommand env i payload s =
     (case payload of
        None \<Rightarrow> reply i False emptyReply (Some (''unknown_op'', ''Unsupported operation.'')) s
      | Some p \<Rightarrow>
          (case runPayload env p s of
             (Inr d, s1) \<Rightarrow> reply i True d None s1
           | (Inl e, s1) \<Rightarrow> reply i False emptyReply (Some (''command_failed'', errorMessage e)) s1))"

section \<open>Heartbeat, reconciliation, reconnection\<close>

definition beat :: "runtimeEnv \<Rightarrow> runtime \<Rightarrow> runtime" where
  "beat env s =
     (let at' = h_now (ag_host s) in
      case onHost (listServers (re_docker env)) s of
        (Inr _, s1) \<Rightarrow> sendMsg (Heartbeat at') s1
      | (Inl _, s1) \<Rightarrow> s1)"

definition stopHeartbeat :: "runtime \<Rightarrow> runtime" where
  "stopHeartbeat s = s\<lparr>ag_heartbeat := None\<rparr>"

definition startHeartbeat :: "runtimeEnv \<Rightarrow> int \<Rightarrow> runtime \<Rightarrow> runtime" where
  "startHeartbeat env intervalMs s = (beat env (stopHeartbeat s))\<lparr>ag_heartbeat := Some intervalMs\<rparr>"

definition reconcileOne :: "runtimeEnv \<Rightarrow> ident list \<Rightarrow> ContainerSummary \<Rightarrow> unit ract" where
  "reconcileOne env expected c =
     (if c_serverId c \<notin> set expected
      then onHost (ignoring (deleteServer' (re_docker env) (c_serverId c) False))
      else send_state (c_serverId c) (c_state c))"

definition reconcile :: "runtimeEnv \<Rightarrow> ident list \<Rightarrow> unit ract" where
  "reconcile env expected =
     andThen (onHost (listServers (re_docker env))) (\<lambda>actual. forEach actual (reconcileOne env expected))"

definition reconnectBase :: "nat \<Rightarrow> rat" where
  "reconnectBase attempt = min 60000 (1000 * 2 ^ min attempt 6)"

text \<open>\<open>rnd\<close> is \<open>Math.random()\<close>.\<close>

definition reconnectDelay :: "nat \<Rightarrow> rat \<Rightarrow> rat" where
  "reconnectDelay attempt rnd = reconnectBase attempt / 2 + rnd * (reconnectBase attempt / 2)"

definition scheduleReconnect :: "rat \<Rightarrow> runtime \<Rightarrow> runtime" where
  "scheduleReconnect rnd s =
     (if ag_shuttingDown s then s
      else s\<lparr>ag_reconnectAttempt := Suc (ag_reconnectAttempt s),
             ag_timers := ag_timers s @ [reconnectDelay (Suc (ag_reconnectAttempt s)) rnd]\<rparr>)"

section \<open>Node statistics\<close>

record cpuTimes =
  ct_user :: rat
  ct_nice :: rat
  ct_sys :: rat
  ct_idle :: rat
  ct_irq :: rat

definition cpuDelta :: "cpuTimes \<Rightarrow> cpuTimes \<Rightarrow> rat \<times> rat" where
  "cpuDelta prev now =
     (let dIdle = ct_idle now - ct_idle prev
      in (dIdle, ct_user now - ct_user prev + (ct_nice now - ct_nice prev) + (ct_sys now - ct_sys prev) + dIdle +
           (ct_irq now - ct_irq prev)))"

text \<open>A core that was not there before is compared with itself.\<close>

fun cpuTotals :: "cpuTimes list \<Rightarrow> cpuTimes list \<Rightarrow> rat \<times> rat" where
  "cpuTotals prev [] = (0, 0)"
| "cpuTotals prev (c # cs) =
     (case cpuDelta (case prev of [] \<Rightarrow> c | p # _ \<Rightarrow> p) c of (i, t) \<Rightarrow>
      case cpuTotals (case prev of [] \<Rightarrow> [] | _ # ps \<Rightarrow> ps) cs of (idle, tot) \<Rightarrow> (i + idle, t + tot))"

definition nodeCpuPercent :: "cpuTimes list \<Rightarrow> cpuTimes list \<Rightarrow> rat" where
  "nodeCpuPercent prev cs =
     (case cpuTotals prev cs of (idle, tot) \<Rightarrow> if 0 < tot then (tot - idle) / tot * 100 else 0)"

section \<open>The connection\<close>

datatype agentEvent =
  SocketOpen AgentHello
| HelloAckEv int "ident list"
| CommandMsg string "CommandPayload option"
| ChunkEv ident bool string
| SocketClose rat
| HeartbeatTimer
| Signal

definition agentStep :: "runtimeEnv \<Rightarrow> agentEvent \<Rightarrow> runtime \<Rightarrow> runtime" where
  "agentStep env e s = (case e of
     SocketOpen hello \<Rightarrow>
       sendMsg (Hello (hello\<lparr>hl_protocol := PROTOCOL_VERSION, hl_agentVersion := AGENT_VERSION,
         hl_token := re_token env, hl_nodeId := re_nodeId env\<rparr>))
         (s\<lparr>ag_open := True, ag_reconnectAttempt := 0\<rparr>)
   | HelloAckEv intervalMs expected \<Rightarrow>
       (let s1 = startHeartbeat env intervalMs s; (r, s2) = reconcile env expected s1 in
        case r of
          Inl _ \<Rightarrow> s2
        | Inr _ \<Rightarrow>
            (case onVolume (checkForUpdate (re_fetch env) (ar_sha256 (re_archiver env)) (re_parseRelease env)
               (re_autoUpdate env) (re_panelUrl env) AGENT_VERSION (re_argv1 env)) s2 of
               (Inr True, s3) \<Rightarrow> s3\<lparr>ag_shuttingDown := True, ag_open := False, ag_exiting := True\<rparr>
             | (_, s3) \<Rightarrow> s3))
   | CommandMsg i p \<Rightarrow> handleCommand env i p s
   | ChunkEv i stderr b \<Rightarrow> onChunk i stderr b s
   | SocketClose rnd \<Rightarrow> scheduleReconnect rnd (stopHeartbeat (s\<lparr>ag_open := False\<rparr>))
   | HeartbeatTimer \<Rightarrow> if ag_heartbeat s = None then s else beat env s
   | Signal \<Rightarrow> (stopHeartbeat s)\<lparr>ag_shuttingDown := True, ag_consoles := (\<lambda>_. None), ag_open := False,
       ag_exiting := True\<rparr>)"

section \<open>Every command is answered\<close>

definition unanswered :: "runtime \<Rightarrow> runtime \<Rightarrow> bool" where
  "unanswered s0 s \<longleftrightarrow> ag_open s = ag_open s0 \<and>
     (\<exists>ms. ag_sent s = ag_sent s0 @ ms \<and> (\<forall>m \<in> set ms. \<forall>r. m \<noteq> ResultMsg r))"

lemma unanswered_refl [simp]: "unanswered s s"
  by (simp add: unanswered_def)

lemma unanswered_onHost [pres]: "preserves (unanswered s0) (onHost m)"
  by (auto simp: preserves_def onHost_def unanswered_def split: prod.split)

lemma unanswered_onVolume [pres]: "preserves (unanswered s0) (onVolume m)"
  unfolding onVolume_def by (rule unanswered_onHost)

lemma unanswered_state [pres]: "preserves (unanswered s0) (send_state i st)"
  unfolding send_state_def by (rule preserves_writeState) (auto simp: unanswered_def sendMsg_def)

lemma unanswered_attach [pres]: "preserves (unanswered s0) (attachConsole env i)"
  unfolding attachConsole_def by (intro pres) (simp add: unanswered_def)

lemma unanswered_payload: "preserves (unanswered s0) (runPayload env p)"
  by (cases p) (simp_all add: split_def, (intro pres; simp add: unanswered_def detachConsole_def)+)


section \<open>Reconciliation\<close>

lemma orphan_run:
  "\<exists>t. onHost (ignoring (deleteServer' denv i False)) s = (Inr (), t) \<and> ag_sent t = ag_sent s \<and> ag_open t = ag_open s \<and>
    h_docker (ag_host t) = h_docker (ag_host s) @ [RemoveContainer (containerName i)] \<and> h_fs (ag_host t) = h_fs (ag_host s)"
  by (simp add: onHost_def ignoring_def deleteServer'_def tryCatch_def andThen_def ret_def docker_def
      split: sum.split)

text \<open>After a reconnect the agent and the panel agree: the agent removes exactly the containers the
  panel does not expect, keeping their files, and reports the state of each of the others.\<close>

theorem reconcile_exact:
  assumes "onHost (listServers (re_docker env)) s = (Inr actual, s1)" and "ag_open s"
  shows "\<exists>t. reconcile env expected s = (Inr (), t) \<and>
    ag_sent t = ag_sent s @ map (\<lambda>c. StateMsg (c_serverId c) (c_state c) None)
      (filter (\<lambda>c. c_serverId c \<in> set expected) actual) \<and>
    h_docker (ag_host t) = h_docker (ag_host s1) @ map (\<lambda>c. RemoveContainer (containerName (c_serverId c)))
      (filter (\<lambda>c. c_serverId c \<notin> set expected) actual) \<and>
    h_fs (ag_host t) = h_fs (ag_host s1)"
proof -
  have loop: "\<exists>t. forEach cs (reconcileOne env expected) u = (Inr (), t) \<and>
    ag_sent t = ag_sent u @ map (\<lambda>c. StateMsg (c_serverId c) (c_state c) None)
      (filter (\<lambda>c. c_serverId c \<in> set expected) cs) \<and>
    h_docker (ag_host t) = h_docker (ag_host u) @ map (\<lambda>c. RemoveContainer (containerName (c_serverId c)))
      (filter (\<lambda>c. c_serverId c \<notin> set expected) cs) \<and>
    h_fs (ag_host t) = h_fs (ag_host u)" if "ag_open u" for cs :: "ContainerSummary list" and u
    using that
  proof (induction cs arbitrary: u)
    case (Cons c cs)
    show ?case
    proof (cases "c_serverId c \<in> set expected")
      case True
      let ?w = "sendMsg (StateMsg (c_serverId c) (c_state c) None) u"
      have w: "reconcileOne env expected c u = (Inr (), ?w)"
        using True by (simp add: reconcileOne_def send_state_def writeState_def)
      have "ag_open ?w" "ag_sent ?w = ag_sent u @ [StateMsg (c_serverId c) (c_state c) None]" "ag_host ?w = ag_host u"
        using Cons.prems by (simp_all add: sendMsg_def)
      then show ?thesis using Cons.IH [of ?w] w True by auto
    next
      case False
      obtain w where w: "onHost (ignoring (deleteServer' (re_docker env) (c_serverId c) False)) u = (Inr (), w)"
        "ag_sent w = ag_sent u" "ag_open w = ag_open u"
        "h_docker (ag_host w) = h_docker (ag_host u) @ [RemoveContainer (containerName (c_serverId c))]"
        "h_fs (ag_host w) = h_fs (ag_host u)" using orphan_run by blast
      then show ?thesis using Cons.IH [of w] Cons.prems False by (auto simp: reconcileOne_def)
    qed
  qed simp
  have "ag_sent s1 = ag_sent s" "ag_open s1" using assms by (auto simp: onHost_def split: prod.splits)
  then show ?thesis using loop [of s1 actual] assms(1) by (auto simp: reconcile_def andThen_def)
qed

section \<open>Bounds\<close>

text \<open>The panel is never hammered and never forgotten: from the first retry on, the agent waits at
  least one second and at most one minute; the bound doubles with every failure until it is a
  minute, and the random part is at most half of it.\<close>

theorem reconnect_bounds:
  assumes "0 \<le> rnd" and "rnd < 1" and "0 < attempt"
  shows "1000 \<le> reconnectDelay attempt rnd \<and> reconnectDelay attempt rnd \<le> 60000 \<and>
    reconnectBase attempt / 2 \<le> reconnectDelay attempt rnd \<and> reconnectDelay attempt rnd < reconnectBase attempt \<and>
    reconnectBase (Suc attempt) = (if attempt < 5 then 2 * reconnectBase attempt else 60000)"
proof -
  let ?b = "reconnectBase attempt"
  have "attempt \<in> {1, 2, 3, 4, 5} \<or> 6 \<le> attempt" using assms(3) by auto
  then have b: "2000 \<le> ?b \<and> ?b \<le> 60000 \<and> reconnectBase (Suc attempt) = (if attempt < 5 then 2 * ?b else 60000)"
    by (auto simp: reconnectBase_def)
  have "0 \<le> rnd * (?b / 2)" using assms(1) b by (intro mult_nonneg_nonneg) simp_all
  moreover have "rnd * (?b / 2) < 1 * (?b / 2)" using assms(2) b by (intro mult_strict_right_mono) simp_all
  ultimately have "1000 \<le> reconnectDelay attempt rnd" "reconnectDelay attempt rnd \<le> 60000"
    "?b / 2 \<le> reconnectDelay attempt rnd" "reconnectDelay attempt rnd < ?b"
    using b unfolding reconnectDelay_def by linarith+
  then show ?thesis using b by blast
qed

definition countersGrow :: "cpuTimes \<times> cpuTimes \<Rightarrow> bool" where
  "countersGrow = (\<lambda>(p, c). ct_user p \<le> ct_user c \<and> ct_nice p \<le> ct_nice c \<and> ct_sys p \<le> ct_sys c \<and>
     ct_idle p \<le> ct_idle c \<and> ct_irq p \<le> ct_irq c)"

lemma cpuTotals_bounds:
  "\<forall>x \<in> set (zip prev cs). countersGrow x \<Longrightarrow> 0 \<le> fst (cpuTotals prev cs) \<and> fst (cpuTotals prev cs) \<le> snd (cpuTotals prev cs)"
proof (induction prev cs rule: cpuTotals.induct)
  case (2 prev c cs)
  show ?case
  proof (cases prev)
    case Nil
    then show ?thesis using 2 by (auto simp: cpuDelta_def Let_def split: prod.split)
  next
    case (Cons p ps)
    then show ?thesis using 2 by (auto simp: cpuDelta_def Let_def countersGrow_def split: prod.split)
  qed
qed simp

text \<open>A node's processor use is a percentage: as long as the counters of the kernel only grow,
  the figure of a heartbeat lies between 0 and 100, also when cores appear or disappear.\<close>

theorem cpu_percent_bounds:
  assumes "\<forall>x \<in> set (zip prev cs). countersGrow x"
  shows "0 \<le> nodeCpuPercent prev cs \<and> nodeCpuPercent prev cs \<le> 100"
proof -
  obtain i t where it: "cpuTotals prev cs = (i, t)" by (cases "cpuTotals prev cs")
  then have "0 \<le> i" "i \<le> t" using cpuTotals_bounds [OF assms] by simp_all
  then show ?thesis using it by (simp add: nodeCpuPercent_def divide_le_eq)
qed

section \<open>From the browser to the game\<close>


end
