(* ===== verification/GameSettings.thy ===== *)
theory GameSettings
  imports Strings Access
begin

text \<open>
  The editor of \<open>server.properties\<close>, \<open>apps/panel/src/lib/game-settings.ts\<close>, and its route.
  A JavaScript \<open>Map\<close> and an object of strings are lists of pairs in insertion order.
\<close>

section \<open>Fields\<close>

datatype FieldType = Text | Number | Boolean | Select

record SettingField =
  sf_key :: string
  sf_type :: FieldType
  sf_options :: "string list"
  sf_min :: "int option"
  sf_max :: "int option"
  sf_restart :: bool
  sf_managed :: bool

definition plainField :: "string \<Rightarrow> FieldType \<Rightarrow> bool \<Rightarrow> SettingField" where
  "plainField k t r = \<lparr>sf_key = k, sf_type = t, sf_options = [], sf_min = None, sf_max = None, sf_restart = r,
     sf_managed = False\<rparr>"

definition rangeField :: "string \<Rightarrow> int \<Rightarrow> int \<Rightarrow> SettingField" where
  "rangeField k lo hi = (plainField k Number False)\<lparr>sf_min := Some lo, sf_max := Some hi\<rparr>"

definition selectField :: "string \<Rightarrow> string list \<Rightarrow> SettingField" where
  "selectField k os = (plainField k Select False)\<lparr>sf_options := os\<rparr>"

definition managedField :: "string \<Rightarrow> FieldType \<Rightarrow> SettingField" where
  "managedField k t = (plainField k t False)\<lparr>sf_managed := True\<rparr>"

definition JAVA_FIELDS :: "SettingField list" where
  "JAVA_FIELDS =
    [plainField ''motd'' Text False,
     selectField ''gamemode'' [''survival'', ''creative'', ''adventure'', ''spectator''],
     selectField ''difficulty'' [''peaceful'', ''easy'', ''normal'', ''hard''],
     rangeField ''max-players'' 1 200,
     plainField ''pvp'' Boolean False,
     plainField ''hardcore'' Boolean True,
     plainField ''white-list'' Boolean False,
     plainField ''online-mode'' Boolean True,
     rangeField ''spawn-protection'' 0 64,
     rangeField ''view-distance'' 3 32,
     rangeField ''simulation-distance'' 3 32,
     plainField ''allow-flight'' Boolean False,
     plainField ''allow-nether'' Boolean True,
     plainField ''enable-command-block'' Boolean True,
     plainField ''level-seed'' Text True,
     plainField ''level-name'' Text True,
     managedField ''server-port'' Number,
     managedField ''server-ip'' Text,
     managedField ''rcon.port'' Number,
     managedField ''query.port'' Number]"

definition BEDROCK_FIELDS :: "SettingField list" where
  "BEDROCK_FIELDS =
    [plainField ''server-name'' Text False,
     selectField ''gamemode'' [''survival'', ''creative'', ''adventure''],
     selectField ''difficulty'' [''peaceful'', ''easy'', ''normal'', ''hard''],
     rangeField ''max-players'' 1 100,
     plainField ''allow-cheats'' Boolean True,
     plainField ''online-mode'' Boolean True,
     rangeField ''view-distance'' 4 32,
     rangeField ''tick-distance'' 4 12,
     rangeField ''player-idle-timeout'' 0 120,
     plainField ''level-name'' Text True,
     plainField ''level-seed'' Text True,
     managedField ''server-port'' Number]"

definition profileFields :: "string \<Rightarrow> SettingField list" where
  "profileFields templateKey = (if includesStr templateKey ''bedrock'' then BEDROCK_FIELDS else JAVA_FIELDS)"

definition profileFile :: string where
  "profileFile = ''/server.properties''"

section \<open>Parsing and editing\<close>

text \<open>\<open>text.split(/\r?\n/)\<close>\<close>

definition stripCR :: "string \<Rightarrow> string" where
  "stripCR l = (if l \<noteq> [] \<and> last l = CHR 0x0D then butlast l else l)"

definition splitLines :: "string \<Rightarrow> string list" where
  "splitLines s = (let ps = splitOn (CHR 0x0A) s in map stripCR (butlast ps) @ [last ps])"

text \<open>The key and the value of a line, if it has any.\<close>

definition keyValue :: "string \<Rightarrow> (string \<times> string) option" where
  "keyValue line =
     (let t = trim line in
      if t = [] \<or> hd t = CHR ''#'' \<or> hd t = CHR ''!'' then None
      else if CHR ''='' \<notin> set t then None
      else Some (trim (takeWhile (\<lambda>c. c \<noteq> CHR ''='') t), trim (tl (dropWhile (\<lambda>c. c \<noteq> CHR ''='') t))))"

definition parseProperties :: "string \<Rightarrow> (string \<times> string) list" where
  "parseProperties text' =
     foldl (\<lambda>out line. case keyValue line of None \<Rightarrow> out | Some (k, v) \<Rightarrow> putEnv k v out) [] (splitLines text')"

definition propertyLine :: "string \<times> string \<Rightarrow> string" where
  "propertyLine = (\<lambda>(k, v). k @ ''='' @ v)"

fun applyLines :: "(string \<times> string) list \<Rightarrow> string list \<Rightarrow> string list \<times> (string \<times> string) list" where
  "applyLines remaining [] = ([], remaining)"
| "applyLines remaining (line # lines) =
     (case keyValue line of
        None \<Rightarrow> (case applyLines remaining lines of (ls, r) \<Rightarrow> (line # ls, r))
      | Some (k, _) \<Rightarrow>
          (case map_of remaining k of
             None \<Rightarrow> (case applyLines remaining lines of (ls, r) \<Rightarrow> (line # ls, r))
           | Some v \<Rightarrow>
               (case applyLines (filter (\<lambda>(j, _). j \<noteq> k) remaining) lines of
                 (ls, r) \<Rightarrow> (propertyLine (k, v) # ls, r))))"

definition applyProperties :: "string \<Rightarrow> (string \<times> string) list \<Rightarrow> string" where
  "applyProperties original changes =
     (case applyLines changes (splitLines original) of
        (ls, remaining) \<Rightarrow> joinWith [CHR 0x0A] (ls @ map propertyLine remaining))"

section \<open>Coercion\<close>

text \<open>\<open>Number(raw)\<close> on decimal literals; anything else it may read (hexadecimal, infinities) is
  given by \<open>other\<close>.\<close>

definition signed :: "string \<Rightarrow> int \<times> string" where
  "signed s = (case s of [] \<Rightarrow> (1, s) | c # r \<Rightarrow> if c = CHR ''-'' then (- 1, r) else if c = CHR ''+'' then (1, r) else (1, s))"

definition decimalLiteral :: "string \<Rightarrow> rat option" where
  "decimalLiteral s =
     (let (sg, u) = signed s;
          whole = takeWhile isDigit u; r = dropWhile isDigit u;
          (frac, r1) = (case r of [] \<Rightarrow> ([], r) | c # q \<Rightarrow> if c = CHR ''.'' then (takeWhile isDigit q, dropWhile isDigit q) else ([], r));
          mant = (of_int sg * of_nat (digitsValue (whole @ frac)) / 10 ^ length frac :: rat)
      in if whole @ frac = [] then None
         else if r1 = [] then Some mant
         else if hd r1 = CHR ''e'' \<or> hd r1 = CHR ''E'' then
           (let (es, ds) = signed (tl r1) in
            if ds = [] \<or> \<not> list_all isDigit ds then None
            else Some (if es < 0 then mant / 10 ^ digitsValue ds else mant * 10 ^ digitsValue ds))
         else None)"

definition toNumber :: "(string \<Rightarrow> rat option) \<Rightarrow> string \<Rightarrow> rat option" where
  "toNumber other raw =
     (let t = trim raw in
      if t = [] then Some 0 else (case decimalLiteral t of Some n \<Rightarrow> Some n | None \<Rightarrow> other t))"

definition coerce :: "(string \<Rightarrow> rat option) \<Rightarrow> SettingField \<Rightarrow> string \<Rightarrow> string option" where
  "coerce other field raw =
     (case sf_type field of
        Boolean \<Rightarrow> if raw = ''true'' \<or> raw = ''false'' then Some raw else None
      | Number \<Rightarrow>
          (case toNumber other raw of
             None \<Rightarrow> None
           | Some n \<Rightarrow>
               if (case sf_min field of None \<Rightarrow> False | Some lo \<Rightarrow> n < of_int lo) then None
               else if (case sf_max field of None \<Rightarrow> False | Some hi \<Rightarrow> of_int hi < n) then None
               else Some (showInt \<lfloor>n + 1 / 2\<rfloor>))
      | Select \<Rightarrow> if raw \<in> set (sf_options field) then Some raw else None
      | Text \<Rightarrow> if length raw \<le> 512 \<and> CHR 0x0D \<notin> set raw \<and> CHR 0x0A \<notin> set raw then Some raw else None)"

section \<open>Reading and writing\<close>

definition editableFields :: "string \<Rightarrow> SettingField list" where
  "editableFields templateKey = filter (\<lambda>f. \<not> sf_managed f) (profileFields templateKey)"

definition fieldOf :: "string \<Rightarrow> SettingField list \<Rightarrow> SettingField option" where
  "fieldOf k fs = List.find (\<lambda>f. sf_key f = k) fs"

text \<open>The changes accepted, and the keys rejected.\<close>

fun sortChanges :: "(string \<Rightarrow> rat option) \<Rightarrow> SettingField list \<Rightarrow> (string \<times> string) list \<Rightarrow>
    (string \<times> string) list \<times> string list" where
  "sortChanges other fs [] = ([], [])"
| "sortChanges other fs ((k, raw) # cs) =
     (case sortChanges other fs cs of (acc, rej) \<Rightarrow>
        (case fieldOf k fs of
           None \<Rightarrow> (acc, k # rej)
         | Some f \<Rightarrow> (case coerce other f raw of Some v \<Rightarrow> ((k, v) # acc, rej) | None \<Rightarrow> (acc, k # rej))))"

text \<open>\<open>decode\<close> and \<open>encode\<close> are the conversions between the base64 of a file and its text.\<close>

definition readGameSettings ::
    "agent \<Rightarrow> (string \<Rightarrow> string) \<Rightarrow> ident \<Rightarrow> (bool \<times> (string \<times> string) list) act" where
  "readGameSettings agent decode serverId =
     andThen (orThrow (NotFoundError ''Server'') (findServer serverId)) (\<lambda>server.
     andThen (orThrow (NotFoundError ''GameTemplate'') (findTemplate (s_templateId server))) (\<lambda>template.
     tryCatch
       (andThen (callAgent agent (s_nodeId server) (Files_read serverId profileFile (Some 200000))) (\<lambda>res.
        andThen (orThrow (Error ''TypeError'') (\<lambda>_. rp_content res)) (\<lambda>c.
        let parsed = parseProperties (decode c) in
        ret (True, map (\<lambda>f. (sf_key f, case map_of parsed (sf_key f) of None \<Rightarrow> [] | Some v \<Rightarrow> v))
          (editableFields (t_key template))))))
       (\<lambda>_. ret (False, []))))"

record SettingsResult =
  sr_saved :: "string list"
  sr_rejected :: "string list"
  sr_needsRestart :: bool

definition writeGameSettings ::
    "agent \<Rightarrow> (string \<Rightarrow> string) \<Rightarrow> (string \<Rightarrow> string) \<Rightarrow> (string \<Rightarrow> rat option) \<Rightarrow> ident \<Rightarrow>
     (string \<times> string) list \<Rightarrow> SettingsResult act" where
  "writeGameSettings agent decode encode other serverId changes =
     andThen (orThrow (NotFoundError ''Server'') (findServer serverId)) (\<lambda>server.
     andThen (orThrow (NotFoundError ''GameTemplate'') (findTemplate (s_templateId server))) (\<lambda>template.
     let fields = editableFields (t_key template); (accepted, rejected) = sortChanges other fields changes in
     andThen (callAgent agent (s_nodeId server) (Files_read serverId profileFile (Some 200000))) (\<lambda>res.
     andThen (orThrow (Error ''TypeError'') (\<lambda>_. rp_content res)) (\<lambda>c.
     andThen (callAgent agent (s_nodeId server)
       (Files_write serverId profileFile (encode (applyProperties (decode c) accepted)))) (\<lambda>_.
     ret \<lparr>sr_saved = map fst accepted, sr_rejected = rejected,
       sr_needsRestart = (\<exists>k \<in> set (map fst accepted). case fieldOf k fields of None \<Rightarrow> False | Some f \<Rightarrow> sf_restart f)\<rparr>)))))"

definition settingsGet :: "agent \<Rightarrow> (string \<Rightarrow> string) \<Rightarrow> AuthEnv \<Rightarrow> ident \<Rightarrow> response act" where
  "settingsGet agent decode env serverId = handler (
     andThen (requireServerAccess env serverId Settings_write) (\<lambda>_.
     andThen (readGameSettings agent decode serverId) (\<lambda>_. ret (Response 200 ''settings''))))"

text \<open>\<open>z.record(z.string().max(512))\<close>; no body where the request is not a record of strings.\<close>

definition settingsSchema :: "(string \<times> string) list option \<Rightarrow> (string \<times> string) list option" where
  "settingsSchema body =
     (case body of None \<Rightarrow> None | Some vs \<Rightarrow> if list_all (\<lambda>(_, v). length v \<le> 512) vs then Some vs else None)"

definition settingsPatch ::
    "agent \<Rightarrow> (string \<Rightarrow> string) \<Rightarrow> (string \<Rightarrow> string) \<Rightarrow> (string \<Rightarrow> rat option) \<Rightarrow> AuthEnv \<Rightarrow> ident \<Rightarrow>
     (string \<times> string) list option \<Rightarrow> response act" where
  "settingsPatch agent decode encode other env serverId body = handler (
     andThen (requireServerAccess env serverId Settings_write) (\<lambda>(user, server).
     andThen (parseBody (settingsSchema body)) (\<lambda>values.
     andThen (writeGameSettings agent decode encode other serverId values) (\<lambda>result.
     andThen (audit (Some (u_id user)) ''server.settings.update'' ''server'' serverId) (\<lambda>_.
     ret (Response 200 ''saved''))))))"

section \<open>Trimming\<close>

lemma dropWhile_stop: "\<not> P x \<Longrightarrow> dropWhile P (xs @ x # ys) = dropWhile P xs @ x # ys"
  by (induction xs) auto

lemma trimEnd_stop: "\<not> isSpace x \<Longrightarrow> trimEnd (u @ x # w) = u @ x # trimEnd w"
  by (simp add: trimEnd_def dropWhile_stop)

lemma trimEnd_spaces: "list_all isSpace w \<Longrightarrow> trimEnd (u @ w) = trimEnd u"
proof -
  assume "list_all isSpace w"
  then have "dropWhile isSpace (rev w @ rev u) = dropWhile isSpace (rev u)"
    by (intro dropWhile_append2) (auto simp: list_all_iff)
  then show ?thesis by (simp add: trimEnd_def)
qed

lemma trimStart_stop: "\<not> isSpace x \<Longrightarrow> trimStart (u @ x # w) = trimStart u @ x # w"
  by (simp add: trimStart_def dropWhile_stop)

lemma trimEnd_split: "\<exists>w. v = trimEnd v @ w \<and> list_all isSpace w"
proof -
  have "v = rev (takeWhile isSpace (rev v) @ dropWhile isSpace (rev v))"
    by (simp only: takeWhile_dropWhile_id rev_rev_ident)
  then have "v = trimEnd v @ rev (takeWhile isSpace (rev v))" by (simp only: trimEnd_def rev_append)
  moreover have "list_all isSpace (rev (takeWhile isSpace (rev v)))" by (auto simp: list_all_iff dest: set_takeWhileD)
  ultimately show ?thesis by blast
qed

lemma trimEnd_last: "trimEnd v \<noteq> [] \<Longrightarrow> \<not> isSpace (last (trimEnd v))"
  using hd_dropWhile [of isSpace "rev v"] by (auto simp: trimEnd_def last_rev)

lemma trim_spaces: "list_all isSpace w \<Longrightarrow> trim (u @ w) = trim u"
proof (cases "trimEnd u = []")
  case True
  assume w: "list_all isSpace w"
  obtain z where z: "u = z" "list_all isSpace z" using trimEnd_split [of u] True by auto
  have "trimStart y = []" if "list_all isSpace y" for y
    using that by (simp add: trimStart_def list_all_iff)
  then show ?thesis using w z by (simp add: trim_def)
next
  case False
  assume w: "list_all isSpace w"
  obtain z where z: "u = trimEnd u @ z" "list_all isSpace z" using trimEnd_split by blast
  let ?u = "butlast (trimEnd u)" and ?x = "last (trimEnd u)"
  have u: "u = ?u @ ?x # z" using z(1) False by (metis append_butlast_last_id append.assoc append_Cons append_Nil)
  have x: "\<not> isSpace ?x" using trimEnd_last [OF False] .
  have "trim (?u @ ?x # y) = trimStart ?u @ [?x]" if "list_all isSpace y" for y
    using trimEnd_spaces [OF that, of "trimStart ?u @ [?x]"] x
    by (simp add: trim_def trimStart_stop trimEnd_stop) (simp add: trimEnd_def)
  from this [of z] this [of "z @ w"] show ?thesis using u w z(2) by (metis append.assoc append_Cons list_all_append)
qed

lemma trim_trimEnd: "trim (trimEnd v) = trim v"
  using trimEnd_split [of v] trim_spaces by metis

lemma trim_stripCR: "trim (stripCR l) = trim l"
proof (cases "l \<noteq> [] \<and> last l = CHR 0x0D")
  case True
  then have "l = butlast l @ [CHR 0x0D]" by (metis append_butlast_last_id)
  then show ?thesis using True trim_spaces [of "[CHR 0x0D]" "butlast l"] by (simp add: stripCR_def isSpace_def)
qed (auto simp: stripCR_def)

section \<open>What the file says\<close>

definition kvs :: "string list \<Rightarrow> (string \<times> string) list" where
  "kvs ls = List.map_filter keyValue ls"

definition keyOk :: "string \<Rightarrow> bool" where
  "keyOk k \<longleftrightarrow> k \<noteq> [] \<and> CHR ''='' \<notin> set k \<and> CHR 0x0A \<notin> set k \<and> \<not> isSpace (hd k) \<and> \<not> isSpace (last k) \<and>
     hd k \<noteq> CHR ''#'' \<and> hd k \<noteq> CHR ''!''"

lemma kvs_simps [simp]: "kvs [] = []" "kvs (l # ls) = (case keyValue l of None \<Rightarrow> kvs ls | Some x \<Rightarrow> x # kvs ls)"
  "kvs (xs @ ys) = kvs xs @ kvs ys"
  by (simp_all add: kvs_def map_filter_def split: option.split)

lemma keyValue_stripCR [simp]: "keyValue (stripCR l) = keyValue l"
  by (simp add: keyValue_def trim_stripCR)

lemma kvs_splitLines: "kvs (splitLines s) = kvs (splitOn (CHR 0x0A) s)"
proof -
  have st: "kvs (map stripCR ls) = kvs ls" for ls by (induction ls) (simp_all split: option.split)
  have "kvs (splitLines s) = kvs (butlast (splitOn (CHR 0x0A) s) @ [last (splitOn (CHR 0x0A) s)])"
    by (simp only: splitLines_def Let_def kvs_simps(3) st)
  also have "\<dots> = kvs (splitOn (CHR 0x0A) s)"
    by (simp only: append_butlast_last_id [OF splitOn_nonempty])
  finally show ?thesis .
qed

lemma map_of_filter: "map_of (rev xs) k = map_of (rev (filter (\<lambda>(j, _). j = k) xs)) k"
  by (induction xs) (auto simp: map_add_def split: option.split)

lemma parse_lookup: "map_of (parseProperties t) k = map_of (rev (filter (\<lambda>(j, _). j = k) (kvs (splitLines t)))) k"
proof -
  have "map_of (foldl (\<lambda>out line. case keyValue line of None \<Rightarrow> out | Some (k, v) \<Rightarrow> putEnv k v out) acc ls) k =
      (case map_of (rev (kvs ls)) k of None \<Rightarrow> map_of acc k | Some v \<Rightarrow> Some v)" for acc ls
    by (induction ls arbitrary: acc) (auto simp: map_add_def split: option.split)
  then show ?thesis using map_of_filter [of "kvs (splitLines t)" k]
    by (simp add: parseProperties_def split: option.split)
qed

lemma keyValue_property: "keyOk k \<Longrightarrow> keyValue (propertyLine (k, v)) = Some (k, trim v)"
proof -
  assume k: "keyOk k"
  have "trimStart (k @ CHR ''='' # v) = k @ CHR ''='' # v"
    using k by (intro trimStart_idle) (auto simp: keyOk_def)
  moreover have "\<not> isSpace (CHR ''='')" by (simp add: isSpace_def)
  ultimately have t: "trim (k @ CHR ''='' # v) = k @ CHR ''='' # trimEnd v"
    by (simp add: trim_def trimEnd_stop)
  have "takeWhile (\<lambda>c. c \<noteq> CHR ''='') (k @ CHR ''='' # w) = k" "dropWhile (\<lambda>c. c \<noteq> CHR ''='') (k @ CHR ''='' # w) = CHR ''='' # w" for w
    using k by (auto simp: keyOk_def takeWhile_append dropWhile_append)
  moreover have "trim k = k" using k by (intro trim_idle) (auto simp: keyOk_def)
  ultimately show ?thesis
    using k by (simp add: keyValue_def propertyLine_def t Let_def trim_trimEnd) (auto simp: keyOk_def)
qed

section \<open>Editing\<close>

lemma applyLines_other:
  assumes "\<forall>(k, v) \<in> set rem. keyOk k" and "map_of rem k = None" and "applyLines rem ls = (ls', r)"
  shows "filter (\<lambda>(j, _). j = k) (kvs ls') = filter (\<lambda>(j, _). j = k) (kvs ls) \<and> set r \<subseteq> set rem \<and> map_of r k = None"
  using assms
proof (induction rem ls arbitrary: ls' r rule: applyLines.induct)
  case (1 rem)
  then show ?case by simp
next
  case (2 rem line lines)
  show ?case
  proof (cases "keyValue line")
    case None
    then obtain ls2 where "applyLines rem lines = (ls2, r)" "ls' = line # ls2"
      using 2(6) by (auto split: prod.splits)
    then show ?thesis using 2(1) [OF None 2(4,5)] None by simp
  next
    case (Some kv)
    obtain j w where kv: "kv = (j, w)" by (cases kv)
    show ?thesis
    proof (cases "map_of rem j")
      case None
      then obtain ls2 where "applyLines rem lines = (ls2, r)" "ls' = line # ls2"
        using 2(6) Some kv by (auto split: prod.splits)
      then show ?thesis using 2(2) [OF Some kv [symmetric] None 2(4,5)] Some kv by simp
    next
      case s: (Some v)
      have "j \<noteq> k" using s 2(5) by auto
      have "map_of (filter (\<lambda>(i, _). i \<noteq> j) rem) k = None"
        using 2(5) by (auto simp: map_of_eq_None_iff)
      moreover have "keyOk j" using s 2(4) by (auto dest: map_of_SomeD)
      moreover obtain ls2 where ls2: "applyLines (filter (\<lambda>(i, _). i \<noteq> j) rem) lines = (ls2, r)" "ls' = propertyLine (j, v) # ls2"
        using 2(6) Some kv s by (auto split: prod.splits)
      moreover have "\<forall>(k, v) \<in> set (filter (\<lambda>(i, _). i \<noteq> j) rem). keyOk k" using 2(4) by auto
      ultimately have "filter (\<lambda>(j, _). j = k) (kvs ls2) = filter (\<lambda>(j, _). j = k) (kvs lines) \<and>
          set r \<subseteq> set (filter (\<lambda>(i, _). i \<noteq> j) rem) \<and> map_of r k = None"
        using 2(3) [OF Some kv [symmetric] s] by blast
      then show ?thesis using ls2(2) Some kv \<open>j \<noteq> k\<close> \<open>keyOk j\<close> by (auto simp: keyValue_property)
    qed
  qed
qed

lemma applyLines_changed:
  assumes "\<forall>(k, v) \<in> set rem. keyOk k" and "distinct (map fst rem)" and "map_of rem k = Some v"
    and "length (filter (\<lambda>(j, _). j = k) (kvs ls)) \<le> 1" and "applyLines rem ls = (ls', r)"
  shows "filter (\<lambda>(j, _). j = k) (kvs (ls' @ map propertyLine r)) = [(k, trim v)]"
  using assms
proof (induction rem ls arbitrary: ls' r rule: applyLines.induct)
  case (1 rem)
  have "filter (\<lambda>(j, _). j = k) (kvs (map propertyLine rem)) = [(k, trim v)]"
    using 1(1-3)
  proof (induction rem)
    case (Cons x rem)
    obtain j w where x: "x = (j, w)" by (cases x)
    have none: "filter (\<lambda>(i, _). i = j) (kvs (map propertyLine rem)) = []"
      if "j \<notin> fst ` set rem" "\<forall>(k, v) \<in> set rem. keyOk k" for rem :: "(string \<times> string) list"
      using that by (induction rem) (auto simp: keyValue_property split: prod.splits)
    show ?case using Cons x none [of rem]
      by (cases "j = k") (auto simp: keyValue_property)
  qed simp
  then show ?case using 1(5) by simp
next
  case (2 rem line lines)
  show ?case
  proof (cases "keyValue line")
    case None
    then obtain ls2 where ls2: "applyLines rem lines = (ls2, r)" "ls' = line # ls2"
      using 2(8) by (auto split: prod.splits)
    have "length (filter (\<lambda>(j, _). j = k) (kvs lines)) \<le> 1" using 2(7) None by simp
    then show ?thesis using 2(1) [OF None 2(4-6) _ ls2(1)] ls2(2) None by simp
  next
    case (Some kv)
    obtain j w where kv: "kv = (j, w)" by (cases kv)
    show ?thesis
    proof (cases "map_of rem j")
      case None
      then have "j \<noteq> k" using 2(6) by auto
      obtain ls2 where ls2: "applyLines rem lines = (ls2, r)" "ls' = line # ls2"
        using None 2(8) Some kv by (auto split: prod.splits)
      have "length (filter (\<lambda>(j, _). j = k) (kvs lines)) \<le> 1" using 2(7) Some kv \<open>j \<noteq> k\<close> by simp
      then show ?thesis using 2(2) [OF Some kv [symmetric] None 2(4-6) _ ls2(1)] ls2(2) Some kv \<open>j \<noteq> k\<close> by simp
    next
      case s: (Some u)
      let ?rem = "filter (\<lambda>(i, _). i \<noteq> j) rem"
      obtain ls2 where ls2: "applyLines ?rem lines = (ls2, r)" "ls' = propertyLine (j, u) # ls2"
        using 2(8) Some kv s by (auto split: prod.splits)
      have ok: "\<forall>(k, v) \<in> set ?rem. keyOk k" "keyOk j" using s 2(4) by (auto dest: map_of_SomeD)
      show ?thesis
      proof (cases "j = k")
        case True
        then have "filter (\<lambda>(j, _). j = k) (kvs lines) = []" using 2(7) Some kv by simp
        moreover have "map_of ?rem k = None" using True by (auto simp: map_of_eq_None_iff)
        ultimately have o: "filter (\<lambda>(j, _). j = k) (kvs ls2) = []" "map_of r k = None" "set r \<subseteq> set ?rem"
          using applyLines_other [OF ok(1) _ ls2(1), of k] by auto
        have "filter (\<lambda>(j, _). j = k) (kvs (map propertyLine r)) = []"
          using o(2,3) ok(1) by (induction r) (auto simp: keyValue_property split: prod.splits if_splits)
        moreover have "u = v" using True s 2(6) by simp
        ultimately show ?thesis using ls2(2) o(1) True ok(2) by (simp add: keyValue_property)
      next
        case False
        have "map_of ?rem k = Some v" using False 2(6) by (induction rem) auto
        moreover have "distinct (map fst ?rem)" using 2(5) by (simp add: distinct_map_filter)
        moreover have "length (filter (\<lambda>(j, _). j = k) (kvs lines)) \<le> 1" using 2(7) Some kv False by simp
        ultimately have "filter (\<lambda>(j, _). j = k) (kvs (ls2 @ map propertyLine r)) = [(k, trim v)]"
          using 2(3) [OF Some kv [symmetric] s ok(1) _ _ _ ls2(1)] by blast
        then show ?thesis using ls2(2) False ok(2) by (simp add: keyValue_property)
      qed
    qed
  qed
qed

section \<open>The text written back\<close>

lemma stripCR_subset: "set (stripCR l) \<subseteq> set l"
  by (auto simp: stripCR_def dest: in_set_butlastD)

lemma splitLines_plain: "l \<in> set (splitLines t) \<Longrightarrow> CHR 0x0A \<notin> set l"
proof -
  assume "l \<in> set (splitLines t)"
  then consider w where "w \<in> set (splitOn (CHR 0x0A) t)" "l = stripCR w" | "l = last (splitOn (CHR 0x0A) t)"
    by (auto simp: splitLines_def Let_def dest: in_set_butlastD)
  then show ?thesis
  proof cases
    case 1
    then show ?thesis using splitOn_parts stripCR_subset by blast
  next
    case 2
    then show ?thesis using splitOn_parts [OF last_in_set [OF splitOn_nonempty]] by simp
  qed
qed

lemma kvs_join:
  assumes "\<And>l. l \<in> set ls \<Longrightarrow> CHR 0x0A \<notin> set l"
  shows "kvs (splitLines (joinWith [CHR 0x0A] ls)) = kvs ls"
proof (cases "ls = []")
  case True
  then show ?thesis by (simp add: splitLines_def keyValue_def trim_def trimStart_def trimEnd_def)
next
  case False
  then show ?thesis using split_joinWith [of ls "CHR 0x0A"] assms by (simp add: kvs_splitLines)
qed

lemma applyLines_subset:
  assumes "applyLines rem ls = (ls', r)"
  shows "set ls' \<subseteq> set ls \<union> propertyLine ` set rem \<and> set r \<subseteq> set rem"
  using assms
proof (induction rem ls arbitrary: ls' r rule: applyLines.induct)
  case (1 rem)
  then show ?case by auto
next
  case (2 rem line lines)
  show ?case
  proof (cases "keyValue line")
    case None
    then obtain ls2 where "applyLines rem lines = (ls2, r)" "ls' = line # ls2"
      using 2(4) by (auto split: prod.splits)
    then show ?thesis using 2(1) [OF None, of ls2 r] by auto
  next
    case (Some kv)
    obtain j w where kv: "kv = (j, w)" by (cases kv)
    show ?thesis
    proof (cases "map_of rem j")
      case None
      then obtain ls2 where "applyLines rem lines = (ls2, r)" "ls' = line # ls2"
        using 2(4) Some kv by (auto split: prod.splits)
      then show ?thesis using 2(2) [OF Some kv [symmetric] None, of ls2 r] by auto
    next
      case s: (Some v)
      then obtain ls2 where ls2: "applyLines (filter (\<lambda>(i, _). i \<noteq> j) rem) lines = (ls2, r)" "ls' = propertyLine (j, v) # ls2"
        using 2(4) Some kv by (auto split: prod.splits)
      have "propertyLine (j, v) \<in> propertyLine ` set rem" using map_of_SomeD [OF s] by (rule imageI)
      moreover have "set ls2 \<subseteq> set lines \<union> propertyLine ` set rem" "set r \<subseteq> set rem"
        using 2(3) [OF Some kv [symmetric] s ls2(1)] by auto
      ultimately show ?thesis using ls2(2) by auto
    qed
  qed
qed

lemma keyOk_fields: "\<forall>f \<in> set (profileFields t). keyOk (sf_key f)"
proof -
  have "list_all (\<lambda>f. keyOk (sf_key f)) JAVA_FIELDS" "list_all (\<lambda>f. keyOk (sf_key f)) BEDROCK_FIELDS"
    by code_simp+
  then show ?thesis by (simp add: profileFields_def list_all_iff)
qed

lemma profile_keys_distinct: "distinct (map sf_key (profileFields t))"
proof -
  have "distinct (map sf_key JAVA_FIELDS)" "distinct (map sf_key BEDROCK_FIELDS)" by code_simp+
  then show ?thesis by (simp add: profileFields_def)
qed

lemma fieldOf_Some: "fieldOf k fs = Some f \<Longrightarrow> f \<in> set fs \<and> sf_key f = k"
  by (auto simp: fieldOf_def find_Some_iff)

lemma showInt_plain: "CHR 0x0A \<notin> set (showInt n)"
proof -
  have "CHR 0x0A \<notin> set (showNat m)" for m
    using showNat_digits [of m] by (auto simp: list_all_iff isDigit_def)
  then show ?thesis by (simp add: showInt_def)
qed

lemma options_plain: "\<forall>f \<in> set (profileFields t). \<forall>v \<in> set (sf_options f). CHR 0x0A \<notin> set v"
proof -
  have "list_all (\<lambda>f. list_all (\<lambda>v. CHR 0x0A \<notin> set v) (sf_options f)) JAVA_FIELDS"
    "list_all (\<lambda>f. list_all (\<lambda>v. CHR 0x0A \<notin> set v) (sf_options f)) BEDROCK_FIELDS"
    by code_simp+
  then show ?thesis by (simp add: profileFields_def list_all_iff)
qed

lemma coerce_line:
  assumes "coerce other f raw = Some v" and "\<forall>v \<in> set (sf_options f). CHR 0x0A \<notin> set v"
  shows "CHR 0x0A \<notin> set v"
proof (cases "sf_type f")
  case Number
  then obtain n where "v = showInt n"
    using assms(1) by (auto simp: coerce_def split: option.splits if_splits)
  then show ?thesis by (simp add: showInt_plain)
next
  case Boolean
  then have "v = ''true'' \<or> v = ''false''" using assms(1) by (auto simp: coerce_def split: if_splits)
  then show ?thesis by auto
qed (use assms in \<open>auto simp: coerce_def split: if_splits\<close>)

lemma sortChanges_accepted:
  assumes "sortChanges other fs cs = (acc, rej)" and "(k, v) \<in> set acc"
  shows "\<exists>f raw. fieldOf k fs = Some f \<and> (k, raw) \<in> set cs \<and> coerce other f raw = Some v"
  using assms
proof (induction cs arbitrary: acc rej)
  case (Cons c cs)
  obtain j raw where c: "c = (j, raw)" by (cases c)
  obtain acc' rej' where r: "sortChanges other fs cs = (acc', rej')" by (cases "sortChanges other fs cs")
  show ?case
  proof (cases "(k, v) \<in> set acc'")
    case True
    then show ?thesis using Cons.IH [OF r] c by auto
  next
    case False
    then show ?thesis using Cons.prems c r by (auto split: option.splits)
  qed
qed simp

lemma sortChanges_keys:
  assumes "sortChanges other fs cs = (acc, rej)"
  shows "set (map fst acc) \<subseteq> set (map fst cs) \<and> (distinct (map fst cs) \<longrightarrow> distinct (map fst acc))"
  using assms
proof (induction cs arbitrary: acc rej)
  case (Cons c cs)
  obtain j raw where c: "c = (j, raw)" by (cases c)
  obtain acc' rej' where r: "sortChanges other fs cs = (acc', rej')" by (cases "sortChanges other fs cs")
  have "set (map fst acc) \<subseteq> insert j (set (map fst acc'))" "acc = acc' \<or> (\<exists>v. acc = (j, v) # acc')"
    using Cons.prems c r by (auto split: option.splits)
  then show ?case using Cons.IH [OF r] c by auto
qed simp

section \<open>Properties\<close>

lemma accepted_lines:
  assumes "sortChanges other (editableFields t) changes = (accepted, rejected)" and "(k, v) \<in> set accepted"
  shows "keyOk k \<and> CHR 0x0A \<notin> set (propertyLine (k, v))"
proof -
  obtain f raw where f: "fieldOf k (editableFields t) = Some f" "coerce other f raw = Some v"
    using sortChanges_accepted [OF assms] by blast
  then have m: "f \<in> set (profileFields t)" "sf_key f = k"
    using fieldOf_Some [OF f(1)] by (auto simp: editableFields_def)
  have "keyOk k" using keyOk_fields m by blast
  moreover have "CHR 0x0A \<notin> set v" using coerce_line [OF f(2)] options_plain m by blast
  ultimately show ?thesis by (auto simp: propertyLine_def keyOk_def)
qed

lemma kvs_written:
  assumes "sortChanges other (editableFields t) changes = (accepted, rejected)"
    and "applyLines accepted (splitLines original) = (ls, r)"
  shows "kvs (splitLines (applyProperties original accepted)) = kvs (ls @ map propertyLine r)"
proof -
  have "CHR 0x0A \<notin> set l" if "l \<in> set (ls @ map propertyLine r)" for l
  proof -
    have "l \<in> set (splitLines original) \<or> (\<exists>x \<in> set accepted. l = propertyLine x)"
      using that applyLines_subset [OF assms(2)] by auto
    then show ?thesis using splitLines_plain accepted_lines [OF assms(1)] by auto
  qed
  then have "kvs (splitLines (joinWith [CHR 0x0A] (ls @ map propertyLine r))) = kvs (ls @ map propertyLine r)"
    by (rule kvs_join)
  then show ?thesis using assms(2) by (simp add: applyProperties_def)
qed

lemma unmentioned:
  assumes "\<forall>(k, v) \<in> set rem. keyOk k" and "map_of rem k = None" and "applyLines rem ls = (ls', r)"
  shows "filter (\<lambda>(j, _). j = k) (kvs (ls' @ map propertyLine r)) = filter (\<lambda>(j, _). j = k) (kvs ls)"
proof -
  have o: "filter (\<lambda>(j, _). j = k) (kvs ls') = filter (\<lambda>(j, _). j = k) (kvs ls)" "set r \<subseteq> set rem" "map_of r k = None"
    using applyLines_other [OF assms] by auto
  have "filter (\<lambda>(j, _). j = k) (kvs (map propertyLine r)) = []"
    using o(2,3) assms(1) by (induction r) (auto simp: keyValue_property split: prod.splits if_splits)
  then show ?thesis using o(1) by simp
qed


text \<open>A key the profile does not offer for editing, such as \<open>server-port\<close>, reads the same after
  any edit, however the request was made up.\<close>

theorem managed_keys_untouched:
  assumes "fieldOf k (editableFields t) = None"
  shows "map_of (parseProperties (applyProperties original (fst (sortChanges other (editableFields t) changes)))) k =
    map_of (parseProperties original) k"
proof -
  obtain accepted rejected where s: "sortChanges other (editableFields t) changes = (accepted, rejected)" by fastforce
  obtain ls r where a: "applyLines accepted (splitLines original) = (ls, r)" by fastforce
  have ok: "\<forall>(k, v) \<in> set accepted. keyOk k" using accepted_lines [OF s] by blast
  have "map_of accepted k = None"
    using sortChanges_accepted [OF s] assms by (fastforce simp: map_of_eq_None_iff)
  then show ?thesis using unmentioned [OF ok _ a]
    by (simp only: s fst_conv parse_lookup [of _ k] kvs_written [OF s a])
qed

text \<open>C24. An accepted value has the type of its field: a Boolean or an option of the list, a whole
  number within the bounds, or one line of at most 512 characters.\<close>

theorem coerce_typed:
  assumes "coerce other f raw = Some v"
  shows "case sf_type f of
      Boolean \<Rightarrow> v \<in> {''true'', ''false''}
    | Select \<Rightarrow> v \<in> set (sf_options f)
    | Text \<Rightarrow> length v \<le> 512 \<and> CHR 0x0D \<notin> set v \<and> CHR 0x0A \<notin> set v
    | Number \<Rightarrow> (\<exists>n. v = showInt n \<and> (case sf_min f of None \<Rightarrow> True | Some lo \<Rightarrow> lo \<le> n) \<and>
        (case sf_max f of None \<Rightarrow> True | Some hi \<Rightarrow> n \<le> hi))"
proof (cases "sf_type f")
  case Number
  then obtain q :: rat where q: "v = showInt \<lfloor>q + 1 / 2\<rfloor>"
    "case sf_min f of None \<Rightarrow> True | Some lo \<Rightarrow> of_int lo \<le> q" "case sf_max f of None \<Rightarrow> True | Some hi \<Rightarrow> q \<le> of_int hi"
    using assms by (auto simp: coerce_def not_less split: option.splits if_splits)
  have "lo \<le> \<lfloor>q + 1 / 2\<rfloor>" if "of_int lo \<le> q" for lo
    using that by (simp add: le_floor_iff)
  moreover have "\<lfloor>q + 1 / 2\<rfloor> \<le> hi" if "q \<le> of_int hi" for hi
    using that by (simp add: floor_le_iff)
  ultimately show ?thesis using q Number by (auto split: option.splits)
qed (use assms in \<open>auto simp: coerce_def split: if_splits\<close>)

text \<open>A key the file mentions twice is edited where it stands first and read where it stands last:
  the change is reported as saved and has no effect.\<close>

lemma duplicate_key_ineffective:
  "map_of (parseProperties (applyProperties ''pvp=true\<newline>pvp=true'' [(''pvp'', ''false'')])) ''pvp'' = Some ''true''"
  by code_simp

end
