(* ===== verification/AgentScenarios.thy ===== *)
theory AgentScenarios
  imports Scenarios AgentRuntime GameSettings "HOL-Library.Countable"
begin

text \<open>
  The properties of the agent's file operations, containers, archives, updates and runtime, and of
  the settings editor, applied at concrete inputs.
\<close>

section \<open>Inputs\<close>

definition jailed :: fs where
  "jailed = [([''v''], DirE), ([''v'', ''a''], FileE ''hi''), ([''v'', ''up''], LinkE False [''..'', ''w'']),
     ([''w''], DirE), ([''w'', ''secret''], FileE ''x'')]"

definition sampleReply :: DockerReply where
  "sampleReply = \<lparr>dr_images = 1,
     dr_info = \<lparr>ci_Id = ''c1'', ci_State = C_running, ci_serverId = Some ''s1'', ci_StartedAt = None\<rparr>,
     dr_stats = \<lparr>cs_total = 20, cs_pretotal = 10, cs_system = 100, cs_presystem = Some 50, cs_onlineCpus = Some 2,
       cs_usage = None, cs_limit = None\<rparr>,
     dr_containers = [\<lparr>ci_Id = ''c1'', ci_State = C_exited, ci_serverId = Some ''s1'', ci_StartedAt = None\<rparr>,
       \<lparr>ci_Id = ''c2'', ci_State = C_exited, ci_serverId = Some ''s9'', ci_StartedAt = None\<rparr>]\<rparr>"

definition sampleDocker :: dockerEnv where
  "sampleDocker = \<lparr>de_daemon = (\<lambda>_ _. Inr sampleReply), de_latency = (\<lambda>_. 1), de_dataRoot = ''/data''\<rparr>"

definition sampleHost :: host where
  "sampleHost = \<lparr>h_fs = [([''data''], DirE)], h_now = 0, h_docker = []\<rparr>"

definition sampleServerSpec :: CreateServerSpec where
  "sampleServerSpec = \<lparr>sp_serverId = ''s1'', sp_shortId = ''s'', sp_image = ''i'', sp_startCommand = ''run'', sp_stopCommand = [],
     sp_environment = [], sp_memoryMb = 1024, sp_diskMb = 1, sp_cpuCores = 1, sp_ports = []\<rparr>"

section \<open>The volume\<close>


theorem file_operations_confined_witness:
  "entry (snd (deleteFiles [''v''] [''a'', ''up'', ''up/secret''] jailed)) [''w'', ''secret''] = Some (FileE ''x'')"
proof -
  have "entry jailed [''w'', ''secret''] = Some (FileE ''x'')" "\<not> strict_prefix [''v''] [''w'', ''secret'']" by code_simp+
  moreover have "clean [''v'']" "linksClean jailed" by code_simp+
  ultimately show ?thesis using file_operations_confined [of "[''v'']" jailed] by simp
qed

theorem container_isolated_witness:
  "\<exists>cfg. last (h_docker (snd (createServer sampleDocker sampleServerSpec sampleHost))) = CreateContainer cfg \<and>
     cc_Binds cfg = [pathString (volumeOf sampleDocker ''s1'') @ '':/home/container:rw'']"
proof -
  have "fst (createServer sampleDocker sampleServerSpec sampleHost) = Inr ''c1''" by code_simp
  then have "createServer sampleDocker sampleServerSpec sampleHost =
      (Inr ''c1'', snd (createServer sampleDocker sampleServerSpec sampleHost))"
    by (simp add: prod_eq_iff)
  from container_isolated [OF _ _ _ _ _ _ this, of "''s1''" "''s2''"] show ?thesis
    by (auto simp: ordinary_def sampleServerSpec_def)
qed

theorem dirBytes_flat_witness:
  "dirBytes jailed [''v''] = (\<Sum>x \<in> below jailed [''v'']. fileSize (snd x))"
  by (rule dirBytes_flat) code_simp

section \<open>Archives\<close>

definition archived :: fs where
  "archived = [([''data''], DirE), ([''data'', ''s1''], DirE), ([''data'', ''s1'', ''old''], FileE ''x''),
     ([''bk''], DirE), ([''bk'', ''k''], FileE ''arch'')]"

definition sampleArchiver :: archiver where
  "sampleArchiver = \<lparr>ar_backupRoot = ''/bk'', ar_key = (\<lambda>i k. k), ar_pack = (\<lambda>_ _. ''arch''),
     ar_unpack = (\<lambda>s. if s = ''arch'' then ([([''a''], FileE ''hi'')], True) else ([], False)), ar_sha256 = (\<lambda>s. s)\<rparr>"

lemma archived_solid: "solidDir archived [''data'']" "solidDir archived [''bk'']"
  using solidDir_snoc [of archived "[]"] by (simp_all add: ordinary_def entry_def archived_def)

theorem restore_all_or_nothing_witness:
  "fst (restoreArchive sampleArchiver sampleDocker ''s1'' ''k'' archived) = Inr () \<and>
     entry (snd (restoreArchive sampleArchiver sampleDocker ''s1'' ''k'' archived)) [''data'', ''s1'', ''a''] = Some (FileE ''hi'')"
proof -
  let ?r = "restoreArchive sampleArchiver sampleDocker ''s1'' ''k'' archived"
  have "volumeOf sampleDocker ''s1'' = [''data''] @ [''s1'']" "resolveKey (ar_backupRoot sampleArchiver) (ar_key sampleArchiver ''s1'' ''k'') = Inr [''bk'', ''k'']"
    "entry archived [''bk'', ''k''] = Some (FileE ''arch'')" "ar_unpack sampleArchiver ''arch'' = ([([''a''], FileE ''hi'')], True)"
    by code_simp+
  moreover have "settled archived [''bk'', ''k'']"
    using archived_solid(2) by (simp add: settled_def ordinary_def archived_def entry_def)
  ultimately show ?thesis
    using restore_all_or_nothing [of sampleDocker "''s1''" "[''data'']" "''s1''" archived sampleArchiver "''k''" "[''bk'', ''k'']"
        "''arch''" "[([''a''], FileE ''hi'')]" True "fst ?r" "snd ?r"] archived_solid(1)
    by (auto simp: ordinary_def)
qed

text \<open>An archiver that keeps everything: the text of an archive has the number of the directory as
  its length.\<close>

instance fsEntry :: countable
  by countable_datatype

definition subtree :: "fs \<Rightarrow> path \<Rightarrow> fs" where
  "subtree fs p = map (\<lambda>(q, e). (drop (length p) q, e)) (filter (\<lambda>(q, _). strict_prefix p q) fs)"

definition unaryArchiver :: archiver where
  "unaryArchiver = sampleArchiver\<lparr>ar_pack := \<lambda>fs p. replicate (to_nat (subtree fs p)) (CHR ''a''),
     ar_unpack := \<lambda>s. (rev (from_nat (length s)), True)\<rparr>"

lemma subtree_lookup: "x \<noteq> [] \<Longrightarrow> map_of (subtree fs p) x = entry fs (p @ x)"
proof (induction fs)
  case (Cons z fs)
  obtain q e where z: "z = (q, e)" by (cases z)
  show ?case
  proof (cases "prefix p q")
    case True
    then obtain w where "q = p @ w" by (auto simp: prefix_def)
    then show ?thesis using Cons z by (auto simp: subtree_def entry_def strict_prefix_def)
  next
    case False
    then have "q \<noteq> p @ x" by auto
    then show ?thesis using Cons z False by (auto simp: subtree_def entry_def strict_prefix_def)
  qed
qed (simp add: subtree_def entry_def)

lemma subtree_proper: "[] \<notin> fst ` set (subtree fs p)"
  by (auto simp: subtree_def strict_prefix_def prefix_def)

lemma unaryArchiver_ops:
  "ar_unpack unaryArchiver (ar_pack unaryArchiver fs p) = (rev (subtree fs p), True)"
  "ar_backupRoot unaryArchiver = ''/bk''" "ar_key unaryArchiver i k = k"
  by (simp_all add: unaryArchiver_def sampleArchiver_def)

lemma archived_put: "storePut ''/bk'' ''new'' b archived = (Inr (length b), putEntry [''bk'', ''new''] (FileE b) archived)"
  by code_simp

theorem backup_roundtrip_witness:
  "\<exists>n h fs1. createArchive unaryArchiver sampleDocker ''s1'' ''new'' archived = (Inr (n, h), fs1) \<and>
     entry (snd (restoreArchive unaryArchiver sampleDocker ''s1'' ''new'' fs1)) [''data'', ''s1'', ''old''] = Some (FileE ''x'')"
proof -
  let ?b = "ar_pack unaryArchiver archived (volumeOf sampleDocker ''s1'')"
  let ?fs = "putEntry [''bk'', ''new''] (FileE ?b) archived"
  have c: "createArchive unaryArchiver sampleDocker ''s1'' ''new'' archived = (Inr (length ?b, ar_sha256 unaryArchiver ?b), ?fs)"
    by (simp add: createArchive_def andThen_def readState_def ret_def unaryArchiver_ops archived_put)
  have k: "resolveKey (ar_backupRoot unaryArchiver) (ar_key unaryArchiver ''s1'' ''new'') = Inr [''bk'', ''new'']"
    by (simp only: unaryArchiver_ops) code_simp
  have v: "volumeOf sampleDocker ''s1'' = [''data''] @ [''s1'']" by code_simp
  have s: "settled ?fs [''bk'', ''new'']" "solidDir ?fs [''data'']"
    using archived_solid solid_putEntry [of "[''bk'']" "''new''" "FileE ?b" archived]
      solidDir_snoc [of ?fs "[]" "''data''"]
    by (simp_all add: settled_def ordinary_def entry_putEntry) (simp add: entry_def archived_def)
  have "entry (snd (restoreArchive unaryArchiver sampleDocker ''s1'' ''new'' ?fs)) ([''data''] @ [''s1''] @ [''old'']) =
      entry archived ([''data''] @ [''s1''] @ [''old''])"
    using backup_roundtrip [OF _ _ c k refl s(1) v s(2), of "fst (restoreArchive unaryArchiver sampleDocker ''s1'' ''new'' ?fs)"
        "snd (restoreArchive unaryArchiver sampleDocker ''s1'' ''new'' ?fs)"]
    by (simp add: unaryArchiver_ops subtree_lookup subtree_proper ordinary_def)
  then show ?thesis using c by (simp add: entry_def archived_def)
qed

section \<open>Updates\<close>

definition installed :: fs where
  "installed = [([''bin''], DirE), ([''bin'', ''agent''], FileE ''v1'')]"

definition sampleOffer :: UpdateOffer where
  "sampleOffer = \<lparr>uo_version = ''2'', uo_url = ''u'', uo_sha256 = ''v2''\<rparr>"

definition sampleFetch :: "string \<Rightarrow> string + nat \<times> string" where
  "sampleFetch u = Inr (200, ''v2'')"

lemma installed_ok: "installable [''bin''] ''agent'' installed"
  using solidDir_snoc [of installed "[]" "''bin''"] by (simp add: installable_def ordinary_def entry_def installed_def)

lemma sample_update: "applyUpdate sampleFetch (\<lambda>s. s) ([''bin''] @ [''agent'']) sampleOffer ''1'' installed =
    (Inr True, snd (applyUpdate sampleFetch (\<lambda>s. s) [''bin'', ''agent''] sampleOffer ''1'' installed))"
proof -
  have "fst (applyUpdate sampleFetch (\<lambda>s. s) [''bin'', ''agent''] sampleOffer ''1'' installed) = Inr True" by code_simp
  then show ?thesis by (simp add: prod_eq_iff)
qed

theorem update_verified_witness:
  "entry (snd (applyUpdate sampleFetch (\<lambda>s. s) [''bin'', ''agent''] sampleOffer ''1'' installed)) [''bin'', ''agent''] = Some (FileE ''v2'')"
  using update_verified [OF installed_ok sample_update] by (auto simp: sampleFetch_def)

theorem rollback_restores_witness:
  "\<exists>fs''. rollback ([''bin''] @ [''agent'']) (snd (applyUpdate sampleFetch (\<lambda>s. s) [''bin'', ''agent''] sampleOffer ''1'' installed)) = (Inr (), fs'') \<and>
     entry fs'' ([''bin''] @ [''agent'']) = Some (FileE ''v1'')"
  by (rule rollback_restores [OF installed_ok _ _ sample_update]) (code_simp+)

section \<open>The runtime\<close>

definition sampleRuntimeEnv :: runtimeEnv where
  "sampleRuntimeEnv = \<lparr>re_docker = sampleDocker, re_archiver = sampleArchiver,
     re_lstat = (\<lambda>_. \<lparr>ino_size = 0, ino_mtimeMs = 0, ino_mode = 420\<rparr>), re_collate = map of_char,
     re_toBase64 = (\<lambda>s. s), re_fromBase64 = (\<lambda>s. s), re_fetch = sampleFetch, re_parseRelease = (\<lambda>_. None),
     re_autoUpdate = False, re_panelUrl = ''wss://panel/agent'', re_nodeId = ''n1'', re_token = ''t'',
     re_install = [''bin'', ''agent''], re_argv1 = [''bin'', ''agent'']\<rparr>"

definition sampleRuntime :: runtime where
  "sampleRuntime = \<lparr>ag_host = sampleHost, ag_open = True, ag_sent = [], ag_consoles = (\<lambda>_. None), ag_heartbeat = None,
     ag_reconnectAttempt = 0, ag_shuttingDown = False, ag_timers = [], ag_exiting = False\<rparr>"


theorem reconcile_exact_witness:
  "\<exists>t. reconcile sampleRuntimeEnv [''s1''] sampleRuntime = (Inr (), t) \<and>
     ag_sent t = [StateMsg ''s1'' C_exited None] \<and>
     h_docker (ag_host t) = [ListContainers, RemoveContainer (containerName ''s9'')]"
proof -
  have "onHost (listServers (re_docker sampleRuntimeEnv)) sampleRuntime =
      (Inr [stub ''s1'' (hd (dr_containers sampleReply)), stub ''s9'' (last (dr_containers sampleReply))],
       sampleRuntime\<lparr>ag_host := sampleHost\<lparr>h_docker := [ListContainers], h_now := 1\<rparr>\<rparr>)"
    by (simp add: onHost_def listServers_def docker_def andThen_def ret_def sampleRuntimeEnv_def sampleDocker_def
        sampleRuntime_def sampleHost_def sampleReply_def)
  from reconcile_exact [OF this, of "[''s1'']"] show ?thesis
    by (auto simp: sampleRuntime_def sampleHost_def sampleReply_def stub_def)
qed

theorem reconnect_bounds_witness:
  "1000 \<le> reconnectDelay 3 (1 / 2) \<and> reconnectDelay 3 (1 / 2) \<le> 60000"
  using reconnect_bounds [of "1 / 2" 3] by simp

definition sampleTimes :: "rat \<Rightarrow> cpuTimes" where
  "sampleTimes k = \<lparr>ct_user = k, ct_nice = 0, ct_sys = 0, ct_idle = 2 * k, ct_irq = 0\<rparr>"

theorem cpu_percent_bounds_witness:
  "0 \<le> nodeCpuPercent [sampleTimes 1] [sampleTimes 2, sampleTimes 9] \<and>
     nodeCpuPercent [sampleTimes 1] [sampleTimes 2, sampleTimes 9] \<le> 100"
  by (rule cpu_percent_bounds) (simp add: countersGrow_def sampleTimes_def)

definition sampleConsole :: gateway where
  "sampleConsole = sampleConnected\<lparr>g_clients := (\<lambda>_. None)(7 \<mapsto> sampleTicket), g_published := []\<rparr>"

definition typed :: ClientMessage where
  "typed = \<lparr>cm_type = ''command'', cm_command = Some ''say hi''\<rparr>"


section \<open>Settings\<close>

definition sampleProperties :: string where
  "sampleProperties = ''#comment'' @ [CHR 0x0A] @ ''pvp = true'' @ [CHR 0x0A] @ ''server-port=25565''"

lemma sample_changes: "sortChanges (\<lambda>_. None) (editableFields ''java'') [(''pvp'', ''false''), (''server-port'', ''1'')] =
    ([(''pvp'', ''false'')], [''server-port''])"
  by code_simp


theorem managed_keys_untouched_witness:
  "map_of (parseProperties (applyProperties sampleProperties (fst (sortChanges (\<lambda>_. None) (editableFields ''java'')
     [(''pvp'', ''false''), (''server-port'', ''1'')])))) ''server-port'' = Some ''25565''"
proof -
  have "fieldOf ''server-port'' (editableFields ''java'') = None"
    "map_of (parseProperties sampleProperties) ''server-port'' = Some ''25565''" by code_simp+
  then show ?thesis by (simp only: managed_keys_untouched)
qed

theorem coerce_typed_witness:
  "\<exists>n. ''7'' = showInt n \<and> 1 \<le> n \<and> n \<le> 200"
proof -
  have "coerce (\<lambda>_. None) (rangeField ''max-players'' 1 200) ''6.5'' = Some ''7''" by code_simp
  from coerce_typed [OF this] show ?thesis by (simp add: rangeField_def plainField_def)
qed

end
