(* ===== verification/Mods.thy ===== *)
theory Mods
  imports AgentFiles Access
begin

text \<open>
  Mods, plugins and addons, \<open>apps/panel/src/lib/mods.ts\<close>, and their route. Links are parsed and
  fetched by the platform: what \<open>new URL\<close> and \<open>fetch\<close> give for a text are fields of the environment.
\<close>

section \<open>Where content belongs\<close>

definition MAX_BYTES :: nat where
  "MAX_BYTES = 150 * 1024 * 1024"

record ModSlot =
  ms_id :: string
  ms_dir :: string
  ms_label :: string
  ms_extensions :: "string list"

definition LAYOUT :: "(string \<times> (string \<Rightarrow> ModSlot)) list" where
  "LAYOUT =
    [(''minecraft-java-paper'', \<lambda>i. \<lparr>ms_id = i, ms_dir = ''/plugins'', ms_label = ''Plugins'', ms_extensions = [''.jar'']\<rparr>),
     (''minecraft-java-forge'', \<lambda>i. \<lparr>ms_id = i, ms_dir = ''/mods'', ms_label = ''Mods'', ms_extensions = [''.jar'']\<rparr>),
     (''minecraft-bedrock-behavior'', \<lambda>i. \<lparr>ms_id = i, ms_dir = ''/behavior_packs'', ms_label = ''Behaviour packs'',
        ms_extensions = [''.mcpack'', ''.mcaddon'', ''.zip'']\<rparr>),
     (''minecraft-bedrock-resource'', \<lambda>i. \<lparr>ms_id = i, ms_dir = ''/resource_packs'', ms_label = ''Resource packs'',
        ms_extensions = [''.mcpack'', ''.mcaddon'', ''.zip'']\<rparr>)]"

definition layoutSlot :: "string \<Rightarrow> string \<Rightarrow> ModSlot" where
  "layoutSlot i k = the (map_of LAYOUT k) i"

text \<open>Case conversion, on ASCII letters.\<close>

definition lowerChar :: "char \<Rightarrow> char" where
  "lowerChar c = (let n = of_char c :: nat in if 65 \<le> n \<and> n \<le> 90 then char_of (n + 32) else c)"

definition upperChar :: "char \<Rightarrow> char" where
  "upperChar c = (let n = of_char c :: nat in if 97 \<le> n \<and> n \<le> 122 then char_of (n - 32) else c)"

definition toLowerCase :: "string \<Rightarrow> string" where
  "toLowerCase = map lowerChar"

definition toUpperCase :: "string \<Rightarrow> string" where
  "toUpperCase = map upperChar"

text \<open>\<open>(env.TYPE ?? "VANILLA").toUpperCase()\<close>\<close>

definition serverType :: "Server \<Rightarrow> string" where
  "serverType server = toUpperCase (case map_of (s_environment server) ''TYPE'' of Some t \<Rightarrow> t | None \<Rightarrow> ''VANILLA'')"

definition slotsFor :: "Server \<Rightarrow> GameTemplate \<Rightarrow> ModSlot list" where
  "slotsFor server template =
     (if includesStr (t_key template) ''bedrock''
      then [layoutSlot ''behavior'' ''minecraft-bedrock-behavior'', layoutSlot ''resource'' ''minecraft-bedrock-resource'']
      else if serverType server \<in> {''PAPER'', ''SPIGOT'', ''BUKKIT'', ''PURPUR'', ''FOLIA''}
      then [layoutSlot ''plugins'' ''minecraft-java-paper'']
      else if serverType server \<in> {''FORGE'', ''NEOFORGE'', ''FABRIC'', ''QUILT''}
      then [layoutSlot ''mods'' ''minecraft-java-forge'']
      else [])"

definition slotsForServer :: "ident \<Rightarrow> ModSlot list act" where
  "slotsForServer serverId =
     andThen (orThrow (NotFoundError ''Server'') (findServer serverId)) (\<lambda>server.
     andThen (orThrow (NotFoundError ''GameTemplate'') (findTemplate (s_templateId server))) (\<lambda>template.
     ret (slotsFor server template)))"

section \<open>The outside world\<close>

record Url =
  ur_protocol :: string
  ur_hostname :: string
  ur_pathname :: string

record Download =
  dl_status :: nat
  dl_contentLength :: "nat option" \<comment> \<open>\<open>None\<close> where the header is missing or no number\<close>
  dl_body :: string

record ModFile =
  mf_url :: string
  mf_primary :: bool

record modEnv =
  me_parseUrl :: "string \<Rightarrow> Url option"
  me_fetch :: "string \<Rightarrow> string + Download"
  me_decodeURI :: "string \<Rightarrow> string option"
  me_toBase64 :: "string \<Rightarrow> string"
  me_versions :: "string \<Rightarrow> string option \<Rightarrow> string \<Rightarrow> string + nat \<times> ModFile list list"
    \<comment> \<open>Modrinth's versions of a project for a game version and a loader\<close>
  me_entries :: "AgentReply \<Rightarrow> FileEntry list"

section \<open>Fetching\<close>

definition ALLOWED_HOSTS :: "string list" where
  "ALLOWED_HOSTS = [''cdn.modrinth.com'', ''mediafilez.forgecdn.net'', ''edge.forgecdn.net'', ''github.com'',
     ''objects.githubusercontent.com'', ''dev.bukkit.org'', ''hangarcdn.papermc.io'']"

definition allowedHost :: "string \<Rightarrow> bool" where
  "allowedHost host = list_ex (\<lambda>h. host = h \<or> endsWith host (CHR ''.'' # h)) ALLOWED_HOSTS"

definition tooLarge :: exn where
  "tooLarge = ModError ''That file is larger than 150 MB.''"

definition fetchContent :: "modEnv \<Rightarrow> string \<Rightarrow> (string \<times> string) act" where
  "fetchContent env url =
     andThen (orThrow (ModError ''That does not look like a valid link.'') (\<lambda>_. me_parseUrl env url)) (\<lambda>parsed.
     andThen (require (ur_protocol parsed = ''https:'') (ModError ''Only https links are accepted.'')) (\<lambda>_.
     andThen (require (allowedHost (ur_hostname parsed))
       (ModError (''Downloads are limited to known mod hosts. '' @ ur_hostname parsed @ '' is not one of them.''))) (\<lambda>_.
     andThen (case me_fetch env url of Inl m \<Rightarrow> throw (Error m) | Inr d \<Rightarrow> ret d) (\<lambda>res.
     andThen (require (200 \<le> dl_status res \<and> dl_status res \<le> 299)
       (ModError (''The download failed ('' @ showNat (dl_status res) @ '').''))) (\<lambda>_.
     andThen (require (case dl_contentLength res of None \<Rightarrow> True | Some n \<Rightarrow> n \<le> MAX_BYTES) tooLarge) (\<lambda>_.
     andThen (require (length (dl_body res) \<le> MAX_BYTES) tooLarge) (\<lambda>_.
     andThen (orThrow (Error ''URI malformed'') (\<lambda>_. me_decodeURI env (last (splitOn (CHR ''/'') (ur_pathname parsed))))) (\<lambda>fromUrl.
     ret (dl_body res, if fromUrl = [] then ''download.jar'' else fromUrl)))))))))"

section \<open>Filenames\<close>

text \<open>\<open>name.replace(/^.*[\\/]/, "")\<close>: up to the last slash of the first line.\<close>

definition afterSlash :: "string \<Rightarrow> string" where
  "afterSlash name =
     (let slash = (\<lambda>c. c = CHR 0x5C \<or> c = CHR ''/''); eol = (\<lambda>c. c = CHR 0x0A \<or> c = CHR 0x0D);
          line = takeWhile (\<lambda>c. \<not> eol c) name; rest = dropWhile (\<lambda>c. \<not> eol c) name
      in if list_ex slash line then rev (takeWhile (\<lambda>c. \<not> slash c) (rev line)) @ rest else name)"

text \<open>\<open>[\w .()\-\[\]]\<close>\<close>

definition nameChar :: "char \<Rightarrow> bool" where
  "nameChar c = (let n = of_char c :: nat in
     48 \<le> n \<and> n \<le> 57 \<or> 65 \<le> n \<and> n \<le> 90 \<or> 97 \<le> n \<and> n \<le> 122 \<or> c \<in> set ''_ .()-[]'')"

definition safeFilename :: "string \<Rightarrow> ModSlot \<Rightarrow> string act" where
  "safeFilename name slot =
     (let base = trim (afterSlash name) in
      andThen (require (base \<noteq> [] \<and> \<not> startsWith base ''.'') (ModError ''That filename is not allowed.'')) (\<lambda>_.
      andThen (require (base \<noteq> [] \<and> list_all nameChar base)
        (ModError ''Use only letters, numbers, spaces, dots and dashes in the filename.'')) (\<lambda>_.
      andThen (require (list_ex (\<lambda>x. endsWith (toLowerCase base) x) (ms_extensions slot))
        (ModError (ms_label slot @ '' must be a '' @ joinWith '' or '' (ms_extensions slot) @ '' file.''))) (\<lambda>_.
      ret base))))"

section \<open>Operations\<close>

record Installed =
  in_filename :: string
  in_bytes :: nat
  in_slot :: string

definition slotNamed :: "string \<Rightarrow> ModSlot list \<Rightarrow> ModSlot option" where
  "slotNamed slotId places = List.find (\<lambda>s. ms_id s = slotId) places"

definition pushContent :: "agent \<Rightarrow> modEnv \<Rightarrow> Server \<Rightarrow> ident \<Rightarrow> ModSlot \<Rightarrow> string \<Rightarrow> string \<Rightarrow> string \<Rightarrow> ident option \<Rightarrow> Installed act" where
  "pushContent agent env server serverId slot safe bytes action actorId =
     andThen (callAgent agent (s_nodeId server)
       (Files_write serverId (ms_dir slot @ ''/'' @ safe) (me_toBase64 env bytes))) (\<lambda>_.
     andThen (audit actorId action ''server'' serverId) (\<lambda>_.
     ret \<lparr>in_filename = safe, in_bytes = length bytes, in_slot = ms_id slot\<rparr>))"

definition installFromUrl :: "agent \<Rightarrow> modEnv \<Rightarrow> ident \<Rightarrow> string \<Rightarrow> string \<Rightarrow> ident option \<Rightarrow> Installed act" where
  "installFromUrl agent env serverId slotId url actorId =
     andThen (orThrow (NotFoundError ''Server'') (findServer serverId)) (\<lambda>server.
     andThen (slotsForServer serverId) (\<lambda>places.
     andThen (orThrow (ModError ''This server does not load that kind of content.'') (\<lambda>_. slotNamed slotId places)) (\<lambda>slot.
     andThen (fetchContent env url) (\<lambda>(bytes, filename).
     andThen (safeFilename filename slot) (\<lambda>safe.
     pushContent agent env server serverId slot safe bytes ''server.mod.install'' actorId)))))"

definition installUpload :: "agent \<Rightarrow> modEnv \<Rightarrow> ident \<Rightarrow> string \<Rightarrow> string \<Rightarrow> string \<Rightarrow> ident option \<Rightarrow> Installed act" where
  "installUpload agent env serverId slotId filename bytes actorId =
     andThen (orThrow (NotFoundError ''Server'') (findServer serverId)) (\<lambda>server.
     andThen (slotsForServer serverId) (\<lambda>places.
     andThen (orThrow (ModError ''This server does not load that kind of content.'') (\<lambda>_. slotNamed slotId places)) (\<lambda>slot.
     andThen (require (length bytes \<le> MAX_BYTES) tooLarge) (\<lambda>_.
     andThen (safeFilename filename slot) (\<lambda>safe.
     pushContent agent env server serverId slot safe bytes ''server.mod.upload'' actorId)))))"

definition removeMod :: "agent \<Rightarrow> ident \<Rightarrow> string \<Rightarrow> string \<Rightarrow> ident option \<Rightarrow> unit act" where
  "removeMod agent serverId slotId filename actorId =
     andThen (orThrow (NotFoundError ''Server'') (findServer serverId)) (\<lambda>server.
     andThen (slotsForServer serverId) (\<lambda>places.
     andThen (orThrow (ModError ''Unknown install location.'') (\<lambda>_. slotNamed slotId places)) (\<lambda>slot.
     andThen (safeFilename filename slot) (\<lambda>safe.
     andThen (callAgent agent (s_nodeId server) (Files_delete serverId [ms_dir slot @ ''/'' @ safe])) (\<lambda>_.
     audit actorId ''server.mod.remove'' ''server'' serverId)))))"

fun listSlots :: "agent \<Rightarrow> modEnv \<Rightarrow> Server \<Rightarrow> ModSlot list \<Rightarrow> (ModSlot \<times> FileEntry list) list act" where
  "listSlots agent env server [] = ret []"
| "listSlots agent env server (slot # places) =
     andThen (tryCatch
       (andThen (callAgent agent (s_nodeId server) (Files_list (s_id server) (ms_dir slot))) (\<lambda>res.
        ret (filter (\<lambda>e. \<not> fi_directory e \<and> list_ex (\<lambda>x. endsWith (toLowerCase (fi_name e)) x) (ms_extensions slot))
          (me_entries env res))))
       (\<lambda>_. ret [])) (\<lambda>items.
     andThen (listSlots agent env server places) (\<lambda>out. ret ((slot, items) # out)))"

definition listInstalled :: "agent \<Rightarrow> modEnv \<Rightarrow> ident \<Rightarrow> (ModSlot \<times> FileEntry list) list act" where
  "listInstalled agent env serverId =
     andThen (orThrow (NotFoundError ''Server'') (findServer serverId)) (\<lambda>server.
     andThen (slotsForServer serverId) (\<lambda>places. listSlots agent env server places))"

definition installFromModrinth :: "agent \<Rightarrow> modEnv \<Rightarrow> ident \<Rightarrow> string \<Rightarrow> ident option \<Rightarrow> Installed act" where
  "installFromModrinth agent env serverId projectId actorId =
     andThen (orThrow (NotFoundError ''Server'') (findServer serverId)) (\<lambda>server.
     andThen (case me_versions env projectId (map_of (s_environment server) ''VERSION'') (toLowerCase (serverType server)) of
       Inl m \<Rightarrow> throw (Error m) | Inr r \<Rightarrow> ret r) (\<lambda>(st, versions).
     andThen (require (200 \<le> st \<and> st \<le> 299) (ModError ''Could not look that up on Modrinth.'')) (\<lambda>_.
     andThen (require (versions \<noteq> []) (ModError (''No build of this is available for '' @ toLowerCase (serverType server) @ '' '' @
       (case map_of (s_environment server) ''VERSION'' of Some v \<Rightarrow> v | None \<Rightarrow> ''your version'') @ ''.''))) (\<lambda>_.
     andThen (slotsForServer serverId) (\<lambda>places.
     andThen (require (places \<noteq> []) (ModError ''A vanilla server cannot load mods or plugins.'')) (\<lambda>_.
     andThen (orThrow (Error ''TypeError'') (\<lambda>_. case List.find mf_primary (hd versions) of
         Some f \<Rightarrow> Some f | None \<Rightarrow> (case hd versions of [] \<Rightarrow> None | f # _ \<Rightarrow> Some f))) (\<lambda>file'.
     installFromUrl agent env serverId (ms_id (hd places)) (mf_url file') actorId)))))))"

section \<open>The route\<close>

definition modHandler :: "response act \<Rightarrow> response act" where
  "modHandler m = handler (tryCatch m (\<lambda>e. case e of ModError msg \<Rightarrow> ret (Response 400 msg) | _ \<Rightarrow> throw e))"

datatype ModRequest =
  Upload string "(string \<times> string) option" \<comment> \<open>the slot; the name and the bytes of the file, if there is one\<close>
| FromUrl string string
| FromModrinth string

definition modSchema :: "modEnv \<Rightarrow> ModRequest option \<Rightarrow> ModRequest option" where
  "modSchema env body = (case body of
     Some (FromUrl slotId url) \<Rightarrow> if me_parseUrl env url = None then None else body
   | Some (FromModrinth projectId) \<Rightarrow> if projectId = [] then None else body
   | _ \<Rightarrow> body)"

definition modsPost :: "agent \<Rightarrow> modEnv \<Rightarrow> AuthEnv \<Rightarrow> ident \<Rightarrow> ModRequest option \<Rightarrow> response act" where
  "modsPost agent env auth serverId body = modHandler (
     andThen (requireServerAccess auth serverId Files_write_perm) (\<lambda>(user, server).
     andThen (parseBody (modSchema env body)) (\<lambda>req.
     case req of
       Upload slotId None \<Rightarrow> ret (Response 400 ''Choose a file to upload.'')
     | Upload slotId (Some (name, bytes)) \<Rightarrow>
         andThen (installUpload agent env serverId slotId name bytes (Some (u_id user))) (\<lambda>_. ret (Response 200 ''installed''))
     | FromUrl slotId url \<Rightarrow>
         andThen (installFromUrl agent env serverId slotId url (Some (u_id user))) (\<lambda>_. ret (Response 200 ''installed''))
     | FromModrinth projectId \<Rightarrow>
         andThen (installFromModrinth agent env serverId projectId (Some (u_id user))) (\<lambda>_. ret (Response 200 ''installed'')))))"

definition modsDelete :: "agent \<Rightarrow> AuthEnv \<Rightarrow> ident \<Rightarrow> (string \<times> string) option \<Rightarrow> response act" where
  "modsDelete agent auth serverId body = modHandler (
     andThen (requireServerAccess auth serverId Files_delete_perm) (\<lambda>(user, server).
     andThen (parseBody (case body of None \<Rightarrow> None | Some (k, f) \<Rightarrow> if f = [] then None else Some (k, f))) (\<lambda>(slotId, filename).
     andThen (removeMod agent serverId slotId filename (Some (u_id user))) (\<lambda>_. ret (Response 200 ''ok'')))))"

section \<open>Filenames and paths\<close>

lemma slotsFor_layout: "slot \<in> set (slotsFor server template) \<Longrightarrow> slot \<in> {layoutSlot ''behavior'' ''minecraft-bedrock-behavior'',
    layoutSlot ''resource'' ''minecraft-bedrock-resource'', layoutSlot ''plugins'' ''minecraft-java-paper'',
    layoutSlot ''mods'' ''minecraft-java-forge''}"
  by (auto simp: slotsFor_def split: if_splits)

lemma slot_dir: "slot \<in> set (slotsFor server template) \<Longrightarrow>
    ms_dir slot \<in> {''/plugins'', ''/mods'', ''/behavior_packs'', ''/resource_packs''}"
  using slotsFor_layout by (fastforce simp: layoutSlot_def LAYOUT_def)

lemma safeFilename_ok:
  assumes "safeFilename name slot s = (Inr safe, t)"
  shows "t = s \<and> ordinary safe \<and> CHR ''/'' \<notin> set safe \<and> (\<exists>x \<in> set (ms_extensions slot). endsWith (toLowerCase safe) x)"
proof -
  have "safe = trim (afterSlash name)" "t = s" "safe \<noteq> []" "\<not> startsWith safe ''.''" "list_all nameChar safe"
    "list_ex (\<lambda>x. endsWith (toLowerCase safe) x) (ms_extensions slot)"
    using assms by (auto simp: safeFilename_def Let_def andThen_ok require_def ret_def throw_def split: if_splits)
  moreover have "\<not> nameChar (CHR ''/'')" by code_simp
  ultimately show ?thesis
    by (auto simp: ordinary_def list_all_iff list_ex_iff startsWith_iff)
qed

text \<open>The path written is one name inside the directory of the slot, for every volume.\<close>

lemma slot_path:
  assumes "slot \<in> set (slotsFor server template)" and "ordinary safe" and "CHR ''/'' \<notin> set safe"
  shows "candidatePath rt (ms_dir slot @ ''/'' @ safe) = rt @ [tl (ms_dir slot), safe]"
proof -
  obtain w where w: "ms_dir slot = CHR ''/'' # w" "w \<in> {''plugins'', ''mods'', ''behavior_packs'', ''resource_packs''}"
    using slot_dir [OF assms(1)] by auto
  then have "CHR ''/'' \<notin> set w" "ordinary w" by (auto simp: ordinary_def)
  then have "splitOn (CHR ''/'') (CHR ''/'' # w @ CHR ''/'' # safe) = [[], w, safe]"
    using splitOn_append_sep [of "CHR ''/''" "[]"] assms(3) by (simp add: splitOn_append_sep splitOn_plain)
  then show ?thesis using w(1) assms(2) \<open>ordinary w\<close>
    by (simp add: candidatePath_def normalizeSegments_def stepSegment_def ordinary_def)
qed

lemma slotsForServer_ok: "slotsForServer i s = (Inr places, t) \<Longrightarrow>
    t = s \<and> (\<exists>server template. findServer i s = Some server \<and> findTemplate (s_templateId server) s = Some template \<and>
      places = slotsFor server template)"
  by (auto simp: slotsForServer_def andThen_ok orThrow_def ret_def split: option.splits)

lemma slotNamed_in: "slotNamed k places = Some slot \<Longrightarrow> slot \<in> set places \<and> ms_id slot = k"
  by (auto simp: slotNamed_def find_Some_iff)

lemma pushContent_ok:
  assumes "pushContent agent env server i slot safe bytes action actor s = (Inr r, t)"
  shows "calls t = calls s @ [(s_nodeId server, Files_write i (ms_dir slot @ ''/'' @ safe) (me_toBase64 env bytes))] \<and>
    r = \<lparr>in_filename = safe, in_bytes = length bytes, in_slot = ms_id slot\<rparr>"
  using assms by (auto simp: pushContent_def andThen_ok audit_def writeState_def ret_def dest!: callAgent_state)

lemma fetchContent_ok:
  assumes "fetchContent env url s = (Inr (bytes, filename), t)"
  shows "t = s \<and> length bytes \<le> MAX_BYTES \<and> (\<exists>u d. me_parseUrl env url = Some u \<and> ur_protocol u = ''https:'' \<and>
    allowedHost (ur_hostname u) \<and> me_fetch env url = Inr d \<and> bytes = dl_body d)"
  using assms by (auto simp: fetchContent_def andThen_ok orThrow_def require_def ret_def throw_def split: option.splits sum.splits if_splits)

section \<open>Confinement\<close>

text \<open>What a request may do to the agents: nothing, or write one file in the directory of a slot.\<close>

definition modConfined :: "ident \<Rightarrow> db \<Rightarrow> db \<Rightarrow> bool" where
  "modConfined i s t \<longleftrightarrow> calls t = calls s \<or>
     (\<exists>server template slot safe content. findServer i s = Some server \<and>
        findTemplate (s_templateId server) s = Some template \<and> slot \<in> set (slotsFor server template) \<and>
        calls t = calls s @ [(s_nodeId server, Files_write i (ms_dir slot @ ''/'' @ safe) content)] \<and>
        (\<forall>rt. candidatePath rt (ms_dir slot @ ''/'' @ safe) = rt @ [tl (ms_dir slot), safe]))"

lemma modConfined_refl [intro, simp]: "modConfined i s s"
  by (simp add: modConfined_def)

text \<open>A step that only reads passes the state on.\<close>

abbreviation reads :: "(db, 'e, 'a) action \<Rightarrow> bool" where
  "reads \<equiv> keeps (\<lambda>s. s)"

lemma confined_step:
  assumes "reads m" and "\<And>x. m s = (Inr x, s) \<Longrightarrow> modConfined i s (snd (f x s))"
  shows "modConfined i s (snd (andThen m f s))"
proof (cases "m s")
  case (Pair r t)
  then have "t = s" using keepsD [OF assms(1), of s] by simp
  then show ?thesis using Pair assms(2) by (cases r) (auto simp: andThen_def)
qed

lemma reads_slots [keep]: "reads (slotsForServer i)"
  unfolding slotsForServer_def by (intro keep)

lemma reads_safeFilename [keep]: "reads (safeFilename n slot)"
  unfolding safeFilename_def Let_def by (intro keep)

lemma reads_sum [keep]: "reads (case x of Inl m \<Rightarrow> throw (Error m) | Inr r \<Rightarrow> ret r)"
  by (cases x) (simp_all add: keep)

lemma reads_fetchContent [keep]: "reads (fetchContent env url)"
  unfolding fetchContent_def by (intro keep)

lemma push_confined:
  assumes "findServer i s = Some server" and "findTemplate (s_templateId server) s = Some template"
    and "slot \<in> set (slotsFor server template)" and "safeFilename n slot s = (Inr safe, s)"
  shows "modConfined i s (snd (pushContent agent env server i slot safe bytes action actor s))"
proof -
  have ok: "ordinary safe" "CHR ''/'' \<notin> set safe" using safeFilename_ok [OF assms(4)] by simp_all
  have "calls (snd (pushContent agent env server i slot safe bytes action actor s)) =
      calls s @ [(s_nodeId server, Files_write i (ms_dir slot @ ''/'' @ safe) (me_toBase64 env bytes))]"
    by (auto simp: pushContent_def andThen_def audit_def writeState_def ret_def callAgent_def split: sum.split prod.split)
  then show ?thesis using assms(1-3) slot_path [OF assms(3) ok] by (auto simp: modConfined_def)
qed

lemma upload_confined: "modConfined i s (snd (installUpload agent env i k n bytes actor s))"
  unfolding installUpload_def
  by (intro confined_step keep)
    (auto simp: orThrow_def ret_def split: option.splits dest!: slotsForServer_ok slotNamed_in intro!: push_confined)

lemma url_confined: "modConfined i s (snd (installFromUrl agent env i k url actor s))"
  unfolding installFromUrl_def split_def
  by (intro confined_step keep)
    (auto simp: orThrow_def ret_def split: option.splits dest!: slotsForServer_ok slotNamed_in intro!: push_confined)

lemma modrinth_confined: "modConfined i s (snd (installFromModrinth agent env i k actor s))"
  unfolding installFromModrinth_def split_def
  by (intro confined_step url_confined keep)

lemma modHandler_state: "snd (modHandler m s) = snd (m s)"
  by (auto simp: modHandler_def handler_def tryCatch_def ret_def throw_def split: prod.split sum.split exn.split)

lemma after_ret: "snd (andThen m (\<lambda>_. ret y) s) = snd (m s)"
  by (simp add: andThen_def ret_def split: prod.split sum.split)

lemma andThen_throw: "andThen (throw e) f = throw e"
  by (simp add: fun_eq_iff andThen_def throw_def)

lemma fetchContent_blocked:
  assumes "\<And>u. me_parseUrl env url = Some u \<Longrightarrow> ur_protocol u \<noteq> ''https:'' \<or> \<not> allowedHost (ur_hostname u)"
  shows "\<exists>e. \<forall>f. fetchContent (env\<lparr>me_fetch := f\<rparr>) url = throw e"
proof -
  have found: "andThen (orThrow x (\<lambda>_. Some u)) g = g u" "andThen (require True x) h = h ()" "require False x = throw x"
      "orThrow x (\<lambda>_. None) = throw x"
    for x :: exn and u :: Url and g :: "Url \<Rightarrow> (string \<times> string) act" and h :: "unit \<Rightarrow> (string \<times> string) act"
    by (simp_all add: fun_eq_iff andThen_def orThrow_def require_def throw_def ret_def)
  show ?thesis
  proof (cases "me_parseUrl env url")
    case None
    then show ?thesis unfolding fetchContent_def by (simp add: found andThen_throw) blast
  next
    case (Some u)
    show ?thesis
    proof (cases "ur_protocol u = ''https:''")
      case True
      then have "\<not> allowedHost (ur_hostname u)" using assms [OF Some] by blast
      then show ?thesis using Some True unfolding fetchContent_def by (simp add: found andThen_throw) blast
    next
      case False
      then show ?thesis using Some unfolding fetchContent_def by (simp add: found andThen_throw) blast
    qed
  qed
qed

lemma request_confined:
  "modConfined i s (snd ((case req of
       Upload slotId None \<Rightarrow> ret (Response 400 ''Choose a file to upload.'')
     | Upload slotId (Some (name, bytes)) \<Rightarrow>
         andThen (installUpload agent env i slotId name bytes actor) (\<lambda>_. ret (Response 200 ''installed''))
     | FromUrl slotId url \<Rightarrow>
         andThen (installFromUrl agent env i slotId url actor) (\<lambda>_. ret (Response 200 ''installed''))
     | FromModrinth projectId \<Rightarrow>
         andThen (installFromModrinth agent env i projectId actor) (\<lambda>_. ret (Response 200 ''installed''))) s))"
  by (cases req) (auto simp: after_ret upload_confined url_confined modrinth_confined ret_def split: option.split)

text \<open>C34. A request to install content is confined: whatever it uploads or links to, and whatever the
  network answers, it makes at most one call to an agent, the node of its server, which writes one file;
  and the path of that file leads to a plain name inside the directory of a slot the server has,
  in whichever volume the agent keeps the server.\<close>

theorem mods_post_confined:
  "modConfined i s (snd (modsPost agent env auth i body s))"
  unfolding modsPost_def modHandler_state
proof (rule confined_step [OF keeps_requireServerAccess])
  fix x :: "User \<times> Server"
  obtain u v where "x = (u, v)" by (cases x)
  then show "modConfined i s (snd ((case x of (user, server) \<Rightarrow> andThen (parseBody (modSchema env body)) (\<lambda>req.
     case req of
       Upload slotId None \<Rightarrow> ret (Response 400 ''Choose a file to upload.'')
     | Upload slotId (Some (name, bytes)) \<Rightarrow>
         andThen (installUpload agent env i slotId name bytes (Some (u_id user))) (\<lambda>_. ret (Response 200 ''installed''))
     | FromUrl slotId url \<Rightarrow>
         andThen (installFromUrl agent env i slotId url (Some (u_id user))) (\<lambda>_. ret (Response 200 ''installed''))
     | FromModrinth projectId \<Rightarrow>
         andThen (installFromModrinth agent env i projectId (Some (u_id user))) (\<lambda>_. ret (Response 200 ''installed'')))) s))"
    unfolding parseBody_def by (simp only: prod.case) (rule confined_step [OF keeps_orThrow request_confined])
qed

text \<open>Only known hosts are asked: a link that is not https to one of the hosts of the list is refused,
  with nothing changed and the network never consulted.\<close>

theorem unknown_hosts_never_fetched:
  assumes "\<And>u. me_parseUrl env url = Some u \<Longrightarrow> ur_protocol u \<noteq> ''https:'' \<or> \<not> allowedHost (ur_hostname u)"
  shows "isl (fst (installFromUrl agent env i k url actor s)) \<and> snd (installFromUrl agent env i k url actor s) = s \<and>
    installFromUrl agent (env\<lparr>me_fetch := f\<rparr>) i k url actor s = installFromUrl agent env i k url actor s"
proof -
  obtain e where e: "\<And>f. fetchContent (env\<lparr>me_fetch := f\<rparr>) url = throw e" using fetchContent_blocked [OF assms] by blast
  have run: "installFromUrl agent (env\<lparr>me_fetch := f\<rparr>) i k url actor =
      andThen (orThrow (NotFoundError ''Server'') (findServer i)) (\<lambda>server.
      andThen (slotsForServer i) (\<lambda>places.
      andThen (orThrow (ModError ''This server does not load that kind of content.'') (\<lambda>_. slotNamed k places)) (\<lambda>slot. throw e)))" for f
    by (simp add: installFromUrl_def e andThen_throw)
  have env: "env\<lparr>me_fetch := me_fetch env\<rparr> = env" by simp
  have "keeps (\<lambda>s. s) (installFromUrl agent env i k url actor)" using run [of "me_fetch env"] unfolding env by (simp only:) (intro keep)
  moreover have "isl (fst (installFromUrl agent env i k url actor s))"
    using run [of "me_fetch env"] unfolding env by (simp only:) (auto simp: andThen_def throw_def split: prod.split sum.split)
  ultimately show ?thesis using run [of f] run [of "me_fetch env"] keepsD [of "\<lambda>s. s" "installFromUrl agent env i k url actor" s]
    unfolding env by simp
qed

end
