(* ===== verification/Migration.thy ===== *)
theory Migration
  imports Provisioning Backups
begin

text \<open>
  Moving servers between nodes, \<open>apps/panel/src/lib/migration.ts\<close>. Fresh ids, the clock and the
  allocations other transactions hold are read from an environment.
\<close>

section \<open>Operations\<close>

record MigrateEnv =
  mg_now :: time
  mg_finished :: time
  mg_jobId :: ident
  mg_backupId :: ident
  mg_locked :: "ident list"

text \<open>\<open>prisma.migrationJob.create\<close>: the id is unique and the nodes exist.\<close>

definition insertJob :: "MigrationJob \<Rightarrow> unit act" where
  "insertJob j =
     andThen (readState (\<lambda>s. \<exists>k \<in> set (migrationJobs s). m_id k = m_id j)) (\<lambda>taken.
     andThen (require (\<not> taken) (UniqueError ''MigrationJob'')) (\<lambda>_.
     andThen (orThrow (Error ''foreign key'') (findNode (m_toNodeId j))) (\<lambda>_.
     writeState (\<lambda>s. s\<lparr>migrationJobs := migrationJobs s @ [j]\<rparr>))))"

definition findJob :: "ident \<Rightarrow> db \<Rightarrow> MigrationJob option" where
  "findJob i s = List.find (\<lambda>j. m_id j = i) (migrationJobs s)"

definition updateJob :: "ident \<Rightarrow> (MigrationJob \<Rightarrow> MigrationJob) \<Rightarrow> unit act" where
  "updateJob i f =
     andThen (orThrow (NotFoundError ''MigrationJob'') (findJob i)) (\<lambda>_.
     writeState (\<lambda>s. s\<lparr>migrationJobs := updateWhere (\<lambda>j. m_id j = i) f (migrationJobs s)\<rparr>))"

definition setStatus :: "ident \<Rightarrow> MigrationStatus \<Rightarrow> unit act" where
  "setStatus i st = updateJob i (\<lambda>j. j\<lparr>m_status := st\<rparr>)"

definition truthyId :: "ident option \<Rightarrow> bool" where
  "truthyId t = (case t of None \<Rightarrow> False | Some i \<Rightarrow> i \<noteq> [])"

definition migrationRequest :: "Server \<Rightarrow> Node \<Rightarrow> ident option \<Rightarrow> PlacementRequest" where
  "migrationRequest server node target =
     \<lparr>rq_memoryMb = s_memoryMb server, rq_diskMb = s_diskMb server, rq_cpuCores = s_cpuCores server,
      rq_templateId = s_templateId server,
      rq_preferredLocation = (if truthyId target then None else Some (n_location node)),
      rq_excludeNodeIds = [s_nodeId server]\<rparr>"

definition newJob :: "MigrateEnv \<Rightarrow> Server \<Rightarrow> ident option \<Rightarrow> MigrationJob" where
  "newJob env server target =
     \<lparr>m_id = mg_jobId env, m_serverId = s_id server, m_fromNodeId = s_nodeId server,
      m_toNodeId = (case target of None \<Rightarrow> s_nodeId server | Some t \<Rightarrow> t), m_status = QUEUED, m_backupId = None,
      m_failureReason = None, m_finishedAt = None\<rparr>"

text \<open>The callback of the reservation, inside its transaction.\<close>

definition onTarget :: "MigrateEnv \<Rightarrow> ident option \<Rightarrow> Reservation \<Rightarrow> unit act" where
  "onTarget env target res =
     andThen (require (\<not> (truthyId target \<and> Some (rv_nodeId res) \<noteq> target))
       (Error ''The requested node does not have enough free capacity.'')) (\<lambda>_.
     updateJob (mg_jobId env) (\<lambda>j. j\<lparr>m_toNodeId := rv_nodeId res\<rparr>))"

definition finishArchive :: "int \<Rightarrow> AgentReply \<Rightarrow> Backup \<Rightarrow> Backup" where
  "finishArchive bytes r b = b\<lparr>b_bytes := bytes,
     b_checksum := (case rp_checksum r of None \<Rightarrow> b_checksum b | Some c \<Rightarrow> Some c), b_completed := True\<rparr>"

text \<open>\<open>updateMany\<close> on the ports a server has on one node.\<close>

definition freePortsOn :: "ident \<Rightarrow> ident \<Rightarrow> unit act" where
  "freePortsOn serverId nodeId = writeState (\<lambda>s. s\<lparr>allocations := updateWhere
     (\<lambda>a. a_serverId a = Some serverId \<and> a_nodeId a = nodeId)
     (\<lambda>a. a\<lparr>a_serverId := None, a_primary := False\<rparr>) (allocations s)\<rparr>)"

text \<open>Step 2, on the source.\<close>

definition archiveSource :: "agent \<Rightarrow> MigrateEnv \<Rightarrow> Server \<Rightarrow> GameTemplate \<Rightarrow> unit act" where
  "archiveSource agent env server template =
     andThen (setStatus (mg_jobId env) BACKING_UP) (\<lambda>_.
     andThen (callAgent agent (s_nodeId server)
       (Server_stop (s_id server) (Some (t_stopCommand template)) (Some 120))) (\<lambda>_.
     andThen (insertBackup (newBackup (mg_backupId env) (mg_now env) (s_id server)
       (''Migration '' @ take 8 (mg_jobId env)))) (\<lambda>_.
     andThen (callAgent agent (s_nodeId server) (Backup_create (s_id server) (mg_backupId env))) (\<lambda>archive.
     andThen (orThrow (Error ''TypeError'') (\<lambda>_. rp_bytes archive)) (\<lambda>bytes.
     andThen (updateBackup (mg_backupId env) (finishArchive bytes archive)) (\<lambda>_. ret ()))))))"

text \<open>Step 3, on the target.\<close>

definition buildTarget :: "agent \<Rightarrow> MigrateEnv \<Rightarrow> Server \<Rightarrow> GameTemplate \<Rightarrow> ident \<Rightarrow> unit act" where
  "buildTarget agent env server template target =
     andThen (setStatus (mg_jobId env) TRANSFERRING) (\<lambda>_.
     andThen (transaction (claimAllocation (mg_locked env) target (s_id server))) (\<lambda>allocation.
     andThen (callAgent agent target (Server_create (createSpec server template allocation (serverAmount server)))) (\<lambda>_.
     andThen (setStatus (mg_jobId env) RESTORING) (\<lambda>_.
     andThen (callAgent agent target (Backup_restore (s_id server) (mg_backupId env))) (\<lambda>_. ret ())))))"

text \<open>Step 4: the transaction that switches the record.\<close>

definition switchRecord :: "Server \<Rightarrow> ident \<Rightarrow> unit act" where
  "switchRecord server target = transaction (
     andThen (freePortsOn (s_id server) (s_nodeId server)) (\<lambda>_.
     andThen (updateServer (s_id server) (\<lambda>v. v\<lparr>s_nodeId := target, s_status := OFFLINE, s_containerId := None\<rparr>)) (\<lambda>_.
     releaseCapacity (s_nodeId server) (serverAmount server))))"

definition finishMigration :: "agent \<Rightarrow> MigrateEnv \<Rightarrow> Server \<Rightarrow> ident \<Rightarrow> ident option \<Rightarrow> (ident \<times> ident) act" where
  "finishMigration agent env server target actorId =
     andThen (tryCatch (andThen (callAgent agent (s_nodeId server) (Server_delete (s_id server) True)) (\<lambda>_. ret ()))
       (\<lambda>_. ret ())) (\<lambda>_.
     andThen (updateJob (mg_jobId env) (\<lambda>j. j\<lparr>m_status := COMPLETED, m_finishedAt := Some (mg_finished env),
       m_backupId := Some (mg_backupId env)\<rparr>)) (\<lambda>_.
     andThen (audit actorId ''server.migrate'' ''server'' (s_id server)) (\<lambda>_.
     ret (mg_jobId env, target))))"

definition migrateSteps ::
    "agent \<Rightarrow> MigrateEnv \<Rightarrow> Server \<Rightarrow> GameTemplate \<Rightarrow> Node \<Rightarrow> ident option \<Rightarrow> ident option \<Rightarrow> (ident \<times> ident) act" where
  "migrateSteps agent env server template node target actorId =
     andThen (reserveCapacity (mg_now env) (migrationRequest server node target) (onTarget env target)) (\<lambda>(reservation, _).
     andThen (archiveSource agent env server template) (\<lambda>_.
     andThen (buildTarget agent env server template (rv_nodeId reservation)) (\<lambda>_.
     andThen (setStatus (mg_jobId env) SWITCHING) (\<lambda>_.
     andThen (switchRecord server (rv_nodeId reservation)) (\<lambda>_.
     finishMigration agent env server (rv_nodeId reservation) actorId)))))"

text \<open>The \<open>catch\<close>: what was done on the target is undone, if the job names another node.\<close>

definition unwindTarget :: "agent \<Rightarrow> MigrateEnv \<Rightarrow> Server \<Rightarrow> exn \<Rightarrow> unit act" where
  "unwindTarget agent env server e =
     andThen (orThrow (NotFoundError ''MigrationJob'') (findJob (mg_jobId env))) (\<lambda>current.
     andThen (if m_toNodeId current \<noteq> m_fromNodeId current then
         andThen (freePortsOn (s_id server) (m_toNodeId current)) (\<lambda>_.
         andThen (releaseCapacity (m_toNodeId current) (serverAmount server)) (\<lambda>_.
         tryCatch (andThen (callAgent agent (m_toNodeId current) (Server_delete (s_id server) True)) (\<lambda>_. ret ())) (\<lambda>_. ret ())))
       else ret ()) (\<lambda>_.
     updateJob (mg_jobId env) (\<lambda>j. j\<lparr>m_status := ROLLED_BACK, m_failureReason := Some (showExn e),
       m_finishedAt := Some (mg_finished env)\<rparr>)))"

definition migrateServer :: "agent \<Rightarrow> MigrateEnv \<Rightarrow> ident \<Rightarrow> ident option \<Rightarrow> ident option \<Rightarrow> (ident \<times> ident) act" where
  "migrateServer agent env serverId target actorId =
     andThen (orThrow (NotFoundError ''Server'') (findServer serverId)) (\<lambda>server.
     andThen (orThrow (NotFoundError ''GameTemplate'') (findTemplate (s_templateId server))) (\<lambda>template.
     andThen (orThrow (NotFoundError ''Node'') (findNode (s_nodeId server))) (\<lambda>node.
     andThen (insertJob (newJob env server target)) (\<lambda>_.
     tryCatch (migrateSteps agent env server template node target actorId)
       (\<lambda>e. andThen (unwindTarget agent env server e) (\<lambda>_. throw e))))))"

text \<open>One environment per server; a result is the node a server went to, or the error.\<close>

fun drainLoop :: "agent \<Rightarrow> (ident \<Rightarrow> MigrateEnv) \<Rightarrow> ident option \<Rightarrow> ident list \<Rightarrow> (ident \<times> (string + ident)) list act" where
  "drainLoop agent env actorId [] = ret []"
| "drainLoop agent env actorId (i # rest) =
     andThen (tryCatch
       (andThen (migrateServer agent (env i) i None actorId) (\<lambda>(_, target). ret (i, Inr target)))
       (\<lambda>e. ret (i, Inl (showExn e)))) (\<lambda>r.
     andThen (drainLoop agent env actorId rest) (\<lambda>rs. ret (r # rs)))"

definition updateNodeRow :: "ident \<Rightarrow> (Node \<Rightarrow> Node) \<Rightarrow> unit act" where
  "updateNodeRow i f =
     andThen (orThrow (NotFoundError ''Node'') (findNode i)) (\<lambda>_.
     writeState (\<lambda>s. s\<lparr>nodes := updateWhere (\<lambda>n. n_id n = i) f (nodes s)\<rparr>))"

definition drainNode :: "agent \<Rightarrow> (ident \<Rightarrow> MigrateEnv) \<Rightarrow> ident \<Rightarrow> ident option \<Rightarrow> (ident \<times> (string + ident)) list act" where
  "drainNode agent env nodeId actorId =
     andThen (updateNodeRow nodeId (\<lambda>n. n\<lparr>n_enabled := False\<rparr>)) (\<lambda>_.
     andThen (readState (\<lambda>s. map s_id (filter (\<lambda>v. s_nodeId v = nodeId) (servers s)))) (\<lambda>ids.
     andThen (drainLoop agent env actorId ids) (\<lambda>results.
     andThen (audit actorId ''node.drain'' ''node'' nodeId) (\<lambda>_. ret results))))"

section \<open>What the steps leave alone\<close>

definition jobRoute :: "ident \<Rightarrow> db \<Rightarrow> (ident \<times> ident) option" where
  "jobRoute i s = map_option (\<lambda>j. (m_fromNodeId j, m_toNodeId j)) (findJob i s)"

lemma findJob_update:
  "(\<And>j. m_id (f j) = m_id j) \<Longrightarrow>
   findJob i (s\<lparr>migrationJobs := updateWhere (\<lambda>j. m_id j = k) f (migrationJobs s)\<rparr>) =
     map_option (\<lambda>j. if m_id j = k then f j else j) (findJob i s)"
  by (simp add: findJob_def updateWhere_find [where k = m_id])

lemma jobRoute_frame [simp]:
  "jobRoute i (s\<lparr>nodes := a\<rparr>) = jobRoute i s" "jobRoute i (s\<lparr>servers := b\<rparr>) = jobRoute i s"
  "jobRoute i (s\<lparr>allocations := c\<rparr>) = jobRoute i s" "jobRoute i (s\<lparr>backups := d\<rparr>) = jobRoute i s"
  "jobRoute i (s\<lparr>calls := e\<rparr>) = jobRoute i s" "jobRoute i (s\<lparr>auditLog := g\<rparr>) = jobRoute i s"
  "jobRoute i (calls_update h s) = jobRoute i s" "jobRoute i (backups_update k s) = jobRoute i s"
  "jobRoute i (auditLog_update l s) = jobRoute i s"
  by (simp_all add: jobRoute_def findJob_def)

definition movable :: "ident \<Rightarrow> db \<Rightarrow> Node list \<times> Server list \<times> Allocation list \<times> (ident \<times> ident) option" where
  "movable job s = (nodes s, servers s, allocations s, jobRoute job s)"

lemma movable_frame [simp]:
  "movable k (calls_update h s) = movable k s" "movable k (backups_update b s) = movable k s"
  "movable k (auditLog_update a s) = movable k s"
  by (simp_all add: movable_def)

lemma updateJob_run: "findJob i s = Some j \<Longrightarrow>
    updateJob i f s = (Inr (), s\<lparr>migrationJobs := updateWhere (\<lambda>j. m_id j = i) f (migrationJobs s)\<rparr>)"
  by (simp add: updateJob_def andThen_def orThrow_def writeState_def)

lemma keeps_updateJob:
  assumes "\<And>j. m_id (f j) = m_id j" "\<And>j. m_fromNodeId (f j) = m_fromNodeId j" "\<And>j. m_toNodeId (f j) = m_toNodeId j"
  shows "keeps (movable k) (updateJob i f)"
proof (rule keepsI)
  fix s
  have "jobRoute k (s\<lparr>migrationJobs := updateWhere (\<lambda>j. m_id j = i) f (migrationJobs s)\<rparr>) = jobRoute k s"
    using assms by (simp add: jobRoute_def findJob_update option.map_comp comp_def if_distrib cong: if_cong)
  then show "movable k (snd (updateJob i f s)) = movable k s"
    by (simp add: updateJob_def andThen_def orThrow_def writeState_def movable_def split: option.split)
qed

lemma keeps_setStatus [keep]: "keeps (movable k) (setStatus i st)"
  unfolding setStatus_def by (rule keeps_updateJob) simp_all

lemma keeps_insertBackup [keep]: "keeps (movable k) (insertBackup b)"
  unfolding insertBackup_def by (intro keep) simp

lemma keeps_updateBackup [keep]: "keeps (movable k) (updateBackup i f)"
  unfolding updateBackup_def by (intro keep) simp

lemma keeps_archiveSource [keep]: "keeps (movable k) (archiveSource agent env server template)"
  unfolding archiveSource_def by (intro keep) simp_all

section \<open>Between the reservation and the switch\<close>

text \<open>The target is reserved, at most one of its free ports is bound, and the job names it.\<close>

definition midway :: "MigrateEnv \<Rightarrow> db \<Rightarrow> Server \<Rightarrow> Node \<Rightarrow> db \<Rightarrow> bool" where
  "midway env s v n u \<longleftrightarrow>
     nodes u = updateWhere (\<lambda>m. n_id m = n_id n) (addReserved (serverAmount v)) (nodes s) \<and>
     servers u = servers s \<and> jobRoute (mg_jobId env) u = Some (s_nodeId v, n_id n) \<and>
     (allocations u = allocations s \<or>
      (\<exists>al \<in> set (freeAllocations (mg_locked env) (n_id n) s).
         allocations u = updateWhere (\<lambda>b. a_id b = a_id al) (bindPort (s_id v)) (allocations s)))"

lemma midway_movable: "movable (mg_jobId env) t = movable (mg_jobId env) u \<Longrightarrow> midway env s v n t = midway env s v n u"
  by (simp add: movable_def midway_def)

lemma preserves_midway: "keeps (movable (mg_jobId env)) m \<Longrightarrow> preserves (midway env s v n) m"
proof (rule preservesI)
  fix u assume k: "keeps (movable (mg_jobId env)) m" and u: "midway env s v n u"
  show "midway env s v n (snd (m u))" using midway_movable [OF keepsD [OF k, of u], of s v n] u by simp
qed

lemma claim_midway:
  assumes "midway env s v n u" and "allocations u = allocations s"
  shows "midway env s v n (snd (transaction (claimAllocation (mg_locked env) (n_id n) (s_id v)) u))"
proof (cases "transaction (claimAllocation (mg_locked env) (n_id n) (s_id v)) u")
  case (Pair r t)
  show ?thesis
  proof (cases r)
    case (Inl e)
    have "t = u" by (rule transaction_throw [OF Pair [unfolded Inl]])
    show ?thesis unfolding Pair snd_conv \<open>t = u\<close> by (rule assms(1))
  next
    case (Inr a)
    have "claimAllocation (mg_locked env) (n_id n) (s_id v) u = (Inr a, t)"
      using Pair [unfolded Inr] by (simp only: transaction_ok)
    from claimAllocation_cases [OF this] have "a \<in> set (freeAllocations (mg_locked env) (n_id n) s)"
      "t = u\<lparr>allocations := updateWhere (\<lambda>b. a_id b = a_id a) (bindPort (s_id v)) (allocations s)\<rparr>"
      using assms(2) by (auto simp: freeAllocations_def bindPort_def [abs_def])
    then show ?thesis using Pair assms(1) by (auto simp: midway_def)
  qed
qed

lemma buildTarget_midway:
  assumes "midway env s v n u" and "allocations u = allocations s"
  shows "midway env s v n (snd (buildTarget agent env v template (n_id n) u))"
proof -
  let ?k = "mg_jobId env"
  obtain r1 u1 where 1: "setStatus ?k TRANSFERRING u = (r1, u1)" by fastforce
  then have m1: "movable ?k u1 = movable ?k u" using keepsD [OF keeps_setStatus, of ?k ?k TRANSFERRING u] by simp
  then have u1: "midway env s v n u1" "allocations u1 = allocations s"
    using assms midway_movable [OF m1, of s v n] by (simp_all add: movable_def)
  obtain r2 u2 where 2: "transaction (claimAllocation (mg_locked env) (n_id n) (s_id v)) u1 = (r2, u2)" by fastforce
  then have u2: "midway env s v n u2" using claim_midway [OF u1] by simp
  have k: "keeps (movable ?k) (andThen (callAgent agent (n_id n) (Server_create (createSpec v template a (serverAmount v)))) (\<lambda>_.
     andThen (setStatus ?k RESTORING) (\<lambda>_.
     andThen (callAgent agent (n_id n) (Backup_restore (s_id v) (mg_backupId env))) (\<lambda>_. ret ()))))" for a
    by (intro keep) simp_all
  show ?thesis
  proof (cases r1)
    case (Inl e)
    then show ?thesis using 1 u1 by (simp add: buildTarget_def andThen_stop)
  next
    case r1: (Inr x)
    show ?thesis
    proof (cases r2)
      case (Inl e)
      then show ?thesis using 1 2 r1 u2 by (simp add: buildTarget_def andThen_step andThen_stop)
    next
      case (Inr a)
      then show ?thesis using 1 2 r1 preservesD [OF preserves_midway [OF k] u2] by (simp add: buildTarget_def andThen_step)
    qed
  qed
qed

section \<open>Unwinding\<close>

lemma free_bound_on:
  assumes "placementWf s" and "al \<in> set (freeAllocations locked k s)"
    and "\<forall>a \<in> set (allocations s). a_serverId a = Some i \<longrightarrow> a_nodeId a \<noteq> k"
  shows "updateWhere (\<lambda>a. a_serverId a = Some i \<and> a_nodeId a = k) (\<lambda>a. a\<lparr>a_serverId := None, a_primary := False\<rparr>)
    (updateWhere (\<lambda>b. a_id b = a_id al) (bindPort i) (allocations s)) = allocations s"
proof -
  have "(if a_serverId c = Some i \<and> a_nodeId c = k then c\<lparr>a_serverId := None, a_primary := False\<rparr> else c) = b"
    if "b \<in> set (allocations s)" "c = (if a_id b = a_id al then bindPort i b else b)" for b c
  proof (cases "a_id b = a_id al")
    case True
    with assms(1,2) that(1) have "b = al"
      by (auto simp: placementWf_def freeAllocations_def dest: uniqueOn_eq)
    then have "a_serverId b = None" "\<not> a_primary b" "a_nodeId b = k"
      using assms(1,2) that(1) by (auto simp: freeAllocations_def placementWf_def split: option.splits)
    with True that(2) show ?thesis by (simp add: bindPort_def)
  next
    case False
    with assms(3) that show ?thesis by auto
  qed
  then show ?thesis
    unfolding updateWhere_def by (simp add: comp_def) (rule map_idI, auto)
qed

lemma unwind_midway:
  assumes wf: "placementWf s" and sound: "fleetSound s" and ok: "amountOk (serverAmount v)"
    and n: "n \<in> set (nodes s)" "hasRoom (serverAmount v) n" "n_id n \<noteq> s_nodeId v"
    and ports: "\<forall>a \<in> set (allocations s). a_serverId a = Some (s_id v) \<longrightarrow> a_nodeId a = s_nodeId v"
    and mid: "midway env s v n u"
  shows "samePlacement s (snd (unwindTarget agent env v e u))"
proof -
  let ?k = "mg_jobId env"
  obtain j where j: "findJob ?k u = Some j" "m_fromNodeId j = s_nodeId v" "m_toNodeId j = n_id n"
    using mid by (auto simp: midway_def jobRoute_def)
  let ?u1 = "u\<lparr>allocations := allocations s\<rparr>"
  have "\<forall>a \<in> set (allocations s). a_serverId a = Some (s_id v) \<longrightarrow> a_nodeId a \<noteq> n_id n" using ports n(3) by auto
  then have fr: "freePortsOn (s_id v) (n_id n) u = (Inr (), ?u1)"
  proof -
    assume q: "\<forall>a \<in> set (allocations s). a_serverId a = Some (s_id v) \<longrightarrow> a_nodeId a \<noteq> n_id n"
    then have "updateWhere (\<lambda>a. a_serverId a = Some (s_id v) \<and> a_nodeId a = n_id n) f (allocations s) = allocations s" for f
      by (intro updateWhere_idle) auto
    then show ?thesis using mid free_bound_on [OF wf _ q] by (auto simp: freePortsOn_def writeState_def midway_def)
  qed
  let ?u2 = "?u1\<lparr>nodes := nodes s\<rparr>"
  have "updateWhere (\<lambda>m. n_id m = n_id n) (subReserved (serverAmount v)) (nodes ?u1) = nodes s"
    using mid wf sound undo_reserved [OF _ n(1) _ ok n(2)] n(1) by (simp add: midway_def placementWf_def fleetSound_def)
  then have rel: "releaseCapacity (n_id n) (serverAmount v) ?u1 = (Inr (), ?u2)"
    by (simp add: releaseCapacity_def writeState_def)
  have "samePlacement s ?u2" using mid by (simp add: samePlacement_def midway_def)
  moreover have "keeps (\<lambda>t. (nodes t, servers t, allocations t)) (andThen
      (tryCatch (andThen (callAgent agent (n_id n) (Server_delete (s_id v) True)) (\<lambda>_. ret ())) (\<lambda>_. ret ())) (\<lambda>_.
      updateJob ?k (\<lambda>j. j\<lparr>m_status := ROLLED_BACK, m_failureReason := Some (showExn e), m_finishedAt := Some (mg_finished env)\<rparr>)))"
    (is "keeps ?g ?tail")
    unfolding updateJob_def by (intro keep) simp_all
  moreover have "unwindTarget agent env v e u = ?tail ?u2"
    using j n(3) fr rel by (simp add: unwindTarget_def andThen_def orThrow_def)
  ultimately show ?thesis using keepsD [of ?g ?tail ?u2] by (simp add: samePlacement_def)
qed

section \<open>The phases of a migration\<close>

lemma requestAmount_migration [simp]: "requestAmount (migrationRequest v node tgt) = serverAmount v"
  by (simp add: requestAmount_def migrationRequest_def serverAmount_def)

lemma migration_reserved:
  assumes "reserveCapacity now (migrationRequest v node tgt) (onTarget env tgt) s = (Inr (rv, x), u)"
    and "uniqueOn n_id (nodes s)" and "findJob (mg_jobId env) s = Some j" and "m_fromNodeId j = s_nodeId v"
  obtains n where "eligible now (migrationRequest v node tgt) s n" and "rv_nodeId rv = n_id n" and "n_id n \<noteq> s_nodeId v"
    and "truthyId tgt \<longrightarrow> tgt = Some (n_id n)" and "midway env s v n u" and "allocations u = allocations s"
proof (rule reserveCapacity_cases [OF assms(1)])
  fix n :: Node
  let ?req = "migrationRequest v node tgt"
  let ?s = "s\<lparr>nodes := updateWhere (\<lambda>m. n_id m = n_id n) (addReserved (serverAmount v)) (nodes s)\<rparr>"
  assume el: "eligible now ?req s n" and rv: "rv = reservationFor (candidateRow n) ?req"
    and run: "onTarget env tgt rv (s\<lparr>nodes := updateWhere (\<lambda>m. n_id m = n_id n \<and> hasRoom (requestAmount ?req) m)
      (addReserved (requestAmount ?req)) (nodes s)\<rparr>) = (Inr x, u)"
  have node: "rv_nodeId rv = n_id n" using rv by (simp add: reservationFor_def)
  have "updateWhere (\<lambda>m. n_id m = n_id n \<and> hasRoom (serverAmount v) m) (addReserved (serverAmount v)) (nodes s) =
      updateWhere (\<lambda>m. n_id m = n_id n) (addReserved (serverAmount v)) (nodes s)"
    using el eligible_hasRoom [OF el] by (intro updateWhere_unique [OF assms(2)]) (auto simp: eligible_def)
  then have r: "onTarget env tgt rv ?s = (Inr x, u)" using run by simp
  have j: "findJob (mg_jobId env) ?s = Some j" using assms(3) by (simp add: findJob_def)
  then have u: "truthyId tgt \<longrightarrow> tgt = Some (n_id n)"
    "u = ?s\<lparr>migrationJobs := updateWhere (\<lambda>j. m_id j = mg_jobId env) (\<lambda>j. j\<lparr>m_toNodeId := n_id n\<rparr>) (migrationJobs ?s)\<rparr>"
    using r node by (auto simp: onTarget_def andThen_ok require_def updateJob_run split: if_splits)
  have "m_id j = mg_jobId env" using assms(3) by (auto simp: findJob_def find_Some_iff)
  moreover have "jobRoute (mg_jobId env) u = Some (s_nodeId v, n_id n)"
    using findJob_update [where f = "\<lambda>j. j\<lparr>m_toNodeId := n_id n\<rparr>" and i = "mg_jobId env" and s = ?s and k = "mg_jobId env"] j calculation assms(4)
    unfolding u(2) jobRoute_def by simp
  moreover have "n_id n \<noteq> s_nodeId v" using el by (auto simp: eligible_def schedulable_def migrationRequest_def)
  ultimately show thesis using that [OF el node _ u(1)] u(2) by (simp add: midway_def)
qed

lemma midway_job: "midway env s v n u \<Longrightarrow> \<exists>j. findJob (mg_jobId env) u = Some j \<and> m_fromNodeId j = s_nodeId v \<and> m_toNodeId j = n_id n"
  by (auto simp: midway_def jobRoute_def)

text \<open>Nothing throws from the switch on.\<close>

definition switched :: "db \<Rightarrow> Server \<Rightarrow> Node \<Rightarrow> db \<Rightarrow> db" where
  "switched u v n t = t\<lparr>
     allocations := updateWhere (\<lambda>a. a_serverId a = Some (s_id v) \<and> a_nodeId a = s_nodeId v)
       (\<lambda>a. a\<lparr>a_serverId := None, a_primary := False\<rparr>) (allocations u),
     servers := updateWhere (\<lambda>w. s_id w = s_id v) (\<lambda>w. w\<lparr>s_nodeId := n_id n, s_status := OFFLINE, s_containerId := None\<rparr>) (servers u),
     nodes := updateWhere (\<lambda>m. n_id m = s_nodeId v) (subReserved (serverAmount v)) (nodes u)\<rparr>"

lemma switch_run:
  assumes "findServer (s_id v) u = Some w"
  shows "switchRecord v (n_id n) u = (Inr (), switched u v n u)"
proof -
  let ?u1 = "u\<lparr>allocations := updateWhere (\<lambda>a. a_serverId a = Some (s_id v) \<and> a_nodeId a = s_nodeId v)
       (\<lambda>a. a\<lparr>a_serverId := None, a_primary := False\<rparr>) (allocations u)\<rparr>"
  have "findServer (s_id v) ?u1 = Some w" using assms by (simp add: findServer_def)
  from updateServer_run [OF this] show ?thesis
    by (simp add: switchRecord_def transaction_ok andThen_def freePortsOn_def writeState_def releaseCapacity_def switched_def)
qed

lemma finish_run:
  assumes "findJob (mg_jobId env) u = Some j"
  shows "\<exists>t. finishMigration agent env v target actor u = (Inr (mg_jobId env, target), t) \<and>
    movable (mg_jobId env) t = movable (mg_jobId env) u \<and>
    (\<exists>j. findJob (mg_jobId env) t = Some j \<and> m_status j = COMPLETED)"
proof -
  let ?call = "tryCatch (andThen (callAgent agent (s_nodeId v) (Server_delete (s_id v) True)) (\<lambda>_. ret ())) (\<lambda>_. ret ())"
  let ?f = "\<lambda>j. j\<lparr>m_status := COMPLETED, m_finishedAt := Some (mg_finished env), m_backupId := Some (mg_backupId env)\<rparr>"
  obtain c where c: "?call u = (Inr (), u\<lparr>calls := c\<rparr>)"
    by (cases "callAgent agent (s_nodeId v) (Server_delete (s_id v) True) u"; cases "fst (callAgent agent (s_nodeId v) (Server_delete (s_id v) True) u)")
      (auto simp: tryCatch_def andThen_def ret_def dest: callAgent_state)
  let ?u1 = "u\<lparr>calls := c\<rparr>"
  have j: "findJob (mg_jobId env) ?u1 = Some j" "m_id j = mg_jobId env"
    using assms by (auto simp: findJob_def find_Some_iff)
  let ?u2 = "?u1\<lparr>migrationJobs := updateWhere (\<lambda>j. m_id j = mg_jobId env) ?f (migrationJobs ?u1)\<rparr>"
  let ?t = "snd (audit actor ''server.migrate'' ''server'' (s_id v) ?u2)"
  have run: "finishMigration agent env v target actor u = (Inr (mg_jobId env, target), ?t)"
    unfolding finishMigration_def using c updateJob_run [OF j(1), of ?f]
    by (simp add: andThen_step) (simp add: andThen_def audit_def writeState_def ret_def)
  have t: "findJob (mg_jobId env) ?t = Some (?f j)"
    using findJob_update [where f = ?f and i = "mg_jobId env" and s = ?u1 and k = "mg_jobId env"] j by (simp add: audit_def writeState_def findJob_def)
  moreover have "movable (mg_jobId env) ?t = movable (mg_jobId env) u"
    using t assms by (simp add: movable_def audit_def writeState_def jobRoute_def)
  ultimately show ?thesis using run by auto
qed

lemma buildTarget_bound:
  assumes "allocations u = allocations s" and "buildTarget agent env v template (n_id n) u = (Inr x, t)"
  shows "\<exists>al \<in> set (freeAllocations (mg_locked env) (n_id n) s).
    allocations t = updateWhere (\<lambda>b. a_id b = a_id al) (bindPort (s_id v)) (allocations s)"
proof -
  let ?k = "mg_jobId env"
  obtain u1 a u2 where 1: "setStatus ?k TRANSFERRING u = (Inr (), u1)"
    and 2: "claimAllocation (mg_locked env) (n_id n) (s_id v) u1 = (Inr a, u2)"
    and 3: "andThen (callAgent agent (n_id n) (Server_create (createSpec v template a (serverAmount v)))) (\<lambda>_.
     andThen (setStatus ?k RESTORING) (\<lambda>_.
     andThen (callAgent agent (n_id n) (Backup_restore (s_id v) (mg_backupId env))) (\<lambda>_. ret ()))) u2 = (Inr x, t)"
    using assms(2) by (auto simp: buildTarget_def andThen_ok transaction_ok)
  have "movable ?k u1 = movable ?k u" using keepsD [OF keeps_setStatus, of ?k ?k TRANSFERRING u] 1 by simp
  then have u1: "allocations u1 = allocations s" using assms(1) by (simp add: movable_def)
  have "keeps (movable ?k) (andThen (callAgent agent (n_id n) (Server_create (createSpec v template a (serverAmount v)))) (\<lambda>_.
     andThen (setStatus ?k RESTORING) (\<lambda>_.
     andThen (callAgent agent (n_id n) (Backup_restore (s_id v) (mg_backupId env))) (\<lambda>_. ret ()))))"
    by (intro keep) simp_all
  from keepsD [OF this, of u2] have "allocations t = allocations u2" by (simp add: 3 movable_def)
  moreover have "a \<in> set (freeAllocations (mg_locked env) (n_id n) s)"
    "allocations u2 = updateWhere (\<lambda>b. a_id b = a_id a) (bindPort (s_id v)) (allocations s)"
    using claimAllocation_cases [OF 2] u1 by (auto simp: freeAllocations_def bindPort_def [abs_def])
  ultimately show ?thesis by auto
qed

text \<open>What a migration that succeeds has done: the server, its capacity and its port are on the target
  and no longer on the source.\<close>

definition migrated :: "MigrateEnv \<Rightarrow> db \<Rightarrow> Server \<Rightarrow> ident \<Rightarrow> db \<Rightarrow> bool" where
  "migrated env s v target t \<longleftrightarrow> target \<noteq> s_nodeId v \<and>
     (\<exists>n \<in> set (nodes s). n_id n = target \<and> hasRoom (serverAmount v) n) \<and>
     nodes t = updateWhere (\<lambda>m. n_id m = s_nodeId v) (subReserved (serverAmount v))
       (updateWhere (\<lambda>m. n_id m = target) (addReserved (serverAmount v)) (nodes s)) \<and>
     servers t = updateWhere (\<lambda>w. s_id w = s_id v)
       (\<lambda>w. w\<lparr>s_nodeId := target, s_status := OFFLINE, s_containerId := None\<rparr>) (servers s) \<and>
     (\<exists>al \<in> set (freeAllocations (mg_locked env) target s). allocations t =
       updateWhere (\<lambda>a. a_serverId a = Some (s_id v) \<and> a_nodeId a = s_nodeId v)
         (\<lambda>a. a\<lparr>a_serverId := None, a_primary := False\<rparr>)
         (updateWhere (\<lambda>b. a_id b = a_id al) (bindPort (s_id v)) (allocations s))) \<and>
     (\<exists>j. findJob (mg_jobId env) t = Some j \<and> m_status j = COMPLETED \<and> m_fromNodeId j = s_nodeId v \<and>
       m_toNodeId j = target)"

text \<open>From the switch on nothing throws.\<close>

lemma steps_end:
  assumes "midway env s v n u" and "findServer (s_id v) s = Some v"
  shows "\<exists>t. andThen (setStatus (mg_jobId env) SWITCHING) (\<lambda>_. andThen (switchRecord v (n_id n)) (\<lambda>_.
      finishMigration agent env v (n_id n) actor)) u = (Inr (mg_jobId env, n_id n), t) \<and>
    movable (mg_jobId env) t = movable (mg_jobId env) (switched u v n u) \<and>
    (\<exists>j. findJob (mg_jobId env) t = Some j \<and> m_status j = COMPLETED)"
proof -
  let ?k = "mg_jobId env"
  obtain j where j: "findJob ?k u = Some j" using midway_job [OF assms(1)] by blast
  obtain u1 where u1: "setStatus ?k SWITCHING u = (Inr (), u1)"
    using updateJob_run [OF j] by (auto simp: setStatus_def)
  then have m1: "movable ?k u1 = movable ?k u" using keepsD [OF keeps_setStatus, of ?k ?k SWITCHING u] by simp
  then have "findServer (s_id v) u1 = Some v" using assms by (auto simp: movable_def midway_def findServer_def)
  note sw = switch_run [OF this, of n]
  have m2: "movable ?k (switched u1 v n u1) = movable ?k (switched u v n u)"
    using m1 by (simp add: movable_def switched_def)
  have "jobRoute ?k (switched u1 v n u1) = jobRoute ?k u" using m1 by (simp add: movable_def switched_def)
  then obtain j' where "findJob ?k (switched u1 v n u1) = Some j'" using j by (auto simp: jobRoute_def)
  from finish_run [OF this, of agent v "n_id n" actor] show ?thesis
    using u1 sw m2 by (auto simp: andThen_step)
qed

lemma steps_throw:
  assumes "uniqueOn n_id (nodes s)" and "findJob (mg_jobId env) s = Some j" and "m_fromNodeId j = s_nodeId v"
    and server: "findServer (s_id v) s = Some v"
    and run: "migrateSteps agent env v template node tgt actor s = (Inl e, t)"
  shows "t = s \<or> (\<exists>n \<in> set (nodes s). hasRoom (serverAmount v) n \<and> n_id n \<noteq> s_nodeId v \<and> midway env s v n t)"
proof (cases "reserveCapacity (mg_now env) (migrationRequest v node tgt) (onTarget env tgt) s")
  case (Pair r u)
  show ?thesis
  proof (cases r)
    case (Inl x)
    then show ?thesis using Pair run reserveCapacity_throw by (fastforce simp: migrateSteps_def andThen_def)
  next
    case (Inr y)
    obtain rv x where y: "y = (rv, x)" by (cases y)
    obtain n where n: "eligible (mg_now env) (migrationRequest v node tgt) s n" "rv_nodeId rv = n_id n" "n_id n \<noteq> s_nodeId v"
      "midway env s v n u" "allocations u = allocations s"
      by (rule migration_reserved [OF Pair [unfolded Inr y] assms(1-3)])
    have room: "n \<in> set (nodes s)" "hasRoom (serverAmount v) n"
      using n(1) eligible_hasRoom [OF n(1)] by (simp_all add: eligible_def)
    obtain r1 u1 where 1: "archiveSource agent env v template u = (r1, u1)" by fastforce
    have m1: "movable (mg_jobId env) u1 = movable (mg_jobId env) u"
      using keepsD [OF keeps_archiveSource, of "mg_jobId env" agent env v template u] 1 by simp
    then have u1: "midway env s v n u1" "allocations u1 = allocations s"
      using n(4,5) midway_movable [OF m1, of s v n] by (simp_all add: movable_def)
    obtain r2 u2 where 2: "buildTarget agent env v template (n_id n) u1 = (r2, u2)" by fastforce
    have u2: "midway env s v n u2" using buildTarget_midway [OF u1, of agent template] 2 by simp
    obtain t' y' where "andThen (setStatus (mg_jobId env) SWITCHING) (\<lambda>_. andThen (switchRecord v (n_id n)) (\<lambda>_.
      finishMigration agent env v (n_id n) actor)) u2 = (Inr y', t')"
      using steps_end [OF u2 server] by blast
    then have "t = u1 \<or> t = u2"
      using run Pair Inr y n(2) 1 2
      by (cases r1; cases r2) (auto simp: migrateSteps_def andThen_step andThen_stop)
    then show ?thesis using u1 u2 room n(3) by blast
  qed
qed

lemma steps_ok:
  assumes "uniqueOn n_id (nodes s)" and "findJob (mg_jobId env) s = Some j" and "m_fromNodeId j = s_nodeId v"
    and server: "findServer (s_id v) s = Some v"
    and run: "migrateSteps agent env v template node tgt actor s = (Inr y, t)"
  shows "\<exists>target. y = (mg_jobId env, target) \<and> migrated env s v target t \<and> (truthyId tgt \<longrightarrow> tgt = Some target)"
proof -
  obtain rv x u u1 u2 where r: "reserveCapacity (mg_now env) (migrationRequest v node tgt) (onTarget env tgt) s = (Inr (rv, x), u)"
    and 1: "archiveSource agent env v template u = (Inr (), u1)"
    and 2: "buildTarget agent env v template (rv_nodeId rv) u1 = (Inr (), u2)"
    and 3: "andThen (setStatus (mg_jobId env) SWITCHING) (\<lambda>_. andThen (switchRecord v (rv_nodeId rv)) (\<lambda>_.
      finishMigration agent env v (rv_nodeId rv) actor)) u2 = (Inr y, t)"
    using run by (auto simp: migrateSteps_def andThen_ok)
  obtain n where n: "eligible (mg_now env) (migrationRequest v node tgt) s n" "rv_nodeId rv = n_id n" "n_id n \<noteq> s_nodeId v"
      "truthyId tgt \<longrightarrow> tgt = Some (n_id n)" "midway env s v n u" "allocations u = allocations s"
    by (rule migration_reserved [OF r assms(1-3)])
  have room: "n \<in> set (nodes s)" "hasRoom (serverAmount v) n"
    using n(1) eligible_hasRoom [OF n(1)] by (simp_all add: eligible_def)
  have m1: "movable (mg_jobId env) u1 = movable (mg_jobId env) u"
    using keepsD [OF keeps_archiveSource, of "mg_jobId env" agent env v template u] 1 by simp
  then have u1: "midway env s v n u1" "allocations u1 = allocations s"
    using n(5,6) midway_movable [OF m1, of s v n] by (simp_all add: movable_def)
  have u2: "midway env s v n u2" using buildTarget_midway [OF u1, of agent template] 2 n(2) by simp
  obtain al where al: "al \<in> set (freeAllocations (mg_locked env) (n_id n) s)"
      "allocations u2 = updateWhere (\<lambda>b. a_id b = a_id al) (bindPort (s_id v)) (allocations s)"
    using buildTarget_bound [OF u1(2)] 2 n(2) by (metis (no_types))
  have t: "y = (mg_jobId env, n_id n)" "movable (mg_jobId env) t = movable (mg_jobId env) (switched u2 v n u2)"
      "\<exists>j. findJob (mg_jobId env) t = Some j \<and> m_status j = COMPLETED"
    using steps_end [OF u2 server, of agent actor] 3 n(2) by auto
  have "nodes t = nodes (switched u2 v n u2)" "servers t = servers (switched u2 v n u2)" "allocations t = allocations (switched u2 v n u2)"
    using t(2) by (simp_all add: movable_def)
  moreover have "nodes u2 = updateWhere (\<lambda>m. n_id m = n_id n) (addReserved (serverAmount v)) (nodes s)" "servers u2 = servers s"
    using u2 by (simp_all add: midway_def)
  moreover have "jobRoute (mg_jobId env) t = Some (s_nodeId v, n_id n)"
    using t(2) u2 by (simp add: movable_def switched_def midway_def)
  then have "\<exists>j. findJob (mg_jobId env) t = Some j \<and> m_status j = COMPLETED \<and> m_fromNodeId j = s_nodeId v \<and> m_toNodeId j = n_id n"
    using t(3) by (auto simp: jobRoute_def)
  ultimately have "migrated env s v (n_id n) t"
    using n(3) room al by (auto simp: migrated_def switched_def)
  then show ?thesis using t(1) n(4) by blast
qed

section \<open>Properties\<close>

lemma insertJob_run: "insertJob j s =
    (if \<exists>k \<in> set (migrationJobs s). m_id k = m_id j then (Inl (UniqueError ''MigrationJob''), s)
     else if findNode (m_toNodeId j) s = None then (Inl (Error ''foreign key''), s)
     else (Inr (), s\<lparr>migrationJobs := migrationJobs s @ [j]\<rparr>))"
  by (simp add: insertJob_def andThen_def readState_def require_def throw_def ret_def orThrow_def writeState_def split: option.split)

lemma migrateServer_start:
  assumes "migrateServer agent env i tgt actor s = (r, t)"
  obtains (early) e where "r = Inl e" and "t = s"
  | (steps) v template node s1 where "findServer i s = Some v" and "s_id v = i"
      and "s1 = s\<lparr>migrationJobs := migrationJobs s @ [newJob env v tgt]\<rparr>"
      and "findJob (mg_jobId env) s1 = Some (newJob env v tgt)" and "findServer (s_id v) s1 = Some v"
      and "tryCatch (migrateSteps agent env v template node tgt actor)
        (\<lambda>e. andThen (unwindTarget agent env v e) (\<lambda>_. throw e)) s1 = (r, t)"
proof (cases "\<exists>v template node. findServer i s = Some v \<and> findTemplate (s_templateId v) s = Some template \<and>
    findNode (s_nodeId v) s = Some node \<and> \<not> isl (fst (insertJob (newJob env v tgt) s))")
  case True
  then obtain v template node where v: "findServer i s = Some v" "findTemplate (s_templateId v) s = Some template"
    "findNode (s_nodeId v) s = Some node" "\<not> isl (fst (insertJob (newJob env v tgt) s))" by blast
  let ?s1 = "s\<lparr>migrationJobs := migrationJobs s @ [newJob env v tgt]\<rparr>"
  have ins: "insertJob (newJob env v tgt) s = (Inr (), ?s1)" and new: "\<forall>k \<in> set (migrationJobs s). m_id k \<noteq> m_id (newJob env v tgt)"
    using v(4) by (auto simp: insertJob_run split: if_splits)
  have "List.find (\<lambda>j. m_id j = m_id (newJob env v tgt)) (js @ [newJob env v tgt]) = Some (newJob env v tgt)"
    if "\<forall>k \<in> set js. m_id k \<noteq> m_id (newJob env v tgt)" for js
    using that by (induction js) auto
  then have "findJob (mg_jobId env) ?s1 = Some (newJob env v tgt)" using new by (simp add: findJob_def newJob_def)
  moreover have "s_id v = i" "findServer (s_id v) ?s1 = Some v" using v(1) by (auto simp: findServer_def find_Some_iff)
  moreover have "tryCatch (migrateSteps agent env v template node tgt actor)
      (\<lambda>e. andThen (unwindTarget agent env v e) (\<lambda>_. throw e)) ?s1 = (r, t)"
    using assms v(1-3) ins by (simp add: migrateServer_def andThen_def orThrow_def)
  ultimately show thesis using steps v(1) by blast
next
  case False
  have ins: "\<exists>e. insertJob j s = (Inl e, s)" if "isl (fst (insertJob j s))" for j
    using that unfolding insertJob_run
    by (cases "\<exists>k \<in> set (migrationJobs s). m_id k = m_id j"; cases "findNode (m_toNodeId j) s = None") simp_all
  have "\<exists>e. r = Inl e \<and> t = s"
  proof (cases "\<exists>v template node. findServer i s = Some v \<and> findTemplate (s_templateId v) s = Some template \<and> findNode (s_nodeId v) s = Some node")
    case True
    then obtain v template node where v: "findServer i s = Some v" "findTemplate (s_templateId v) s = Some template"
      "findNode (s_nodeId v) s = Some node" by blast
    then have "isl (fst (insertJob (newJob env v tgt) s))" using False by blast
    then obtain e where "insertJob (newJob env v tgt) s = (Inl e, s)" using ins by blast
    then show ?thesis using assms v by (auto simp: migrateServer_def andThen_def orThrow_def)
  next
    case none: False
    then show ?thesis using assms
      by (cases "findServer i s"; cases "findTemplate (s_templateId (the (findServer i s))) s")
        (auto simp: migrateServer_def andThen_def orThrow_def split: option.splits)
  qed
  then show thesis using early by blast
qed

lemma migrated_sound:
  assumes "migrated env s v target t" and "fleetSound s" and "amountOk (serverAmount v)" and "uniqueOn n_id (nodes s)"
  shows "fleetSound t"
proof -
  obtain n where n: "n \<in> set (nodes s)" "n_id n = target" "hasRoom (serverAmount v) n"
    and t: "nodes t = updateWhere (\<lambda>m. n_id m = s_nodeId v) (subReserved (serverAmount v))
       (updateWhere (\<lambda>m. n_id m = target) (addReserved (serverAmount v)) (nodes s))"
    using assms(1) by (auto simp: migrated_def)
  have "nodeSound (addReserved (serverAmount v) m)" if "m \<in> set (nodes s)" "n_id m = target" for m
    using that n assms(2-4) uniqueOn_eq [OF assms(4) that(1) n(1)] by (auto intro: nodeSound_addReserved simp: fleetSound_def)
  then have "\<forall>m \<in> set (updateWhere (\<lambda>m. n_id m = target) (addReserved (serverAmount v)) (nodes s)). nodeSound m"
    using assms(2) by (auto simp: set_updateWhere fleetSound_def)
  then show ?thesis
    using assms(3) pool.release_sound t by (auto simp: fleetSound_def set_updateWhere)
qed

lemma migrateServer_ok:
  assumes "migrateServer agent env i tgt actor s = (Inr (k, target), t)" and "uniqueOn n_id (nodes s)"
  shows "\<exists>v. findServer i s = Some v \<and> migrated env s v target t \<and> (truthyId tgt \<longrightarrow> tgt = Some target)"
proof (rule migrateServer_start [OF assms(1)])
  fix v template node s1
  assume v: "findServer i s = Some v" and s1: "s1 = s\<lparr>migrationJobs := migrationJobs s @ [newJob env v tgt]\<rparr>"
    and j: "findJob (mg_jobId env) s1 = Some (newJob env v tgt)" and f: "findServer (s_id v) s1 = Some v"
    and run: "tryCatch (migrateSteps agent env v template node tgt actor)
        (\<lambda>e. andThen (unwindTarget agent env v e) (\<lambda>_. throw e)) s1 = (Inr (k, target), t)"
  have "migrateSteps agent env v template node tgt actor s1 = (Inr (k, target), t)"
    using run by (auto simp: tryCatch_def andThen_def throw_def split: prod.splits sum.splits)
  from steps_ok [OF _ j _ f this] have m: "migrated env s1 v target t" "truthyId tgt \<longrightarrow> tgt = Some target"
    using assms(2) s1 by (auto simp: newJob_def)
  then have "migrated env s v target t" using s1 by (simp add: migrated_def freeAllocations_def)
  then show ?thesis using v m(2) by blast
qed simp

lemma migrateServer_undone:
  assumes "migrateServer agent env i None actor s = (Inl e, t)" and "placementWf s" and "fleetSound s"
    and "\<forall>v \<in> set (servers s). amountOk (serverAmount v)"
    and "\<forall>a \<in> set (allocations s). \<forall>v \<in> set (servers s). a_serverId a = Some (s_id v) \<longrightarrow> a_nodeId a = s_nodeId v"
  shows "samePlacement s t"
proof (rule migrateServer_start [OF assms(1)])
  fix v template node s1
  assume v: "findServer i s = Some v" and s1: "s1 = s\<lparr>migrationJobs := migrationJobs s @ [newJob env v None]\<rparr>"
    and j: "findJob (mg_jobId env) s1 = Some (newJob env v None)" and f: "findServer (s_id v) s1 = Some v"
    and run: "tryCatch (migrateSteps agent env v template node None actor)
        (\<lambda>e. andThen (unwindTarget agent env v e) (\<lambda>_. throw e)) s1 = (Inl e, t)"
  have vs: "v \<in> set (servers s)" using v by (auto simp: findServer_def find_Some_iff)
  have wf: "placementWf s1" "fleetSound s1" "uniqueOn n_id (nodes s1)" "amountOk (serverAmount v)"
    "\<forall>a \<in> set (allocations s1). a_serverId a = Some (s_id v) \<longrightarrow> a_nodeId a = s_nodeId v"
    using assms(2-5) vs s1 by (auto simp: placementWf_def fleetSound_def cong: option.case_cong)
  obtain e' u where st: "migrateSteps agent env v template node None actor s1 = (Inl e', u)"
    and un: "snd (unwindTarget agent env v e' u) = t"
    using run by (auto simp: tryCatch_def andThen_def throw_def split: prod.splits sum.splits)
  have s: "samePlacement s s1" using s1 by (simp add: samePlacement_def)
  from steps_throw [OF wf(3) j _ f st] show ?thesis
  proof
    assume "u = s1"
    moreover have "samePlacement s1 (snd (unwindTarget agent env v e' s1))"
      using j updateJob_run [OF j]
      by (simp add: unwindTarget_def andThen_def orThrow_def newJob_def ret_def samePlacement_def)
    ultimately show ?thesis using un s samePlacement_trans by blast
  next
    assume "\<exists>n \<in> set (nodes s1). hasRoom (serverAmount v) n \<and> n_id n \<noteq> s_nodeId v \<and> midway env s1 v n u"
    then show ?thesis using unwind_midway [OF wf(1,2,4) _ _ _ wf(5)] un s samePlacement_trans by blast
  qed (simp add: newJob_def)
qed simp

text \<open>C30. A migration that succeeds has moved the server: its row names the target, a node that had room
  for it and is not the source; the capacity of its plan is reserved there and given back on the
  source; one free port of the target is bound and the ports on the source are free; the job is
  completed; and no node is oversold.\<close>

theorem migration_completed:
  assumes "migrateServer agent env i tgt actor s = (Inr (k, target), t)" and "uniqueOn n_id (nodes s)"
    and "fleetSound s" and "\<forall>v \<in> set (servers s). amountOk (serverAmount v)"
  shows "\<exists>v. findServer i s = Some v \<and> migrated env s v target t \<and> fleetSound t \<and>
    (truthyId tgt \<longrightarrow> tgt = Some target)"
  using migrateServer_ok [OF assms(1,2)] migrated_sound [OF _ assms(3) _ assms(2)] assms(4)
  by (blast dest: findServer_in)


section \<open>Draining\<close>

text \<open>What a migration does to the servers and to the keys of the nodes.\<close>

definition nodeKey :: "Node \<Rightarrow> ident \<times> bool" where
  "nodeKey n = (n_id n, n_enabled n)"

lemma nodeKey_reserved [simp]: "nodeKey (addReserved a n) = nodeKey n" "nodeKey (subReserved a n) = nodeKey n"
  by (simp_all add: nodeKey_def addReserved_def subReserved_def)

lemma nodeKey_unique: "map nodeKey ns = map nodeKey ms \<Longrightarrow> uniqueOn n_id ms \<Longrightarrow> uniqueOn n_id ns"
proof -
  assume k: "map nodeKey ns = map nodeKey ms" "uniqueOn n_id ms"
  have "map n_id xs = map fst (map nodeKey xs)" for xs by (simp add: nodeKey_def)
  then show ?thesis using k by (simp only: uniqueOn_def)
qed

lemma nodeKey_enabled: "map nodeKey ns = map nodeKey ms \<Longrightarrow> \<forall>n \<in> set ms. n_id n = k \<longrightarrow> \<not> n_enabled n \<Longrightarrow>
    \<forall>n \<in> set ns. n_id n = k \<longrightarrow> \<not> n_enabled n"
proof
  fix n assume k: "map nodeKey ns = map nodeKey ms" "\<forall>n \<in> set ms. n_id n = k \<longrightarrow> \<not> n_enabled n" "n \<in> set ns"
  then have "nodeKey n \<in> set (map nodeKey ms)" using image_eqI [of "nodeKey n" nodeKey n "set ns"] by (metis set_map)
  then obtain m where "m \<in> set ms" "nodeKey m = nodeKey n" by auto
  then show "n_id n = k \<longrightarrow> \<not> n_enabled n" using k(2) by (auto simp: nodeKey_def)
qed

lemma keeps_unwind: "keeps (\<lambda>s. (servers s, map nodeKey (nodes s))) (unwindTarget agent env v e)"
  unfolding unwindTarget_def updateJob_def freePortsOn_def releaseCapacity_def
  by (intro keep) (simp_all add: map_updateWhere)

lemma midway_keys: "midway env s v n u \<Longrightarrow> servers u = servers s \<and> map nodeKey (nodes u) = map nodeKey (nodes s)"
  by (simp add: midway_def map_updateWhere)

lemma migrate_servers:
  assumes "migrateServer agent env i tgt actor s = (r, t)" and "uniqueOn n_id (nodes s)"
  shows "map nodeKey (nodes t) = map nodeKey (nodes s) \<and> (case r of Inl _ \<Rightarrow> servers t = servers s
    | Inr (k, target) \<Rightarrow> \<exists>v. findServer i s = Some v \<and> target \<noteq> s_nodeId v \<and> servers t = updateWhere (\<lambda>w. s_id w = i)
       (\<lambda>w. w\<lparr>s_nodeId := target, s_status := OFFLINE, s_containerId := None\<rparr>) (servers s))"
proof (rule migrateServer_start [OF assms(1)])
  fix v template node s1
  assume v: "findServer i s = Some v" "s_id v = i" and s1: "s1 = s\<lparr>migrationJobs := migrationJobs s @ [newJob env v tgt]\<rparr>"
    and j: "findJob (mg_jobId env) s1 = Some (newJob env v tgt)" and f: "findServer (s_id v) s1 = Some v"
    and run: "tryCatch (migrateSteps agent env v template node tgt actor)
        (\<lambda>e. andThen (unwindTarget agent env v e) (\<lambda>_. throw e)) s1 = (r, t)"
  have same: "servers s1 = servers s" "nodes s1 = nodes s" "uniqueOn n_id (nodes s1)" using s1 assms(2) by simp_all
  have from': "m_fromNodeId (newJob env v tgt) = s_nodeId v" by (simp add: newJob_def)
  obtain q u where q: "migrateSteps agent env v template node tgt actor s1 = (q, u)" by fastforce
  show ?thesis
  proof (cases q)
    case (Inl e)
    have "servers u = servers s1 \<and> map nodeKey (nodes u) = map nodeKey (nodes s1)"
      using steps_throw [OF same(3) j from' f q [unfolded Inl]] midway_keys by blast
    moreover have "t = snd (unwindTarget agent env v e u)" "isl r"
      using run q Inl by (auto simp: tryCatch_def andThen_def throw_def split: prod.splits sum.splits)
    ultimately show ?thesis
      using keepsD [OF keeps_unwind, of agent env v e u] same by (auto split: sum.split)
  next
    case (Inr y)
    then have "r = Inr y" "t = u" using run q by (simp_all add: tryCatch_def)
    moreover obtain target where "y = (mg_jobId env, target)" "migrated env s1 v target u"
      using steps_ok [OF same(3) j from' f q [unfolded Inr]] by blast
    ultimately show ?thesis using v same
      by (auto simp: migrated_def map_updateWhere)
  qed
qed auto

lemma findServer_other: "j \<noteq> i \<Longrightarrow> (\<And>w. s_id (f w) = s_id w) \<Longrightarrow> servers t = updateWhere (\<lambda>w. s_id w = i) f (servers s) \<Longrightarrow>
    findServer j t = findServer j s"
proof -
  assume f: "j \<noteq> i" "\<And>w. s_id (f w) = s_id w" "servers t = updateWhere (\<lambda>w. s_id w = i) f (servers s)"
  have "List.find (\<lambda>w. s_id w = j) (updateWhere (\<lambda>w. s_id w = i) f ws) = List.find (\<lambda>w. s_id w = j) ws" for ws
    using f(1,2) by (induction ws) auto
  then show ?thesis using f(3) by (simp add: findServer_def)
qed

lemma findServer_moved: "findServer i s = Some v \<Longrightarrow> (\<And>w. s_id (f w) = s_id w) \<Longrightarrow>
    servers t = updateWhere (\<lambda>w. s_id w = i) f (servers s) \<Longrightarrow> findServer i t = Some (f v)"
  by (auto simp: findServer_def updateWhere_find [where k = s_id] dest: find_key_in)

definition drained :: "ident \<Rightarrow> db \<Rightarrow> ident \<times> (string + ident) \<Rightarrow> bool" where
  "drained nodeId t = (\<lambda>(i, r). \<exists>w. findServer i t = Some w \<and>
     (case r of Inl _ \<Rightarrow> s_nodeId w = nodeId | Inr target \<Rightarrow> target \<noteq> nodeId \<and> s_nodeId w = target))"

lemma drainLoop_run:
  assumes "distinct ids" and "uniqueOn n_id (nodes s)"
    and "\<forall>i \<in> set ids. \<exists>v. findServer i s = Some v \<and> s_nodeId v = nodeId"
  shows "\<exists>rs t. drainLoop agent env actor ids s = (Inr rs, t) \<and> map fst rs = ids \<and> (\<forall>r \<in> set rs. drained nodeId t r) \<and>
    (\<forall>j. j \<notin> set ids \<longrightarrow> findServer j t = findServer j s) \<and> map nodeKey (nodes t) = map nodeKey (nodes s)"
  using assms
proof (induction ids arbitrary: s)
  case (Cons i ids)
  obtain r u where m: "migrateServer agent (env i) i None actor s = (r, u)" by fastforce
  note ms = migrate_servers [OF m Cons.prems(2)]
  then have uq: "uniqueOn n_id (nodes u)" using nodeKey_unique Cons.prems(2) by blast
  obtain v where v: "findServer i s = Some v" "s_nodeId v = nodeId" using Cons.prems(3) by auto
  have others: "findServer j u = findServer j s" if "j \<noteq> i" for j
    using ms that findServer_other by (auto simp: findServer_def split: sum.splits)
  then have "\<forall>j \<in> set ids. \<exists>v. findServer j u = Some v \<and> s_nodeId v = nodeId"
    using Cons.prems(1,3) others by (metis distinct.simps(2) list.set_intros(2))
  from Cons.IH [OF _ uq this] obtain rs t where t: "drainLoop agent env actor ids u = (Inr rs, t)" "map fst rs = ids"
    "\<forall>r \<in> set rs. drained nodeId t r" "\<forall>j. j \<notin> set ids \<longrightarrow> findServer j t = findServer j u" "map nodeKey (nodes t) = map nodeKey (nodes u)"
    using Cons.prems(1) by auto
  have ti: "findServer i t = findServer i u" using t(4) Cons.prems(1) by simp
  obtain x where "tryCatch (andThen (migrateServer agent (env i) i None actor) (\<lambda>(_, target). ret (i, Inr target)))
       (\<lambda>e. ret (i, Inl (showExn e))) s = (Inr (i, x), u)" "drained nodeId t (i, x)"
  proof (cases r)
    case (Inl e)
    then show thesis using that [of "Inl (showExn e)"] m ms v ti
      by (simp add: tryCatch_def andThen_def ret_def drained_def findServer_def)
  next
    case (Inr y)
    obtain k target where y: "y = (k, target)" by (cases y)
    have "findServer i u = Some (v\<lparr>s_nodeId := target, s_status := OFFLINE, s_containerId := None\<rparr>)" "target \<noteq> nodeId"
      using ms Inr y v
      by (auto intro!: findServer_moved [OF v(1), of "\<lambda>w. w\<lparr>s_nodeId := target, s_status := OFFLINE, s_containerId := None\<rparr>"])
    then show thesis using that [of "Inr target"] m Inr y ti
      by (simp add: tryCatch_def andThen_def ret_def drained_def)
  qed
  then show ?case using t others ms by (auto simp: andThen_step ret_def)
qed (simp add: ret_def)

lemma disabled_update: "\<forall>n \<in> set (updateWhere (\<lambda>n. n_id n = k) (\<lambda>n. n\<lparr>n_enabled := False\<rparr>) ns). n_id n = k \<longrightarrow> \<not> n_enabled n"
  by (induction ns) auto

text \<open>Draining a node accounts for every server on it: the node is disabled from then on, and
  each of its servers is either reported as moved, and then its row names the other node it is on, or
  reported as failed, and then it is still on the node.\<close>

theorem drain_accounts_for_all:
  assumes "findNode k s \<noteq> None" and "uniqueOn n_id (nodes s)" and "uniqueOn s_id (servers s)"
  shows "\<exists>rs t. drainNode agent env k actor s = (Inr rs, t) \<and>
    map fst rs = map s_id (filter (\<lambda>v. s_nodeId v = k) (servers s)) \<and> (\<forall>r \<in> set rs. drained k t r) \<and>
    (\<forall>n \<in> set (nodes t). n_id n = k \<longrightarrow> \<not> n_enabled n)"
proof -
  let ?s1 = "s\<lparr>nodes := updateWhere (\<lambda>n. n_id n = k) (\<lambda>n. n\<lparr>n_enabled := False\<rparr>) (nodes s)\<rparr>"
  let ?ids = "map s_id (filter (\<lambda>v. s_nodeId v = k) (servers s))"
  have up: "updateNodeRow k (\<lambda>n. n\<lparr>n_enabled := False\<rparr>) s = (Inr (), ?s1)"
    using assms(1) by (auto simp: updateNodeRow_def andThen_def orThrow_def writeState_def split: option.splits)
  have d: "distinct ?ids" using assms(3) by (simp add: uniqueOn_def distinct_map_filter)
  have u: "uniqueOn n_id (nodes ?s1)" using assms(2) by (simp add: uniqueOn_updateWhere)
  have f: "\<forall>i \<in> set ?ids. \<exists>v. findServer i ?s1 = Some v \<and> s_nodeId v = k"
    using assms(3) find_uniqueOn [of s_id "servers s"] by (auto simp: findServer_def)
  obtain rs t where t: "drainLoop agent env actor ?ids ?s1 = (Inr rs, t)" "map fst rs = ?ids" "\<forall>r \<in> set rs. drained k t r"
    "map nodeKey (nodes t) = map nodeKey (nodes ?s1)"
    using drainLoop_run [OF d u f, of agent env actor] by (elim exE conjE) (rule that)
  have n1: "nodes ?s1 = updateWhere (\<lambda>n. n_id n = k) (\<lambda>n. n\<lparr>n_enabled := False\<rparr>) (nodes s)" by simp
  let ?t = "t\<lparr>auditLog := auditLog t @ [\<lparr>au_actorId = actor, au_action = ''node.drain'', au_targetType = ''node'', au_targetId = k\<rparr>]\<rparr>"
  have "andThen (drainLoop agent env actor ?ids) (\<lambda>results. andThen (audit actor ''node.drain'' ''node'' k) (\<lambda>_. ret results)) ?s1 =
      (Inr rs, ?t)"
    unfolding andThen_def t(1) by (simp add: audit_def writeState_def ret_def)
  then have "drainNode agent env k actor s = (Inr rs, ?t)"
    unfolding drainNode_def by (subst andThen_def) (simp only: up prod.case sum.case, simp add: andThen_def readState_def)
  moreover have "drained k ?t = drained k t" by (simp add: drained_def findServer_def)
  moreover have "\<forall>n \<in> set (nodes t). n_id n = k \<longrightarrow> \<not> n_enabled n"
    by (rule nodeKey_enabled [OF t(4)]) (unfold n1, rule disabled_update)
  moreover have "nodes ?t = nodes t" by simp
  ultimately show ?thesis using t(2,3) by metis
qed

end
