(* ===== verification/Admin.thy ===== *)
theory Admin
  imports Access Migration
begin

text \<open>
  The administrators' routes under \<open>panel/src/app/api/admin\<close>: nodes (creation with its port
  range, change, deletion, a new agent token, draining), plans, database hosts, the roll-out of an
  agent version and the migration of one server. A body is \<open>None\<close> when it is no JSON; the
  schema of each route is a function on what was sent, a field that may be missing being an option.
\<close>

section \<open>Creating a node\<close>

record NodeBody =
  nb_name :: string
  nb_hostname :: string
  nb_location :: string
  nb_type :: NodeType
  nb_totalMemoryMb :: int
  nb_totalDiskMb :: int
  nb_totalCpuCores :: rat
  nb_overheadMemoryMb :: "int option"
  nb_overheadDiskMb :: "int option"
  nb_templateIds :: "ident list option"
  nb_allocationIp :: "string option"
  nb_portRangeStart :: "int option"
  nb_portRangeEnd :: "int option"

definition orDefault :: "'x \<Rightarrow> 'x option \<Rightarrow> 'x" where
  "orDefault d x = (case x of None \<Rightarrow> d | Some v \<Rightarrow> v)"

definition atLeast_opt :: "int \<Rightarrow> int option \<Rightarrow> bool" where
  "atLeast_opt k x = (case x of None \<Rightarrow> True | Some v \<Rightarrow> k \<le> v)"

definition createSchema :: "NodeBody \<Rightarrow> bool" where
  "createSchema b \<longleftrightarrow>
     2 \<le> length (nb_name b) \<and> length (nb_name b) \<le> 64 \<and> nb_hostname b \<noteq> [] \<and> nb_location b \<noteq> [] \<and>
     0 \<le> nb_totalMemoryMb b \<and> 0 \<le> nb_totalDiskMb b \<and> 0 \<le> nb_totalCpuCores b \<and>
     atLeast_opt 0 (nb_overheadMemoryMb b) \<and> atLeast_opt 0 (nb_overheadDiskMb b) \<and>
     atLeast_opt 1024 (nb_portRangeStart b) \<and>
     (case nb_portRangeEnd b of None \<Rightarrow> True | Some e \<Rightarrow> e \<le> 65535)"

definition parseWith :: "('b \<Rightarrow> bool) \<Rightarrow> 'b option \<Rightarrow> 'b act" where
  "parseWith ok body = parseBody (case body of None \<Rightarrow> None | Some b \<Rightarrow> if ok b then Some b else None)"

text \<open>The id of the row, 32 random bytes in base64url, the ids of the allocations by port and
  \<open>PUBLIC_GATEWAY_URL\<close>.\<close>

record NodeEnv =
  ne_id :: ident
  ne_random :: string
  ne_allocationId :: "int \<Rightarrow> ident"
  ne_gatewayUrl :: "string option"

definition agentToken :: "string \<Rightarrow> string" where
  "agentToken random = ''dsh_'' @ random"

definition newNode :: "NodeEnv \<Rightarrow> string \<Rightarrow> NodeBody \<Rightarrow> Node" where
  "newNode nenv tokenHash b = \<lparr>n_id = ne_id nenv, n_name = nb_name b, n_hostname = nb_hostname b,
     n_location = nb_location b, n_type = nb_type b, n_status = N_OFFLINE, n_enabled = True,
     n_totalMemoryMb = nb_totalMemoryMb b, n_totalDiskMb = nb_totalDiskMb b, n_totalCpuCores = nb_totalCpuCores b,
     n_reservedMemoryMb = 0, n_reservedDiskMb = 0, n_reservedCpuCores = 0,
     n_overheadMemoryMb = orDefault 1024 (nb_overheadMemoryMb b),
     n_overheadDiskMb = orDefault 10240 (nb_overheadDiskMb b),
     n_agentTokenHash = tokenHash, n_agentVersion = None, n_lastHeartbeat = None,
     n_daemonPortRangeStart = orDefault 25565 (nb_portRangeStart b),
     n_daemonPortRangeEnd = orDefault 25700 (nb_portRangeEnd b)\<rparr>"

text \<open>\<open>node.create\<close>: id and name are unique.\<close>

definition insertNode :: "Node \<Rightarrow> unit act" where
  "insertNode n =
     andThen (readState (\<lambda>s. \<exists>m \<in> set (nodes s). n_id m = n_id n \<or> n_name m = n_name n)) (\<lambda>taken.
     andThen (require (\<not> taken) (UniqueError ''Node'')) (\<lambda>_.
     writeState (\<lambda>s. s\<lparr>nodes := nodes s @ [n]\<rparr>)))"

text \<open>One row of the nested \<open>templates: { create: ... }\<close>.\<close>

definition insertNodeTemplate :: "ident \<Rightarrow> ident \<Rightarrow> unit act" where
  "insertNodeTemplate nodeId templateId =
     andThen (orThrow (Error ''foreign key'') (findTemplate templateId)) (\<lambda>_.
     andThen (readState (\<lambda>s. \<exists>x \<in> set (nodeTemplates s). nt_nodeId x = nodeId \<and> nt_templateId x = templateId)) (\<lambda>taken.
     andThen (require (\<not> taken) (UniqueError ''NodeTemplate'')) (\<lambda>_.
     writeState (\<lambda>s. s\<lparr>nodeTemplates := nodeTemplates s @ [\<lparr>nt_nodeId = nodeId, nt_templateId = templateId\<rparr>]\<rparr>))))"

text \<open>\<open>createMany\<close> with \<open>skipDuplicates\<close>.\<close>

definition sameAllocation :: "Allocation \<Rightarrow> Allocation \<Rightarrow> bool" where
  "sameAllocation a r \<longleftrightarrow>
     a_id r = a_id a \<or> (a_nodeId r = a_nodeId a \<and> a_ip r = a_ip a \<and> a_port r = a_port a)"

fun insertAllocations :: "Allocation list \<Rightarrow> Allocation list \<Rightarrow> Allocation list" where
  "insertAllocations [] rows = rows"
| "insertAllocations (a # as) rows =
     insertAllocations as (if list_ex (sameAllocation a) rows then rows else rows @ [a])"

definition portRows :: "NodeEnv \<Rightarrow> NodeBody \<Rightarrow> Allocation list" where
  "portRows nenv b = map (\<lambda>p. \<lparr>a_id = ne_allocationId nenv p, a_nodeId = ne_id nenv,
       a_ip = orDefault ''0.0.0.0'' (nb_allocationIp b), a_port = p, a_serverId = None, a_primary = False\<rparr>)
     [orDefault 25565 (nb_portRangeStart b)..orDefault 25700 (nb_portRangeEnd b)]"

definition createNode :: "NodeEnv \<Rightarrow> string \<Rightarrow> NodeBody \<Rightarrow> Node act" where
  "createNode nenv tokenHash b = transaction (
     andThen (insertNode (newNode nenv tokenHash b)) (\<lambda>_.
     andThen (forEach (orDefault [] (nb_templateIds b)) (insertNodeTemplate (ne_id nenv))) (\<lambda>_.
     andThen (writeState (\<lambda>s. s\<lparr>allocations := insertAllocations (portRows nenv b) (allocations s)\<rparr>)) (\<lambda>_.
     ret (newNode nenv tokenHash b)))))"

definition agentEnv :: "NodeEnv \<Rightarrow> Node \<Rightarrow> string \<Rightarrow> string" where
  "agentEnv nenv node token =
     ''DEERS_PANEL_URL='' @ orDefault ''wss://panel.example.com/agent'' (ne_gatewayUrl nenv) @ [CHR 0x0A] @
     ''DEERS_NODE_ID='' @ n_id node @ [CHR 0x0A] @ ''DEERS_NODE_TOKEN='' @ token"

definition nodesPost :: "(string \<Rightarrow> string) \<Rightarrow> NodeEnv \<Rightarrow> AuthEnv \<Rightarrow> NodeBody option \<Rightarrow> response act" where
  "nodesPost hashToken nenv env body = handler (
     andThen (requireAdmin env) (\<lambda>admin.
     andThen (parseWith createSchema body) (\<lambda>b.
     let token = agentToken (ne_random nenv)
     in andThen (createNode nenv (hashToken token) b) (\<lambda>node.
        andThen (audit (Some (u_id admin)) ''node.create'' ''node'' (n_id node)) (\<lambda>_.
        ret (Response 201 (agentEnv nenv node token)))))))"

section \<open>Changing and deleting a node\<close>

record NodePatch =
  np_enabled :: "bool option"
  np_name :: "string option"
  np_location :: "string option"
  np_totalMemoryMb :: "int option"
  np_totalDiskMb :: "int option"
  np_totalCpuCores :: "rat option"
  np_recalculate :: "bool option"

definition patchSchema :: "NodePatch \<Rightarrow> bool" where
  "patchSchema p \<longleftrightarrow>
     (case np_name p of None \<Rightarrow> True | Some x \<Rightarrow> 2 \<le> length x) \<and>
     (case np_location p of None \<Rightarrow> True | Some x \<Rightarrow> x \<noteq> []) \<and>
     atLeast_opt 0 (np_totalMemoryMb p) \<and> atLeast_opt 0 (np_totalDiskMb p) \<and>
     (case np_totalCpuCores p of None \<Rightarrow> True | Some x \<Rightarrow> 0 \<le> x)"

definition patchNode :: "NodePatch \<Rightarrow> Node \<Rightarrow> Node" where
  "patchNode p n = n\<lparr>n_enabled := orDefault (n_enabled n) (np_enabled p), n_name := orDefault (n_name n) (np_name p),
     n_location := orDefault (n_location n) (np_location p),
     n_totalMemoryMb := orDefault (n_totalMemoryMb n) (np_totalMemoryMb p),
     n_totalDiskMb := orDefault (n_totalDiskMb n) (np_totalDiskMb p),
     n_totalCpuCores := orDefault (n_totalCpuCores n) (np_totalCpuCores p)\<rparr>"

definition nameTaken :: "ident \<Rightarrow> string option \<Rightarrow> db \<Rightarrow> bool" where
  "nameTaken i name s = (case name of None \<Rightarrow> False
     | Some x \<Rightarrow> \<exists>m \<in> set (nodes s). n_name m = x \<and> n_id m \<noteq> i)"

text \<open>\<open>node.update\<close>, or \<open>findUniqueOrThrow\<close> when no field is given; \<open>updateNodeRow\<close>
  looks the row up.\<close>

definition noFields :: "NodePatch \<Rightarrow> bool" where
  "noFields p \<longleftrightarrow> np_enabled p = None \<and> np_name p = None \<and> np_location p = None \<and> np_totalMemoryMb p = None \<and>
     np_totalDiskMb p = None \<and> np_totalCpuCores p = None"

definition writePatch :: "ident \<Rightarrow> NodePatch \<Rightarrow> Node act" where
  "writePatch i p =
     andThen (if noFields p then ret () else
       andThen (readState (nameTaken i (np_name p))) (\<lambda>taken.
       andThen (require (\<not> taken) (UniqueError ''Node'')) (\<lambda>_.
       updateNodeRow i (patchNode p)))) (\<lambda>_.
     orThrow (NotFoundError ''Node'') (findNode i))"

definition belowReserved :: "Node \<Rightarrow> bool" where
  "belowReserved n \<longleftrightarrow> n_totalMemoryMb n - n_reservedMemoryMb n < 0 \<or>
     n_totalDiskMb n - n_reservedDiskMb n < 0 \<or> n_totalCpuCores n - n_reservedCpuCores n < 0"

definition nodePatch :: "AuthEnv \<Rightarrow> ident \<Rightarrow> NodePatch option \<Rightarrow> response act" where
  "nodePatch env nodeId body = handler (
     andThen (requireAdmin env) (\<lambda>admin.
     andThen (parseWith patchSchema body) (\<lambda>p.
     andThen (if np_recalculate p = Some True then recalculateNodeReservations nodeId else ret ()) (\<lambda>_.
     andThen (writePatch nodeId p) (\<lambda>node.
     andThen (require (\<not> belowReserved node)
       (Error ''New totals are below the resources already reserved on this node.'')) (\<lambda>_.
     andThen (case np_enabled p of
         None \<Rightarrow> ret ()
       | Some e \<Rightarrow> audit (Some (u_id admin)) (if e then ''node.enable'' else ''node.disable'') ''node'' nodeId) (\<lambda>_.
     ret (Response 200 ''node''))))))))"

text \<open>
  \<open>prisma.node.delete\<close>: template links and allocations go with the node, database hosts lose
  it, and a server or a migration that names it (relations without \<open>onDelete\<close>) forbids the deletion.
\<close>

definition nodeReferenced :: "ident \<Rightarrow> db \<Rightarrow> bool" where
  "nodeReferenced i s \<longleftrightarrow> (\<exists>v \<in> set (servers s). s_nodeId v = i) \<or>
     (\<exists>j \<in> set (migrationJobs s). m_fromNodeId j = i \<or> m_toNodeId j = i)"

definition deleteNodeRow :: "ident \<Rightarrow> unit act" where
  "deleteNodeRow i =
     andThen (orThrow (NotFoundError ''Node'') (findNode i)) (\<lambda>_.
     andThen (readState (nodeReferenced i)) (\<lambda>used.
     andThen (require (\<not> used) (Error ''foreign key'')) (\<lambda>_.
     writeState (\<lambda>s. s\<lparr>
       nodes := deleteWhere (\<lambda>n. n_id n = i) (nodes s),
       nodeTemplates := deleteWhere (\<lambda>x. nt_nodeId x = i) (nodeTemplates s),
       allocations := deleteWhere (\<lambda>a. a_nodeId a = i) (allocations s),
       databaseHosts := updateWhere (\<lambda>h. h_nodeId h = Some i) (h_nodeId_update (\<lambda>_. None)) (databaseHosts s)\<rparr>))))"

definition nodeDelete :: "AuthEnv \<Rightarrow> ident \<Rightarrow> response act" where
  "nodeDelete env nodeId = handler (
     andThen (requireAdmin env) (\<lambda>admin.
     andThen (readState (\<lambda>s. countWhere (\<lambda>v. s_nodeId v = nodeId) (servers s))) (\<lambda>count.
     if 0 < count
     then ret (Response 409 (''This node still hosts '' @ showNat count @ '' server(s). Move or delete them first.''))
     else
       andThen (deleteNodeRow nodeId) (\<lambda>_.
       andThen (audit (Some (u_id admin)) ''node.delete'' ''node'' nodeId) (\<lambda>_.
       ret (Response 200 ''ok''))))))"

section \<open>Tokens, draining and migration\<close>

definition rotateToken :: "(string \<Rightarrow> string) \<Rightarrow> string \<Rightarrow> AuthEnv \<Rightarrow> ident \<Rightarrow> response act" where
  "rotateToken hashToken random env nodeId = handler (
     andThen (requireAdmin env) (\<lambda>admin.
     andThen (updateNodeRow nodeId (\<lambda>n. n\<lparr>n_agentTokenHash := hashToken (agentToken random)\<rparr>)) (\<lambda>_.
     andThen (audit (Some (u_id admin)) ''node.rotate_token'' ''node'' nodeId) (\<lambda>_.
     ret (Response 200 (agentToken random))))))"

definition drainNote :: "(ident \<times> (string + ident)) list \<Rightarrow> string" where
  "drainNote results =
     (if length (filter (\<lambda>r. isl (snd r)) results) \<noteq> 0
      then ''Servers that failed to move are still running where they were.''
      else ''Every server was moved. The node is empty and disabled.'')"

definition drainPost :: "agent \<Rightarrow> (ident \<Rightarrow> MigrateEnv) \<Rightarrow> AuthEnv \<Rightarrow> ident \<Rightarrow> response act" where
  "drainPost agent menv env nodeId = handler (
     andThen (requireAdmin env) (\<lambda>admin.
     andThen (drainNode agent menv nodeId (Some (u_id admin))) (\<lambda>results.
     ret (Response 200 (drainNote results)))))"

text \<open>The body holds the target, \<open>null\<close> or a UUID.\<close>

definition migratePost :: "agent \<Rightarrow> MigrateEnv \<Rightarrow> AuthEnv \<Rightarrow> ident \<Rightarrow> ident option option \<Rightarrow> response act" where
  "migratePost agent menv env serverId body = handler (
     andThen (requireAdmin env) (\<lambda>admin.
     andThen (parseBody body) (\<lambda>target.
     andThen (migrateServer agent menv serverId target (Some (u_id admin))) (\<lambda>(jobId, _).
     ret (Response 200 jobId)))))"

section \<open>Plans and database hosts\<close>

record PlanBody =
  pb_name :: string
  pb_memoryMb :: int
  pb_diskMb :: int
  pb_cpuCores :: rat
  pb_backupMb :: "int option"
  pb_databaseLimit :: "int option"
  pb_allocationLimit :: "int option"
  pb_monthlyPriceCents :: int
  pb_templateId :: ident
  pb_visible :: "bool option"

definition planSchema :: "PlanBody \<Rightarrow> bool" where
  "planSchema b \<longleftrightarrow> 2 \<le> length (pb_name b) \<and> length (pb_name b) \<le> 48 \<and> 512 \<le> pb_memoryMb b \<and> 1024 \<le> pb_diskMb b \<and>
     1 / 4 \<le> pb_cpuCores b \<and> atLeast_opt 0 (pb_backupMb b) \<and> atLeast_opt 0 (pb_databaseLimit b) \<and>
     atLeast_opt 1 (pb_allocationLimit b) \<and> 0 \<le> pb_monthlyPriceCents b"

definition newPlan :: "ident \<Rightarrow> PlanBody \<Rightarrow> Plan" where
  "newPlan i b = \<lparr>p_id = i, p_name = pb_name b, p_memoryMb = pb_memoryMb b, p_diskMb = pb_diskMb b,
     p_cpuCores = pb_cpuCores b, p_backupMb = orDefault 0 (pb_backupMb b),
     p_databaseLimit = orDefault 0 (pb_databaseLimit b), p_allocationLimit = orDefault 1 (pb_allocationLimit b),
     p_monthlyPriceCents = pb_monthlyPriceCents b, p_currency = ''USD'', p_templateId = Some (pb_templateId b),
     p_visible = orDefault True (pb_visible b)\<rparr>"

definition insertPlan :: "Plan \<Rightarrow> unit act" where
  "insertPlan p =
     andThen (readState (\<lambda>s. \<exists>q \<in> set (plans s). p_id q = p_id p)) (\<lambda>taken.
     andThen (require (\<not> taken) (UniqueError ''Plan'')) (\<lambda>_.
     andThen (readState (\<lambda>s. case p_templateId p of None \<Rightarrow> True | Some t \<Rightarrow> findTemplate t s \<noteq> None)) (\<lambda>known.
     andThen (require known (Error ''foreign key'')) (\<lambda>_.
     writeState (\<lambda>s. s\<lparr>plans := plans s @ [p]\<rparr>)))))"

definition plansPost :: "AuthEnv \<Rightarrow> ident \<Rightarrow> PlanBody option \<Rightarrow> response act" where
  "plansPost env freshId body = handler (
     andThen (requireAdmin env) (\<lambda>admin.
     andThen (parseWith planSchema body) (\<lambda>b.
     andThen (insertPlan (newPlan freshId b)) (\<lambda>_.
     andThen (audit (Some (u_id admin)) ''plan.create'' ''plan'' freshId) (\<lambda>_.
     ret (Response 201 freshId))))))"

record HostBody =
  hb_name :: string
  hb_host :: string
  hb_adminHost :: string
  hb_port :: "int option"
  hb_adminUser :: string
  hb_adminPassword :: string
  hb_nodeId :: "ident option"
  hb_maxDatabases :: "int option"

definition hostSchema :: "HostBody \<Rightarrow> bool" where
  "hostSchema b \<longleftrightarrow> 2 \<le> length (hb_name b) \<and> length (hb_name b) \<le> 48 \<and> hb_host b \<noteq> [] \<and> hb_adminHost b \<noteq> [] \<and>
     hb_adminUser b \<noteq> [] \<and> 8 \<le> length (hb_adminPassword b) \<and> atLeast_opt 1 (hb_maxDatabases b)"

definition newHost :: "(string \<Rightarrow> string) \<Rightarrow> ident \<Rightarrow> HostBody \<Rightarrow> DatabaseHost" where
  "newHost enc i b = \<lparr>h_id = i, h_name = hb_name b, h_host = hb_host b, h_port = orDefault 3306 (hb_port b),
     h_adminHost = hb_adminHost b, h_adminUser = hb_adminUser b, h_adminPasswordEnc = enc (hb_adminPassword b),
     h_nodeId = hb_nodeId b, h_maxDatabases = orDefault 100 (hb_maxDatabases b), h_enabled = True\<rparr>"

definition insertHost :: "DatabaseHost \<Rightarrow> unit act" where
  "insertHost h =
     andThen (readState (\<lambda>s. \<exists>k \<in> set (databaseHosts s). h_id k = h_id h)) (\<lambda>taken.
     andThen (require (\<not> taken) (UniqueError ''DatabaseHost'')) (\<lambda>_.
     andThen (readState (\<lambda>s. case h_nodeId h of None \<Rightarrow> True | Some n \<Rightarrow> findNode n s \<noteq> None)) (\<lambda>known.
     andThen (require known (Error ''foreign key'')) (\<lambda>_.
     writeState (\<lambda>s. s\<lparr>databaseHosts := databaseHosts s @ [h]\<rparr>)))))"

text \<open>The connection is tried under the id the host is going to have; \<open>conn.end()\<close> in the
  \<open>finally\<close> sends nothing.\<close>

definition databaseHostsPost :: "mysql \<Rightarrow> (string \<Rightarrow> string) \<Rightarrow> AuthEnv \<Rightarrow> ident \<Rightarrow> HostBody option \<Rightarrow> response act" where
  "databaseHostsPost mysql enc env freshId body = handler (
     andThen (requireAdmin env) (\<lambda>admin.
     andThen (parseWith hostSchema body) (\<lambda>b.
     andThen (query mysql freshId CONNECT) (\<lambda>_.
     andThen (query mysql freshId SELECT_1) (\<lambda>_.
     andThen (insertHost (newHost enc freshId b)) (\<lambda>_.
     andThen (audit (Some (u_id admin)) ''database_host.create'' ''database_host'' freshId) (\<lambda>_.
     ret (Response 201 freshId))))))))"

section \<open>The roll-out of an agent version\<close>

record Rollout =
  ro_version :: string
  ro_url :: string
  ro_sha256 :: string
  ro_nodeIds :: "ident list option"
  ro_batchSize :: "int option"

definition hexDigit :: "char \<Rightarrow> bool" where
  "hexDigit c \<longleftrightarrow> (CHR ''a'' \<le> c \<and> c \<le> CHR ''f'') \<or> (CHR ''0'' \<le> c \<and> c \<le> CHR ''9'')"

text \<open>\<open>validUrl\<close> is \<open>z.string().url()\<close>.\<close>

definition rolloutSchema :: "(string \<Rightarrow> bool) \<Rightarrow> Rollout \<Rightarrow> bool" where
  "rolloutSchema validUrl b \<longleftrightarrow> ro_version b \<noteq> [] \<and> validUrl (ro_url b) \<and>
     length (ro_sha256 b) = 64 \<and> list_all hexDigit (ro_sha256 b) \<and>
     1 \<le> orDefault 3 (ro_batchSize b) \<and> orDefault 3 (ro_batchSize b) \<le> 20"

text \<open>The query: \<open>NOT\<close> of an equation with a null column is null, so a node without a version is left out.\<close>

definition outdated :: "Rollout \<Rightarrow> db \<Rightarrow> Node list" where
  "outdated b s = filter (\<lambda>n. n_status n = N_ONLINE \<and>
     (case ro_nodeIds b of None \<Rightarrow> True | Some ids \<Rightarrow> n_id n \<in> set ids) \<and>
     (case n_agentVersion n of None \<Rightarrow> False | Some v \<Rightarrow> v \<noteq> ro_version b)) (nodes s)"

record UpdateResult =
  ur_node :: string
  ur_ok :: bool
  ur_error :: "string option"

definition updateOne :: "agent \<Rightarrow> Rollout \<Rightarrow> Node \<Rightarrow> UpdateResult act" where
  "updateOne agent b node =
     tryCatch
       (andThen (callAgent agent (n_id node) (Agent_update (ro_version b) (ro_url b) (ro_sha256 b))) (\<lambda>_.
        ret \<lparr>ur_node = n_name node, ur_ok = True, ur_error = None\<rparr>))
       (\<lambda>e. ret \<lparr>ur_node = n_name node, ur_ok = True, ur_error = Some (''no reply (restarting): '' @ showExn e)\<rparr>)"

text \<open>One batch; its calls run side by side and are taken here in the order they are issued.\<close>

fun updateBatch :: "agent \<Rightarrow> Rollout \<Rightarrow> Node list \<Rightarrow> UpdateResult list act" where
  "updateBatch agent b [] = ret []"
| "updateBatch agent b (node # rest) =
     andThen (updateOne agent b node) (\<lambda>r. andThen (updateBatch agent b rest) (\<lambda>rs. ret (r # rs)))"

text \<open>\<open>for (i = 0; i < nodes.length; i += batchSize)\<close>, with what \<open>nodes\<close> holds from \<open>i\<close>
  on. The schema makes the batch size at least one, so \<open>max\<close> changes nothing.\<close>

function rolloutFrom :: "agent \<Rightarrow> Rollout \<Rightarrow> nat \<Rightarrow> Node list \<Rightarrow> UpdateResult list act" where
  "rolloutFrom agent b k [] = ret []"
| "rolloutFrom agent b k (n # ns) =
     andThen (updateBatch agent b (take (max 1 k) (n # ns))) (\<lambda>rs.
     andThen (rolloutFrom agent b k (drop (max 1 k) (n # ns))) (\<lambda>rest. ret (rs @ rest)))"
  by pat_completeness auto
termination by (relation "measure (\<lambda>(_, _, _, ns). length ns)") auto

text \<open>What is answered: the results, or the response of the error funnel.\<close>

definition agentUpdatePost ::
    "agent \<Rightarrow> (string \<Rightarrow> bool) \<Rightarrow> AuthEnv \<Rightarrow> Rollout option \<Rightarrow> (UpdateResult list + response) act" where
  "agentUpdatePost agent validUrl env body =
     tryCatch
       (andThen (requireAdmin env) (\<lambda>admin.
        andThen (parseWith (rolloutSchema validUrl) body) (\<lambda>b.
        andThen (readState (outdated b)) (\<lambda>ns.
        andThen (rolloutFrom agent b (nat (orDefault 3 (ro_batchSize b))) ns) (\<lambda>results.
        andThen (audit (Some (u_id admin)) ''agent.update'' ''fleet'' ''all'') (\<lambda>_.
        ret (Inl results)))))))
       (\<lambda>e. ret (Inr (failResponse e)))"

section \<open>Who gets through\<close>

definition adminCheck :: "AuthEnv \<Rightarrow> db \<Rightarrow> exn + User" where
  "adminCheck env s = (case getSessionUser env s of
     None \<Rightarrow> Inl (AuthError 401 ''Sign in to continue.'')
   | Some u \<Rightarrow> if u_role u = ADMIN then Inr u else Inl (AuthError 403 ''Administrator access required.''))"

lemma requireAdmin_run: "requireAdmin env s = (adminCheck env s, s)"
  by (simp add: requireAdmin_def requireUser_run adminCheck_def andThen_def require_def ret_def split: option.split)

lemma handler_guarded: "handler (andThen (requireAdmin env) f) s =
    (case adminCheck env s of Inl e \<Rightarrow> (Inr (failResponse e), s) | Inr u \<Rightarrow> handler (f u) s)"
  by (simp add: handler_def tryCatch_def andThen_def requireAdmin_run ret_def split: sum.split)

lemma adminCheck_refused: "adminCheck env s = Inl e \<Longrightarrow>
    failResponse e = Response 401 ''Sign in to continue.'' \<or> failResponse e = Response 403 ''Administrator access required.''"
  by (auto simp: adminCheck_def split: option.splits if_splits)

lemma adminCheck_ok: "adminCheck env s = Inr u \<longleftrightarrow> getSessionUser env s = Some u \<and> u_role u = ADMIN"
  by (auto simp: adminCheck_def split: option.splits if_splits)

lemmas admin_routes = nodesPost_def nodePatch_def nodeDelete_def rotateToken_def drainPost_def migratePost_def
  plansPost_def databaseHostsPost_def

text \<open>Without the session of an administrator every route of the administration answers 401 or 403 and
  changes nothing: no row, no audit entry, no command to an agent, no statement to a database host.\<close>

theorem admin_routes_guarded:
  assumes "\<forall>u. getSessionUser env s = Some u \<longrightarrow> u_role u \<noteq> ADMIN"
  shows "\<exists>e. fst (requireAdmin env s) = Inl e \<and> failResponse e \<in> {Response 401 ''Sign in to continue.'',
      Response 403 ''Administrator access required.''} \<and>
    nodesPost hashToken nenv env body s = (Inr (failResponse e), s) \<and>
    nodePatch env i patch s = (Inr (failResponse e), s) \<and>
    nodeDelete env i s = (Inr (failResponse e), s) \<and>
    rotateToken hashToken random env i s = (Inr (failResponse e), s) \<and>
    drainPost agent menvs env i s = (Inr (failResponse e), s) \<and>
    migratePost agent menv env i target s = (Inr (failResponse e), s) \<and>
    plansPost env i plan s = (Inr (failResponse e), s) \<and>
    databaseHostsPost my enc env i host s = (Inr (failResponse e), s) \<and>
    agentUpdatePost agent validUrl env rollout s = (Inr (Inr (failResponse e)), s)"
proof -
  obtain e where e: "adminCheck env s = Inl e"
    using assms by (cases "adminCheck env s") (auto simp: adminCheck_ok)
  have "agentUpdatePost agent validUrl env rollout s = (Inr (Inr (failResponse e)), s)"
    by (simp add: agentUpdatePost_def tryCatch_def andThen_def requireAdmin_run e ret_def)
  then show ?thesis using adminCheck_refused [OF e] by (auto simp: admin_routes handler_guarded e requireAdmin_run)
qed

section \<open>Nodes\<close>

lemma insertAllocations_fresh:
  "distinct (map a_id as) \<Longrightarrow> distinct (map (\<lambda>a. (a_nodeId a, a_ip a, a_port a)) as) \<Longrightarrow>
   (\<And>a r. a \<in> set as \<Longrightarrow> r \<in> set rows \<Longrightarrow> \<not> sameAllocation a r) \<Longrightarrow> insertAllocations as rows = rows @ as"
proof (induction as arbitrary: rows)
  case (Cons a as)
  have "\<not> list_ex (sameAllocation a) rows" using Cons.prems(3) by (auto simp: list_ex_iff)
  moreover have "insertAllocations as (rows @ [a]) = (rows @ [a]) @ as"
    using Cons.prems by (intro Cons.IH) (auto simp: sameAllocation_def)
  ultimately show ?case by simp
qed simp

lemma insertAllocations_mem: "a \<in> set (insertAllocations as rows) \<Longrightarrow> a \<in> set rows \<or> a \<in> set as"
proof (induction as arbitrary: rows)
  case (Cons c as)
  show ?case using Cons.prems Cons.IH [of rows] Cons.IH [of "rows @ [c]"] by (auto split: if_splits)
qed simp

lemma insertAllocations_ids: "distinct (map a_id rows) \<Longrightarrow> distinct (map a_id (insertAllocations as rows))"
proof (induction as arbitrary: rows)
  case (Cons a as)
  have "distinct (map a_id (if list_ex (sameAllocation a) rows then rows else rows @ [a]))"
    using Cons.prems by (auto simp: list_ex_iff sameAllocation_def)
  then show ?case using Cons.IH by simp
qed simp

definition apartFromLinks :: "db \<Rightarrow> db" where
  "apartFromLinks s = s\<lparr>nodeTemplates := []\<rparr>"

lemma keeps_links: "keeps apartFromLinks (forEach ts (insertNodeTemplate i))"
  unfolding insertNodeTemplate_def by (rule keeps_forEach, intro keep) (simp add: apartFromLinks_def)

lemma createNode_ok:
  assumes "createNode nenv h b s = (Inr n, t)"
  shows "n = newNode nenv h b \<and> findNode (ne_id nenv) s = None \<and> (\<forall>m \<in> set (nodes s). n_name m \<noteq> nb_name b) \<and>
    apartFromLinks t = apartFromLinks s\<lparr>nodes := nodes s @ [n],
      allocations := insertAllocations (portRows nenv b) (allocations s)\<rparr>"
proof -
  obtain u where f: "\<not> (\<exists>m \<in> set (nodes s). n_id m = n_id (newNode nenv h b) \<or> n_name m = n_name (newNode nenv h b))"
    and u: "forEach (orDefault [] (nb_templateIds b)) (insertNodeTemplate (ne_id nenv)) (s\<lparr>nodes := nodes s @ [newNode nenv h b]\<rparr>) = (Inr (), u)"
    and n: "n = newNode nenv h b" and t: "t = u\<lparr>allocations := insertAllocations (portRows nenv b) (allocations u)\<rparr>"
    using assms by (auto simp: createNode_def transaction_ok andThen_ok insertNode_def readState_def require_def writeState_def ret_def
        split: if_splits)
  have "apartFromLinks u = apartFromLinks (s\<lparr>nodes := nodes s @ [newNode nenv h b]\<rparr>)"
    using keepsD [OF keeps_links, of "orDefault [] (nb_templateIds b)" "ne_id nenv" "s\<lparr>nodes := nodes s @ [newNode nenv h b]\<rparr>"] u by simp
  then have "apartFromLinks t = apartFromLinks s\<lparr>nodes := nodes s @ [n], allocations := insertAllocations (portRows nenv b) (allocations s)\<rparr>"
    unfolding t n by (cases u, cases s) (simp add: apartFromLinks_def)
  moreover have "findNode (ne_id nenv) s = None" using f by (auto simp: findNode_def find_None_iff newNode_def)
  ultimately show ?thesis using n f by (auto simp: newNode_def)
qed

lemma nodesPost_cases:
  assumes "nodesPost hashToken nenv env body s = (r, t)"
  shows "t = s \<or> (\<exists>u b n m. getSessionUser env s = Some u \<and> u_role u = ADMIN \<and> body = Some b \<and> createSchema b \<and>
    createNode nenv (hashToken (agentToken (ne_random nenv))) b s = (Inr n, m) \<and>
    r = Inr (Response 201 (agentEnv nenv n (agentToken (ne_random nenv)))) \<and>
    t = snd (audit (Some (u_id u)) ''node.create'' ''node'' (n_id n) m))"
proof (cases "adminCheck env s")
  case (Inl e)
  then show ?thesis using assms by (simp add: nodesPost_def handler_guarded)
next
  case (Inr u)
  note a = Inr [unfolded adminCheck_ok]
  show ?thesis
  proof (cases "\<exists>b. body = Some b \<and> createSchema b")
    case True
    then obtain b where b: "body = Some b" "createSchema b" by blast
    let ?h = "hashToken (agentToken (ne_random nenv))"
    obtain x m where c: "createNode nenv ?h b s = (x, m)" by fastforce
    show ?thesis
    proof (cases x)
      case (Inl e)
      then have "m = s" using c transaction_throw unfolding createNode_def by fastforce
      then show ?thesis using assms Inr b c Inl
        by (simp add: nodesPost_def requireAdmin_run handler_def tryCatch_def parseWith_def parseBody_def orThrow_def andThen_def ret_def Let_def)
    next
      case (Inr n)
      then show ?thesis using assms \<open>adminCheck env s = Inr u\<close> a b c
        by (simp add: nodesPost_def requireAdmin_run handler_def tryCatch_def parseWith_def parseBody_def orThrow_def andThen_def ret_def Let_def)
    qed
  next
    case False
    then show ?thesis using assms Inr
      by (auto simp: nodesPost_def requireAdmin_run handler_def tryCatch_def parseWith_def parseBody_def orThrow_def andThen_def ret_def
          split: option.splits if_splits)
  qed
qed

text \<open>Registering a node is all or nothing. Either nothing at all has changed, or the node has been
  added, enabled and without reservations; a token exists in the clear only in the answer, the row holds its hash;
  the ports of the node are exactly those of the range, each once, free, between 1024 and 65535; and
  servers, users and the other ports are untouched.\<close>

theorem node_creation:
  assumes "nodesPost hashToken nenv env body s = (r, t)" and "inj (ne_allocationId nenv)"
    and "\<forall>a \<in> set (allocations s). a_id a \<notin> range (ne_allocationId nenv) \<and> a_nodeId a \<noteq> ne_id nenv"
  shows "t = s \<or> (\<exists>b n ps. body = Some b \<and> createSchema b \<and> n = newNode nenv (hashToken (agentToken (ne_random nenv))) b \<and>
    r = Inr (Response 201 (agentEnv nenv n (agentToken (ne_random nenv)))) \<and>
    findNode (n_id n) s = None \<and> nodes t = nodes s @ [n] \<and> allocations t = allocations s @ ps \<and>
    map a_port ps = [n_daemonPortRangeStart n..n_daemonPortRangeEnd n] \<and>
    (\<forall>a \<in> set ps. a_nodeId a = n_id n \<and> a_serverId a = None \<and> 1024 \<le> a_port a \<and> a_port a \<le> 65535) \<and>
    servers t = servers s \<and> users t = users s)"
proof (rule disjCI)
  assume "\<not> (\<exists>b n ps. body = Some b \<and> createSchema b \<and> n = newNode nenv (hashToken (agentToken (ne_random nenv))) b \<and>
    r = Inr (Response 201 (agentEnv nenv n (agentToken (ne_random nenv)))) \<and>
    findNode (n_id n) s = None \<and> nodes t = nodes s @ [n] \<and> allocations t = allocations s @ ps \<and>
    map a_port ps = [n_daemonPortRangeStart n..n_daemonPortRangeEnd n] \<and>
    (\<forall>a \<in> set ps. a_nodeId a = n_id n \<and> a_serverId a = None \<and> 1024 \<le> a_port a \<and> a_port a \<le> 65535) \<and>
    servers t = servers s \<and> users t = users s)" (is "\<not> (\<exists>b n ps. ?P b n ps)")
  moreover have "?P b n (portRows nenv b)" if "body = Some b" "createSchema b"
    and c: "createNode nenv (hashToken (agentToken (ne_random nenv))) b s = (Inr n, m)"
    and r: "r = Inr (Response 201 (agentEnv nenv n (agentToken (ne_random nenv))))"
    and t: "t = snd (audit (Some (u_id u)) ''node.create'' ''node'' (n_id n) m)" for u b n m
  proof -
    note ok = createNode_ok [OF c]
    have "insertAllocations (portRows nenv b) (allocations s) = allocations s @ portRows nenv b"
      using assms(2,3) by (intro insertAllocations_fresh)
        (auto simp: portRows_def comp_def distinct_map inj_on_def sameAllocation_def)
    moreover have "apartFromLinks m = apartFromLinks s\<lparr>nodes := nodes s @ [n],
        allocations := insertAllocations (portRows nenv b) (allocations s)\<rparr>"
      using ok by blast
    then have "nodes m = nodes s @ [n]" "allocations m = insertAllocations (portRows nenv b) (allocations s)"
      "servers m = servers s" "users m = users s"
      by (cases m, cases s, simp add: apartFromLinks_def)+
    moreover have "1024 \<le> orDefault 25565 (nb_portRangeStart b)" "orDefault 25700 (nb_portRangeEnd b) \<le> 65535"
      using \<open>createSchema b\<close> by (auto simp: createSchema_def orDefault_def atLeast_opt_def split: option.splits)
    then have "\<forall>a \<in> set (portRows nenv b). a_nodeId a = n_id n \<and> a_serverId a = None \<and> 1024 \<le> a_port a \<and> a_port a \<le> 65535"
      using ok by (auto simp: portRows_def newNode_def)
    moreover have "map a_port (portRows nenv b) = [n_daemonPortRangeStart n..n_daemonPortRangeEnd n]"
      using ok by (simp add: portRows_def newNode_def comp_def)
    ultimately show ?thesis using ok that(1,2) r t by (simp add: newNode_def)
  qed
  ultimately show "t = s" using nodesPost_cases [OF assms(1)] by blast
qed

lemma deleteNodeRow_used: "nodeReferenced i s \<Longrightarrow> \<exists>e. failResponse e = failResponse (Error []) \<and> deleteNodeRow i s = (Inl e, s)"
  by (auto simp: deleteNodeRow_def andThen_def orThrow_def readState_def require_def split: option.split)

lemma nodeDelete_used:
  assumes "nodeReferenced i s"
  shows "\<exists>st m. nodeDelete env i s = (Inr (Response st m), s) \<and> st \<in> {401, 403, 409, 500}"
proof (cases "adminCheck env s")
  case (Inl e)
  then show ?thesis using adminCheck_refused [OF Inl] by (auto simp: nodeDelete_def handler_guarded)
next
  case (Inr u)
  obtain e where "failResponse e = failResponse (Error [])" "deleteNodeRow i s = (Inl e, s)" using deleteNodeRow_used [OF assms] by blast
  then show ?thesis using Inr
    by (auto simp: nodeDelete_def handler_def tryCatch_def andThen_def requireAdmin_run readState_def ret_def)
qed

text \<open>A node a server was moved away from cannot be removed while that server lives: the finished migration
  names it in a relation without \<open>onDelete\<close>, so after the very drain the route asks for the deletion
  is answered with an error and changes nothing.\<close>

theorem drained_node_not_deletable:
  assumes "migrateServer agent menv i tgt actor s = (Inr (k, target), t)" and "uniqueOn n_id (nodes s)"
    and "findServer i s = Some v" and "set (migrationJobs t) \<subseteq> set (migrationJobs u)"
  shows "\<exists>st m. nodeDelete env (s_nodeId v) u = (Inr (Response st m), u) \<and> st \<in> {401, 403, 409, 500}"
proof -
  have "\<exists>j. findJob (mg_jobId menv) t = Some j \<and> m_fromNodeId j = s_nodeId v"
    using migrateServer_ok [OF assms(1,2)] assms(3) by (auto simp: migrated_def)
  then obtain j where "j \<in> set (migrationJobs t)" "m_fromNodeId j = s_nodeId v"
    by (auto simp: findJob_def dest: find_key_in)
  then have "nodeReferenced (s_nodeId v) u" using assms(4) by (auto simp: nodeReferenced_def)
  then show ?thesis by (rule nodeDelete_used)
qed

text \<open>The change of totals that is refused is nevertheless written.\<close>

lemma nodePatch_shrink_sticks:
  assumes "getSessionUser env s = Some u" and "u_role u = ADMIN" and "findNode i s = Some n"
    and "0 \<le> m" and "m < n_reservedMemoryMb n"
  shows "\<exists>t. nodePatch env i (Some \<lparr>np_enabled = None, np_name = None, np_location = None, np_totalMemoryMb = Some m,
      np_totalDiskMb = None, np_totalCpuCores = None, np_recalculate = None\<rparr>) s =
      (Inr (Response 500 ''Something went wrong. The team has been notified.''), t) \<and>
    findNode i t = Some (n\<lparr>n_totalMemoryMb := m\<rparr>)"
proof -
  have a: "adminCheck env s = Inr u" using assms(1,2) by (simp add: adminCheck_ok)
  let ?p = "\<lparr>np_enabled = None, np_name = None, np_location = None, np_totalMemoryMb = Some m,
      np_totalDiskMb = None, np_totalCpuCores = None, np_recalculate = None\<rparr>"
  let ?t = "s\<lparr>nodes := updateWhere (\<lambda>n. n_id n = i) (patchNode ?p) (nodes s)\<rparr>"
  have n: "n_id n = i" using findNode_in [OF assms(3)] by simp
  have "findNode i ?t = Some (patchNode ?p n)"
    using assms(3) updateWhere_find [where k = n_id and f = "patchNode ?p" and rows = "nodes s"] n
    by (simp add: findNode_def patchNode_def)
  moreover have "patchNode ?p n = n\<lparr>n_totalMemoryMb := m\<rparr>" by (cases n) (simp add: patchNode_def orDefault_def)
  ultimately have f: "findNode i ?t = Some (n\<lparr>n_totalMemoryMb := m\<rparr>)" by simp
  have w: "writePatch i ?p s = (Inr (n\<lparr>n_totalMemoryMb := m\<rparr>), ?t)"
    using assms(3) f by (simp add: writePatch_def noFields_def andThen_def readState_def nameTaken_def require_def updateNodeRow_def
        orThrow_def writeState_def)
  have b: "belowReserved (n\<lparr>n_totalMemoryMb := m\<rparr>)" using assms(5) by (simp add: belowReserved_def)
  have p: "patchSchema ?p" using assms(4) by (simp add: patchSchema_def atLeast_opt_def)
  show ?thesis
    unfolding nodePatch_def handler_def tryCatch_def andThen_def requireAdmin_run a
    using w b p f by (simp add: parseWith_def parseBody_def orThrow_def ret_def require_def)
qed

section \<open>The roll-out\<close>

definition updateCall :: "Rollout \<Rightarrow> Node \<Rightarrow> ident \<times> CommandPayload" where
  "updateCall b n = (n_id n, Agent_update (ro_version b) (ro_url b) (ro_sha256 b))"

definition reported :: "Node list \<Rightarrow> UpdateResult list \<Rightarrow> bool" where
  "reported ns rs \<longleftrightarrow> map ur_node rs = map n_name ns \<and> list_all ur_ok rs"

lemma reported_append: "reported ns rs \<Longrightarrow> reported ms qs \<Longrightarrow> reported (ns @ ms) (rs @ qs)"
  by (simp add: reported_def)

lemma updateOne_run: "\<exists>r. updateOne agent b n s = (Inr r, s\<lparr>calls := calls s @ [updateCall b n]\<rparr>) \<and> reported [n] [r]"
  by (simp add: updateOne_def tryCatch_def andThen_def callAgent_def ret_def updateCall_def reported_def split: sum.split prod.split)

lemma updateBatch_run:
  "\<exists>rs. updateBatch agent b ns s = (Inr rs, s\<lparr>calls := calls s @ map (updateCall b) ns\<rparr>) \<and> reported ns rs"
proof (induction ns arbitrary: s)
  case (Cons n ns)
  obtain r where r: "updateOne agent b n s = (Inr r, s\<lparr>calls := calls s @ [updateCall b n]\<rparr>)" "reported [n] [r]"
    using updateOne_run by blast
  obtain rs where "updateBatch agent b ns (s\<lparr>calls := calls s @ [updateCall b n]\<rparr>) =
      (Inr rs, s\<lparr>calls := calls s @ map (updateCall b) (n # ns)\<rparr>)" "reported ns rs"
    using Cons.IH [of "s\<lparr>calls := calls s @ [updateCall b n]\<rparr>"] by auto
  then show ?case using r reported_append [OF r(2)] by (auto simp: andThen_step ret_def)
qed (simp add: ret_def reported_def)

lemma rolloutFrom_run:
  "\<exists>rs. rolloutFrom agent b k ns s = (Inr rs, s\<lparr>calls := calls s @ map (updateCall b) ns\<rparr>) \<and> reported ns rs"
proof (induction "length ns" arbitrary: ns s rule: less_induct)
  case less
  show ?case
  proof (cases ns)
    case (Cons n rest)
    let ?now = "take (max 1 k) ns" and ?later = "drop (max 1 k) ns"
    obtain rs where rs: "updateBatch agent b ?now s = (Inr rs, s\<lparr>calls := calls s @ map (updateCall b) ?now\<rparr>)" "reported ?now rs"
      using updateBatch_run by blast
    have eq: "rolloutFrom agent b k ns = andThen (updateBatch agent b ?now) (\<lambda>rs.
        andThen (rolloutFrom agent b k ?later) (\<lambda>rest. ret (rs @ rest)))"
      unfolding Cons by (rule rolloutFrom.simps(2))
    let ?s1 = "s\<lparr>calls := calls s @ map (updateCall b) ?now\<rparr>"
    have "length ?later < length ns" using Cons by simp
    from less [OF this, of ?s1] obtain qs where
      q: "rolloutFrom agent b k ?later ?s1 = (Inr qs, ?s1\<lparr>calls := calls ?s1 @ map (updateCall b) ?later\<rparr>)" "reported ?later qs"
      by (elim exE conjE) (rule that)
    have "?s1\<lparr>calls := calls ?s1 @ map (updateCall b) ?later\<rparr> = s\<lparr>calls := calls s @ map (updateCall b) ns\<rparr>"
      by (simp add: map_append [symmetric] del: map_append)
    note qs = q(1) [unfolded this] q(2)
    have "rolloutFrom agent b k ns s = (Inr (rs @ qs), s\<lparr>calls := calls s @ map (updateCall b) ns\<rparr>)"
      unfolding eq andThen_def by (simp only: rs(1) qs(1) prod.case sum.case ret_def)
    then show ?thesis using reported_append [OF rs(2) qs(2)] by simp
  qed (simp add: ret_def reported_def)
qed

text \<open>A roll-out reaches every node that needs it and no other: each node that is online, chosen and
  on another version is sent the update exactly once, in order; no agent that fails or does not
  answer stops the others; and each of them is reported.\<close>

theorem rollout_reaches_all:
  assumes "getSessionUser env s = Some u" and "u_role u = ADMIN" and "rolloutSchema validUrl b"
  shows "\<exists>results t. agentUpdatePost agent validUrl env (Some b) s = (Inr (Inl results), t) \<and>
    calls t = calls s @ map (\<lambda>n. (n_id n, Agent_update (ro_version b) (ro_url b) (ro_sha256 b))) (outdated b s) \<and>
    map ur_node results = map n_name (outdated b s) \<and> nodes t = nodes s \<and> servers t = servers s"
proof -
  have a: "adminCheck env s = Inr u" using assms(1,2) by (simp add: adminCheck_ok)
  let ?ns = "outdated b s" and ?k = "nat (orDefault 3 (ro_batchSize b))"
  obtain rs where rs: "rolloutFrom agent b ?k ?ns s = (Inr rs, s\<lparr>calls := calls s @ map (updateCall b) ?ns\<rparr>)" "reported ?ns rs"
    using rolloutFrom_run by blast
  have "agentUpdatePost agent validUrl env (Some b) s =
    (Inr (Inl rs), snd (audit (Some (u_id u)) ''agent.update'' ''fleet'' ''all'' (s\<lparr>calls := calls s @ map (updateCall b) ?ns\<rparr>)))"
    unfolding agentUpdatePost_def tryCatch_def andThen_def requireAdmin_run a
    using rs(1) assms(3) by (simp add: parseWith_def parseBody_def orThrow_def readState_def ret_def)
  then show ?thesis using rs(2) by (simp add: reported_def updateCall_def [abs_def])
qed

lemma rollout_always_ok: "updateOne agent b n s = (Inr r, t) \<Longrightarrow> ur_ok r"
  using updateOne_run [of agent b n s] by (auto simp: reported_def)

section \<open>Plans and hosts\<close>

lemma planSchema_amount: "planSchema b \<Longrightarrow> amountOk (planAmount (newPlan i b))"
  by (auto simp: planSchema_def amountOk_def planAmount_def newPlan_def intro: order_trans [of 0 "1 / 4"])

lemma plansPost_plans: "plans (snd (plansPost env i body s)) = plans s \<or>
    (\<exists>b. body = Some b \<and> planSchema b \<and> plans (snd (plansPost env i body s)) = plans s @ [newPlan i b])"
  by (auto simp: plansPost_def handler_state andThen_def requireAdmin_run parseWith_def parseBody_def orThrow_def insertPlan_def
      readState_def require_def writeState_def ret_def split: option.splits sum.splits if_splits)

text \<open>A database host is stored only after its credentials worked: a row appears only if the connection
  and the query on it were answered, and it holds the password encrypted.\<close>

theorem host_verified_first:
  assumes "databaseHosts (snd (databaseHostsPost my enc env k body s)) \<noteq> databaseHosts s"
  shows "my (sqlLog s) k CONNECT \<and> my (sqlLog s @ [(k, CONNECT)]) k SELECT_1 \<and>
    (\<exists>b. body = Some b \<and> databaseHosts (snd (databaseHostsPost my enc env k body s)) = databaseHosts s @ [newHost enc k b] \<and>
      h_adminPasswordEnc (newHost enc k b) = enc (hb_adminPassword b))"
  using assms
  by (auto simp: databaseHostsPost_def handler_state andThen_def requireAdmin_run parseWith_def parseBody_def orThrow_def insertHost_def
      query_def readState_def require_def writeState_def ret_def newHost_def split: option.splits sum.splits if_splits)

end
