(* ===== verification/Ledger.thy ===== *)
theory Ledger
  imports Admin
begin

text \<open>
  The books of the fleet across purchases, deletions and migrations: the reserved counters the
  scheduler sells against are, between operations, exactly what the servers on each node add up to,
  and no operation, on whichever branch it ends, lets a node host more than it has.
\<close>

section \<open>What is placed on a node\<close>

definition sumOn :: "(Server \<Rightarrow> 'a::comm_monoid_add) \<Rightarrow> ident \<Rightarrow> Server list \<Rightarrow> 'a" where
  "sumOn g k vs = sum_list (map g (filter (\<lambda>v. s_nodeId v = k) vs))"

lemma sumOn_Nil [simp]: "sumOn g k [] = 0"
  by (simp add: sumOn_def)

lemma sumOn_Cons [simp]: "sumOn g k (v # vs) = (if s_nodeId v = k then g v else 0) + sumOn g k vs"
  by (simp add: sumOn_def)

lemma sumOn_append [simp]: "sumOn g k (vs @ ws) = sumOn g k vs + sumOn g k ws"
  by (simp add: sumOn_def)

lemma uniqueOn_Cons: "uniqueOn k (r # rs) \<longleftrightarrow> (\<forall>q \<in> set rs. k q \<noteq> k r) \<and> uniqueOn k rs"
  by (auto simp: uniqueOn_def image_iff)

lemma sumOn_nonneg:
  fixes g :: "Server \<Rightarrow> 'a::ordered_comm_monoid_add"
  assumes "\<And>v. v \<in> set vs \<Longrightarrow> 0 \<le> g v" shows "0 \<le> sumOn g k vs"
  using assms by (induction vs) auto

lemma sumOn_delete:
  fixes g :: "Server \<Rightarrow> 'a::ab_group_add"
  assumes "uniqueOn s_id vs" and "v \<in> set vs"
  shows "sumOn g k (deleteWhere (\<lambda>w. s_id w = s_id v) vs) = sumOn g k vs - (if s_nodeId v = k then g v else 0)"
  using assms
proof (induction vs)
  case (Cons w vs)
  show ?case
  proof (cases "s_id w = s_id v")
    case True
    then have "\<forall>u \<in> set vs. s_id u \<noteq> s_id v" using Cons.prems(1) by (metis uniqueOn_Cons)
    then have "w = v" "deleteWhere (\<lambda>w. s_id w = s_id v) vs = vs"
      using Cons.prems(2) True by (auto intro: deleteWhere_idle)
    then show ?thesis by simp
  next
    case False
    then show ?thesis using Cons by (auto simp: uniqueOn_def)
  qed
qed simp

lemma sumOn_move:
  fixes g :: "Server \<Rightarrow> 'a::ab_group_add"
  assumes "uniqueOn s_id vs" and "v \<in> set vs" and "g (f v) = g v"
  shows "sumOn g k (updateWhere (\<lambda>w. s_id w = s_id v) f vs) =
    sumOn g k vs - (if s_nodeId v = k then g v else 0) + (if s_nodeId (f v) = k then g v else 0)"
  using assms(1,2)
proof (induction vs)
  case (Cons w vs)
  show ?case
  proof (cases "s_id w = s_id v")
    case True
    then have "\<forall>u \<in> set vs. s_id u \<noteq> s_id v" using Cons.prems(1) by (metis uniqueOn_Cons)
    then have "w = v" "updateWhere (\<lambda>w. s_id w = s_id v) f vs = vs"
      using Cons.prems(2) True by (auto intro: updateWhere_idle)
    then show ?thesis using assms(3) by simp
  next
    case False
    then show ?thesis using Cons by (auto simp: uniqueOn_def)
  qed
qed simp

lemma keys_updateWhere: "(\<And>r. k (f r) = k r) \<Longrightarrow> k ` set (updateWhere p f rows) = k ` set rows"
  by (induction rows) auto

section \<open>The invariant\<close>

text \<open>The counters of a node are those of a load.\<close>

definition booked :: "Server list \<Rightarrow> Node \<Rightarrow> bool" where
  "booked vs n \<longleftrightarrow> n_reservedMemoryMb n = sumOn s_memoryMb (n_id n) vs \<and>
     n_reservedDiskMb n = sumOn s_diskMb (n_id n) vs \<and> n_reservedCpuCores n = sumOn s_cpuCores (n_id n) vs"

definition serversOk :: "Server list \<Rightarrow> Node list \<Rightarrow> bool" where
  "serversOk vs ns \<longleftrightarrow> uniqueOn s_id vs \<and> (\<forall>v \<in> set vs. amountOk (serverAmount v) \<and> s_nodeId v \<in> n_id ` set ns)"

text \<open>A port belongs to a server on its own node.\<close>

definition portsAtHome :: "Server list \<Rightarrow> Allocation list \<Rightarrow> bool" where
  "portsAtHome vs as \<longleftrightarrow> (\<forall>a \<in> set as. \<forall>v \<in> set vs. a_serverId a = Some (s_id v) \<longrightarrow> a_nodeId a = s_nodeId v)"

definition ledgerOk :: "db \<Rightarrow> bool" where
  "ledgerOk s \<longleftrightarrow> placementWf s \<and> fleetSound s \<and> serversOk (servers s) (nodes s) \<and>
     portsAtHome (servers s) (allocations s) \<and> (\<forall>n \<in> set (nodes s). booked (servers s) n)"

lemmas ledger_defs = ledgerOk_def serversOk_def portsAtHome_def placementWf_def

lemma ledgerOk_same:
  "samePlacement s t \<Longrightarrow> ledgerOk s \<Longrightarrow> ledgerOk t"
  by (simp add: samePlacement_def ledgerOk_def placementWf_def fleetSound_def cong: option.case_cong)

lemma booked_add:
  assumes "booked vs n" and "s_nodeId v = n_id n"
  shows "booked (vs @ [v]) (addReserved (serverAmount v) n)"
  using assms by (simp add: booked_def addReserved_def serverAmount_def)

lemma booked_other: "booked vs n \<Longrightarrow> s_nodeId v \<noteq> n_id n \<Longrightarrow> booked (vs @ [v]) n"
  by (simp add: booked_def)

lemma amounts_nonneg: "\<forall>v \<in> set vs. amountOk (serverAmount v) \<Longrightarrow> 
    0 \<le> sumOn s_memoryMb k vs \<and> 0 \<le> sumOn s_diskMb k vs \<and> 0 \<le> sumOn s_cpuCores k vs"
  by (auto intro!: sumOn_nonneg simp: amountOk_def serverAmount_def)

lemma booked_delete:
  assumes "booked vs n" and "uniqueOn s_id vs" and "v \<in> set vs" and "\<forall>v \<in> set vs. amountOk (serverAmount v)"
  shows "booked (deleteWhere (\<lambda>w. s_id w = s_id v) vs) (if n_id n = s_nodeId v then subReserved (serverAmount v) n else n)"
proof -
  have "\<forall>w \<in> set (deleteWhere (\<lambda>w. s_id w = s_id v) vs). amountOk (serverAmount w)" using assms(4) by simp
  from amounts_nonneg [OF this, of "n_id n"] show ?thesis
    using assms(1) by (auto simp: booked_def subReserved_def serverAmount_def sumOn_delete [OF assms(2,3)])
qed

lemma booked_move:
  assumes "booked vs n" and "uniqueOn s_id vs" and "v \<in> set vs" and "\<forall>v \<in> set vs. amountOk (serverAmount v)"
    and "s_nodeId (f v) = target" and "target \<noteq> s_nodeId v" and "serverAmount (f v) = serverAmount v"
  shows "booked (updateWhere (\<lambda>w. s_id w = s_id v) f vs)
    (if n_id n = s_nodeId v then subReserved (serverAmount v) n
     else if n_id n = target then addReserved (serverAmount v) n else n)"
proof -
  have g: "s_memoryMb (f v) = s_memoryMb v" "s_diskMb (f v) = s_diskMb v" "s_cpuCores (f v) = s_cpuCores v"
    using assms(7) by (simp_all add: serverAmount_def)
  have "\<forall>w \<in> set (deleteWhere (\<lambda>w. s_id w = s_id v) vs). amountOk (serverAmount w)" using assms(4) by simp
  from amounts_nonneg [OF this, of "n_id n"] show ?thesis
    using assms(1,5,6) g
    by (auto simp: booked_def subReserved_def addReserved_def serverAmount_def sumOn_delete [OF assms(2,3)]
        sumOn_move [OF assms(2,3)])
qed

section \<open>The operations keep the books\<close>

lemma provisioned_ledger:
  assumes "ledgerOk s" and "provisioned s inp plan v t" and "amountOk (planAmount plan)"
  shows "ledgerOk t"
proof -
  obtain n a where n: "n \<in> set (nodes s)" "s_nodeId v = n_id n" "hasRoom (planAmount plan) n"
      "nodes t = updateWhere (\<lambda>m. n_id m = n_id n) (addReserved (planAmount plan)) (nodes s)"
    and a: "a \<in> set (allocations s)" "a_nodeId a = s_nodeId v" "a_serverId a = None"
      "allocations t = updateWhere (\<lambda>b. a_id b = a_id a) (bindPort (s_id v)) (allocations s)"
    and v: "serverAmount v = planAmount plan" "\<forall>w \<in> set (servers s). s_id w \<noteq> s_id v" "servers t = servers s @ [v]"
    using assms(2) by (auto simp: provisioned_def)
  have u: "uniqueOn n_id (nodes s)" "uniqueOn a_id (allocations s)" "uniqueOn s_id (servers s)"
    using assms(1) by (simp_all add: ledger_defs)
  have only: "m = n" if "m \<in> set (nodes s)" "n_id m = n_id n" for m
    using uniqueOn_eq [OF u(1) that(1) n(1)] that(2) by blast
  have port: "b = a" if "b \<in> set (allocations s)" "a_id b = a_id a" for b
    using uniqueOn_eq [OF u(2) that(1) a(1)] that(2) by blast
  have "fleetSound t"
    using assms(1,3) only n(3,4) by (auto simp: fleetSound_def ledgerOk_def set_updateWhere intro: nodeSound_addReserved)
  moreover have "placementWf t"
    using assms(1) v(3) n(4) a(4) 
    by (auto simp: ledger_defs set_updateWhere uniqueOn_updateWhere split: option.splits)
  moreover have "serversOk (servers t) (nodes t)"
    using assms(1,3) v n(1,2) by (force simp: ledger_defs n(4) keys_updateWhere intro: uniqueOn_append)
  moreover have "portsAtHome (servers t) (allocations t)"
    unfolding portsAtHome_def
  proof (intro ballI impI)
    fix b w assume b: "b \<in> set (allocations t)" and w: "w \<in> set (servers t)" and bw: "a_serverId b = Some (s_id w)"
    from b a(4) consider "b = bindPort (s_id v) a" | "b \<in> set (allocations s)"
      using port by (auto simp: set_updateWhere)
    then show "a_nodeId b = s_nodeId w"
    proof cases
      case 1
      then show ?thesis using bw w v(2,3) a(2) by auto
    next
      case 2
      then have "s_id w \<in> s_id ` set (servers s)" using assms(1) bw by (force simp: ledger_defs)
      then have "w \<in> set (servers s)" using w v(2,3) by auto
      then show ?thesis using assms(1) 2 bw by (simp add: ledger_defs)
    qed
  qed
  moreover have "booked (servers t) m'" if m': "m' \<in> set (nodes t)" for m'
  proof -
    obtain m where m: "m \<in> set (nodes s)" "m' = (if n_id m = n_id n then addReserved (planAmount plan) m else m)"
      using m' n(4) by (auto simp: set_updateWhere)
    then have "booked (servers s) m" using assms(1) by (simp add: ledgerOk_def)
    then show ?thesis using m(2) v(1,3) n(2) booked_add [of "servers s" m v] booked_other [of "servers s" m v] by auto
  qed
  ultimately show ?thesis by (simp add: ledgerOk_def)
qed

lemma purchase_ledger:
  assumes "ledgerOk s" and "\<forall>plan. findPlan (pi_planId inp) s = Some plan \<longrightarrow> amountOk (planAmount plan)"
    and "provisionServer agent env inp s = (r, t)"
  shows "ledgerOk t"
  using provisionServer_cases [OF assms(3)]
proof (elim disjE exE conjE)
  fix plan template
  assume p: "findPlan (pi_planId inp) s = Some plan" and f: "orderFree (pi_orderId inp) s"
    and run: "provisionLoop agent env inp plan template [0, 1, 2] [] ''undefined'' s = (r, t)"
  have ok: "placementWf s" "fleetSound s" "amountOk (planAmount plan)" using assms(1,2) p by (simp_all add: ledgerOk_def)
  from provisionLoop_outcome [OF ok f run] show ?thesis
    using provisioned_ledger [OF assms(1) _ ok(3)] ledgerOk_same [OF _ assms(1)]
    by (auto simp: outcome_def clean_def split: sum.splits)
qed (use assms(1) in simp)

lemma delete_ledger:
  assumes "ledgerOk s" and "deleteServer agent mysql i actor s = (r, t)"
  shows "ledgerOk t"
proof (cases "findServer i s")
  case None
  then have "t = s" using assms(2) by (auto simp: deleteServer_def andThen_def orThrow_def)
  then show ?thesis using assms(1) by simp
next
  case (Some v)
  have u: "uniqueOn s_id (servers s)" using assms(1) by (simp add: ledger_defs)
  have v: "v \<in> set (servers s)" "s_id v = i" using findServer_in [OF Some] by simp_all
  have t: "servers t = deleteWhere (\<lambda>w. s_id w = s_id v) (servers s)"
      "nodes t = updateWhere (\<lambda>n. n_id n = s_nodeId v) (subReserved (serverAmount v)) (nodes s)"
      "allocations t = updateWhere (\<lambda>a. a_serverId a = Some i) (\<lambda>a. a\<lparr>a_serverId := None, a_primary := False\<rparr>) (allocations s)"
    using deleteServer_completes [OF Some u, of agent mysql actor] assms(2) v(2) by auto
  have ok: "\<forall>v \<in> set (servers s). amountOk (serverAmount v)" using assms(1) by (simp add: ledger_defs)
  have "fleetSound t"
    using assms(1) ok v(1) pool.release_sound t(2) by (auto simp: fleetSound_def ledgerOk_def set_updateWhere)
  moreover have "placementWf t"
    using assms(1) v(2) by (fastforce simp: ledger_defs t set_updateWhere uniqueOn_updateWhere image_iff split: option.splits)
  moreover have "serversOk (servers t) (nodes t)"
    using assms(1) by (simp add: ledger_defs t keys_updateWhere uniqueOn_deleteWhere)
  moreover have "portsAtHome (servers t) (allocations t)"
    using assms(1) by (auto simp: ledger_defs t set_updateWhere)
  moreover have "booked (servers t) m'" if m': "m' \<in> set (nodes t)" for m'
  proof -
    obtain m where m: "m \<in> set (nodes s)" "m' = (if n_id m = s_nodeId v then subReserved (serverAmount v) m else m)"
      using m' t(2) by (auto simp: updateWhere_def)
    then have "booked (servers s) m" using assms(1) by (simp add: ledgerOk_def)
    then show ?thesis using booked_delete [OF _ u v(1) ok, of m] t(1) m(2) by simp
  qed
  ultimately show ?thesis by (simp add: ledgerOk_def)
qed

lemma migrated_ledger:
  assumes "ledgerOk s" and "migrated env s v target t" and "findServer i s = Some v"
  shows "ledgerOk t"
proof -
  let ?f = "\<lambda>w. w\<lparr>s_nodeId := target, s_status := OFFLINE, s_containerId := None\<rparr>"
  have u: "uniqueOn n_id (nodes s)" "uniqueOn a_id (allocations s)" "uniqueOn s_id (servers s)"
    and ok: "\<forall>v \<in> set (servers s). amountOk (serverAmount v)"
    and home: "portsAtHome (servers s) (allocations s)"
    using assms(1) by (simp_all add: ledger_defs)
  have v: "v \<in> set (servers s)" using findServer_in [OF assms(3)] by simp
  have only: "w = v" if "w \<in> set (servers s)" "s_id w = s_id v" for w
    using uniqueOn_eq [OF u(3) that(1) v that(2)] .
  obtain al where far: "target \<noteq> s_nodeId v" "target \<in> n_id ` set (nodes s)"
    and t: "nodes t = updateWhere (\<lambda>m. n_id m = s_nodeId v) (subReserved (serverAmount v))
       (updateWhere (\<lambda>m. n_id m = target) (addReserved (serverAmount v)) (nodes s))"
      "servers t = updateWhere (\<lambda>w. s_id w = s_id v) ?f (servers s)"
    and al: "al \<in> set (allocations s)" "a_nodeId al = target" "a_serverId al = None"
      "allocations t = updateWhere (\<lambda>a. a_serverId a = Some (s_id v) \<and> a_nodeId a = s_nodeId v)
         (\<lambda>a. a\<lparr>a_serverId := None, a_primary := False\<rparr>)
         (updateWhere (\<lambda>b. a_id b = a_id al) (bindPort (s_id v)) (allocations s))"
    using assms(2) by (auto simp: migrated_def freeAllocations_def)
  have port: "b = al" if "b \<in> set (allocations s)" "a_id b = a_id al" for b
    using uniqueOn_eq [OF u(2) that(1) al(1) that(2)] .
  have al': "a_nodeId b = target" if "b \<in> set (allocations s)" "a_id b = a_id al" for b
    using port [OF that] al(2) by simp
  have ids: "s_id ` set (servers t) = s_id ` set (servers s)" by (simp add: t(2) keys_updateWhere)
  have keys: "n_id ` set (nodes t) = n_id ` set (nodes s)" by (simp add: t(1) keys_updateWhere)
  have "fleetSound t"
    using migrated_sound [OF assms(2) _ _ u(1)] assms(1) ok v by (simp add: ledgerOk_def)
  moreover have "placementWf t"
    using assms(1) v by (auto simp: ledger_defs t(1) ids al(4) set_updateWhere uniqueOn_updateWhere split: option.splits if_splits)
  moreover have "serversOk (servers t) (nodes t)"
    using assms(1) far(2) keys by (auto simp: ledger_defs t(2) set_updateWhere uniqueOn_updateWhere serverAmount_def)
  moreover have "portsAtHome (servers t) (allocations t)"
    using home al(1-3) v only al' unfolding portsAtHome_def t(2) al(4) set_updateWhere
    by (auto split: if_splits)
  moreover have "booked (servers t) m'" if m': "m' \<in> set (nodes t)" for m'
  proof -
    obtain m where m: "m \<in> set (nodes s)" "m' = (if n_id m = s_nodeId v then subReserved (serverAmount v) m
        else if n_id m = target then addReserved (serverAmount v) m else m)"
      using m' t(1) far(1) by (auto simp: set_updateWhere)
    then have "booked (servers s) m" using assms(1) by (simp add: ledgerOk_def)
    from booked_move [OF this u(3) v ok, of ?f target] show ?thesis
      using t(2) m(2) far(1) by (simp add: serverAmount_def)
  qed
  ultimately show ?thesis by (simp add: ledgerOk_def)
qed

text \<open>An explicit target is out: one that fails gives back what it never took.\<close>

lemma migrate_ledger:
  assumes "ledgerOk s" and "migrateServer agent env i tgt actor s = (r, t)" and "tgt = None \<or> \<not> isl r"
  shows "ledgerOk t"
proof (cases r)
  case (Inl e)
  then have none: "migrateServer agent env i None actor s = (Inl e, t)" using assms(2,3) by simp
  have "samePlacement s t"
    using assms(1) by (intro migrateServer_undone [OF none]) (simp_all add: ledger_defs)
  then show ?thesis using ledgerOk_same assms(1) by blast
next
  case (Inr y)
  obtain k target where "y = (k, target)" by (cases y)
  with Inr assms(2) have run: "migrateServer agent env i tgt actor s = (Inr (k, target), t)" by simp
  have "uniqueOn n_id (nodes s)" using assms(1) by (simp add: ledger_defs)
  from migrateServer_ok [OF run this] show ?thesis using migrated_ledger [OF assms(1)] by blast
qed

section \<open>Plans and nodes of the administrators\<close>

text \<open>No plan asks for a negative amount; the books and the plans together are what the fleet keeps.\<close>

definition plansOk :: "db \<Rightarrow> bool" where
  "plansOk s \<longleftrightarrow> list_all amountOk (map planAmount (plans s))"

definition fleetOk :: "db \<Rightarrow> bool" where
  "fleetOk s \<longleftrightarrow> ledgerOk s \<and> plansOk s"

lemma plansOk_found: "plansOk s \<Longrightarrow> findPlan i s = Some plan \<Longrightarrow> amountOk (planAmount plan)"
  using find_key_in [of p_id i "plans s" plan] by (auto simp: plansOk_def list_all_iff findPlan_def)

lemma plansOk_same: "plans t = plans s \<Longrightarrow> plansOk s \<Longrightarrow> plansOk t"
  by (simp add: plansOk_def)

lemma plans_provision: "plans (snd (provisionServer agent env inp s)) = plans s"
proof -
  have "keeps catalogue (provisionServer agent env inp)"
    unfolding provisionServer_def by (intro keep keeps_provisionLoop)
  from keepsD [OF this, of s] show ?thesis by simp
qed

lemma plans_delete: "plans (snd (deleteServer agent my i actor s)) = plans s"
proof -
  have "keeps plans (deleteServer agent my i actor)"
    unfolding deleteServer_def deleteCommit_def freePorts_def deleteServerRow_def releaseCapacity_def
    by (intro keep) simp_all
  then show ?thesis by (rule keepsD)
qed

lemma plans_migrate: "plans (snd (migrateServer agent env i tgt actor s)) = plans s"
proof -
  have "keeps plans (reserveCapacity now req f)" if "\<And>rv. keeps plans (f rv)" for now req and f :: "Reservation \<Rightarrow> 'x act"
  proof -
    have "keeps plans (reserveUpdate k a)" for k a by (simp add: keeps_def reserveUpdate_def)
    then show ?thesis unfolding reserveCapacity_def by (intro keep that)
  qed
  note reserve = this
  have j: "keeps plans (updateJob k f)" for k f unfolding updateJob_def by (intro keep) simp_all
  have "keeps plans (migrateSteps agent env server template node tgt actor)" for server template node
    unfolding migrateSteps_def archiveSource_def buildTarget_def switchRecord_def finishMigration_def onTarget_def setStatus_def
      freePortsOn_def releaseCapacity_def insertBackup_def updateBackup_def claimAllocation_def split_def
    by (intro keep reserve j) simp_all
  moreover have "keeps plans (unwindTarget agent env server e)" for server e
    unfolding unwindTarget_def freePortsOn_def releaseCapacity_def by (intro keep j) simp_all
  ultimately have "keeps plans (migrateServer agent env i tgt actor)"
    unfolding migrateServer_def insertJob_def by (intro keep) simp_all
  then show ?thesis by (rule keepsD)
qed

lemma newNode_unknown: "findNode i s = None \<Longrightarrow> serversOk (servers s) (nodes s) \<Longrightarrow> v \<in> set (servers s) \<Longrightarrow> s_nodeId v \<noteq> i"
  by (fastforce simp: serversOk_def findNode_def find_None_iff)

lemma sumOn_nobody: "(\<And>v. v \<in> set vs \<Longrightarrow> s_nodeId v \<noteq> k) \<Longrightarrow> sumOn g k vs = 0"
  by (induction vs) auto

definition roomy :: "NodeBody \<Rightarrow> bool" where
  "roomy b \<longleftrightarrow> orDefault 1024 (nb_overheadMemoryMb b) \<le> nb_totalMemoryMb b \<and>
     orDefault 10240 (nb_overheadDiskMb b) \<le> nb_totalDiskMb b"

lemma nodesPost_fleet:
  assumes "nodesPost hashToken nenv env body s = (r, t)" and "fleetOk s" and "\<forall>b. body = Some b \<longrightarrow> roomy b"
  shows "fleetOk t"
proof (cases "t = s")
  case False
  from nodesPost_cases [OF assms(1)] obtain u :: User and b n m where b: "body = Some b" "createSchema b"
    and c: "createNode nenv (hashToken (agentToken (ne_random nenv))) b s = (Inr n, m)"
    and t: "t = snd (audit (Some (u_id u)) ''node.create'' ''node'' (n_id n) m)"
    by (elim disjE exE conjE) (use False in simp, rule that)
  note ok = createNode_ok [OF c]
  have "apartFromLinks m = apartFromLinks s\<lparr>nodes := nodes s @ [n],
      allocations := insertAllocations (portRows nenv b) (allocations s)\<rparr>" using ok by blast
  then have m: "nodes t = nodes s @ [n]" "allocations t = insertAllocations (portRows nenv b) (allocations s)"
      "servers t = servers s" "plans t = plans s"
    unfolding t by (cases m, cases s, simp add: apartFromLinks_def audit_def writeState_def)+
  have n: "findNode (n_id n) s = None" "n = newNode nenv (hashToken (agentToken (ne_random nenv))) b"
    using ok by (simp_all add: newNode_def)
  have ids: "n_id n \<notin> n_id ` set (nodes s)" using n(1) by (auto simp: findNode_def find_None_iff)
  have ledger: "ledgerOk s" using assms(2) by (simp add: fleetOk_def)
  have "nodeSound n"
    using assms(3) b by (auto simp: n(2) newNode_def nodeSound_def freeMemory_def freeDisk_def freeCpu_def roomy_def createSchema_def)
  then have "fleetSound t" using ledger by (auto simp: ledger_defs fleetSound_def m)
  moreover have "placementWf t"
    using ledger ids insertAllocations_ids [of "allocations s" "portRows nenv b"]
    by (auto simp: ledger_defs uniqueOn_def m portRows_def dest!: insertAllocations_mem split: option.splits)
  moreover have "serversOk (servers t) (nodes t)" using ledger by (auto simp: ledger_defs m)
  moreover have "portsAtHome (servers t) (allocations t)"
    using ledger by (auto simp: ledger_defs m portRows_def dest!: insertAllocations_mem)
  moreover have "booked (servers t) n"
    using newNode_unknown [OF n(1)] ledger
    by (simp add: booked_def m sumOn_nobody ledgerOk_def) (simp add: n(2) newNode_def)
  moreover have "\<forall>n \<in> set (nodes s). booked (servers t) n" using ledger by (simp add: ledgerOk_def m(3))
  ultimately show ?thesis using assms(2) m(1,4) by (simp add: fleetOk_def ledgerOk_def plansOk_def)
qed (use assms(2) in simp)

lemma nodeDelete_fleet:
  assumes "nodeDelete env i s = (r, t)" and "fleetOk s"
  shows "fleetOk t"
proof -
  have "t = s \<or> (nodes t = deleteWhere (\<lambda>n. n_id n = i) (nodes s) \<and> servers t = servers s \<and> plans t = plans s \<and>
      allocations t = deleteWhere (\<lambda>a. a_nodeId a = i) (allocations s) \<and> (\<forall>v \<in> set (servers s). s_nodeId v \<noteq> i))"
    using arg_cong [OF assms(1), of snd]
    by (auto simp: nodeDelete_def handler_state andThen_def requireAdmin_run readState_def ret_def deleteNodeRow_def orThrow_def
        require_def writeState_def nodeReferenced_def split: sum.splits if_splits option.splits)
  moreover have "uniqueOn n_id (deleteWhere (\<lambda>n. n_id n = i) (nodes s))" "uniqueOn a_id (deleteWhere (\<lambda>a. a_nodeId a = i) (allocations s))"
    if "ledgerOk s"
    using that by (auto simp: ledger_defs intro: uniqueOn_deleteWhere)
  moreover have "n_id ` set (deleteWhere (\<lambda>n. n_id n = i) (nodes s)) = n_id ` set (nodes s) - {i}" by auto
  ultimately show ?thesis
    using assms(2) by (auto simp: fleetOk_def ledger_defs fleetSound_def plansOk_def split: option.splits) force
qed

lemma plansPost_fleet:
  assumes "fleetOk s"
  shows "fleetOk (snd (plansPost env k body s))"
proof -
  have "keeps (\<lambda>s. (nodes s, servers s, allocations s)) (insertPlan p)" for p
    unfolding insertPlan_def by (intro keep) simp_all
  then have "keeps (\<lambda>s. (nodes s, servers s, allocations s)) (plansPost env k body)"
    unfolding plansPost_def handler_def parseWith_def parseBody_def requireAdmin_def by (intro keep) simp_all
  then have "samePlacement s (snd (plansPost env k body s))" using keepsD by (fastforce simp: samePlacement_def)
  then have "ledgerOk (snd (plansPost env k body s))" using ledgerOk_same assms by (simp add: fleetOk_def)
  moreover have "plansOk (snd (plansPost env k body s))"
    using plansPost_plans [of env k body s] assms planSchema_amount by (auto simp: fleetOk_def plansOk_def)
  ultimately show ?thesis by (simp add: fleetOk_def)
qed

section \<open>The fleet as a state machine\<close>

text \<open>What no other component touches: the capacity and the counters of the nodes, where the servers are
  and what they take, and the ports. A heartbeat, a power action, a suspension, a backup or a login is
  a step that leaves it alone.\<close>

definition bareNode :: "Node \<Rightarrow> Node" where
  "bareNode n = n\<lparr>n_name := [], n_location := [], n_status := N_OFFLINE, n_enabled := False, n_agentTokenHash := [],
     n_agentVersion := None, n_lastHeartbeat := None\<rparr>"

definition bareServer :: "Server \<Rightarrow> Server" where
  "bareServer v = v\<lparr>s_shortId := [], s_name := [], s_ownerId := [], s_planId := [], s_templateId := [], s_status := OFFLINE,
     s_containerId := None, s_environment := [], s_suspended := False, s_createdAt := 0\<rparr>"

definition ledgerView :: "db \<Rightarrow> Node list \<times> Server list \<times> Allocation list \<times> Amount list" where
  "ledgerView s = (map bareNode (nodes s), map bareServer (servers s), allocations s, map planAmount (plans s))"

lemma bare_simps [simp]:
  "n_id (bareNode n) = n_id n" "nodeSound (bareNode n) = nodeSound n" "booked vs (bareNode n) = booked vs n"
  "s_id (bareServer v) = s_id v" "s_nodeId (bareServer v) = s_nodeId v" "serverAmount (bareServer v) = serverAmount v"
  by (simp_all add: bareNode_def bareServer_def counter_defs booked_def serverAmount_def)

lemma booked_bare [simp]: "booked (map bareServer vs) n = booked vs n"
proof -
  have "sumOn s_memoryMb k (map bareServer vs) = sumOn s_memoryMb k vs"
    "sumOn s_diskMb k (map bareServer vs) = sumOn s_diskMb k vs"
    "sumOn s_cpuCores k (map bareServer vs) = sumOn s_cpuCores k vs" for k
    by (induction vs) (simp_all add: bareServer_def)
  then show ?thesis by (simp add: booked_def)
qed

lemma ledgerOk_bare: "ledgerOk (s\<lparr>nodes := map bareNode (nodes s), servers := map bareServer (servers s)\<rparr>) = ledgerOk s"
  by (simp add: ledger_defs fleetSound_def uniqueOn_def comp_def image_image cong: option.case_cong)

lemma ledgerOk_view:
  assumes "ledgerView t = ledgerView s" and "ledgerOk s"
  shows "ledgerOk t"
proof -
  have "ledgerOk (t\<lparr>nodes := map bareNode (nodes t), servers := map bareServer (servers t)\<rparr>) =
    ledgerOk (s\<lparr>nodes := map bareNode (nodes s), servers := map bareServer (servers s)\<rparr>)"
    using assms(1) by (simp add: ledgerView_def ledger_defs fleetSound_def cong: option.case_cong)
  then show ?thesis using assms(2) by (simp add: ledgerOk_bare)
qed

lemma fleetOk_view: "ledgerView t = ledgerView s \<Longrightarrow> fleetOk s \<Longrightarrow> fleetOk t"
  using ledgerOk_view [of t s] by (simp add: fleetOk_def plansOk_def ledgerView_def)

definition sizesKept :: "NodePatch \<Rightarrow> bool" where
  "sizesKept p \<longleftrightarrow> np_totalMemoryMb p = None \<and> np_totalDiskMb p = None \<and> np_totalCpuCores p = None \<and>
     np_recalculate p \<noteq> Some True"

lemma keeps_parsed:
  "(\<And>b. body = Some b \<Longrightarrow> ok b \<Longrightarrow> keeps g (f b)) \<Longrightarrow> keeps g (andThen (parseWith ok body) f)"
  by (auto simp: keeps_def andThen_def parseWith_def parseBody_def orThrow_def split: option.splits)

lemma nodePatch_view:
  assumes "\<forall>p. body = Some p \<longrightarrow> sizesKept p"
  shows "ledgerView (snd (nodePatch env i body s)) = ledgerView s"
proof -
  have w: "keeps ledgerView (writePatch i p)" if "sizesKept p" for p
  proof -
    have "bareNode (patchNode p n) = bareNode n" for n
      using that by (simp add: bareNode_def patchNode_def orDefault_def sizesKept_def)
    then have "map bareNode (updateWhere c (patchNode p) ns) = map bareNode ns" for c ns by (induction ns) simp_all
    then show ?thesis unfolding writePatch_def updateNodeRow_def by (intro keep) (simp_all add: ledgerView_def)
  qed
  have idle: "(if np_recalculate p = Some True then recalculateNodeReservations i else ret ()) = ret ()" if "sizesKept p" for p
    using that by (simp add: sizesKept_def)
  have a: "keeps ledgerView (audit x y z k)" for x y z k by (rule keeps_audit) (simp add: ledgerView_def)
  have "keeps ledgerView (nodePatch env i body)"
    unfolding nodePatch_def handler_def requireAdmin_run [abs_def]
    by (rule keeps_tryCatch [OF keeps_andThen], simp add: keeps_def, rule keeps_parsed, subst idle, (use assms in blast)[1],
      (intro keeps_andThen keeps_ret keeps_require keeps_option a w; use assms in blast), rule keeps_ret)
  then show ?thesis by (rule keepsD)
qed

inductive fleetStep :: "db \<Rightarrow> db \<Rightarrow> bool" where
  Purchase: "provisionServer agent env inp s = (r, t) \<Longrightarrow> fleetStep s t"
| Deletion: "deleteServer agent mysql i actor s = (r, t) \<Longrightarrow> fleetStep s t"
| Relocation: "migrateServer agent menv i tgt actor s = (r', t) \<Longrightarrow> tgt = None \<or> \<not> isl r' \<Longrightarrow> fleetStep s t"
| Node_added: "nodesPost hashToken nenv aenv nbody s = (r'', t) \<Longrightarrow> (\<forall>b. nbody = Some b \<longrightarrow> roomy b) \<Longrightarrow> fleetStep s t"
| Node_changed: "nodePatch aenv i patch s = (r'', t) \<Longrightarrow> (\<forall>p. patch = Some p \<longrightarrow> sizesKept p) \<Longrightarrow> fleetStep s t"
| Node_removed: "nodeDelete aenv i s = (r'', t) \<Longrightarrow> fleetStep s t"
| Plan_added: "plansPost aenv i pbody s = (r'', t) \<Longrightarrow> fleetStep s t"
| Elsewhere: "ledgerView t = ledgerView s \<Longrightarrow> fleetStep s t"

lemma fleetOk_step:
  assumes "fleetStep s t" and ok: "fleetOk s"
  shows "fleetOk t"
proof -
  have l: "ledgerOk s" and p: "plansOk s" using ok by (simp_all add: fleetOk_def)
  from assms(1) show ?thesis
  proof cases
    case (Purchase agent env inp r)
    then have "ledgerOk t" using purchase_ledger [OF l _ Purchase] plansOk_found [OF p] by blast
    then show ?thesis using plansOk_same [OF _ p] plans_provision [of agent env inp s] Purchase by (simp add: fleetOk_def)
  next
    case (Deletion agent mysql i actor r)
    then show ?thesis using delete_ledger [OF l Deletion] plansOk_same [OF _ p] plans_delete [of agent mysql i actor s]
      by (simp add: fleetOk_def)
  next
    case (Relocation agent menv i tgt actor r')
    then show ?thesis using migrate_ledger [OF l Relocation] plansOk_same [OF _ p] plans_migrate [of agent menv i tgt actor s]
      by (simp add: fleetOk_def)
  next
    case Node_added
    then show ?thesis using nodesPost_fleet ok by blast
  next
    case (Node_changed aenv i patch r'')
    then show ?thesis using nodePatch_view [of patch aenv i s] fleetOk_view ok by simp
  next
    case Node_removed
    then show ?thesis using nodeDelete_fleet ok by blast
  next
    case (Plan_added aenv i pbody r'')
    then show ?thesis using plansPost_fleet [OF ok, of aenv i pbody] by simp
  next
    case Elsewhere
    then show ?thesis using fleetOk_view ok by blast
  qed
qed

lemma fleetOk_run: "fleetStep\<^sup>*\<^sup>* s t \<Longrightarrow> fleetOk s \<Longrightarrow> fleetOk t"
  by (induction rule: rtranclp_induct) (auto intro: fleetOk_step)


lemma setReserved_idle:
  "booked vs n \<Longrightarrow> \<forall>v \<in> set vs. s_status v \<noteq> DELETING \<Longrightarrow> setReserved (sumAmount (placedOn (n_id n) vs)) n = n"
proof -
  assume b: "booked vs n" and d: "\<forall>v \<in> set vs. s_status v \<noteq> DELETING"
  have "placedOn (n_id n) vs = filter (\<lambda>v. s_nodeId v = n_id n) vs"
    using d by (auto simp: placedOn_def intro: filter_cong)
  then show ?thesis using b by (simp add: setReserved_def sumAmount_def booked_def sumOn_def)
qed


end
