(* ===== verification/AgentRpc.thy ===== *)
theory AgentRpc
  imports Schema
begin

text \<open>
  The calls in flight of one panel process, \<open>apps/panel/src/lib/agent-rpc.ts\<close>: the map \<open>pending\<close>,
  the timers, the promises handed to the callers, and the messages of the reply channel, as a step
  relation whose steps are the stretches of code between two awaits. Ids are \<open>randomUUID()\<close>: fresh.
  What a caller gets in the end is specified separately, and the code refines it.
\<close>

section \<open>The state\<close>

datatype outcome = Resolved AgentReply | Rejected string string

text \<open>Where the body of a call is: waiting for \<open>publish\<close>, or left, by returning the promise or by throwing.\<close>

datatype callPhase = Publishing | Returned | ThrewOffline

record rpc =
  rc_pending :: "string \<Rightarrow> bool"
  rc_timer :: "string \<Rightarrow> bool"
  rc_promise :: "string \<Rightarrow> outcome option"
  rc_phase :: "string \<Rightarrow> callPhase option"
  rc_node :: "string \<Rightarrow> ident"
  rc_published :: "(ident \<times> string \<times> CommandPayload) list"

definition rpcInit :: rpc where
  "rpcInit = \<lparr>rc_pending = (\<lambda>_. False), rc_timer = (\<lambda>_. False), rc_promise = (\<lambda>_. None), rc_phase = (\<lambda>_. None),
     rc_node = (\<lambda>_. []), rc_published = []\<rparr>"

section \<open>Operations\<close>

text \<open>\<open>NodeOfflineError\<close>, the rejection of the timer, and the one of an error answer.\<close>

definition offlineOutcome :: "ident \<Rightarrow> outcome" where
  "offlineOutcome nodeId = Rejected ''node_offline'' (''Node '' @ nodeId @ '' has no connected agent.'')"

definition timeoutOutcome :: "ident \<Rightarrow> nat \<Rightarrow> outcome" where
  "timeoutOutcome nodeId timeoutMs =
     Rejected ''timeout'' (''Agent on node '' @ nodeId @ '' did not answer in '' @ showNat timeoutMs @ ''ms.'')"

definition answerOutcome :: "bool \<Rightarrow> AgentReply \<Rightarrow> (string \<times> string) option \<Rightarrow> outcome" where
  "answerOutcome ok d err =
     (if ok then Resolved d
      else (case err of None \<Rightarrow> Rejected ''agent_error'' ''Agent call failed'' | Some (code, msg) \<Rightarrow> Rejected code msg))"

text \<open>A promise keeps its first settlement.\<close>

definition settle :: "string \<Rightarrow> outcome \<Rightarrow> rpc \<Rightarrow> rpc" where
  "settle i oc s = (if rc_promise s i = None then s\<lparr>rc_promise := (rc_promise s)(i \<mapsto> oc)\<rparr> else s)"

definition forget :: "string \<Rightarrow> rpc \<Rightarrow> rpc" where
  "forget i s = s\<lparr>rc_pending := (rc_pending s)(i := False), rc_timer := (rc_timer s)(i := False)\<rparr>"

text \<open>\<open>callAgent\<close> up to its \<open>await redis.publish\<close>, for a node that is connected; one that is not makes
  it throw before any of this.\<close>

definition issueCall :: "string \<Rightarrow> ident \<Rightarrow> CommandPayload \<Rightarrow> rpc \<Rightarrow> rpc" where
  "issueCall i nodeId payload s = s\<lparr>
     rc_pending := (rc_pending s)(i := True), rc_timer := (rc_timer s)(i := True),
     rc_phase := (rc_phase s)(i \<mapsto> Publishing), rc_node := (rc_node s)(i := nodeId),
     rc_published := rc_published s @ [(nodeId, i, payload)]\<rparr>"

text \<open>The rest of \<open>callAgent\<close>, when Redis says how many subscribers got the command.\<close>

definition publishDone :: "string \<Rightarrow> nat \<Rightarrow> rpc \<Rightarrow> rpc" where
  "publishDone i delivered s =
     (if delivered = 0
      then (if rc_pending s i then forget i s else s)\<lparr>rc_phase := (rc_phase s)(i \<mapsto> ThrewOffline)\<rparr>
      else s\<lparr>rc_phase := (rc_phase s)(i \<mapsto> Returned)\<rparr>)"

definition onReply :: "string \<Rightarrow> bool \<Rightarrow> AgentReply \<Rightarrow> (string \<times> string) option \<Rightarrow> rpc \<Rightarrow> rpc" where
  "onReply i ok d err s = (if rc_pending s i then settle i (answerOutcome ok d err) (forget i s) else s)"

definition onTimer :: "string \<Rightarrow> nat \<Rightarrow> rpc \<Rightarrow> rpc" where
  "onTimer i timeoutMs s = settle i (timeoutOutcome (rc_node s i) timeoutMs) (forget i s)"

inductive rpcStep :: "rpc \<Rightarrow> rpc \<Rightarrow> bool" where
  Issue: "rc_phase s i = None \<Longrightarrow> rpcStep s (issueCall i nodeId payload s)"
| Published: "rc_phase s i = Some Publishing \<Longrightarrow> rpcStep s (publishDone i delivered s)"
| Reply: "rpcStep s (onReply i ok d err s)"
| Timer: "rc_timer s i \<Longrightarrow> rpcStep s (onTimer i timeoutMs s)"

inductive_cases rpcStepE: "rpcStep s t"

section \<open>What a caller may expect\<close>

datatype callStatus = NotCalled | Open | Done outcome

text \<open>A call is opened once and settled once.\<close>

inductive callSpec :: "(string \<Rightarrow> callStatus) \<Rightarrow> (string \<Rightarrow> callStatus) \<Rightarrow> bool" where
  OpenCall: "c i = NotCalled \<Longrightarrow> callSpec c (c(i := Open))"
| SettleCall: "c i = Open \<Longrightarrow> callSpec c (c(i := Done oc))"

inductive_cases callSpecE: "callSpec c d"

definition absCalls :: "rpc \<Rightarrow> string \<Rightarrow> callStatus" where
  "absCalls s i =
     (case rc_phase s i of
        None \<Rightarrow> NotCalled
      | Some Publishing \<Rightarrow> Open
      | Some ThrewOffline \<Rightarrow> Done (offlineOutcome (rc_node s i))
      | Some Returned \<Rightarrow> (case rc_promise s i of None \<Rightarrow> Open | Some oc \<Rightarrow> Done oc))"

section \<open>Refinement\<close>

text \<open>A step relation refines another through an abstraction function, under an invariant.\<close>

locale refinement =
  fixes cstep :: "'c \<Rightarrow> 'c \<Rightarrow> bool" and astep :: "'a \<Rightarrow> 'a \<Rightarrow> bool" and abs :: "'c \<Rightarrow> 'a"
    and ok :: "'c \<Rightarrow> bool" and start :: 'c
  assumes ok_start: "ok start"
    and ok_step: "ok s \<Longrightarrow> cstep s t \<Longrightarrow> ok t"
    and simulates: "ok s \<Longrightarrow> cstep s t \<Longrightarrow> abs t = abs s \<or> astep (abs s) (abs t)"
begin

lemma ok_run: "cstep\<^sup>*\<^sup>* s t \<Longrightarrow> ok s \<Longrightarrow> ok t"
  by (induction rule: rtranclp_induct) (auto intro: ok_step)

lemma run_simulates: "cstep\<^sup>*\<^sup>* s t \<Longrightarrow> ok s \<Longrightarrow> astep\<^sup>*\<^sup>* (abs s) (abs t)"
proof (induction rule: rtranclp_induct)
  case (step t u)
  then have "abs u = abs t \<or> astep (abs t) (abs u)" using simulates ok_run by blast
  then show ?case using step by (auto intro: rtranclp.rtrancl_into_rtrancl)
qed simp

lemma reachable_ok: "cstep\<^sup>*\<^sup>* start s \<Longrightarrow> ok s"
  using ok_run ok_start by blast

lemma reachable_simulates: "cstep\<^sup>*\<^sup>* start s \<Longrightarrow> astep\<^sup>*\<^sup>* (abs start) (abs s)"
  using run_simulates ok_start by blast

text \<open>What the specification never undoes, the code never undoes.\<close>

lemma stable:
  assumes "cstep\<^sup>*\<^sup>* start s" and "cstep\<^sup>*\<^sup>* s t" and "P (abs s)" and "\<And>a b. astep a b \<Longrightarrow> P a \<Longrightarrow> P b"
  shows "P (abs t)"
proof -
  have "astep\<^sup>*\<^sup>* (abs s) (abs t)" using run_simulates [OF assms(2)] reachable_ok [OF assms(1)] by blast
  then show ?thesis using assms(3) by (induction rule: rtranclp_induct) (auto intro: assms(4))
qed

end

section \<open>The invariant\<close>

text \<open>A call is pending exactly as long as its timer runs; then its promise is open; and a promise that
  was handed out is pending or settled.\<close>

definition callOk :: "rpc \<Rightarrow> string \<Rightarrow> bool" where
  "callOk s i \<longleftrightarrow> rc_timer s i = rc_pending s i \<and>
     (if rc_pending s i then rc_phase s i \<in> {Some Publishing, Some Returned} \<and> rc_promise s i = None
      else rc_phase s i \<in> {Some Publishing, Some Returned} \<longrightarrow> rc_promise s i \<noteq> None) \<and>
     (rc_phase s i = None \<longrightarrow> rc_promise s i = None)"

definition rpcOk :: "rpc \<Rightarrow> bool" where
  "rpcOk s \<longleftrightarrow> (\<forall>i. callOk s i)"

lemmas rpc_defs = issueCall_def publishDone_def onReply_def onTimer_def settle_def forget_def

lemma rpcOk_start: "rpcOk rpcInit"
  by (simp add: rpcOk_def callOk_def rpcInit_def)

lemma rpcOk_step: "rpcOk s \<Longrightarrow> rpcStep s t \<Longrightarrow> rpcOk t"
  by (erule rpcStepE) (auto simp: rpcOk_def callOk_def rpc_defs split: if_splits)

lemma absCalls_other:
  "rc_phase t j = rc_phase s j \<Longrightarrow> rc_promise t j = rc_promise s j \<Longrightarrow> rc_node t j = rc_node s j \<Longrightarrow> absCalls t j = absCalls s j"
  by (simp add: absCalls_def cong: option.case_cong callPhase.case_cong)

lemma specI:
  assumes "\<And>j. j \<noteq> i \<Longrightarrow> absCalls t j = absCalls s j"
    and "absCalls t i = absCalls s i \<or> absCalls s i = NotCalled \<and> absCalls t i = Open \<or>
      absCalls s i = Open \<and> (\<exists>oc. absCalls t i = Done oc)"
  shows "absCalls t = absCalls s \<or> callSpec (absCalls s) (absCalls t)"
proof -
  have t: "absCalls t = (absCalls s)(i := absCalls t i)" using assms(1) by auto
  from assms(2) show ?thesis
  proof (elim disjE conjE exE)
    assume "absCalls t i = absCalls s i"
    then show ?thesis using t by simp
  next
    assume "absCalls s i = NotCalled" "absCalls t i = Open"
    then show ?thesis using t OpenCall by metis
  next
    fix oc assume "absCalls s i = Open" "absCalls t i = Done oc"
    then show ?thesis using t SettleCall by metis
  qed
qed

lemma rpc_simulates:
  assumes "rpcOk s" and "rpcStep s t"
  shows "absCalls t = absCalls s \<or> callSpec (absCalls s) (absCalls t)"
  using assms(2)
proof (cases rule: rpcStep.cases)
  case (Issue i nodeId payload)
  then show ?thesis
    using assms(1) by (intro specI [of i] absCalls_other) (simp_all add: absCalls_def rpc_defs rpcOk_def callOk_def)
next
  case (Published i delivered)
  then show ?thesis
    by (intro specI [of i] absCalls_other) (auto simp: absCalls_def rpc_defs split: option.split)
next
  case (Reply i ok d err)
  then show ?thesis
    using assms(1) by (intro specI [of i] absCalls_other) (auto simp: absCalls_def rpc_defs rpcOk_def callOk_def split: option.split callPhase.split)
next
  case (Timer i timeoutMs)
  then show ?thesis
    using assms(1) by (intro specI [of i] absCalls_other) (auto simp: absCalls_def rpc_defs rpcOk_def callOk_def split: option.split callPhase.split)
qed

interpretation rpc: refinement rpcStep callSpec absCalls rpcOk rpcInit
  by unfold_locales (auto intro: rpcOk_start rpcOk_step dest: rpc_simulates)

section \<open>Properties\<close>

lemma absCalls_start: "absCalls rpcInit = (\<lambda>_. NotCalled)"
  by (simp add: fun_eq_iff absCalls_def rpcInit_def)


text \<open>No caller waits for ever and none is told two things: in every reachable state a call whose
  promise was handed out and not settled has its timer running, which settles it; and what a call
  ended with it keeps, whatever arrives later.\<close>

theorem rpc_settles_once:
  assumes "rpcStep\<^sup>*\<^sup>* rpcInit s"
  shows "(rc_phase s i = Some Returned \<and> absCalls s i = Open \<longrightarrow>
      rc_timer s i \<and> absCalls (onTimer i ms s) i = Done (timeoutOutcome (rc_node s i) ms)) \<and>
    (\<forall>t oc. rpcStep\<^sup>*\<^sup>* s t \<and> absCalls s i = Done oc \<longrightarrow> absCalls t i = Done oc)"
proof (intro conjI impI allI)
  assume h: "rc_phase s i = Some Returned \<and> absCalls s i = Open"
  then have "rc_promise s i = None" by (auto simp: absCalls_def split: option.splits)
  moreover have "callOk s i" using rpc.reachable_ok [OF assms] by (simp add: rpcOk_def)
  ultimately show "rc_timer s i" "absCalls (onTimer i ms s) i = Done (timeoutOutcome (rc_node s i) ms)"
    using h by (auto simp: callOk_def absCalls_def rpc_defs split: if_splits)
next
  fix t oc assume h: "rpcStep\<^sup>*\<^sup>* s t \<and> absCalls s i = Done oc"
  show "absCalls t i = Done oc"
  proof (rule rpc.stable [OF assms, where P = "\<lambda>c. c i = Done oc"])
    fix c d assume "callSpec c d" "c i = Done oc"
    then show "d i = Done oc" by (cases rule: callSpec.cases) auto
  qed (use h in simp_all)
qed

end
