(* ===== verification/PanelScenarios.thy ===== *)
theory PanelScenarios
  imports Scenarios Mods Ledger AgentRpc
begin

text \<open>
  The properties of the mods and of the migrations applied at concrete inputs, and what happens when a
  migration to a node of the operator's choice finds it full.
\<close>

section \<open>Mods\<close>

definition sampleModEnv :: modEnv where
  "sampleModEnv = \<lparr>me_parseUrl = (\<lambda>u. Some \<lparr>ur_protocol = ''https:'', ur_hostname = ''evil.test'', ur_pathname = ''/a.jar''\<rparr>),
     me_fetch = (\<lambda>_. Inl ''down''), me_decodeURI = Some, me_toBase64 = (\<lambda>s. s), me_versions = (\<lambda>_ _ _. Inl ''down''),
     me_entries = (\<lambda>_. [])\<rparr>"

theorem unknown_hosts_never_fetched_witness:
  "snd (installFromUrl goodAgent sampleModEnv ''s1'' ''plugins'' ''https://evil.test/a.jar'' None sampleServed) = sampleServed"
proof -
  have "\<not> allowedHost ''evil.test''" by code_simp
  then show ?thesis
    using unknown_hosts_never_fetched [of sampleModEnv "''https://evil.test/a.jar''" goodAgent "''s1''" "''plugins''" None sampleServed]
    by (simp add: sampleModEnv_def)
qed

section \<open>Migrations\<close>

text \<open>Two nodes; the server is on the first, on one of its ports.\<close>

definition usedNode :: Node where
  "usedNode = addReserved (serverAmount sampleServer) sampleNode"

definition otherNode :: Node where
  "otherNode = sampleNode\<lparr>n_id := ''n2''\<rparr>"

definition twoNodes :: "Node \<Rightarrow> db" where
  "twoNodes other = sampleServed\<lparr>nodes := [usedNode, other],
     nodeTemplates := [\<lparr>nt_nodeId = ''n1'', nt_templateId = ''t1''\<rparr>, \<lparr>nt_nodeId = ''n2'', nt_templateId = ''t1''\<rparr>],
     allocations := [bindPort ''s1'' (sampleAllocation ''a1'' 25565), (sampleAllocation ''a2'' 25565)\<lparr>a_nodeId := ''n2''\<rparr>]\<rparr>"

definition sampleMigrateEnv :: MigrateEnv where
  "sampleMigrateEnv = \<lparr>mg_now = 120000, mg_finished = 130000, mg_jobId = ''j1'', mg_backupId = ''b1'', mg_locked = []\<rparr>"

lemmas fleet_defs = usedNode_def otherNode_def twoNodes_def sampleMigrateEnv_def bindPort_def serverAmount_def addReserved_def input_defs

lemma twoNodes_ok: "fleetSound (twoNodes otherNode)" "uniqueOn n_id (nodes (twoNodes otherNode))"
  "uniqueOn s_id (servers (twoNodes otherNode))" "\<forall>v \<in> set (servers (twoNodes otherNode)). amountOk (serverAmount v)"
  by (simp_all add: fleetSound_def uniqueOn_def counter_defs fleet_defs)

lemmas migrate_defs = migrateServer_def migrateSteps_def archiveSource_def buildTarget_def switchRecord_def
  finishMigration_def unwindTarget_def insertJob_def newJob_def findJob_def updateJob_def setStatus_def
  migrationRequest_def truthyId_def onTarget_def finishArchive_def freePortsOn_def insertBackup_def updateBackup_def
  newBackup_def claimAllocation_def freeAllocations_def callAgent_def updateServer_def releaseCapacity_def audit_def
  schedule_defs find_defs

lemma sample_migration: "fst (migrateServer backupAgent sampleMigrateEnv ''s1'' None None (twoNodes otherNode)) = Inr (''j1'', ''n2'')"
  by (simp add: migrate_defs fleet_defs backupAgent_def)

theorem migration_completed_witness:
  "migrated sampleMigrateEnv (twoNodes otherNode) sampleServer ''n2''
     (snd (migrateServer backupAgent sampleMigrateEnv ''s1'' None None (twoNodes otherNode)))"
proof -
  have "migrateServer backupAgent sampleMigrateEnv ''s1'' None None (twoNodes otherNode) =
      (Inr (''j1'', ''n2''), snd (migrateServer backupAgent sampleMigrateEnv ''s1'' None None (twoNodes otherNode)))"
    using sample_migration by (simp add: prod_eq_iff)
  moreover have "findServer ''s1'' (twoNodes otherNode) = Some sampleServer" by (simp add: findServer_def fleet_defs)
  ultimately show ?thesis using migration_completed [OF _ twoNodes_ok(2,1,4)] by fastforce
qed


theorem drain_accounts_for_all_witness:
  "\<exists>rs t. drainNode deadAgent (\<lambda>_. sampleMigrateEnv) ''n1'' None (twoNodes otherNode) = (Inr rs, t) \<and> map fst rs = [''s1'']"
proof -
  have "findNode ''n1'' (twoNodes otherNode) \<noteq> None"
    "map s_id (filter (\<lambda>v. s_nodeId v = ''n1'') (servers (twoNodes otherNode))) = [''s1'']"
    by (simp_all add: findNode_def fleet_defs)
  then show ?thesis
    using drain_accounts_for_all [OF _ twoNodes_ok(2,3), of "''n1''" deadAgent "\<lambda>_. sampleMigrateEnv" None] by auto
qed

text \<open>
  With an explicit target the job names that node before anything is reserved on it. When it has no room
  the migration fails, and unwinding it gives back capacity that was never taken: the full node of
  the example, still running what it ran, is on the books with two gigabytes free.
\<close>

lemma explicit_target_oversells:
  "map n_reservedMemoryMb (nodes (snd (migrateServer goodAgent sampleMigrateEnv ''s1'' (Some ''n2'') None
     (twoNodes (otherNode\<lparr>n_reservedMemoryMb := 16384\<rparr>))))) = [2048, 14336]"
  by code_simp

text \<open>A migration that fails has stopped the server and does not start it again.\<close>

lemma failed_migration_leaves_stopped:
  "map snd (filter (\<lambda>c. fst c = ''n1'') (calls (snd (migrateServer
     (\<lambda>cs n p. if n = ''n2'' then Inl (''node_offline'', ''gone'') else Inr (emptyReply\<lparr>rp_bytes := Some 1\<rparr>))
     sampleMigrateEnv ''s1'' None None (twoNodes otherNode))))) =
   [Server_stop ''s1'' (Some ''stop'') (Some 120), Backup_create ''s1'' ''b1'']"
  by (simp add: migrate_defs fleet_defs)

section \<open>The books\<close>

definition movedFleet :: db where
  "movedFleet = snd (migrateServer backupAgent sampleMigrateEnv ''s1'' None None (twoNodes otherNode))"

lemma twoNodes_ledger: "fleetOk (twoNodes otherNode)"
  by (simp add: fleetOk_def plansOk_def planAmount_def ledger_defs fleetSound_def booked_def uniqueOn_def counter_defs fleet_defs)

lemma movedFleet_reachable: "fleetStep\<^sup>*\<^sup>* (twoNodes otherNode) movedFleet"
proof -
  have "fleetStep (twoNodes otherNode) movedFleet"
    unfolding movedFleet_def by (rule Relocation [OF prod.collapse [symmetric]]) simp
  then show ?thesis by blast
qed



section \<open>Calls in flight\<close>

text \<open>A call the agent does not answer, with an answer that comes after the timer.\<close>

definition waitingCall :: rpc where
  "waitingCall = publishDone ''c1'' 1 (issueCall ''c1'' ''n1'' (Files_list ''s1'' ''/'') rpcInit)"

definition lateAnswer :: rpc where
  "lateAnswer = onReply ''c1'' True emptyReply None (onTimer ''c1'' 20 waitingCall)"

lemma waitingCall_reachable: "rpcStep\<^sup>*\<^sup>* rpcInit waitingCall"
proof -
  have "rpcStep rpcInit (issueCall ''c1'' ''n1'' (Files_list ''s1'' ''/'') rpcInit)"
    by (rule Issue) (simp add: rpcInit_def)
  moreover have "rpcStep (issueCall ''c1'' ''n1'' (Files_list ''s1'' ''/'') rpcInit) waitingCall"
    unfolding waitingCall_def by (rule Published) (simp add: issueCall_def)
  ultimately show ?thesis by (meson r_into_rtranclp rtranclp_trans)
qed


theorem rpc_settles_once_witness:
  "absCalls lateAnswer ''c1'' = Done (Rejected ''timeout'' ''Agent on node n1 did not answer in 20ms.'')"
proof -
  have timer: "rpcStep waitingCall (onTimer ''c1'' 20 waitingCall)"
    by (rule Timer) (simp add: waitingCall_def publishDone_def issueCall_def)
  have answer: "rpcStep (onTimer ''c1'' 20 waitingCall) lateAnswer"
    unfolding lateAnswer_def by (rule Reply)
  have "absCalls (onTimer ''c1'' 20 waitingCall) ''c1'' =
      Done (Rejected ''timeout'' ''Agent on node n1 did not answer in 20ms.'')"
    by code_simp
  with rpc_settles_once [OF rtranclp.rtrancl_into_rtrancl [OF waitingCall_reachable timer], of "''c1''" 20]
  show ?thesis using r_into_rtranclp [where r = rpcStep, OF answer] by (elim conjE allE) (erule mp, rule conjI)
qed

end
