(* ===== verification/Alerts.thy ===== *)
theory Alerts
  imports Scheduler Invoices
begin

text \<open>
  Operational alerts, \<open>apps/panel/src/lib/alerts.ts\<close>: raising and resolving by key, the
  notification of the operators, and the pass of the worker over the fleet. Fresh ids, the clock and
  the webhook are read from an environment.
\<close>

section \<open>Operations\<close>

record AlertParams =
  ap_key :: string
  ap_severity :: AlertSeverity
  ap_title :: string
  ap_detail :: string
  ap_targetType :: string
  ap_targetId :: ident

record AlertEnv =
  ae_now :: time
  ae_id :: "string \<Rightarrow> ident" \<comment> \<open>the id of the row created for a key\<close>
  ae_webhook :: bool \<comment> \<open>whether \<open>ALERT_WEBHOOK_URL\<close> is set\<close>
  ae_post :: "Alert list \<Rightarrow> Alert \<Rightarrow> string + bool" \<comment> \<open>\<open>fetch\<close>: an error, or \<open>res.ok\<close>\<close>
  ae_bucket :: bool \<comment> \<open>whether \<open>DEERS_S3_BUCKET\<close> is set\<close>

definition findAlert :: "string \<Rightarrow> db \<Rightarrow> Alert option" where
  "findAlert k s = List.find (\<lambda>a. al_key a = k) (alerts s)"

definition newAlert :: "AlertEnv \<Rightarrow> AlertParams \<Rightarrow> Alert" where
  "newAlert env p = \<lparr>al_id = ae_id env (ap_key p), al_key = ap_key p, al_severity = ap_severity p, al_title = ap_title p,
     al_detail = ap_detail p, al_targetType = ap_targetType p, al_targetId = ap_targetId p, al_resolvedAt = None,
     al_notifiedAt = None, al_createdAt = ae_now env\<rparr>"

definition reopen :: "AlertEnv \<Rightarrow> AlertParams \<Rightarrow> Alert \<Rightarrow> Alert" where
  "reopen env p a = a\<lparr>al_severity := ap_severity p, al_title := ap_title p, al_detail := ap_detail p,
     al_targetType := ap_targetType p, al_targetId := ap_targetId p, al_resolvedAt := None, al_notifiedAt := None,
     al_createdAt := ae_now env\<rparr>"

definition upsertAlert :: "AlertEnv \<Rightarrow> AlertParams \<Rightarrow> Alert act" where
  "upsertAlert env p =
     andThen (readState (findAlert (ap_key p))) (\<lambda>existing.
     case existing of
       None \<Rightarrow> andThen (writeState (\<lambda>s. s\<lparr>alerts := alerts s @ [newAlert env p]\<rparr>)) (\<lambda>_. ret (newAlert env p))
     | Some a \<Rightarrow> andThen (writeState (\<lambda>s. s\<lparr>alerts := updateWhere (\<lambda>a. al_key a = ap_key p) (reopen env p) (alerts s)\<rparr>))
         (\<lambda>_. ret (reopen env p a)))"

definition markNotified :: "AlertEnv \<Rightarrow> ident \<Rightarrow> unit act" where
  "markNotified env i =
     andThen (orThrow (NotFoundError ''Alert'') (\<lambda>s. List.find (\<lambda>a. al_id a = i) (alerts s))) (\<lambda>_.
     writeState (\<lambda>s. s\<lparr>alerts := updateWhere (\<lambda>a. al_id a = i) (\<lambda>a. a\<lparr>al_notifiedAt := Some (ae_now env)\<rparr>) (alerts s)\<rparr>))"

definition postAlert :: "AlertEnv \<Rightarrow> Alert \<Rightarrow> bool act" where
  "postAlert env alert s =
     (case ae_post env (posts s) alert of
        Inl m \<Rightarrow> (Inl (Error m), s\<lparr>posts := posts s @ [alert]\<rparr>)
      | Inr ok \<Rightarrow> (Inr ok, s\<lparr>posts := posts s @ [alert]\<rparr>))"

definition notify :: "AlertEnv \<Rightarrow> Alert \<Rightarrow> unit act" where
  "notify env alert =
     (if \<not> ae_webhook env then ret ()
      else andThen (postAlert env alert) (\<lambda>ok. if ok then markNotified env (al_id alert) else ret ()))"

definition raiseAlert :: "AlertEnv \<Rightarrow> AlertParams \<Rightarrow> Alert act" where
  "raiseAlert env p =
     andThen (readState (findAlert (ap_key p))) (\<lambda>existing.
     let raised = andThen (upsertAlert env p) (\<lambda>alert.
       andThen (tryCatch (notify env alert) (\<lambda>_. ret ())) (\<lambda>_. ret alert))
     in case existing of
       Some a \<Rightarrow> if al_resolvedAt a = None then ret a else raised
     | None \<Rightarrow> raised)"

definition resolveAlert :: "AlertEnv \<Rightarrow> string \<Rightarrow> unit act" where
  "resolveAlert env k =
     andThen (readState (findAlert k)) (\<lambda>existing.
     case existing of
       None \<Rightarrow> ret ()
     | Some a \<Rightarrow> if al_resolvedAt a \<noteq> None then ret ()
         else writeState (\<lambda>s. s\<lparr>alerts := updateWhere (\<lambda>a. al_key a = k)
           (\<lambda>a. a\<lparr>al_resolvedAt := Some (ae_now env)\<rparr>) (alerts s)\<rparr>))"

section \<open>The pass over the fleet\<close>

text \<open>\<open>toISOString\<close>, for the years 0 to 9999.\<close>

definition toISOString :: "time \<Rightarrow> string" where
  "toISOString t = (let pad = (\<lambda>k n. padStart k (CHR ''0'') (showInt n)); d = timeInDay t in
     pad 4 (getUTCFullYear t) @ ''-'' @ pad 2 (getUTCMonth t + 1) @ ''-'' @ pad 2 (getUTCDate t) @ ''T'' @
     pad 2 (d div 3600000) @ '':'' @ pad 2 (d div 60000 mod 60) @ '':'' @ pad 2 (d div 1000 mod 60) @ ''.'' @
     pad 3 (d mod 1000) @ ''Z'')"

primrec statusName :: "NodeStatus \<Rightarrow> string" where
  "statusName N_ONLINE = ''online''"
| "statusName N_OFFLINE = ''offline''"
| "statusName N_UNREACHABLE = ''unreachable''"

text \<open>Each check raises or resolves; the keys raised are collected.\<close>

definition signal :: "AlertEnv \<Rightarrow> bool \<Rightarrow> AlertParams \<Rightarrow> string list act" where
  "signal env b p =
     (if b then andThen (raiseAlert env p) (\<lambda>_. ret [ap_key p])
      else andThen (resolveAlert env (ap_key p)) (\<lambda>_. ret []))"

definition downAlert :: "Node \<Rightarrow> nat \<Rightarrow> AlertParams" where
  "downAlert node count = \<lparr>ap_key = ''node.down.'' @ n_id node,
     ap_severity = (if 0 < count then CRITICAL else WARNING),
     ap_title = ''Node '' @ n_name node @ '' is '' @ statusName (n_status node),
     ap_detail = showNat count @ '' server(s) affected. Last heartbeat '' @
       (case n_lastHeartbeat node of None \<Rightarrow> ''never'' | Some t \<Rightarrow> toISOString t) @ ''.'',
     ap_targetType = ''node'', ap_targetId = n_id node\<rparr>"

text \<open>\<open>freeRatio < 0.1\<close>; a node without memory counts as free.\<close>

definition nearlyFull :: "Node \<Rightarrow> bool" where
  "nearlyFull node = (if 0 < n_totalMemoryMb node
     then of_int (freeMemory node) / of_int (n_totalMemoryMb node) < (1 / 10 :: rat) else False)"

text \<open>\<open>Math.round(freeMemory / 1024)\<close>: half up.\<close>

definition roundGb :: "int \<Rightarrow> int" where
  "roundGb mb = (2 * mb + 1024) div 2048"

definition capacityAlert :: "Node \<Rightarrow> AlertParams" where
  "capacityAlert node = \<lparr>ap_key = ''node.capacity.'' @ n_id node, ap_severity = WARNING,
     ap_title = ''Node '' @ n_name node @ '' is nearly full'',
     ap_detail = showInt (roundGb (freeMemory node)) @ '' GB of memory left to sell.'',
     ap_targetType = ''node'', ap_targetId = n_id node\<rparr>"

definition crashAlert :: "Server \<Rightarrow> AlertParams" where
  "crashAlert server = \<lparr>ap_key = ''server.crashed.'' @ s_id server, ap_severity = WARNING,
     ap_title = s_name server @ '' has crashed'',
     ap_detail = ''The container exited with a non-zero status and has not restarted.'',
     ap_targetType = ''server'', ap_targetId = s_id server\<rparr>"

definition fragileAlert :: "nat \<Rightarrow> AlertParams" where
  "fragileAlert fragile = \<lparr>ap_key = ''backups.node_only'', ap_severity = INFO,
     ap_title = showNat fragile @ '' backup(s) are still node-local'',
     ap_detail = ''An object store is configured, but these archives predate it and would be lost with the node.'',
     ap_targetType = ''system'', ap_targetId = ''backups''\<rparr>"

fun signalAll :: "AlertEnv \<Rightarrow> (bool \<times> AlertParams) list \<Rightarrow> string list act" where
  "signalAll env [] = ret []"
| "signalAll env ((b, p) # checks) =
     andThen (signal env b p) (\<lambda>ks. andThen (signalAll env checks) (\<lambda>ks'. ret (ks @ ks')))"

definition nodeChecks :: "Server list \<Rightarrow> Node \<Rightarrow> (bool \<times> AlertParams) list" where
  "nodeChecks vs node =
     [(n_status node \<noteq> N_ONLINE, downAlert node (countWhere (\<lambda>v. s_nodeId v = n_id node) vs)),
      (n_enabled node \<and> nearlyFull node, capacityAlert node)]"

definition crashChecks :: "Server list \<Rightarrow> (bool \<times> AlertParams) list" where
  "crashChecks vs = map (\<lambda>v. (True, crashAlert v)) (filter (\<lambda>v. s_status v = CRASHED \<and> \<not> s_suspended v) vs)"

definition fragileChecks :: "AlertEnv \<Rightarrow> Backup list \<Rightarrow> (bool \<times> AlertParams) list" where
  "fragileChecks env bs = (let fragile = countWhere (\<lambda>b. b_location b = LOC_NODE \<and> b_completed b) bs in
     [(0 < fragile \<and> ae_bucket env, fragileAlert fragile)])"

definition recoverCrashes :: "AlertEnv \<Rightarrow> string list \<Rightarrow> unit act" where
  "recoverCrashes env raised =
     andThen (readState (\<lambda>s. filter (\<lambda>a. al_resolvedAt a = None) (alerts s))) (\<lambda>open.
     forEach open (\<lambda>a. if startsWith (al_key a) ''server.crashed.'' \<and> al_key a \<notin> set raised
       then resolveAlert env (al_key a) else ret ()))"

definition evaluateAlerts :: "AlertEnv \<Rightarrow> nat act" where
  "evaluateAlerts env =
     andThen (readState (\<lambda>s. concat (map (nodeChecks (servers s)) (nodes s)))) (\<lambda>checks.
     andThen (signalAll env checks) (\<lambda>raised1.
     andThen (readState (\<lambda>s. crashChecks (servers s))) (\<lambda>crashed.
     andThen (signalAll env crashed) (\<lambda>raised2.
     andThen (readState (\<lambda>s. fragileChecks env (backups s))) (\<lambda>fragile.
     andThen (signalAll env fragile) (\<lambda>raised3.
     andThen (recoverCrashes env (raised1 @ raised2 @ raised3)) (\<lambda>_.
     ret (length (raised1 @ raised2 @ raised3)))))))))"

section \<open>A board of signals\<close>

text \<open>What the checks rely on: raising puts a key up, resolving takes it down, and other keys stay.\<close>

locale board =
  fixes raise :: "'p \<Rightarrow> 's \<Rightarrow> 's" and resolve :: "string \<Rightarrow> 's \<Rightarrow> 's" and up :: "string \<Rightarrow> 's \<Rightarrow> bool" and key :: "'p \<Rightarrow> string"
  assumes up_raise: "up k (raise p s) \<longleftrightarrow> k = key p \<or> up k s"
    and up_resolve: "up k (resolve j s) \<longleftrightarrow> up k s \<and> k \<noteq> j"
    and raise_idle: "up (key p) s \<Longrightarrow> raise p s = s"
    and resolve_idle: "\<not> up j s \<Longrightarrow> resolve j s = s"
begin

fun run :: "(bool \<times> 'p) list \<Rightarrow> 's \<Rightarrow> 's" where
  "run [] s = s"
| "run ((b, p) # checks) s = run checks (if b then raise p s else resolve (key p) s)"

lemma up_step: "up k (if b then raise p s else resolve (key p) s) \<longleftrightarrow> (if k = key p then b else up k s)"
  by (simp add: up_raise up_resolve)

lemma run_other: "k \<notin> key ` snd ` set checks \<Longrightarrow> up k (run checks s) = up k s"
proof (induction checks arbitrary: s)
  case (Cons c checks)
  obtain b p where c: "c = (b, p)" by (cases c)
  have "up k (run (c # checks) s) = up k (if b then raise p s else resolve (key p) s)"
    using Cons unfolding c run.simps by simp
  then show ?case using Cons.prems by (simp only: up_step) (simp add: c)
qed simp

lemma run_up:
  "distinct (map (key \<circ> snd) checks) \<Longrightarrow> (b, p) \<in> set checks \<Longrightarrow> up (key p) (run checks s) = b"
proof (induction checks arbitrary: s)
  case (Cons c checks)
  obtain b' p' where c: "c = (b', p')" by (cases c)
  show ?case
  proof (cases "(b, p) = c")
    case True
    then have "key p \<notin> key ` snd ` set checks" "b' = b" "p' = p" using Cons.prems(1) c by (auto simp: image_image)
    then show ?thesis unfolding c run.simps by (simp only: run_other up_step simp_thms if_True)
  next
    case False
    then have "(b, p) \<in> set checks" using Cons.prems(2) by auto
    then show ?thesis using Cons.IH Cons.prems(1) unfolding c run.simps by simp
  qed
qed simp

lemma run_idle: "(\<And>b p. (b, p) \<in> set checks \<Longrightarrow> up (key p) s = b) \<Longrightarrow> run checks s = s"
proof (induction checks)
  case (Cons c checks)
  obtain b p where c: "c = (b, p)" by (cases c)
  have "(if b then raise p s else resolve (key p) s) = s"
    using Cons.prems [of b p] c raise_idle resolve_idle by auto
  then show ?case using Cons c by simp
qed simp

lemma sweep_up: "up k (fold resolve ks s) \<longleftrightarrow> up k s \<and> k \<notin> set ks"
  by (induction ks arbitrary: s) (auto simp: up_resolve)

lemma sweep_idle: "(\<And>k. k \<in> set ks \<Longrightarrow> \<not> up k s) \<Longrightarrow> fold resolve ks s = s"
  by (induction ks arbitrary: s) (auto simp: resolve_idle)

end

definition isOpen :: "string \<Rightarrow> db \<Rightarrow> bool" where
  "isOpen k s \<longleftrightarrow> (case findAlert k s of None \<Rightarrow> False | Some a \<Rightarrow> al_resolvedAt a = None)"

text \<open>Marking as notified changes neither keys nor what is open.\<close>

lemma find_mapped:
  assumes "\<And>r. k (f r) = k r"
  shows "List.find (\<lambda>r. k r = i) (map f rows) = map_option f (List.find (\<lambda>r. k r = i) rows)"
  using assms by (induction rows) auto

definition notifiedRows :: "AlertEnv \<Rightarrow> (Alert \<Rightarrow> bool) \<Rightarrow> Alert list \<Rightarrow> db \<Rightarrow> db" where
  "notifiedRows env q ps s = s\<lparr>posts := ps, alerts := updateWhere q (\<lambda>a. a\<lparr>al_notifiedAt := Some (ae_now env)\<rparr>) (alerts s)\<rparr>"

lemma notify_run: "\<exists>q ps. tryCatch (notify env a) (\<lambda>_. ret ()) s = (Inr (), notifiedRows env q ps s)"
proof -
  have none: "notifiedRows env (\<lambda>_. False) ps s = s\<lparr>posts := ps\<rparr>" for ps
    by (simp add: notifiedRows_def updateWhere_idle)
  have posted: "(\<exists>q ps. r = (Inr (), notifiedRows env q ps s))"
    if "r = (Inr (), s\<lparr>posts := ps'\<rparr>) \<or> (\<exists>q. r = (Inr (), notifiedRows env q ps' s))" for r :: "(exn + unit) \<times> db" and ps'
    using that none by metis
  show ?thesis
  proof (cases "ae_webhook env")
    case False
    then show ?thesis using none [of "posts s"] by (intro posted [of _ "posts s"]) (simp add: notify_def tryCatch_def ret_def)
  next
    case True
    then show ?thesis
      by (intro posted [of _ "posts s @ [a]"])
        (auto simp: notify_def tryCatch_def andThen_def postAlert_def markNotified_def orThrow_def writeState_def ret_def notifiedRows_def
          split: sum.split option.split)
  qed
qed

lemma isOpen_notified [simp]: "isOpen k (notifiedRows env q ps s) = isOpen k s"
  by (simp add: notifiedRows_def isOpen_def findAlert_def updateWhere_def find_mapped split: option.split)

text \<open>The database without the board.\<close>

definition offBoard :: "db \<Rightarrow> db" where
  "offBoard s = s\<lparr>alerts := [], posts := []\<rparr>"

lemma offBoard_simps [simp]:
  "offBoard (s\<lparr>alerts := as\<rparr>) = offBoard s" "offBoard (notifiedRows env q ps s) = offBoard s"
  by (simp_all add: offBoard_def notifiedRows_def)

lemma offBoard_tables:
  "offBoard t = offBoard s \<Longrightarrow> nodes t = nodes s \<and> servers t = servers s \<and> backups t = backups s"
  by (cases s; cases t) (simp add: offBoard_def)

lemma raiseAlert_run:
  "\<exists>a t. raiseAlert env p s = (Inr a, t) \<and> (\<forall>k. isOpen k t \<longleftrightarrow> k = ap_key p \<or> isOpen k s) \<and> offBoard t = offBoard s \<and>
    (isOpen (ap_key p) s \<longrightarrow> t = s)"
proof (cases "isOpen (ap_key p) s")
  case True
  then show ?thesis
    by (auto simp: raiseAlert_def andThen_def readState_def isOpen_def ret_def Let_def split: option.splits)
next
  case False
  obtain a u where u: "upsertAlert env p s = (Inr a, u)" "offBoard u = offBoard s" "\<forall>k. isOpen k u \<longleftrightarrow> k = ap_key p \<or> isOpen k s"
  proof (cases "findAlert (ap_key p) s")
    case None
    let ?u = "s\<lparr>alerts := alerts s @ [newAlert env p]\<rparr>"
    have "List.find P (as @ [x]) = (case List.find P as of None \<Rightarrow> if P x then Some x else None | Some y \<Rightarrow> Some y)" for P as and x :: Alert
      by (induction as) auto
    then have "\<forall>k. isOpen k ?u \<longleftrightarrow> k = ap_key p \<or> isOpen k s"
      using None by (auto simp: isOpen_def findAlert_def newAlert_def split: option.splits)
    then show ?thesis
      using None by (intro that [of "newAlert env p" ?u]) (simp_all add: upsertAlert_def andThen_def readState_def writeState_def ret_def)
  next
    case (Some a)
    let ?u = "s\<lparr>alerts := updateWhere (\<lambda>a. al_key a = ap_key p) (reopen env p) (alerts s)\<rparr>"
    have "findAlert k ?u = map_option (\<lambda>r. if al_key r = ap_key p then reopen env p r else r) (findAlert k s)" for k
      by (simp add: findAlert_def updateWhere_find reopen_def)
    then have "\<forall>k. isOpen k ?u \<longleftrightarrow> k = ap_key p \<or> isOpen k s"
      using Some by (auto simp: isOpen_def reopen_def findAlert_def dest: find_key_in split: option.splits)
    then show ?thesis
      using Some by (intro that [of "reopen env p a" ?u]) (simp_all add: upsertAlert_def andThen_def readState_def writeState_def ret_def)
  qed
  obtain q ps where n: "tryCatch (notify env a) (\<lambda>_. ret ()) u = (Inr (), notifiedRows env q ps u)"
    using notify_run by blast
  have "raiseAlert env p s = (Inr a, notifiedRows env q ps u)"
    using False u(1) n by (auto simp: raiseAlert_def andThen_def readState_def isOpen_def ret_def Let_def split: option.splits)
  then show ?thesis using u(2,3) False by (intro exI [of _ a] exI [of _ "notifiedRows env q ps u"]) simp
qed

lemma resolveAlert_run:
  "\<exists>t. resolveAlert env j s = (Inr (), t) \<and> (\<forall>k. isOpen k t \<longleftrightarrow> isOpen k s \<and> k \<noteq> j) \<and> offBoard t = offBoard s \<and>
    (\<not> isOpen j s \<longrightarrow> t = s)"
proof (cases "isOpen j s")
  case False
  then show ?thesis
    by (auto simp: resolveAlert_def andThen_def readState_def isOpen_def ret_def split: option.splits)
next
  case True
  let ?t = "s\<lparr>alerts := updateWhere (\<lambda>a. al_key a = j) (\<lambda>a. a\<lparr>al_resolvedAt := Some (ae_now env)\<rparr>) (alerts s)\<rparr>"
  have "findAlert k ?t = map_option (\<lambda>r. if al_key r = j then r\<lparr>al_resolvedAt := Some (ae_now env)\<rparr> else r) (findAlert k s)" for k
    by (simp add: findAlert_def updateWhere_find)
  then have "\<forall>k. isOpen k ?t \<longleftrightarrow> isOpen k s \<and> k \<noteq> j"
    by (auto simp: isOpen_def findAlert_def dest: find_key_in split: option.splits)
  moreover have "resolveAlert env j s = (Inr (), ?t)"
    using True by (auto simp: resolveAlert_def andThen_def readState_def writeState_def isOpen_def split: option.splits)
  ultimately show ?thesis using True by (intro exI [of _ ?t]) simp
qed

interpretation ab: board "\<lambda>p s. snd (raiseAlert env p s)" "\<lambda>k s. snd (resolveAlert env k s)" isOpen ap_key for env
proof unfold_locales
  fix k j p s
  obtain a t where t: "raiseAlert env p s = (Inr a, t)" "\<forall>k. isOpen k t \<longleftrightarrow> k = ap_key p \<or> isOpen k s"
    "isOpen (ap_key p) s \<longrightarrow> t = s"
    using raiseAlert_run [of env p s] by (elim exE conjE)
  show "isOpen k (snd (raiseAlert env p s)) \<longleftrightarrow> k = ap_key p \<or> isOpen k s" using t(2) by (simp add: t(1))
  show "isOpen (ap_key p) s \<Longrightarrow> snd (raiseAlert env p s) = s" using t(3) by (simp add: t(1))
  obtain u where u: "resolveAlert env j s = (Inr (), u)" "\<forall>k. isOpen k u \<longleftrightarrow> isOpen k s \<and> k \<noteq> j" "\<not> isOpen j s \<longrightarrow> u = s"
    using resolveAlert_run [of env j s] by (elim exE conjE)
  show "isOpen k (snd (resolveAlert env j s)) \<longleftrightarrow> isOpen k s \<and> k \<noteq> j" using u(2) by (simp add: u(1))
  show "\<not> isOpen j s \<Longrightarrow> snd (resolveAlert env j s) = s" using u(3) by (simp add: u(1))
qed

section \<open>The pass as a run of the board\<close>

definition raisedKeys :: "(bool \<times> AlertParams) list \<Rightarrow> string list" where
  "raisedKeys checks = map (ap_key \<circ> snd) (filter fst checks)"

lemma raisedKeys_iff: "k \<in> set (raisedKeys checks) \<longleftrightarrow> (\<exists>p. (True, p) \<in> set checks \<and> k = ap_key p)"
  by (induction checks) (auto simp: raisedKeys_def)

lemma signal_run:
  "\<exists>t. signal env b p s = (Inr (raisedKeys [(b, p)]), t) \<and>
    t = (if b then snd (raiseAlert env p s) else snd (resolveAlert env (ap_key p) s)) \<and> offBoard t = offBoard s"
proof -
  obtain a t where t: "raiseAlert env p s = (Inr a, t)" "offBoard t = offBoard s"
    using raiseAlert_run [of env p s] by (elim exE conjE)
  obtain u where u: "resolveAlert env (ap_key p) s = (Inr (), u)" "offBoard u = offBoard s"
    using resolveAlert_run [of env "ap_key p" s] by (elim exE conjE)
  show ?thesis using t(2) u(2) by (simp add: signal_def andThen_def t(1) u(1) ret_def raisedKeys_def)
qed

lemma signalAll_run:
  "signalAll env checks s = (Inr (raisedKeys checks), ab.run env checks s) \<and> offBoard (ab.run env checks s) = offBoard s"
proof (induction checks arbitrary: s)
  case Nil
  then show ?case by (simp add: ret_def raisedKeys_def)
next
  case (Cons c checks)
  obtain b p where c: "c = (b, p)" by (cases c)
  obtain t where t: "signal env b p s = (Inr (raisedKeys [(b, p)]), t)"
    "t = (if b then snd (raiseAlert env p s) else snd (resolveAlert env (ap_key p) s))" "offBoard t = offBoard s"
    using signal_run by blast
  have "signalAll env (c # checks) s = (Inr (raisedKeys (c # checks)), ab.run env checks t)"
    using Cons.IH [of t] by (simp add: c andThen_def t(1) ret_def raisedKeys_def)
  moreover have "ab.run env (c # checks) s = ab.run env checks t" by (simp only: c ab.run.simps t(2))
  ultimately show ?case using Cons.IH [of t] t(3) by simp
qed

definition staleCrash :: "string list \<Rightarrow> Alert \<Rightarrow> bool" where
  "staleCrash raised a \<longleftrightarrow> al_resolvedAt a = None \<and> startsWith (al_key a) ''server.crashed.'' \<and> al_key a \<notin> set raised"

lemma sweep_run:
  "forEach as (\<lambda>a. if P a then resolveAlert env (al_key a) else ret ()) s =
    (Inr (), fold (\<lambda>k s. snd (resolveAlert env k s)) (map al_key (filter P as)) s) \<and>
   offBoard (fold (\<lambda>k s. snd (resolveAlert env k s)) (map al_key (filter P as)) s) = offBoard s"
proof (induction as arbitrary: s)
  case (Cons a as)
  obtain t where t: "resolveAlert env (al_key a) s = (Inr (), t)" "offBoard t = offBoard s"
    using resolveAlert_run [of env "al_key a" s] by (elim exE conjE)
  show ?case using Cons.IH [of t] Cons.IH [of s] by (simp add: t ret_def)
qed simp

lemma recover_run:
  "recoverCrashes env raised s =
    (Inr (), fold (\<lambda>k s. snd (resolveAlert env k s)) (map al_key (filter (staleCrash raised) (alerts s))) s)"
proof -
  have "filter (\<lambda>a. startsWith (al_key a) ''server.crashed.'' \<and> al_key a \<notin> set raised) (filter (\<lambda>a. al_resolvedAt a = None) (alerts s)) =
    filter (staleCrash raised) (alerts s)"
    by (simp add: staleCrash_def [abs_def] conj_commute)
  then show ?thesis by (simp add: recoverCrashes_def andThen_def readState_def sweep_run)
qed

definition allChecks :: "AlertEnv \<Rightarrow> db \<Rightarrow> (bool \<times> AlertParams) list" where
  "allChecks env s = concat (map (nodeChecks (servers s)) (nodes s)) @ crashChecks (servers s) @ fragileChecks env (backups s)"

lemma run_append [simp]: "ab.run env (as @ bs) s = ab.run env bs (ab.run env as s)"
  by (induction as arbitrary: s) auto

lemma evaluate_run:
  "evaluateAlerts env s = (let u = ab.run env (allChecks env s) s; raised = raisedKeys (allChecks env s)
    in (Inr (length raised), fold (\<lambda>k s. snd (resolveAlert env k s)) (map al_key (filter (staleCrash raised) (alerts u))) u))"
proof -
  let ?c1 = "concat (map (nodeChecks (servers s)) (nodes s))"
  let ?u1 = "ab.run env ?c1 s"
  have 1: "servers ?u1 = servers s" using signalAll_run [of env ?c1 s] offBoard_tables by blast
  let ?c2 = "crashChecks (servers s)"
  let ?u2 = "ab.run env ?c2 ?u1"
  have 2: "backups ?u2 = backups s"
    using signalAll_run [of env ?c1 s] signalAll_run [of env ?c2 ?u1] offBoard_tables [of ?u2 s] by simp
  show ?thesis
    by (simp add: evaluateAlerts_def andThen_def readState_def signalAll_run 1 2 recover_run allChecks_def raisedKeys_def ret_def Let_def)
qed

section \<open>The open alerts are a picture of the fleet\<close>

lemma node_keys_distinct:
  "distinct (map n_id ns) \<Longrightarrow> distinct (concat (map (\<lambda>n. [''node.down.'' @ n_id n, ''node.capacity.'' @ n_id n]) ns))"
  by (induction ns) auto

lemma check_keys: "map (ap_key \<circ> snd) (allChecks env s) =
    concat (map (\<lambda>n. [''node.down.'' @ n_id n, ''node.capacity.'' @ n_id n]) (nodes s)) @
    map ((@) ''server.crashed.'') (map s_id (filter (\<lambda>v. s_status v = CRASHED \<and> \<not> s_suspended v) (servers s))) @
    [''backups.node_only'']"
  by (simp add: allChecks_def map_concat comp_def nodeChecks_def crashChecks_def fragileChecks_def Let_def
      downAlert_def capacityAlert_def crashAlert_def fragileAlert_def)

lemma checks_distinct:
  assumes "uniqueOn n_id (nodes s)" and "uniqueOn s_id (servers s)"
  shows "distinct (map (ap_key \<circ> snd) (allChecks env s))"
proof -
  have "distinct (map s_id (filter (\<lambda>v. s_status v = CRASHED \<and> \<not> s_suspended v) (servers s)))"
    using assms(2) by (simp add: uniqueOn_def distinct_map_filter)
  then have "distinct (map ((@) ''server.crashed.'') (map s_id (filter (\<lambda>v. s_status v = CRASHED \<and> \<not> s_suspended v) (servers s))))"
    by (subst distinct_map) (auto simp: inj_on_def)
  then show ?thesis
    unfolding check_keys using node_keys_distinct [OF assms(1) [unfolded uniqueOn_def]] by auto
qed

text \<open>The state after the pass, key by key.\<close>

lemma evaluate_open:
  assumes "uniqueOn n_id (nodes s)" and "uniqueOn s_id (servers s)"
  obtains m t where "evaluateAlerts env s = (Inr m, t)" and "offBoard t = offBoard s"
    and "\<And>b p. (b, p) \<in> set (allChecks env s) \<Longrightarrow> isOpen (ap_key p) t = b"
    and "\<And>k. k \<notin> ap_key ` snd ` set (allChecks env s) \<Longrightarrow> isOpen k t \<longleftrightarrow> isOpen k s \<and> \<not> startsWith k ''server.crashed.''"
    and "m = length (raisedKeys (allChecks env s))"
proof -
  let ?u = "ab.run env (allChecks env s) s"
  let ?R = "raisedKeys (allChecks env s)"
  let ?ks = "map al_key (filter (staleCrash ?R) (alerts ?u))"
  let ?t = "fold (\<lambda>k s. snd (resolveAlert env k s)) ?ks ?u"
  have t: "isOpen k ?t \<longleftrightarrow> isOpen k ?u \<and> k \<notin> set ?ks" for k by (rule ab.sweep_up)
  have off: "offBoard ?t = offBoard s"
    using sweep_run [where P = "staleCrash ?R" and env = env and as = "alerts ?u" and s = ?u] signalAll_run [of env "allChecks env s" s] by simp
  have stale: "startsWith k ''server.crashed.'' \<and> k \<notin> set ?R" if "k \<in> set ?ks" for k
    using that by (auto simp: staleCrash_def)
  have swept: "k \<in> set ?ks" if o: "isOpen k ?u" and "startsWith k ''server.crashed.''" "k \<notin> set ?R" for k
  proof -
    obtain a where "findAlert k ?u = Some a" "al_resolvedAt a = None" using o by (auto simp: isOpen_def split: option.splits)
    moreover from this have "a \<in> set (alerts ?u)" "al_key a = k" unfolding findAlert_def by (auto dest: find_key_in)
    ultimately show ?thesis using that by (force simp: staleCrash_def)
  qed
  have checked: "isOpen (ap_key p) ?u = b" if "(b, p) \<in> set (allChecks env s)" for b p
    using ab.run_up [OF checks_distinct [OF assms] that] by simp
  have c: "isOpen (ap_key p) ?t = b" if m: "(b, p) \<in> set (allChecks env s)" for b p
  proof (cases b)
    case True
    then have "ap_key p \<in> set ?R" using m by (auto simp: raisedKeys_iff)
    then show ?thesis using t checked [OF m] stale True by blast
  next
    case False
    then show ?thesis using t checked [OF m] by blast
  qed
  have o: "isOpen k ?t \<longleftrightarrow> isOpen k s \<and> \<not> startsWith k ''server.crashed.''"
    if k: "k \<notin> ap_key ` snd ` set (allChecks env s)" for k
  proof -
    have "k \<notin> set ?R" using k by (auto simp: raisedKeys_iff image_iff)
    then show ?thesis using t [of k] ab.run_other [OF k, of env s] stale swept by blast
  qed
  have "evaluateAlerts env s = (Inr (length ?R), ?t)" by (simp only: evaluate_run Let_def)
  from this off c o show thesis by (rule that) (assumption | rule refl)+
qed

lemma allChecks_mem:
  "(b, p) \<in> set (allChecks env s) \<longleftrightarrow>
    (\<exists>n \<in> set (nodes s). (b, p) \<in> set (nodeChecks (servers s) n)) \<or>
    (\<exists>v \<in> set (servers s). s_status v = CRASHED \<and> \<not> s_suspended v \<and> b \<and> p = crashAlert v) \<or>
    (b, p) \<in> set (fragileChecks env (backups s))"
  by (auto simp: allChecks_def crashChecks_def)

lemma crash_keys: "''server.crashed.'' @ i \<in> ap_key ` snd ` set (allChecks env s) \<longleftrightarrow>
    (\<exists>v \<in> set (servers s). s_id v = i \<and> s_status v = CRASHED \<and> \<not> s_suspended v)"
proof -
  have "ap_key ` snd ` set (allChecks env s) = set (map (ap_key \<circ> snd) (allChecks env s))" by (simp add: image_image)
  then show ?thesis unfolding check_keys by auto
qed


text \<open>C27. A condition that stands is announced once: a second pass over a fleet that has not changed, whatever
  the clock and the webhook, changes no row and posts nothing.\<close>

theorem alerts_announced_once:
  assumes "uniqueOn n_id (nodes s)" and "uniqueOn s_id (servers s)"
    and "evaluateAlerts env s = (Inr m, t)" and "ae_bucket env' = ae_bucket env"
  shows "evaluateAlerts env' t = (Inr m, t)"
proof (rule evaluate_open [OF assms(1,2), of env])
  fix m' t'
  assume e: "evaluateAlerts env s = (Inr m', t')" "offBoard t' = offBoard s"
    and c: "\<And>b p. (b, p) \<in> set (allChecks env s) \<Longrightarrow> isOpen (ap_key p) t' = b"
    and k: "\<And>k. k \<notin> ap_key ` snd ` set (allChecks env s) \<Longrightarrow> isOpen k t' \<longleftrightarrow> isOpen k s \<and> \<not> startsWith k ''server.crashed.''"
    and m: "m' = length (raisedKeys (allChecks env s))"
  have t: "t' = t" "m' = m" using e(1) assms(3) by simp_all
  have same: "allChecks env' t = allChecks env s"
    using offBoard_tables [OF e(2)] assms(4) by (simp add: t allChecks_def fragileChecks_def)
  have idle: "ab.run env' (allChecks env' t) t = t" using c by (intro ab.run_idle) (simp add: same t)
  have "\<not> isOpen (al_key a) t" if "a \<in> set (alerts t)" "staleCrash (raisedKeys (allChecks env s)) a" for a
  proof (cases "al_key a \<in> ap_key ` snd ` set (allChecks env s)")
    case True
    then obtain b p where "(b, p) \<in> set (allChecks env s)" "al_key a = ap_key p" by auto
    moreover from this have "\<not> b" using that(2) by (auto simp: staleCrash_def raisedKeys_iff)
    ultimately show ?thesis using c [of b p] t by simp
  next
    case False
    then show ?thesis using k [OF False] that(2) t by (simp add: staleCrash_def)
  qed
  then have "fold (\<lambda>k s. snd (resolveAlert env' k s))
      (map al_key (filter (staleCrash (raisedKeys (allChecks env s))) (alerts t))) t = t"
    by (intro ab.sweep_idle) auto
  then show ?thesis using m t by (simp add: evaluate_run Let_def idle) (simp add: same)
qed

end
