(* ===== verification/Reconciler.thy ===== *)
theory Reconciler
  imports Alerts Migration
begin

text \<open>
  The reconciliation of the database with the fleet, \<open>apps/worker/src/reconciler.ts\<close>. It imports
  \<open>raise\<close> and \<open>resolve\<close> from \<open>panel/src/lib/alerts.ts\<close>, which exports neither; they
  are parameters here, of which the properties assume only that they return and touch nothing but the
  alerts. The telemetry in Redis is a parameter too.
\<close>

section \<open>Operations\<close>

type_synonym telemetry = "ident \<Rightarrow> ContainerSummary list option"

record RaiseParams =
  ra_key :: string
  ra_severity :: string
  ra_title :: string
  ra_detail :: string

record ReconcileSummary =
  rs_nodesMarkedDown :: nat
  rs_statusesCorrected :: nat
  rs_nodesRecalculated :: nat

definition actualStatus :: "ContainerSummary option \<Rightarrow> ServerStatus" where
  "actualStatus container = (case container of
     None \<Rightarrow> OFFLINE
   | Some c \<Rightarrow> (case c_state c of C_running \<Rightarrow> RUNNING | C_restarting \<Rightarrow> STARTING | _ \<Rightarrow> OFFLINE))"

definition transitional :: "ServerStatus \<Rightarrow> bool" where
  "transitional st \<longleftrightarrow> st \<in> {PROVISIONING, INSTALLING, STARTING, STOPPING, DELETING}"

text \<open>\<open>new Map(containers.map(...))\<close>: of two entries the later one counts.\<close>

definition containerOf :: "ContainerSummary list \<Rightarrow> ident \<Rightarrow> ContainerSummary option" where
  "containerOf containers = map_of (rev (map (\<lambda>c. (c_serverId c, c)) containers))"

fun correctServers :: "ContainerSummary list \<Rightarrow> Server list \<Rightarrow> nat act" where
  "correctServers containers [] = ret 0"
| "correctServers containers (server # rest) =
     (let actual = actualStatus (containerOf containers (s_id server)) in
      if transitional (s_status server) then correctServers containers rest
      else if s_suspended server then correctServers containers rest
      else if s_status server \<noteq> actual then
        andThen (updateServer (s_id server) (\<lambda>v. v\<lparr>s_status := actual\<rparr>)) (\<lambda>_.
        andThen (correctServers containers rest) (\<lambda>k. ret (k + 1)))
      else correctServers containers rest)"

definition driftAlert :: "ident \<Rightarrow> RaiseParams" where
  "driftAlert nodeId = \<lparr>ra_key = ''node.drift.'' @ nodeId, ra_severity = ''warning'',
     ra_title = ''Reservation drift corrected'',
     ra_detail = ''Reserved totals on node '' @ nodeId @ '' disagreed with placed servers and were recalculated.''\<rparr>"

definition reservedAmount :: "Node \<Rightarrow> Amount" where
  "reservedAmount n = \<lparr>am_memoryMb = n_reservedMemoryMb n, am_diskMb = n_reservedDiskMb n,
     am_cpuCores = n_reservedCpuCores n\<rparr>"

definition checkDrift :: "(RaiseParams \<Rightarrow> unit act) \<Rightarrow> ident \<Rightarrow> nat act" where
  "checkDrift raise nodeId =
     andThen (readState (\<lambda>s. sumAmount (placedOn nodeId (servers s)))) (\<lambda>placed.
     andThen (orThrow (NotFoundError ''Node'') (findNode nodeId)) (\<lambda>current.
     if reservedAmount current \<noteq> placed then
       andThen (raise (driftAlert nodeId)) (\<lambda>_.
       andThen (recalculateNodeReservations nodeId) (\<lambda>_. ret 1))
     else ret 0))"

definition silentAlert :: "ident \<Rightarrow> nat \<Rightarrow> RaiseParams" where
  "silentAlert nodeId placed = \<lparr>ra_key = ''node.down.'' @ nodeId,
     ra_severity = (if 0 < placed then ''critical'' else ''warning''), ra_title = ''Node is not reporting'',
     ra_detail = ''No heartbeat from node '' @ nodeId @ ''. '' @ showNat placed @ '' server(s) affected.''\<rparr>"

definition markSilent :: "(RaiseParams \<Rightarrow> unit act) \<Rightarrow> Node \<Rightarrow> nat act" where
  "markSilent raise node =
     andThen (if n_status node = N_ONLINE
       then andThen (updateNodeRow (n_id node) (\<lambda>n. n\<lparr>n_status := N_UNREACHABLE\<rparr>)) (\<lambda>_. ret 1)
       else ret 0) (\<lambda>k.
     andThen (readState (\<lambda>s. countWhere (\<lambda>v. s_nodeId v = n_id node) (servers s))) (\<lambda>placed.
     andThen (raise (silentAlert (n_id node) placed)) (\<lambda>_. ret k)))"

definition reconcileNode ::
    "(RaiseParams \<Rightarrow> unit act) \<Rightarrow> (string \<Rightarrow> unit act) \<Rightarrow> telemetry \<Rightarrow> Node \<Rightarrow> (nat \<times> nat \<times> nat) act" where
  "reconcileNode raise resolve tele node =
     (case tele (n_id node) of
        None \<Rightarrow> andThen (markSilent raise node) (\<lambda>k. ret (k, 0, 0))
      | Some containers \<Rightarrow>
          andThen (resolve (''node.down.'' @ n_id node)) (\<lambda>_.
          andThen (readState (\<lambda>s. filter (\<lambda>v. s_nodeId v = n_id node) (servers s))) (\<lambda>vs.
          andThen (correctServers containers vs) (\<lambda>k.
          andThen (checkDrift raise (n_id node)) (\<lambda>d. ret (0, k, d))))))"

fun reconcileLoop ::
    "(RaiseParams \<Rightarrow> unit act) \<Rightarrow> (string \<Rightarrow> unit act) \<Rightarrow> telemetry \<Rightarrow> Node list \<Rightarrow> ReconcileSummary \<Rightarrow> ReconcileSummary act" where
  "reconcileLoop raise resolve tele [] sm = ret sm"
| "reconcileLoop raise resolve tele (node # ns) sm =
     andThen (reconcileNode raise resolve tele node) (\<lambda>(a, b, c).
     reconcileLoop raise resolve tele ns
       \<lparr>rs_nodesMarkedDown = rs_nodesMarkedDown sm + a, rs_statusesCorrected = rs_statusesCorrected sm + b,
        rs_nodesRecalculated = rs_nodesRecalculated sm + c\<rparr>)"

text \<open>\<open>(mb / 1024).toFixed(1)\<close> of a number that is not negative.\<close>

definition gbFixed1 :: "int \<Rightarrow> string" where
  "gbFixed1 mb = (let n = (20 * mb + 1024) div 2048 in showInt (n div 10) @ ''.'' @ showInt (n mod 10))"

definition lowCapacityAlert :: "rat \<Rightarrow> int \<Rightarrow> nat \<Rightarrow> RaiseParams" where
  "lowCapacityAlert threshold freeMb count = \<lparr>ra_key = ''fleet.capacity.low'',
     ra_severity = (if of_int freeMb < threshold / 4 then ''critical'' else ''warning''),
     ra_title = ''Fleet capacity is low'',
     ra_detail = gbFixed1 freeMb @ '' GB of sellable memory left across '' @ showNat count @ '' node(s).''\<rparr>"

definition checkFleetCapacity :: "(RaiseParams \<Rightarrow> unit act) \<Rightarrow> (string \<Rightarrow> unit act) \<Rightarrow> rat \<Rightarrow> unit act" where
  "checkFleetCapacity raise resolve lowCapacityGb =
     andThen (readState (\<lambda>s. filter (\<lambda>n. n_status n = N_ONLINE \<and> n_enabled n) (nodes s))) (\<lambda>ns.
     (let freeMb = sum_list (map (\<lambda>n. max 0 (freeMemory n)) ns); threshold = lowCapacityGb * 1024
      in if of_int freeMb < threshold then raise (lowCapacityAlert threshold freeMb (length ns))
         else resolve ''fleet.capacity.low''))"

definition reconcileFleet ::
    "(RaiseParams \<Rightarrow> unit act) \<Rightarrow> (string \<Rightarrow> unit act) \<Rightarrow> telemetry \<Rightarrow> rat \<Rightarrow> ReconcileSummary act" where
  "reconcileFleet raise resolve tele lowCapacityGb =
     andThen (readState nodes) (\<lambda>ns.
     andThen (reconcileLoop raise resolve tele ns
       \<lparr>rs_nodesMarkedDown = 0, rs_statusesCorrected = 0, rs_nodesRecalculated = 0\<rparr>) (\<lambda>summary.
     andThen (checkFleetCapacity raise resolve lowCapacityGb) (\<lambda>_. ret summary)))"

section \<open>What a pass should do\<close>

text \<open>A server whose node reports gets the status of its container, unless an operation on it is under way
  or it is suspended.\<close>

definition correctedServer :: "ContainerSummary list option \<Rightarrow> Server \<Rightarrow> Server" where
  "correctedServer tele v = (case tele of
     None \<Rightarrow> v
   | Some containers \<Rightarrow> if transitional (s_status v) \<or> s_suspended v then v
       else v\<lparr>s_status := actualStatus (containerOf containers (s_id v))\<rparr>)"

text \<open>A node that reports gets the counters its servers add up to; one that went silent is unreachable.\<close>

definition reconciledNode :: "telemetry \<Rightarrow> Server list \<Rightarrow> Node \<Rightarrow> Node" where
  "reconciledNode tele vs n =
     (if tele (n_id n) = None then (if n_status n = N_ONLINE then n\<lparr>n_status := N_UNREACHABLE\<rparr> else n)
      else setReserved (sumAmount (placedOn (n_id n) vs)) n)"

definition correctedOn :: "telemetry \<Rightarrow> ident set \<Rightarrow> Server list \<Rightarrow> Server list" where
  "correctedOn tele ks = map (\<lambda>v. if s_nodeId v \<in> ks then correctedServer (tele (s_nodeId v)) v else v)"

text \<open>What a pass may touch, and what the alerting functions may.\<close>

definition offFleet :: "db \<Rightarrow> db" where
  "offFleet s = s\<lparr>nodes := [], servers := [], alerts := [], posts := []\<rparr>"

definition alertsOnly :: "unit act \<Rightarrow> bool" where
  "alertsOnly m \<longleftrightarrow> (\<forall>s. fst (m s) = Inr () \<and> offBoard (snd (m s)) = offBoard s)"

section \<open>The steps\<close>

lemma corrected_simps [simp]:
  "s_id (correctedServer tele v) = s_id v" "s_nodeId (correctedServer tele v) = s_nodeId v"
  "serverAmount (correctedServer tele v) = serverAmount v"
  "s_status (correctedServer tele v) = DELETING \<longleftrightarrow> s_status v = DELETING"
  by (auto simp: correctedServer_def serverAmount_def actualStatus_def transitional_def split: option.splits ContainerState.splits)

lemma correct_once:
  assumes "uniqueOn s_id vs" and "v \<in> set vs"
  shows "updateWhere (\<lambda>w. s_id w = s_id v) f vs = updateWhere (\<lambda>w. s_id w = s_id v) (\<lambda>_. f v) vs"
proof -
  have "w = v" if "w \<in> set vs" "s_id w = s_id v" for w using uniqueOn_eq [OF assms(1) that(1) assms(2) that(2)] .
  then show ?thesis by (auto simp: updateWhere_def)
qed

lemma subset_updateWhere:
  assumes "set xs \<subseteq> set rows" and "i \<notin> k ` set xs"
  shows "set xs \<subseteq> set (updateWhere (\<lambda>r. k r = i) f rows)"
proof
  fix x assume x: "x \<in> set xs"
  then have "k x \<noteq> i" using assms(2) by blast
  then show "x \<in> set (updateWhere (\<lambda>r. k r = i) f rows)" using x assms(1) by (auto simp: set_updateWhere)
qed

lemma updateWhere_twice:
  "(\<And>r. k (g r) = k r) \<Longrightarrow> i \<notin> I \<Longrightarrow>
    updateWhere (\<lambda>r. k r \<in> I) g (updateWhere (\<lambda>r. k r = i) g rows) = updateWhere (\<lambda>r. k r \<in> insert i I) g rows"
  by (induction rows) auto

lemma correctServers_run:
  assumes "uniqueOn s_id (servers s)" and "set vs \<subseteq> set (servers s)" and "distinct (map s_id vs)"
  shows "\<exists>k. correctServers cs vs s =
    (Inr k, s\<lparr>servers := updateWhere (\<lambda>w. s_id w \<in> s_id ` set vs) (correctedServer (Some cs)) (servers s)\<rparr>)"
  using assms
proof (induction vs arbitrary: s)
  case Nil
  then show ?case by (simp add: ret_def updateWhere_idle)
next
  case (Cons v vs)
  let ?g = "correctedServer (Some cs)"
  let ?one = "updateWhere (\<lambda>w. s_id w = s_id v) ?g (servers s)"
  let ?actual = "actualStatus (containerOf cs (s_id v))"
  let ?t = "s\<lparr>servers := ?one\<rparr>"
  have v: "v \<in> set (servers s)" and id: "s_id v \<notin> s_id ` set vs" using Cons.prems by auto
  have "set vs \<subseteq> set (servers ?t)" using subset_updateWhere [OF _ id] Cons.prems(2) by simp
  moreover have "uniqueOn s_id (servers ?t)" using Cons.prems(1) by (simp add: uniqueOn_updateWhere)
  ultimately obtain k where k: "correctServers cs vs ?t =
      (Inr k, ?t\<lparr>servers := updateWhere (\<lambda>w. s_id w \<in> s_id ` set vs) ?g ?one\<rparr>)"
    using Cons.IH [of ?t] Cons.prems(3) by auto
  have all: "updateWhere (\<lambda>w. s_id w \<in> s_id ` set vs) ?g ?one = updateWhere (\<lambda>w. s_id w \<in> s_id ` set (v # vs)) ?g (servers s)"
    using updateWhere_twice [where k = s_id and g = ?g, OF _ id] by simp
  show ?case
  proof (cases "?g v = v")
    case True
    then have "?one = servers s" using correct_once [OF Cons.prems(1) v, of ?g] correct_once [OF Cons.prems(1) v, of "\<lambda>w. w"]
      by (simp add: updateWhere_cong_id)
    then have "?t = s" by simp
    moreover have "transitional (s_status v) \<or> s_suspended v \<or> s_status v = ?actual"
      using True by (auto simp: correctedServer_def split: if_splits) (metis Server.select_convs(8) Server.surjective Server.update_convs(8))
    ultimately show ?thesis using k all by (auto simp: Let_def)
  next
    case False
    then have live: "\<not> transitional (s_status v)" "\<not> s_suspended v" "s_status v \<noteq> ?actual"
      by (auto simp: correctedServer_def split: if_splits)
    then have "updateWhere (\<lambda>w. s_id w = s_id v) (\<lambda>w. w\<lparr>s_status := ?actual\<rparr>) (servers s) = ?one"
      using correct_once [OF Cons.prems(1) v, of ?g] correct_once [OF Cons.prems(1) v, of "\<lambda>w. w\<lparr>s_status := ?actual\<rparr>"]
      by (simp add: correctedServer_def)
    moreover have "findServer (s_id v) s = Some v" unfolding findServer_def by (rule find_uniqueOn [OF Cons.prems(1) v])
    ultimately have "updateServer (s_id v) (\<lambda>w. w\<lparr>s_status := ?actual\<rparr>) s = (Inr (v\<lparr>s_status := ?actual\<rparr>), ?t)"
      using updateServer_run by simp
    then show ?thesis using live k all by (simp add: Let_def andThen_def ret_def)
  qed
qed

text \<open>What the alerting functions do.\<close>

lemma alertsOnly_run:
  "alertsOnly m \<Longrightarrow> \<exists>t. m s = (Inr (), t) \<and> nodes t = nodes s \<and> servers t = servers s \<and> offFleet t = offFleet s"
proof -
  assume "alertsOnly m"
  then have "m s = (Inr (), snd (m s))" "offBoard (snd (m s)) = offBoard s"
    by (simp_all add: alertsOnly_def prod_eq_iff)
  moreover from this(2) have "offFleet (snd (m s)) = offFleet s"
    by (cases s; cases "snd (m s)") (simp add: offBoard_def offFleet_def)
  ultimately show ?thesis using offBoard_tables by metis
qed

lemma offFleet_simps [simp]: "offFleet (s\<lparr>nodes := ns\<rparr>) = offFleet s" "offFleet (s\<lparr>servers := vs\<rparr>) = offFleet s"
  by (simp_all add: offFleet_def)

lemma reserved_idle: "reservedAmount n = a \<Longrightarrow> setReserved a n = n"
  by (auto simp: reservedAmount_def setReserved_def)

lemma checkDrift_run:
  assumes "\<forall>p. alertsOnly (raise p)" and "uniqueOn n_id (nodes s)" and "n \<in> set (nodes s)"
  shows "\<exists>d t. checkDrift raise (n_id n) s = (Inr d, t) \<and> servers t = servers s \<and> offFleet t = offFleet s \<and>
    nodes t = updateWhere (\<lambda>m. n_id m = n_id n) (setReserved (sumAmount (placedOn (n_id n) (servers s)))) (nodes s)"
proof -
  let ?a = "sumAmount (placedOn (n_id n) (servers s))"
  have f: "findNode (n_id n) s = Some n" unfolding findNode_def by (rule find_uniqueOn [OF assms(2,3)])
  show ?thesis
  proof (cases "reservedAmount n = ?a")
    case True
    have "m = n" if "m \<in> set (nodes s)" "n_id m = n_id n" for m using uniqueOn_eq [OF assms(2) that(1) assms(3) that(2)] .
    then have "updateWhere (\<lambda>m. n_id m = n_id n) (setReserved ?a) (nodes s) = nodes s"
      using reserved_idle [OF True] by (intro updateWhere_cong_id) auto
    then show ?thesis using True f by (auto simp: checkDrift_def andThen_def readState_def orThrow_def ret_def)
  next
    case False
    obtain u where u: "raise (driftAlert (n_id n)) s = (Inr (), u)" "nodes u = nodes s" "servers u = servers s" "offFleet u = offFleet s"
      using alertsOnly_run assms(1) by blast
    have "checkDrift raise (n_id n) s = (Inr 1, u\<lparr>nodes := updateWhere (\<lambda>m. n_id m = n_id n) (setReserved ?a) (nodes s)\<rparr>)"
      using False f u by (simp add: checkDrift_def andThen_def readState_def orThrow_def ret_def recalculateNodeReservations_def writeState_def)
    then show ?thesis using u by auto
  qed
qed

lemma markSilent_run:
  assumes "\<forall>p. alertsOnly (raise p)" and "uniqueOn n_id (nodes s)" and "n \<in> set (nodes s)"
  shows "\<exists>k t. markSilent raise n s = (Inr k, t) \<and> servers t = servers s \<and> offFleet t = offFleet s \<and>
    nodes t = updateWhere (\<lambda>m. n_id m = n_id n) (\<lambda>m. if n_status m = N_ONLINE then m\<lparr>n_status := N_UNREACHABLE\<rparr> else m) (nodes s)"
proof -
  let ?f = "\<lambda>m. if n_status m = N_ONLINE then m\<lparr>n_status := N_UNREACHABLE\<rparr> else m"
  have f: "findNode (n_id n) s = Some n" unfolding findNode_def by (rule find_uniqueOn [OF assms(2,3)])
  have only: "m = n" if "m \<in> set (nodes s)" "n_id m = n_id n" for m using uniqueOn_eq [OF assms(2) that(1) assms(3) that(2)] .
  let ?s1 = "if n_status n = N_ONLINE then s\<lparr>nodes := updateWhere (\<lambda>m. n_id m = n_id n) (\<lambda>m. m\<lparr>n_status := N_UNREACHABLE\<rparr>) (nodes s)\<rparr> else s"
  have s1: "servers ?s1 = servers s" "offFleet ?s1 = offFleet s" by auto
  have n1: "nodes ?s1 = updateWhere (\<lambda>m. n_id m = n_id n) ?f (nodes s)"
  proof (cases "n_status n = N_ONLINE")
    case True
    then show ?thesis using only by (auto simp: updateWhere_def)
  next
    case False
    have "updateWhere (\<lambda>m. n_id m = n_id n) ?f (nodes s) = nodes s"
      by (rule updateWhere_cong_id) (use only False in auto)
    then show ?thesis using False by simp
  qed
  obtain u where u: "raise (silentAlert (n_id n) (countWhere (\<lambda>v. s_nodeId v = n_id n) (servers s))) ?s1 = (Inr (), u)"
      "nodes u = nodes ?s1" "servers u = servers ?s1" "offFleet u = offFleet ?s1"
    using alertsOnly_run assms(1) by blast
  have "\<exists>k. markSilent raise n s = (Inr k, u)"
    using f u(1) by (cases "n_status n = N_ONLINE") (simp_all add: markSilent_def andThen_def readState_def ret_def updateNodeRow_def orThrow_def writeState_def)
  then show ?thesis using u(2-4) s1 n1 by metis
qed

section \<open>The pass\<close>

lemma placed_corrected: "sumAmount (placedOn k (correctedOn tele ks vs)) = sumAmount (placedOn k vs)"
proof -
  let ?c = "\<lambda>v. if s_nodeId v \<in> ks then correctedServer (tele (s_nodeId v)) v else v"
  have c: "s_nodeId (?c v) = s_nodeId v" "s_memoryMb (?c v) = s_memoryMb v" "s_diskMb (?c v) = s_diskMb v"
    "s_cpuCores (?c v) = s_cpuCores v" "s_status (?c v) = DELETING \<longleftrightarrow> s_status v = DELETING" for v
    by (auto simp: correctedServer_def actualStatus_def transitional_def split: option.splits ContainerState.splits)
  have "placedOn k (map ?c vs) = map ?c (placedOn k vs)" by (simp add: placedOn_def filter_map comp_def c)
  then show ?thesis by (simp add: correctedOn_def sumAmount_def comp_def c)
qed

lemma reconciled_corrected [simp]: "reconciledNode tele (correctedOn tele ks vs) n = reconciledNode tele vs n"
  by (simp add: reconciledNode_def placed_corrected)

lemma reconciled_id [simp]: "n_id (reconciledNode tele vs n) = n_id n"
  by (simp add: reconciledNode_def)

lemma correctedOn_insert:
  "k \<notin> ks \<Longrightarrow> correctedOn tele ks (correctedOn tele {k} vs) = correctedOn tele (insert k ks) vs"
  by (auto simp: correctedOn_def)

lemma correctedOn_unique: "uniqueOn s_id (correctedOn tele ks vs) = uniqueOn s_id vs"
proof -
  have "s_id (if s_nodeId v \<in> ks then correctedServer (tele (s_nodeId v)) v else v) = s_id v" for v by simp
  then show ?thesis by (simp add: correctedOn_def uniqueOn_def comp_def)
qed

lemma reconcileNode_run:
  assumes "\<forall>p. alertsOnly (raise p)" and "\<forall>k. alertsOnly (resolve k)"
    and "uniqueOn n_id (nodes s)" and "n \<in> set (nodes s)" and "uniqueOn s_id (servers s)"
  shows "\<exists>r t. reconcileNode raise resolve tele n s = (Inr r, t) \<and> servers t = correctedOn tele {n_id n} (servers s) \<and>
    nodes t = updateWhere (\<lambda>m. n_id m = n_id n) (reconciledNode tele (servers s)) (nodes s) \<and> offFleet t = offFleet s"
proof (cases "tele (n_id n)")
  case None
  obtain k t where t: "markSilent raise n s = (Inr k, t)" "servers t = servers s" "offFleet t = offFleet s"
    "nodes t = updateWhere (\<lambda>m. n_id m = n_id n) (\<lambda>m. if n_status m = N_ONLINE then m\<lparr>n_status := N_UNREACHABLE\<rparr> else m) (nodes s)"
    using markSilent_run [OF assms(1,3,4)] by blast
  have "nodes t = updateWhere (\<lambda>m. n_id m = n_id n) (reconciledNode tele (servers s)) (nodes s)"
    unfolding t(4) by (auto simp: updateWhere_def reconciledNode_def None)
  moreover have "correctedOn tele {n_id n} (servers s) = servers s"
    by (auto simp: correctedOn_def correctedServer_def None intro: map_idI)
  ultimately show ?thesis using t by (simp add: reconcileNode_def None andThen_def ret_def)
next
  case (Some cs)
  let ?vs = "filter (\<lambda>v. s_nodeId v = n_id n) (servers s)"
  obtain u where u: "resolve (''node.down.'' @ n_id n) s = (Inr (), u)" "nodes u = nodes s" "servers u = servers s" "offFleet u = offFleet s"
    using alertsOnly_run assms(2) by blast
  have vs: "uniqueOn s_id (servers u)" "set ?vs \<subseteq> set (servers u)" "distinct (map s_id ?vs)"
    using assms(5) u(3) by (auto simp: uniqueOn_def distinct_map_filter)
  let ?w = "u\<lparr>servers := updateWhere (\<lambda>w. s_id w \<in> s_id ` set ?vs) (correctedServer (Some cs)) (servers u)\<rparr>"
  obtain k where k: "correctServers cs ?vs u = (Inr k, ?w)" using correctServers_run [OF vs] by blast
  have "s_id w \<in> s_id ` set ?vs \<longleftrightarrow> s_nodeId w = n_id n" if "w \<in> set (servers s)" for w
    using that uniqueOn_eq [OF assms(5)] by auto
  then have w: "servers ?w = correctedOn tele {n_id n} (servers s)"
    by (auto simp: correctedOn_def updateWhere_def u(3) Some)
  have "uniqueOn n_id (nodes ?w)" "n \<in> set (nodes ?w)" using assms(3,4) u(2) by simp_all
  from checkDrift_run [OF assms(1) this] obtain d t where t: "checkDrift raise (n_id n) ?w = (Inr d, t)"
    "servers t = servers ?w" "offFleet t = offFleet ?w"
    "nodes t = updateWhere (\<lambda>m. n_id m = n_id n) (setReserved (sumAmount (placedOn (n_id n) (servers ?w)))) (nodes ?w)"
    by blast
  have "nodes t = updateWhere (\<lambda>m. n_id m = n_id n) (reconciledNode tele (servers s)) (nodes s)"
    unfolding t(4) w placed_corrected by (auto simp: updateWhere_def reconciledNode_def Some u(2))
  moreover have "reconcileNode raise resolve tele n s = (Inr (0, k, d), t)"
    using u k t(1) by (simp add: reconcileNode_def Some andThen_def readState_def ret_def)
  ultimately show ?thesis using t(2,3) w u(4) by simp
qed

lemma reconcileLoop_run:
  assumes quiet: "\<forall>p. alertsOnly (raise p)" "\<forall>k. alertsOnly (resolve k)"
    and "uniqueOn n_id (nodes s)" and "set ns \<subseteq> set (nodes s)" and "distinct (map n_id ns)" and "uniqueOn s_id (servers s)"
  shows "\<exists>r t. reconcileLoop raise resolve tele ns sm s = (Inr r, t) \<and> offFleet t = offFleet s \<and>
    servers t = correctedOn tele (n_id ` set ns) (servers s) \<and>
    nodes t = updateWhere (\<lambda>m. n_id m \<in> n_id ` set ns) (reconciledNode tele (servers s)) (nodes s)"
  using assms(3-)
proof (induction ns arbitrary: s sm)
  case Nil
  have "correctedOn tele {} vs = vs" for vs by (simp add: correctedOn_def)
  then show ?case by (simp add: ret_def updateWhere_idle)
next
  case (Cons n ns)
  have n: "n \<in> set (nodes s)" and id: "n_id n \<notin> n_id ` set ns" using Cons.prems by auto
  obtain a b c t where t: "reconcileNode raise resolve tele n s = (Inr (a, b, c), t)"
    "servers t = correctedOn tele {n_id n} (servers s)"
    "nodes t = updateWhere (\<lambda>m. n_id m = n_id n) (reconciledNode tele (servers s)) (nodes s)" "offFleet t = offFleet s"
    using reconcileNode_run [OF quiet Cons.prems(1) n Cons.prems(4), of tele] by auto
  have sub: "set ns \<subseteq> set (nodes t)" using subset_updateWhere [OF _ id] Cons.prems(2) unfolding t(3) by simp
  have un: "uniqueOn n_id (nodes t)" using Cons.prems(1) by (simp add: t(3) uniqueOn_updateWhere)
  have us: "uniqueOn s_id (servers t)" using Cons.prems(4) by (simp add: t(2) correctedOn_unique)
  have dn: "distinct (map n_id ns)" using Cons.prems(3) by simp
  let ?sm = "\<lparr>rs_nodesMarkedDown = rs_nodesMarkedDown sm + a, rs_statusesCorrected = rs_statusesCorrected sm + b,
        rs_nodesRecalculated = rs_nodesRecalculated sm + c\<rparr>"
  obtain r w where w: "reconcileLoop raise resolve tele ns ?sm t = (Inr r, w)" "offFleet w = offFleet t"
    "servers w = correctedOn tele (n_id ` set ns) (servers t)"
    "nodes w = updateWhere (\<lambda>m. n_id m \<in> n_id ` set ns) (reconciledNode tele (servers t)) (nodes t)"
    using Cons.IH [OF un sub dn us] by blast
  have "nodes w = updateWhere (\<lambda>m. n_id m \<in> n_id ` set (n # ns)) (reconciledNode tele (servers s)) (nodes s)"
    unfolding w(4) t(2,3) reconciled_corrected [abs_def]
    using updateWhere_twice [where k = n_id and g = "reconciledNode tele (servers s)", OF _ id] by simp
  then show ?case using w t correctedOn_insert [OF id] by (simp add: andThen_def)
qed


end
