(* ===== verification/WorkerScenarios.thy ===== *)
theory WorkerScenarios
  imports PanelScenarios Reconciler
begin

text \<open>
  The properties of the worker applied at concrete inputs: two nodes, one of them silent, with a
  server whose recorded status is out of date.
\<close>

section \<open>Alerts\<close>

definition sampleAlertEnv :: AlertEnv where
  "sampleAlertEnv = \<lparr>ae_now = 1000, ae_id = (\<lambda>k. k), ae_webhook = True, ae_post = (\<lambda>_ _. Inr True), ae_bucket = False\<rparr>"

definition crashedFleet :: db where
  "crashedFleet = (twoNodes (otherNode\<lparr>n_status := N_UNREACHABLE\<rparr>))\<lparr>servers := [sampleServer\<lparr>s_status := CRASHED\<rparr>]\<rparr>"

lemma crashedFleet_ok: "uniqueOn n_id (nodes crashedFleet)" "uniqueOn s_id (servers crashedFleet)"
  by (simp_all add: crashedFleet_def uniqueOn_def fleet_defs)


theorem alerts_announced_once_witness:
  "\<exists>m t. evaluateAlerts (sampleAlertEnv\<lparr>ae_now := 9000\<rparr>) t = (Inr m, t) \<and> evaluateAlerts sampleAlertEnv crashedFleet = (Inr m, t)"
proof -
  obtain m t where t: "evaluateAlerts sampleAlertEnv crashedFleet = (Inr m, t)"
    by (simp add: evaluate_run Let_def)
  have "evaluateAlerts (sampleAlertEnv\<lparr>ae_now := 9000\<rparr>) t = (Inr m, t)"
    by (rule alerts_announced_once [OF crashedFleet_ok t]) (simp add: sampleAlertEnv_def)
  then show ?thesis using t by blast
qed

section \<open>Reconciliation\<close>

text \<open>The alerting functions of the panel in the place of the two the reconciler imports.\<close>

definition panelRaise :: "RaiseParams \<Rightarrow> unit act" where
  "panelRaise p = andThen (raiseAlert sampleAlertEnv
     \<lparr>ap_key = ra_key p, ap_severity = (if ra_severity p = ''critical'' then CRITICAL else WARNING), ap_title = ra_title p,
      ap_detail = ra_detail p, ap_targetType = ''system'', ap_targetId = ra_key p\<rparr>) (\<lambda>_. ret ())"

lemma panel_alertsOnly: "alertsOnly (panelRaise p)" "alertsOnly (resolveAlert sampleAlertEnv k)"
proof -
  have "fst (panelRaise p s) = Inr () \<and> offBoard (snd (panelRaise p s)) = offBoard s" for s
  proof -
    let ?p = "\<lparr>ap_key = ra_key p, ap_severity = (if ra_severity p = ''critical'' then CRITICAL else WARNING), ap_title = ra_title p,
      ap_detail = ra_detail p, ap_targetType = ''system'', ap_targetId = ra_key p\<rparr>"
    obtain a t where "raiseAlert sampleAlertEnv ?p s = (Inr a, t)" "offBoard t = offBoard s"
      using raiseAlert_run [of sampleAlertEnv ?p s] by (elim exE conjE)
    then show ?thesis by (simp add: panelRaise_def andThen_def ret_def)
  qed
  then show "alertsOnly (panelRaise p)" by (simp add: alertsOnly_def)
  have "fst (resolveAlert sampleAlertEnv k s) = Inr () \<and> offBoard (snd (resolveAlert sampleAlertEnv k s)) = offBoard s" for s
  proof -
    obtain t where "resolveAlert sampleAlertEnv k s = (Inr (), t)" "offBoard t = offBoard s"
      using resolveAlert_run [of sampleAlertEnv k s] by (elim exE conjE)
    then show ?thesis by simp
  qed
  then show "alertsOnly (resolveAlert sampleAlertEnv k)" by (simp add: alertsOnly_def)
qed

definition sampleTelemetry :: telemetry where
  "sampleTelemetry k = (if k = ''n1'' then Some [\<lparr>c_serverId = ''s1'', c_containerId = ''c1'', c_state = C_running,
     c_cpuPercent = 0, c_memoryUsedMb = 512, c_diskUsedMb = 100\<rparr>] else None)"


end
