(* ===== verification/Metrics.thy ===== *)
theory Metrics
  imports Schema
begin

text \<open>
  \<open>panel/src/lib/metrics.ts\<close>: the worker samples the telemetry of the agents into one row per
  server and minute, and compacts minutes older than two days into one row per hour. Redis is a
  function from nodes to the containers of their last heartbeat; buckets are UTC milliseconds;
  \<open>Float\<close> columns are exact.
\<close>

section \<open>Operations\<close>

definition MINUTE_RETENTION_HOURS :: int where
  "MINUTE_RETENTION_HOURS = 48"

definition HOUR_RETENTION_DAYS :: int where
  "HOUR_RETENTION_DAYS = 90"

type_synonym telemetry = "ident \<Rightarrow> ContainerSummary list option"

text \<open>\<open>setUTCSeconds(0, 0)\<close> and \<open>date_trunc('hour', ...)\<close>\<close>

definition minuteOf :: "time \<Rightarrow> time" where
  "minuteOf t = t - t mod 60000"

definition hourOf :: "time \<Rightarrow> time" where
  "hourOf t = t - t mod 3600000"

definition metricKey :: "ServerMetric \<Rightarrow> ident \<times> time \<times> string" where
  "metricKey m = (sm_serverId m, sm_bucket m, sm_resolution m)"

definition sampleRow :: "time \<Rightarrow> ContainerSummary \<Rightarrow> ServerMetric" where
  "sampleRow bucket c = \<lparr>sm_serverId = c_serverId c, sm_bucket = bucket, sm_resolution = ''minute'',
     sm_cpuPercent = c_cpuPercent c, sm_memoryMb = c_memoryUsedMb c, sm_diskMb = c_diskUsedMb c, sm_samples = 1\<rparr>"

text \<open>\<open>serverMetric.upsert\<close> with an empty \<open>update\<close>; the server must exist.\<close>

definition upsertMetric :: "ServerMetric \<Rightarrow> unit act" where
  "upsertMetric m =
     andThen (readState (\<lambda>s. list_ex (\<lambda>x. metricKey x = metricKey m) (metrics s))) (\<lambda>present.
     if present then ret ()
     else
       andThen (orThrow (Error ''foreign key'') (findServer (sm_serverId m))) (\<lambda>_.
       writeState (\<lambda>s. s\<lparr>metrics := metrics s @ [m]\<rparr>)))"

text \<open>The number counted by \<open>.then(() => written++)\<close>.\<close>

fun sampleContainers :: "time \<Rightarrow> ContainerSummary list \<Rightarrow> nat act" where
  "sampleContainers bucket [] = ret 0"
| "sampleContainers bucket (c # cs) =
     andThen (tryCatch (andThen (upsertMetric (sampleRow bucket c)) (\<lambda>_. ret (1::nat))) (\<lambda>_. ret 0)) (\<lambda>k.
     andThen (sampleContainers bucket cs) (\<lambda>l. ret (k + l)))"

fun sampleNodes :: "telemetry \<Rightarrow> time \<Rightarrow> ident list \<Rightarrow> nat act" where
  "sampleNodes redis bucket [] = ret 0"
| "sampleNodes redis bucket (i # is) =
     (case redis i of
        None \<Rightarrow> sampleNodes redis bucket is
      | Some cs \<Rightarrow> andThen (sampleContainers bucket cs) (\<lambda>k.
          andThen (sampleNodes redis bucket is) (\<lambda>l. ret (k + l))))"

definition sampleMetrics :: "telemetry \<Rightarrow> time \<Rightarrow> nat act" where
  "sampleMetrics redis now =
     andThen (readState (\<lambda>s. map n_id (filter (\<lambda>n. n_status n = N_ONLINE) (nodes s)))) (\<lambda>ids.
     sampleNodes redis (minuteOf now) ids)"

text \<open>The aggregates of PostgreSQL: \<open>AVG\<close>, the cast of a numeric to an integer, \<open>MAX\<close>.\<close>

definition avg :: "rat list \<Rightarrow> rat" where
  "avg xs = sum_list xs / of_nat (length xs)"

definition roundHalfAway :: "rat \<Rightarrow> int" where
  "roundHalfAway x = (if 0 \<le> x then \<lfloor>x + 1 / 2\<rfloor> else \<lceil>x - 1 / 2\<rceil>)"

definition hourRow :: "ident \<Rightarrow> time \<Rightarrow> ServerMetric list \<Rightarrow> ServerMetric" where
  "hourRow i h rows = \<lparr>sm_serverId = i, sm_bucket = h, sm_resolution = ''hour'',
     sm_cpuPercent = avg (map sm_cpuPercent rows),
     sm_memoryMb = roundHalfAway (avg (map (\<lambda>m. of_int (sm_memoryMb m)) rows)),
     sm_diskMb = fold max (map sm_diskMb rows) (sm_diskMb (hd rows)), sm_samples = int (length rows)\<rparr>"

definition oldMinute :: "time \<Rightarrow> ServerMetric \<Rightarrow> bool" where
  "oldMinute cutoff m \<longleftrightarrow> sm_resolution m = ''minute'' \<and> sm_bucket m < cutoff"

definition groupKey :: "ServerMetric \<Rightarrow> ident \<times> time" where
  "groupKey m = (sm_serverId m, hourOf (sm_bucket m))"

text \<open>\<open>INSERT ... SELECT ... GROUP BY ... ON CONFLICT DO NOTHING\<close>: one row per group, left out
  when its key is taken.\<close>

definition insertHour :: "ServerMetric \<Rightarrow> ServerMetric list \<Rightarrow> ServerMetric list" where
  "insertHour m rows = (if list_ex (\<lambda>x. metricKey x = metricKey m) rows then rows else rows @ [m])"

definition hourRows :: "time \<Rightarrow> ServerMetric list \<Rightarrow> ServerMetric list" where
  "hourRows cutoff rows =
     (let old = filter (oldMinute cutoff) rows
      in map (\<lambda>(i, h). hourRow i h (filter (\<lambda>m. groupKey m = (i, h)) old)) (remdups (map groupKey old)))"

definition compactInto :: "time \<Rightarrow> ServerMetric list \<Rightarrow> ServerMetric list" where
  "compactInto cutoff rows = fold insertHour (hourRows cutoff rows) rows"

definition expiredHour :: "time \<Rightarrow> ServerMetric \<Rightarrow> bool" where
  "expiredHour limit m \<longleftrightarrow> sm_resolution m = ''hour'' \<and> sm_bucket m < limit"

text \<open>\<open>now\<close> and \<open>later\<close> are the two readings of the clock.\<close>

definition compactMetrics :: "time \<Rightarrow> time \<Rightarrow> (nat \<times> nat) act" where
  "compactMetrics now later =
     (let minuteCutoff = now - MINUTE_RETENTION_HOURS * 3600000;
          hourCutoff = later - HOUR_RETENTION_DAYS * 86400000
      in andThen (writeState (\<lambda>s. s\<lparr>metrics := compactInto minuteCutoff (metrics s)\<rparr>)) (\<lambda>_.
         andThen (readState (\<lambda>s. countWhere (oldMinute minuteCutoff) (metrics s))) (\<lambda>deletedMinutes.
         andThen (writeState (\<lambda>s. s\<lparr>metrics := deleteWhere (oldMinute minuteCutoff) (metrics s)\<rparr>)) (\<lambda>_.
         andThen (readState (\<lambda>s. countWhere (expiredHour hourCutoff) (metrics s))) (\<lambda>deletedHours.
         andThen (writeState (\<lambda>s. s\<lparr>metrics := deleteWhere (expiredHour hourCutoff) (metrics s)\<rparr>)) (\<lambda>_.
         ret (deletedMinutes, deletedHours)))))))"

definition serverHistory :: "time \<Rightarrow> ident \<Rightarrow> int \<Rightarrow> db \<Rightarrow> ServerMetric list" where
  "serverHistory now i hours s = sort_key sm_bucket
     (filter (\<lambda>m. sm_serverId m = i \<and> now - hours * 3600000 \<le> sm_bucket m) (metrics s))"

section \<open>Sampling\<close>

definition keyed :: "db \<Rightarrow> bool" where
  "keyed s \<longleftrightarrow> uniqueOn metricKey (metrics s)"

text \<open>A container is settled when its row is there or its server is not.\<close>

definition settled :: "time \<Rightarrow> db \<Rightarrow> ContainerSummary \<Rightarrow> bool" where
  "settled b s c \<longleftrightarrow> list_ex (\<lambda>x. metricKey x = metricKey (sampleRow b c)) (metrics s) \<or> findServer (c_serverId c) s = None"

definition sampled :: "time \<Rightarrow> ContainerSummary list \<Rightarrow> db \<Rightarrow> db \<Rightarrow> bool" where
  "sampled b cs s t \<longleftrightarrow> (keyed s \<longrightarrow> keyed t) \<and> (\<forall>c \<in> set cs. settled b t c) \<and>
     ((\<forall>c \<in> set cs. settled b s c) \<longrightarrow> t = s) \<and>
     (\<exists>new. t = s\<lparr>metrics := metrics s @ new\<rparr> \<and> (\<forall>m \<in> set new. \<exists>c \<in> set cs. m = sampleRow b c))"

lemma sampledD:
  assumes "sampled b cs s t"
  shows "keyed s \<Longrightarrow> keyed t" "c \<in> set cs \<Longrightarrow> settled b t c" "(\<And>c. c \<in> set cs \<Longrightarrow> settled b s c) \<Longrightarrow> t = s"
    "\<exists>new. t = s\<lparr>metrics := metrics s @ new\<rparr> \<and> (\<forall>m \<in> set new. \<exists>c \<in> set cs. m = sampleRow b c)"
  using assms unfolding sampled_def by simp_all

lemma sampled_idle: "(\<And>c. c \<in> set cs \<Longrightarrow> settled b s c) \<Longrightarrow> sampled b cs s s"
  unfolding sampled_def by (intro conjI exI [of _ "[]"]) simp_all

lemma upsert_sampled:
  "\<exists>k t. tryCatch (andThen (upsertMetric (sampleRow b c)) (\<lambda>_. ret (1::nat))) (\<lambda>_. ret 0) s = (Inr k, t) \<and> sampled b [c] s t"
proof (cases "settled b s c")
  case True
  then have "sampled b [c] s s" by (intro sampled_idle) simp
  moreover have "\<exists>k. tryCatch (andThen (upsertMetric (sampleRow b c)) (\<lambda>_. ret (1::nat))) (\<lambda>_. ret 0) s = (Inr k, s)"
    using True by (cases "list_ex (\<lambda>x. metricKey x = metricKey (sampleRow b c)) (metrics s)")
      (simp_all add: settled_def sampleRow_def upsertMetric_def tryCatch_def andThen_def readState_def ret_def orThrow_def)
  ultimately show ?thesis by blast
next
  case False
  let ?t = "s\<lparr>metrics := metrics s @ [sampleRow b c]\<rparr>"
  obtain v where "findServer (sm_serverId (sampleRow b c)) s = Some v" using False by (auto simp: settled_def sampleRow_def)
  then have "tryCatch (andThen (upsertMetric (sampleRow b c)) (\<lambda>_. ret (1::nat))) (\<lambda>_. ret 0) s = (Inr 1, ?t)"
    using False by (simp add: settled_def upsertMetric_def tryCatch_def andThen_def readState_def ret_def orThrow_def writeState_def)
  moreover have "sampled b [c] s ?t"
    using False by (auto simp: sampled_def settled_def keyed_def list_ex_iff intro!: uniqueOn_append)
  ultimately show ?thesis by blast
qed

lemma settled_more: "settled b s c \<Longrightarrow> settled b (s\<lparr>metrics := metrics s @ new\<rparr>) c"
  by (auto simp: settled_def findServer_def)

lemma sampled_trans:
  assumes "sampled b cs s t" and "sampled b ds t u"
  shows "sampled b (cs @ ds) s u"
proof -
  obtain n1 where n1: "t = s\<lparr>metrics := metrics s @ n1\<rparr>" "\<forall>m \<in> set n1. \<exists>c \<in> set cs. m = sampleRow b c"
    using sampledD(4) [OF assms(1)] by blast
  obtain n2 where n2: "u = t\<lparr>metrics := metrics t @ n2\<rparr>" "\<forall>m \<in> set n2. \<exists>c \<in> set ds. m = sampleRow b c"
    using sampledD(4) [OF assms(2)] by blast
  show ?thesis
    unfolding sampled_def
  proof (intro conjI impI exI [of _ "n1 @ n2"])
    show "keyed u" if "keyed s" using that sampledD(1) [OF assms(1)] sampledD(1) [OF assms(2)] by blast
    show "\<forall>c \<in> set (cs @ ds). settled b u c"
    proof
      fix c assume "c \<in> set (cs @ ds)"
      then consider "c \<in> set cs" | "c \<in> set ds" by auto
      then show "settled b u c"
      proof cases
        case 1
        show ?thesis unfolding n2(1) by (rule settled_more [OF sampledD(2) [OF assms(1) 1]])
      qed (rule sampledD(2) [OF assms(2)])
    qed
    show "u = s" if same: "\<forall>c \<in> set (cs @ ds). settled b s c"
    proof -
      have "t = s" by (rule sampledD(3) [OF assms(1)]) (use same in simp)
      then show ?thesis using sampledD(3) [OF assms(2)] same by simp
    qed
    show "u = s\<lparr>metrics := metrics s @ n1 @ n2\<rparr>" unfolding n2(1) n1(1) by simp
    show "\<forall>m \<in> set (n1 @ n2). \<exists>c \<in> set (cs @ ds). m = sampleRow b c" using n1(2) n2(2) by auto
  qed
qed

lemma sampleContainers_run: "\<exists>k t. sampleContainers b cs s = (Inr k, t) \<and> sampled b cs s t"
proof (induction cs arbitrary: s)
  case Nil
  have "sampled b [] s s" by (rule sampled_idle) simp
  then show ?case by (simp add: ret_def)
next
  case (Cons c cs)
  obtain k t where t: "tryCatch (andThen (upsertMetric (sampleRow b c)) (\<lambda>_. ret (1::nat))) (\<lambda>_. ret 0) s = (Inr k, t)" "sampled b [c] s t"
    using upsert_sampled by blast
  obtain l u where u: "sampleContainers b cs t = (Inr l, u)" "sampled b cs t u" using Cons.IH by blast
  have "sampleContainers b (c # cs) s = (Inr (k + l), u)"
    unfolding sampleContainers.simps andThen_step [where m = "tryCatch _ _", OF t(1)] by (simp add: andThen_def u(1) ret_def)
  moreover have "sampled b (c # cs) s u" using sampled_trans [OF t(2) u(2)] by simp
  ultimately show ?case by blast
qed

definition reportedBy :: "telemetry \<Rightarrow> ident list \<Rightarrow> ContainerSummary list" where
  "reportedBy redis is = concat (map (\<lambda>i. case redis i of None \<Rightarrow> [] | Some cs \<Rightarrow> cs) is)"

lemma sampleNodes_run: "\<exists>k t. sampleNodes redis b is s = (Inr k, t) \<and> sampled b (reportedBy redis is) s t"
proof (induction "is" arbitrary: s)
  case Nil
  then show ?case using sampleContainers_run [of b "[]" s] by (auto simp: reportedBy_def ret_def)
next
  case (Cons i "is")
  show ?case
  proof (cases "redis i")
    case None
    then show ?thesis using Cons.IH [of s] by (simp add: reportedBy_def)
  next
    case (Some cs)
    obtain k t where t: "sampleContainers b cs s = (Inr k, t)" "sampled b cs s t" using sampleContainers_run by blast
    obtain l u where u: "sampleNodes redis b is t = (Inr l, u)" "sampled b (reportedBy redis is) t u" using Cons.IH by blast
    have "sampleNodes redis b (i # is) s = (Inr (k + l), u)" using Some t(1) u(1) by (simp add: andThen_def ret_def)
    moreover have "sampled b (reportedBy redis (i # is)) s u" using sampled_trans [OF t(2) u(2)] Some by (simp add: reportedBy_def)
    ultimately show ?thesis by blast
  qed
qed

definition onlineIds :: "db \<Rightarrow> ident list" where
  "onlineIds s = map n_id (filter (\<lambda>n. n_status n = N_ONLINE) (nodes s))"

lemma sampleMetrics_run: "\<exists>k t. sampleMetrics redis now s = (Inr k, t) \<and> sampled (minuteOf now) (reportedBy redis (onlineIds s)) s t"
  using sampleNodes_run [of redis "minuteOf now" "onlineIds s" s] by (simp add: sampleMetrics_def andThen_def readState_def onlineIds_def)

text \<open>Sampling is idempotent within a minute, whatever container is reported by how many nodes: it never
  throws, it keeps what was recorded and the uniqueness of rows, every container of an online
  node whose server exists has its row for the minute afterwards, and a second pass in the same
  minute over the same telemetry changes nothing.\<close>

theorem sampling_idempotent:
  assumes "minuteOf later = minuteOf now"
  shows "\<exists>k t. sampleMetrics redis now s = (Inr k, t) \<and> (keyed s \<longrightarrow> keyed t) \<and>
    (\<exists>new. t = s\<lparr>metrics := metrics s @ new\<rparr>) \<and>
    (\<forall>c \<in> set (reportedBy redis (onlineIds s)). findServer (c_serverId c) s \<noteq> None \<longrightarrow>
      (\<exists>m \<in> set (metrics t). metricKey m = (c_serverId c, minuteOf now, ''minute''))) \<and>
    snd (sampleMetrics redis later t) = t"
proof -
  obtain k t where t: "sampleMetrics redis now s = (Inr k, t)" "sampled (minuteOf now) (reportedBy redis (onlineIds s)) s t"
    using sampleMetrics_run by blast
  obtain new where new: "t = s\<lparr>metrics := metrics s @ new\<rparr>" using sampledD(4) [OF t(2)] by blast
  have ids: "onlineIds t = onlineIds s" by (simp add: new onlineIds_def)
  obtain l u where u: "sampleMetrics redis later t = (Inr l, u)" "sampled (minuteOf now) (reportedBy redis (onlineIds s)) t u"
    using sampleMetrics_run [of redis later t] unfolding assms ids by (elim exE conjE) (rule that)
  have "u = t" by (rule sampledD(3) [OF u(2)]) (rule sampledD(2) [OF t(2)])
  moreover have "\<exists>m \<in> set (metrics t). metricKey m = (c_serverId c, minuteOf now, ''minute'')"
    if "c \<in> set (reportedBy redis (onlineIds s))" "findServer (c_serverId c) s \<noteq> None" for c
  proof -
    have "settled (minuteOf now) t c" using sampledD(2) [OF t(2) that(1)] .
    moreover have "findServer (c_serverId c) t \<noteq> None" using that(2) by (simp add: findServer_def new)
    ultimately show ?thesis by (auto simp: settled_def list_ex_iff metricKey_def sampleRow_def)
  qed
  moreover have "keyed s \<longrightarrow> keyed t" using sampledD(1) [OF t(2)] by blast
  moreover have "snd (sampleMetrics redis later t) = u" using u(1) by simp
  ultimately show ?thesis using t(1) new by (intro exI [of _ k] exI [of _ t]) blast
qed

section \<open>Compaction\<close>

lemma insertHour_mem: "m \<in> set (fold insertHour new rows) \<Longrightarrow> m \<in> set rows \<or> m \<in> set new"
proof (induction new arbitrary: rows)
  case (Cons x new)
  have "set (insertHour x rows) \<subseteq> insert x (set rows)" by (auto simp: insertHour_def)
  then show ?case using Cons.IH [of "insertHour x rows"] Cons.prems by auto
qed simp

lemma insertHour_keeps: "set rows \<subseteq> set (fold insertHour new rows)"
proof (induction new arbitrary: rows)
  case (Cons x new)
  have "set rows \<subseteq> set (insertHour x rows)" by (auto simp: insertHour_def)
  then show ?case using Cons.IH [of "insertHour x rows"] by auto
qed simp

lemma insertHour_unique: "uniqueOn metricKey rows \<Longrightarrow> uniqueOn metricKey (fold insertHour new rows)"
proof (induction new arbitrary: rows)
  case (Cons x new)
  have "uniqueOn metricKey (insertHour x rows)"
    using Cons.prems by (auto simp: insertHour_def list_ex_iff intro!: uniqueOn_append)
  then show ?case using Cons.IH by simp
qed simp

lemma insertHour_find:
  "uniqueOn metricKey new \<Longrightarrow> m \<in> set new \<Longrightarrow> \<not> (\<exists>x \<in> set rows. metricKey x = metricKey m) \<Longrightarrow> m \<in> set (fold insertHour new rows)"
proof (induction new arbitrary: rows)
  case (Cons x new)
  show ?case
  proof (cases "x = m")
    case True
    then have "m \<in> set (insertHour x rows)" using Cons.prems(3) by (auto simp: insertHour_def list_ex_iff)
    then show ?thesis using insertHour_keeps by auto
  next
    case False
    have "metricKey x \<noteq> metricKey m" using Cons.prems(1,2) False by (auto simp: uniqueOn_def)
    then show ?thesis using Cons.prems False Cons.IH [of "insertHour x rows"]
      by (auto simp: insertHour_def uniqueOn_def)
  qed
qed simp

lemma hourRows_keys: "uniqueOn metricKey (hourRows cutoff rows)"
  by (auto simp: uniqueOn_def hourRows_def Let_def comp_def split_def distinct_map inj_on_def metricKey_def hourRow_def prod_eq_iff)

lemma hourRow_simps [simp]:
  "sm_serverId (hourRow i h ms) = i" "sm_bucket (hourRow i h ms) = h" "sm_resolution (hourRow i h ms) = ''hour''"
  by (simp_all add: hourRow_def)

lemma hourRows_mem: "m \<in> set (hourRows cutoff rows) \<longleftrightarrow>
    (\<exists>i h. m = hourRow i h (filter (\<lambda>m. oldMinute cutoff m \<and> groupKey m = (i, h)) rows) \<and>
      (\<exists>x \<in> set rows. oldMinute cutoff x \<and> groupKey x = (i, h)))"
  by (force simp: hourRows_def Let_def)

definition hourOf_row :: "ident \<Rightarrow> time \<Rightarrow> ServerMetric list \<Rightarrow> ServerMetric option" where
  "hourOf_row i h rows = List.find (\<lambda>m. metricKey m = (i, h, ''hour'')) rows"

definition oldIn :: "time \<Rightarrow> ident \<Rightarrow> time \<Rightarrow> ServerMetric list \<Rightarrow> ServerMetric list" where
  "oldIn cutoff i h rows = filter (\<lambda>m. oldMinute cutoff m \<and> groupKey m = (i, h)) rows"

lemma compactMetrics_run: "snd (compactMetrics now later s) = s\<lparr>metrics := deleteWhere (expiredHour (later - HOUR_RETENTION_DAYS * 86400000))
    (deleteWhere (oldMinute (now - MINUTE_RETENTION_HOURS * 3600000)) (compactInto (now - MINUTE_RETENTION_HOURS * 3600000) (metrics s)))\<rparr>"
  by (simp add: compactMetrics_def Let_def andThen_def writeState_def readState_def ret_def)

lemma find_deleteWhere: "(\<And>x. P x \<Longrightarrow> \<not> Q x) \<Longrightarrow> List.find P (deleteWhere Q rows) = List.find P rows"
  by (induction rows) auto

lemma insertHour_minutes:
  "\<forall>m \<in> set new. sm_resolution m = ''hour'' \<Longrightarrow>
    filter (\<lambda>m. sm_resolution m = ''minute'') (fold insertHour new rows) = filter (\<lambda>m. sm_resolution m = ''minute'') rows"
proof (induction new arbitrary: rows)
  case (Cons x new)
  then show ?case using Cons.IH [of "insertHour x rows"] by (auto simp: insertHour_def)
qed simp

lemma compactInto_minutes:
  "filter (\<lambda>m. sm_resolution m = ''minute'') (compactInto cutoff rows) = filter (\<lambda>m. sm_resolution m = ''minute'') rows"
  unfolding compactInto_def by (rule insertHour_minutes) (auto simp: hourRows_mem)

lemma compactInto_unique: "uniqueOn metricKey rows \<Longrightarrow> uniqueOn metricKey (compactInto cutoff rows)"
  unfolding compactInto_def by (rule insertHour_unique)

lemma hourOf_row_in: "uniqueOn metricKey rows \<Longrightarrow> r \<in> set rows \<Longrightarrow> metricKey r = (i, h, ''hour'') \<Longrightarrow> hourOf_row i h rows = Some r"
  using find_uniqueOn [of metricKey rows r] by (simp add: hourOf_row_def)

text \<open>The row of an hour after the new rows were inserted.\<close>

lemma compactInto_hour:
  assumes "uniqueOn metricKey rows"
  shows "hourOf_row i h (compactInto cutoff rows) = (case hourOf_row i h rows of
      Some r \<Rightarrow> Some r
    | None \<Rightarrow> (let gone = oldIn cutoff i h rows in if gone = [] then None else Some (hourRow i h gone)))"
proof (cases "hourOf_row i h rows")
  case (Some r)
  then have "r \<in> set rows" "metricKey r = (i, h, ''hour'')" by (auto simp: hourOf_row_def dest: find_key_in)
  then show ?thesis
    using hourOf_row_in [OF compactInto_unique [OF assms]] insertHour_keeps [of rows "hourRows cutoff rows"] Some
    by (auto simp: compactInto_def)
next
  case None
  then have none: "\<not> (\<exists>x \<in> set rows. metricKey x = (i, h, ''hour''))" by (auto simp: hourOf_row_def find_None_iff)
  show ?thesis
  proof (cases "oldIn cutoff i h rows = []")
    case True
    have "metricKey m \<noteq> (i, h, ''hour'')" if "m \<in> set (compactInto cutoff rows)" for m
      using insertHour_mem [OF that [unfolded compactInto_def]] none True
      by (auto simp: hourRows_mem oldIn_def filter_empty_conv metricKey_def)
    then have "hourOf_row i h (compactInto cutoff rows) = None" by (auto simp: hourOf_row_def find_None_iff)
    then show ?thesis using None True by simp
  next
    case False
    let ?r = "hourRow i h (oldIn cutoff i h rows)"
    have k: "metricKey ?r = (i, h, ''hour'')" by (simp add: metricKey_def)
    have "?r \<in> set (hourRows cutoff rows)"
      using False unfolding hourRows_mem oldIn_def by (auto simp: filter_empty_conv)
    then have "?r \<in> set (compactInto cutoff rows)" unfolding compactInto_def using none k by (intro insertHour_find hourRows_keys) auto
    from hourOf_row_in [OF compactInto_unique [OF assms] this k] show ?thesis using None False by simp
  qed
qed

text \<open>C33. What a compaction does to each hour of each server. Minutes older than two days are gone and
  hours older than ninety days are gone; younger minutes stay as they are; and an hour within
  retention has its row: the one it had, or else one with the averages and the number of the minutes that
  went, if there were any. Rows stay unique by server, bucket and resolution.\<close>

theorem compaction_exact:
  assumes "keyed s" and "snd (compactMetrics now later s) = t" and "later - HOUR_RETENTION_DAYS * 86400000 \<le> h"
  shows "keyed t \<and>
    filter (\<lambda>m. sm_resolution m = ''minute'') (metrics t) =
      filter (\<lambda>m. sm_resolution m = ''minute'' \<and> now - MINUTE_RETENTION_HOURS * 3600000 \<le> sm_bucket m) (metrics s) \<and>
    (\<forall>m \<in> set (metrics t). sm_resolution m = ''hour'' \<longrightarrow> later - HOUR_RETENTION_DAYS * 86400000 \<le> sm_bucket m) \<and>
    hourOf_row i h (metrics t) =
      (case hourOf_row i h (metrics s) of
         Some r \<Rightarrow> Some r
       | None \<Rightarrow> (let gone = oldIn (now - MINUTE_RETENTION_HOURS * 3600000) i h (metrics s)
                  in if gone = [] then None else Some (hourRow i h gone)))"
proof -
  define cutoff where "cutoff = now - MINUTE_RETENTION_HOURS * 3600000"
  define lim where "lim = later - HOUR_RETENTION_DAYS * 86400000"
  let ?c = "compactInto cutoff (metrics s)"
  have t: "metrics t = deleteWhere (expiredHour lim) (deleteWhere (oldMinute cutoff) ?c)"
    using compactMetrics_run [of now later s] assms(2) by (simp add: cutoff_def lim_def)
  have u: "uniqueOn metricKey (metrics s)" using assms(1) by (simp add: keyed_def)
  have 1: "uniqueOn metricKey (metrics t)" unfolding t by (intro uniqueOn_deleteWhere compactInto_unique u)
  have "filter (\<lambda>m. sm_resolution m = ''minute'') (metrics t) =
      filter (\<lambda>m. cutoff \<le> sm_bucket m) (filter (\<lambda>m. sm_resolution m = ''minute'') ?c)"
    unfolding t deleteWhere_def filter_filter by (rule filter_cong) (auto simp: expiredHour_def oldMinute_def)
  then have 2: "filter (\<lambda>m. sm_resolution m = ''minute'') (metrics t) =
      filter (\<lambda>m. sm_resolution m = ''minute'' \<and> cutoff \<le> sm_bucket m) (metrics s)"
    by (simp add: compactInto_minutes conj_commute)
  have 3: "\<forall>m \<in> set (metrics t). sm_resolution m = ''hour'' \<longrightarrow> lim \<le> sm_bucket m"
    unfolding t by (auto simp: expiredHour_def)
  have "hourOf_row i h (metrics t) = hourOf_row i h ?c"
    using assms(3) unfolding t hourOf_row_def
    by (subst find_deleteWhere; (subst find_deleteWhere)?) (auto simp: expiredHour_def oldMinute_def metricKey_def lim_def)
  then show ?thesis using 1 2 3 compactInto_hour [OF u] unfolding keyed_def cutoff_def lim_def by simp
qed

text \<open>The cutoff is not aligned to the hour: the minutes of an hour compacted in two parts are lost after the
  first part.\<close>

definition minuteRow :: "time \<Rightarrow> ServerMetric" where
  "minuteRow b = \<lparr>sm_serverId = ''s1'', sm_bucket = b, sm_resolution = ''minute'', sm_cpuPercent = 0, sm_memoryMb = 1,
     sm_diskMb = 1, sm_samples = 1\<rparr>"

lemma compaction_loses_minutes:
  "map (\<lambda>m. (sm_resolution m, sm_samples m)) (metrics (snd (compactMetrics (2 * 86400000 + 3600000) 0
     (snd (compactMetrics (2 * 86400000 + 60000) 0 (emptyDb\<lparr>metrics := [minuteRow 0, minuteRow 60000, minuteRow 120000]\<rparr>)))))) =
   [(''hour'', 1)]"
  by code_simp

end
