(* ===== verification/Crypto.thy ===== *)
theory Crypto
  imports Strings
begin

text \<open>
  \<open>panel/src/lib/crypto.ts\<close>: secrets the panel has to read back, and generated passwords. A string is
  the list of its UTF-8 bytes. The cipher (AES-256-GCM) and the derivation of its key are parameters;
  Base64 and the format of the stored value are modelled.
\<close>

section \<open>Base64\<close>

definition base64Alphabet :: string where
  "base64Alphabet = ''ABCDEFGHIJKLMNOPQRSTUVWXYZabcdefghijklmnopqrstuvwxyz0123456789+/''"

definition digitChar :: "nat \<Rightarrow> char" where
  "digitChar d = base64Alphabet ! d"

fun indexOf :: "char \<Rightarrow> string \<Rightarrow> nat option" where
  "indexOf c [] = None"
| "indexOf c (x # xs) = (if x = c then Some 0 else map_option Suc (indexOf c xs))"

abbreviation byte :: "char \<Rightarrow> nat" where
  "byte \<equiv> of_char"

text \<open>\<open>toString("base64")\<close>\<close>

fun toBase64 :: "string \<Rightarrow> string" where
  "toBase64 [] = []"
| "toBase64 [a] = [digitChar (byte a div 4), digitChar (byte a mod 4 * 16), CHR ''='', CHR ''='']"
| "toBase64 [a, b] = [digitChar (byte a div 4), digitChar (byte a mod 4 * 16 + byte b div 16),
     digitChar (byte b mod 16 * 4), CHR ''='']"
| "toBase64 (a # b # c # rest) = digitChar (byte a div 4) # digitChar (byte a mod 4 * 16 + byte b div 16) #
     digitChar (byte b mod 16 * 4 + byte c div 64) # digitChar (byte c mod 64) # toBase64 rest"

text \<open>\<open>Buffer.from(s, "base64")\<close>: characters outside the alphabet are passed over, and what remains of
  fewer than four digits gives its whole bytes. Digits after padding, of which the documentation
  says nothing, are read on.\<close>

fun fromDigits :: "nat list \<Rightarrow> string" where
  "fromDigits (p # q # r # s # rest) = char_of (p * 4 + q div 16) # char_of (q mod 16 * 16 + r div 4) #
     char_of (r mod 4 * 64 + s) # fromDigits rest"
| "fromDigits [p, q, r] = [char_of (p * 4 + q div 16), char_of (q mod 16 * 16 + r div 4)]"
| "fromDigits [p, q] = [char_of (p * 4 + q div 16)]"
| "fromDigits _ = []"

definition fromBase64 :: "string \<Rightarrow> string" where
  "fromBase64 s = fromDigits (List.map_filter (\<lambda>c. indexOf c base64Alphabet) s)"

section \<open>Secrets\<close>

text \<open>\<open>derive\<close> is \<open>scryptSync\<close> with its salt; \<open>seal k iv p\<close> gives the tag and the ciphertext,
  \<open>unseal k iv tag d\<close> is \<open>None\<close> when \<open>final()\<close> throws.\<close>

datatype cryptError = KeyMissing | Malformed | Unauthentic

definition secretKey :: "(string \<Rightarrow> string) \<Rightarrow> string option \<Rightarrow> cryptError + string" where
  "secretKey derive secret = (case secret of
     None \<Rightarrow> Inl KeyMissing
   | Some x \<Rightarrow> if length x < 32 then Inl KeyMissing else Inr (derive x))"

definition encryptSecret ::
    "(string \<Rightarrow> string) \<Rightarrow> (string \<Rightarrow> string \<Rightarrow> string \<Rightarrow> string \<times> string) \<Rightarrow> string option \<Rightarrow> string \<Rightarrow> string \<Rightarrow> cryptError + string" where
  "encryptSecret derive seal secret iv plain = (case secretKey derive secret of
     Inl e \<Rightarrow> Inl e
   | Inr k \<Rightarrow> (case seal k iv plain of (tag, enc) \<Rightarrow>
       Inr (toBase64 iv @ ''.'' @ toBase64 tag @ ''.'' @ toBase64 enc)))"

text \<open>The first three parts; a missing one and an empty one are both falsy.\<close>

definition decryptSecret ::
    "(string \<Rightarrow> string) \<Rightarrow> (string \<Rightarrow> string \<Rightarrow> string \<Rightarrow> string \<Rightarrow> string option) \<Rightarrow> string option \<Rightarrow> string \<Rightarrow> cryptError + string" where
  "decryptSecret derive unseal secret payload = (case splitOn (CHR ''.'') payload of
     ivB64 # tagB64 # dataB64 # _ \<Rightarrow>
       if ivB64 = [] \<or> tagB64 = [] \<or> dataB64 = [] then Inl Malformed
       else (case secretKey derive secret of
         Inl e \<Rightarrow> Inl e
       | Inr k \<Rightarrow> (case unseal k (fromBase64 ivB64) (fromBase64 tagB64) (fromBase64 dataB64) of
           None \<Rightarrow> Inl Unauthentic
         | Some p \<Rightarrow> Inr p))
   | _ \<Rightarrow> Inl Malformed)"

section \<open>Passwords\<close>

definition passwordAlphabet :: string where
  "passwordAlphabet = ''abcdefghijkmnopqrstuvwxyzABCDEFGHJKLMNPQRSTUVWXYZ23456789''"

text \<open>\<open>generatePassword\<close> on the random bytes drawn.\<close>

definition generatePassword :: "string \<Rightarrow> string" where
  "generatePassword bytes = map (\<lambda>b. passwordAlphabet ! (byte b mod length passwordAlphabet)) bytes"

section \<open>Properties\<close>

lemma indexOf_nth: "distinct xs \<Longrightarrow> i < length xs \<Longrightarrow> indexOf (xs ! i) xs = Some i"
proof (induction xs arbitrary: i)
  case (Cons x xs)
  then show ?case by (cases i) auto
qed simp

lemma indexOf_None: "c \<notin> set xs \<Longrightarrow> indexOf c xs = None"
  by (induction xs) auto

lemma alphabet_distinct: "distinct base64Alphabet"
  by code_simp

lemma alphabet_length: "length base64Alphabet = 64"
  by code_simp

lemma digit_index [simp]: "d < 64 \<Longrightarrow> indexOf (digitChar d) base64Alphabet = Some d"
  unfolding digitChar_def by (rule indexOf_nth [OF alphabet_distinct]) (simp add: alphabet_length)

lemma padding_index [simp]: "indexOf (CHR ''='') base64Alphabet = None"
  by code_simp

lemma byte_bound: "byte c < 256"
proof -
  have "byte c mod 256 < 256" by simp
  then show ?thesis by simp
qed

lemma group_exact:
  assumes "x < 256" and "y < 256" and "z < (256 :: nat)"
  shows "x div 4 < 64" "x mod 4 * 16 + y div 16 < 64" "y mod 16 * 4 + z div 64 < 64" "z mod 64 < 64"
    "x div 4 * 4 + (x mod 4 * 16 + y div 16) div 16 = x"
    "(x mod 4 * 16 + y div 16) mod 16 * 16 + (y mod 16 * 4 + z div 64) div 4 = y"
    "(y mod 16 * 4 + z div 64) mod 4 * 64 + z mod 64 = z"
proof -
  have y: "y div 16 < 16" and z: "z div 64 < 4" using assms by (simp_all add: less_mult_imp_div_less)
  have m: "x mod 4 < 4" "y mod 16 < 16" by simp_all
  show "x div 4 < 64" "z mod 64 < 64" using assms by (simp_all add: less_mult_imp_div_less)
  show "x mod 4 * 16 + y div 16 < 64" "y mod 16 * 4 + z div 64 < 64" using m y z by linarith+
  have "(x mod 4 * 16 + y div 16) div 16 = x mod 4" "(x mod 4 * 16 + y div 16) mod 16 = y div 16" using y by simp_all
  moreover have "(y mod 16 * 4 + z div 64) div 4 = y mod 16" "(y mod 16 * 4 + z div 64) mod 4 = z div 64" using z by simp_all
  ultimately show "x div 4 * 4 + (x mod 4 * 16 + y div 16) div 16 = x"
    "(x mod 4 * 16 + y div 16) mod 16 * 16 + (y mod 16 * 4 + z div 64) div 4 = y"
    "(y mod 16 * 4 + z div 64) mod 4 * 64 + z mod 64 = z" by simp_all
qed

lemma base64_roundtrip: "fromBase64 (toBase64 s) = s"
proof (induction s rule: toBase64.induct)
  case (2 a)
  note g = group_exact [OF byte_bound [of a] byte_bound [of "CHR 0x00"] byte_bound [of "CHR 0x00"]]
  show ?case using g by (simp add: fromBase64_def map_filter_simps)
next
  case (3 a b)
  note g = group_exact [OF byte_bound [of a] byte_bound [of b] byte_bound [of "CHR 0x00"]]
  show ?case using g by (simp add: fromBase64_def map_filter_simps)
next
  case (4 a b c rest)
  note g = group_exact [OF byte_bound [of a] byte_bound [of b] byte_bound [of c]]
  show ?case using g 4 by (simp add: fromBase64_def map_filter_simps)
qed (simp add: fromBase64_def map_filter_simps)

lemma digitChar_in: "d < 64 \<Longrightarrow> digitChar d \<in> set base64Alphabet"
  unfolding digitChar_def by (rule nth_mem) (simp add: alphabet_length)

lemma toBase64_chars: "set (toBase64 s) \<subseteq> insert (CHR ''='') (set base64Alphabet)"
proof (induction s rule: toBase64.induct)
  case (2 a)
  then show ?case using group_exact [OF byte_bound [of a] byte_bound [of "CHR 0x00"] byte_bound [of "CHR 0x00"]] by (simp add: digitChar_in)
next
  case (3 a b)
  then show ?case using group_exact [OF byte_bound [of a] byte_bound [of b] byte_bound [of "CHR 0x00"]] by (simp add: digitChar_in)
next
  case (4 a b c rest)
  then show ?case using group_exact [OF byte_bound [of a] byte_bound [of b] byte_bound [of c]] by (simp add: digitChar_in)
qed simp

lemma toBase64_no_dot: "CHR ''.'' \<notin> set (toBase64 s)"
proof -
  have "CHR ''.'' \<notin> insert (CHR ''='') (set base64Alphabet)" by code_simp
  then show ?thesis using toBase64_chars by blast
qed

lemma toBase64_Nil [simp]: "toBase64 s = [] \<longleftrightarrow> s = []"
  by (cases s rule: toBase64.cases) simp_all

lemma encrypted_parts: "splitOn (CHR ''.'') (toBase64 x @ ''.'' @ toBase64 y @ ''.'' @ toBase64 z) = [toBase64 x, toBase64 y, toBase64 z]"
  using toBase64_no_dot by (simp add: splitOn_append_sep splitOn_plain)

lemma decrypt_encrypted:
  assumes "\<forall>k v p. unseal k v (fst (seal k v p)) (snd (seal k v p)) = Some p"
    and "\<forall>k v p. length (fst (seal k v p)) = 16 \<and> length (snd (seal k v p)) = length p" and "iv \<noteq> []"
    and "encryptSecret derive seal secret iv plain = Inr payload"
  shows "decryptSecret derive unseal secret payload = (if plain = [] then Inl Malformed else Inr plain)"
proof -
  obtain k tag enc where k: "secretKey derive secret = Inr k" and s: "seal k iv plain = (tag, enc)"
    and p: "payload = toBase64 iv @ ''.'' @ toBase64 tag @ ''.'' @ toBase64 enc"
    using assms(4) by (auto simp: encryptSecret_def split: sum.splits prod.splits)
  have "length tag = 16" "length enc = length plain" using assms(2) s by (metis fst_conv snd_conv)+
  then have "tag \<noteq> []" "enc = [] \<longleftrightarrow> plain = []" by auto
  moreover have "unseal k iv tag enc = Some plain" using assms(1) s by (metis fst_conv snd_conv)
  ultimately show ?thesis
    using assms(3) k by (simp add: decryptSecret_def p encrypted_parts [simplified] base64_roundtrip)
qed

text \<open>A stored secret reads back: under the same key what was encrypted decrypts to itself, whatever the
  bytes and the initialisation vector drawn, for every cipher that undoes itself and keeps lengths. The empty
  string is the one exception: its ciphertext is empty, which reads as malformed.\<close>

theorem secret_roundtrip:
  assumes "\<forall>k v p. unseal k v (fst (seal k v p)) (snd (seal k v p)) = Some p"
    and "\<forall>k v p. length (fst (seal k v p)) = 16 \<and> length (snd (seal k v p)) = length p" and "iv \<noteq> []"
    and "encryptSecret derive seal secret iv plain = Inr payload"
  shows "decryptSecret derive unseal secret payload = (if plain = [] then Inl Malformed else Inr plain)"
  by (rule decrypt_encrypted [OF assms])

text \<open>Only what was sealed with the key comes back: under an authentic cipher a payload that decrypts to
  a text holds a sealing of that very text, and without a key of 32 characters nothing decrypts.\<close>

theorem secret_authentic:
  assumes "\<forall>k v tag d p. unseal k v tag d = Some p \<longrightarrow> seal k v p = (tag, d)"
    and "decryptSecret derive unseal secret payload = Inr plain"
  shows "\<exists>x iv tag enc rest. secret = Some x \<and> 32 \<le> length x \<and> splitOn (CHR ''.'') payload = iv # tag # enc # rest \<and>
    seal (derive x) (fromBase64 iv) plain = (fromBase64 tag, fromBase64 enc)"
  using assms by (auto simp: decryptSecret_def secretKey_def split: list.splits option.splits sum.splits if_splits)

text \<open>A generated password has the length asked for and consists of letters and digits only, so it can stand
  between the quotes of an SQL literal, a connection string or a shell word as it is.\<close>

theorem password_plain:
  "length (generatePassword bytes) = length bytes \<and> set (generatePassword bytes) \<subseteq> set passwordAlphabet \<and>
   list_all (\<lambda>c. (CHR ''a'' \<le> c \<and> c \<le> CHR ''z'') \<or> (CHR ''A'' \<le> c \<and> c \<le> CHR ''Z'') \<or> (CHR ''0'' \<le> c \<and> c \<le> CHR ''9''))
     (generatePassword bytes)"
proof -
  have "0 < length passwordAlphabet" by code_simp
  then have s: "set (generatePassword bytes) \<subseteq> set passwordAlphabet" by (auto simp: generatePassword_def)
  moreover have "list_all (\<lambda>c. (CHR ''a'' \<le> c \<and> c \<le> CHR ''z'') \<or> (CHR ''A'' \<le> c \<and> c \<le> CHR ''Z'') \<or> (CHR ''0'' \<le> c \<and> c \<le> CHR ''9''))
      passwordAlphabet" by code_simp
  ultimately show ?thesis unfolding list_all_iff generatePassword_def by auto
qed

end
