(* ===== verification/Routes.thy ===== *)
theory Routes
  imports Admin Gateway Updater Alerts Metrics Crypto
begin

text \<open>
  What stands in front of the panel's routes (\<open>middleware.ts\<close>) and the routes that
  join components: the update channel of the agents, databases, alerts, metrics, invoices and
  logout. Two environments have a field \<open>ae_now\<close>; neither is read here by that name.
\<close>

section \<open>The middleware\<close>

definition PUBLIC_PATHS :: "string list" where
  "PUBLIC_PATHS = [''/login'', ''/register'', ''/api/auth'', ''/api/billing/webhook'']"

text \<open>What happens to a request: it passes, without or with the security headers, it is answered 401, or
  it is redirected to the login page with the path to return to.\<close>

datatype gate = Pass | Pass_with_headers | Unauthorized | To_login string

text \<open>The cookie counts when it is present, whatever it holds.\<close>

definition middleware :: "string \<Rightarrow> string option \<Rightarrow> gate" where
  "middleware pathname cookie =
     (if list_ex (\<lambda>p. startsWith pathname p) PUBLIC_PATHS then Pass
      else if cookie = None then
        if startsWith pathname ''/api/'' then Unauthorized else To_login pathname
      else Pass_with_headers)"

text \<open>The status and the body of a request for a path, when the route behind it would give \<open>answer\<close>.\<close>

definition throughMiddleware :: "string \<Rightarrow> string option \<Rightarrow> nat \<times> string \<Rightarrow> nat \<times> string" where
  "throughMiddleware pathname cookie answer = (case middleware pathname cookie of
     Unauthorized \<Rightarrow> (401, ''{\"error\":\"Sign in to continue.\"}'')
   | To_login next \<Rightarrow> (307, [])
   | _ \<Rightarrow> answer)"

section \<open>The update channel\<close>

record VersionEnv =
  ve_version :: "string option"
  ve_url :: "string option"
  ve_sha256 :: "string option"
  ve_minimum :: "string option"

definition agentVersionGet :: "VersionEnv \<Rightarrow> Release \<times> string" where
  "agentVersionGet env =
     (\<lparr>rl_version = orDefault ''1.0.0'' (ve_version env), rl_url = ve_url env, rl_sha256 = ve_sha256 env\<rparr>,
      orDefault ''1.0.0'' (ve_minimum env))"

section \<open>Databases\<close>

record DatabaseView =
  dv_id :: ident
  dv_dbName :: string
  dv_username :: string
  dv_password :: string
  dv_host :: string
  dv_port :: int

text \<open>\<open>decrypt\<close> is \<open>decryptSecret\<close>; the first row it throws on ends the whole list.\<close>

fun viewDatabases :: "(string \<Rightarrow> cryptError + string) \<Rightarrow> ServerDatabase list \<Rightarrow> DatabaseView list act" where
  "viewDatabases decrypt [] = ret []"
| "viewDatabases decrypt (d # ds) =
     andThen (orThrow (NotFoundError ''DatabaseHost'') (findHost (d_hostId d))) (\<lambda>host.
     case decrypt (d_passwordEnc d) of
       Inl e \<Rightarrow> throw (Error ''crypto'')
     | Inr password \<Rightarrow>
         andThen (viewDatabases decrypt ds) (\<lambda>views.
         ret (\<lparr>dv_id = d_id d, dv_dbName = d_dbName d, dv_username = d_username d, dv_password = password,
           dv_host = h_host host, dv_port = h_port host\<rparr> # views)))"

definition listDatabases :: "(string \<Rightarrow> cryptError + string) \<Rightarrow> ident \<Rightarrow> DatabaseView list act" where
  "listDatabases decrypt serverId =
     andThen (readState (\<lambda>s. filter (\<lambda>d. d_serverId d = serverId) (serverDatabases s))) (viewDatabases decrypt)"

text \<open>What is answered: the list, or the response of the error funnel.\<close>

definition databasesGet ::
    "(string \<Rightarrow> cryptError + string) \<Rightarrow> AuthEnv \<Rightarrow> ident \<Rightarrow> (DatabaseView list + response) act" where
  "databasesGet decrypt env serverId =
     tryCatch
       (andThen (requireServerAccess env serverId Settings_write) (\<lambda>_.
        andThen (listDatabases decrypt serverId) (\<lambda>views. ret (Inl views))))
       (\<lambda>e. ret (Inr (failResponse e)))"

datatype DatabaseRequest = Create_database string | Rotate_database ident

definition databaseSchema :: "DatabaseRequest \<Rightarrow> bool" where
  "databaseSchema b = (case b of
     Create_database name \<Rightarrow> 1 \<le> length name \<and> length name \<le> 32
   | Rotate_database i \<Rightarrow> True)"

text \<open>The \<open>catch\<close> block of this route.\<close>

definition databaseFailure :: "exn \<Rightarrow> response" where
  "databaseFailure e = (case e of
     DatabaseLimitError l \<Rightarrow> Response 409 (''This plan allows '' @ showInt l @ '' database'' @
       (if l = 1 then [] else ''s'') @ ''.'')
   | _ \<Rightarrow> failResponse e)"

definition databasesPost ::
    "mysql \<Rightarrow> (string \<Rightarrow> string) \<Rightarrow> AuthEnv \<Rightarrow> ident \<Rightarrow> string \<Rightarrow> ident \<Rightarrow> DatabaseRequest option \<Rightarrow> response act" where
  "databasesPost mysql enc env freshId random serverId body =
     tryCatch
       (andThen (requireServerAccess env serverId Settings_write) (\<lambda>(user, _).
        andThen (parseWith databaseSchema body) (\<lambda>b.
        case b of
          Create_database name \<Rightarrow>
            andThen (createDatabase mysql enc freshId (generatePassword random) serverId name (Some (u_id user))) (\<lambda>row.
            ret (Response 201 (d_id row)))
        | Rotate_database i \<Rightarrow>
            andThen (rotateDatabasePassword mysql enc (generatePassword random) serverId i) (\<lambda>password.
            ret (Response 200 password)))))
       (\<lambda>e. ret (databaseFailure e))"

definition databasesDelete :: "mysql \<Rightarrow> AuthEnv \<Rightarrow> ident \<Rightarrow> ident option \<Rightarrow> response act" where
  "databasesDelete mysql env serverId body = handler (
     andThen (parseBody body) (\<lambda>databaseId.
     andThen (requireServerAccess env serverId Settings_write) (\<lambda>(user, _).
     andThen (deleteDatabase mysql serverId databaseId (Some (u_id user))) (\<lambda>_.
     ret (Response 200 ''ok'')))))"

section \<open>Alerts, metrics, invoices and logout\<close>

primrec severityRank :: "AlertSeverity \<Rightarrow> int" where
  "severityRank INFO = 0"
| "severityRank WARNING = 1"
| "severityRank CRITICAL = 2"

text \<open>Two descending keys, the first one leading: a stable sort by each, the leading one last.\<close>

definition alertsQuery :: "bool \<Rightarrow> db \<Rightarrow> Alert list" where
  "alertsQuery includeResolved s = take 200
     (sort_key (\<lambda>a. - severityRank (al_severity a)) (sort_key (\<lambda>a. - al_createdAt a)
       (filter (\<lambda>a. includeResolved \<or> al_resolvedAt a = None) (alerts s))))"

definition alertsGet :: "AuthEnv \<Rightarrow> bool \<Rightarrow> (Alert list + response) act" where
  "alertsGet env includeResolved =
     tryCatch
       (andThen (requireAdmin env) (\<lambda>_. andThen (readState (alertsQuery includeResolved)) (\<lambda>as. ret (Inl as))))
       (\<lambda>e. ret (Inr (failResponse e)))"

definition alertsPost :: "AlertEnv \<Rightarrow> AuthEnv \<Rightarrow> string option \<Rightarrow> response act" where
  "alertsPost aenv env body = handler (
     andThen (requireAdmin env) (\<lambda>_.
     andThen (parseWith (\<lambda>k. k \<noteq> []) body) (\<lambda>k.
     andThen (resolveAlert aenv k) (\<lambda>_. ret (Response 200 ''ok'')))))"

text \<open>\<open>hours\<close> is \<open>Number(...)\<close> of the parameter, when it is a whole number.\<close>

definition metricsGet :: "AuthEnv \<Rightarrow> time \<Rightarrow> ident \<Rightarrow> int option \<Rightarrow> (ServerMetric list + response) act" where
  "metricsGet env now serverId hours =
     tryCatch
       (andThen (requireServerAccess env serverId Console_view) (\<lambda>_.
        andThen (readState (serverHistory now serverId (min 720 (orDefault 24 hours)))) (\<lambda>points. ret (Inl points))))
       (\<lambda>e. ret (Inr (failResponse e)))"

text \<open>Rows are kept oldest first, so the newest are at the end.\<close>

definition invoicesGet :: "AuthEnv \<Rightarrow> (Invoice list + response) act" where
  "invoicesGet env =
     tryCatch
       (andThen (requireUser env) (\<lambda>user.
        andThen (readState (\<lambda>s. take 50 (rev (filter (\<lambda>v. i_userId v = u_id user) (invoices s))))) (\<lambda>vs. ret (Inl vs))))
       (\<lambda>e. ret (Inr (failResponse e)))"

definition logoutPost :: "AuthEnv \<Rightarrow> response act" where
  "logoutPost env = andThen (destroySession env) (\<lambda>_. ret (Response 200 ''ok''))"

section \<open>The update channel is closed\<close>

text \<open>An agent never updates itself over the panel. It asks for the release without a cookie, the path is not among
  the public ones, so whatever the route would answer the middleware answers 401; the check then installs nothing and
  leaves its disk as it was.\<close>

theorem update_channel_closed:
  assumes "fetch (releaseUrl panelUrl) = Inr (throughMiddleware ''/api/agent/version'' None answer)"
  shows "middleware ''/api/agent/version'' None = Unauthorized \<and>
    checkForUpdate fetch sha parse autoUpdate panelUrl agentVersion target fs = (Inr False, fs)"
proof -
  have m: "middleware ''/api/agent/version'' None = Unauthorized" by code_simp
  then have "fetch (releaseUrl panelUrl) = Inr (401, ''{\"error\":\"Sign in to continue.\"}'')"
    using assms by (simp add: throughMiddleware_def)
  then have "checkForUpdate fetch sha parse autoUpdate panelUrl agentVersion target fs = (Inr False, fs)"
    by (simp add: checkForUpdate_def tryCatch_def andThen_def fetchBody_def httpOk_def ret_def)
  then show ?thesis using m by blast
qed

section \<open>Tokens\<close>

text \<open>C32. A rotated token replaces the old one at the next hello: with the new token the agent is accepted, with any
  other its socket is closed, and the new token is what the administrator was shown.\<close>

theorem rotated_token:
  assumes "\<forall>x y. verify x (hashToken y) \<longleftrightarrow> x = y"
    and "rotateToken hashToken random env i s = (Inr (Response 200 token), t)"
    and "g_db g = t" and "hl_protocol h = PROTOCOL_VERSION" and "hl_nodeId h = i"
  shows "onHello verify now ws (Hello h) g =
    (if hl_token h = token then acceptAgent now ws h i g else closeSock ws 4403 g)"
proof -
  obtain u where "adminCheck env s = Inr u"
    using assms(2) by (cases "adminCheck env s") (auto simp: rotateToken_def handler_guarded dest!: adminCheck_refused)
  then obtain n where n: "findNode i s = Some n" and tok: "token = agentToken random"
    and t: "nodes t = updateWhere (\<lambda>n. n_id n = i) (\<lambda>n. n\<lparr>n_agentTokenHash := hashToken token\<rparr>) (nodes s)"
    using assms(2) by (cases "findNode i s")
      (auto simp: rotateToken_def requireAdmin_run handler_def tryCatch_def andThen_def updateNodeRow_def orThrow_def writeState_def ret_def)
  have i: "n_id n = i" using findNode_in [OF n] by simp
  have "findNode i t = Some (n\<lparr>n_agentTokenHash := hashToken token\<rparr>)"
    using n i updateWhere_find [where k = n_id and f = "\<lambda>n. n\<lparr>n_agentTokenHash := hashToken token\<rparr>" and rows = "nodes s" and i = i and j = i]
    by (simp add: findNode_def t)
  then show ?thesis using assms(1,3,4,5) i by (simp add: onHello_def)
qed

text \<open>A socket that was accepted before is not asked again: its next heartbeat marks the node online.\<close>

lemma rotation_keeps_connection:
  assumes "g_conns g ws = Some c" and "findNode (ac_nodeId c) (g_db g) = Some n"
  shows "\<exists>m. findNode (ac_nodeId c) (g_db (onAgentMessage verify now ws (Some (Heartbeat sentAt)) g)) = Some m \<and> n_status m = N_ONLINE"
  using assms updateWhere_find [where k = n_id and i = "ac_nodeId c" and j = "ac_nodeId c" and rows = "nodes (g_db g)"
      and f = "\<lambda>n. n\<lparr>n_lastHeartbeat := Some sentAt, n_status := N_ONLINE\<rparr>"]
      findNode_in [OF assms(2)]
  by (auto simp: onAgentMessage_def onHeartbeat_def setAlive_def updateNode_def findNode_def Let_def)

section \<open>Credentials\<close>

definition apartFromDatabases :: "db \<Rightarrow> db" where
  "apartFromDatabases s = s\<lparr>sqlLog := [], serverDatabases := [], auditLog := []\<rparr>"

lemma query_ok: "query my h q s = (Inr u, t) \<longleftrightarrow> my (sqlLog s) h q \<and> u = () \<and> t = s\<lparr>sqlLog := sqlLog s @ [(h, q)]\<rparr>"
  by (auto simp: query_def)

lemma createOnHost_ok:
  assumes "createOnHost my h name user password s = (Inr u, t)"
  shows "\<exists>l. t = s\<lparr>sqlLog := sqlLog s @ l\<rparr> \<and> (h, CREATE_USER user password) \<in> set l"
proof -
  have "t = s\<lparr>sqlLog := sqlLog s @ [(h, CREATE_DATABASE name), (h, CREATE_USER user password), (h, GRANT_ALL name user), (h, FLUSH_PRIVILEGES)]\<rparr>"
    using assms by (auto simp: createOnHost_def andThen_ok query_ok)
  then show ?thesis by (intro exI conjI) (assumption, simp)
qed

lemma createDatabase_ok:
  assumes "createDatabase my enc k password i name actor s = (Inr row, t)"
  shows "d_id row = k \<and> d_serverId row = i \<and> d_passwordEnc row = enc password \<and>
    (\<exists>host. findHost (d_hostId row) s = Some host) \<and> serverDatabases t = serverDatabases s @ [row] \<and>
    (d_hostId row, CREATE_USER (d_username row) password) \<in> set (sqlLog t) \<and> apartFromDatabases t = apartFromDatabases s"
proof -
  obtain server host hosts u1 u2 where h: "hostCandidates (s_nodeId server) s = host # hosts"
    and c: "adminConnection my (h_id host) s = (Inr (), u1)"
    and d: "tryCatch (createOnHost my (h_id host) (dbNameFor server name) (usernameFor server name) password)
              (\<lambda>e. andThen (queryQuietly my (h_id host) (DROP_DATABASE (dbNameFor server name))) (\<lambda>_.
                   andThen (queryQuietly my (h_id host) (DROP_USER (usernameFor server name))) (\<lambda>_. throw e))) u1 = (Inr (), u2)"
    and row: "row = \<lparr>d_id = k, d_serverId = i, d_hostId = h_id host, d_dbName = dbNameFor server name,
         d_username = usernameFor server name, d_passwordEnc = enc password\<rparr>"
    and ins: "andThen (insertDatabase row) (\<lambda>_. andThen (audit actor ''database.create'' ''server'' i) (\<lambda>_. ret row)) u2 = (Inr row, t)"
    using assms by (auto simp: createDatabase_def andThen_ok readState_def require_def orThrow_def throw_def ret_def Let_def
        split: if_splits option.splits list.splits)
  have host: "\<exists>host. findHost (d_hostId row) s = Some host"
    using c by (auto simp: row adminConnection_def andThen_ok orThrow_def split: option.splits)
  have u1: "u1 = s\<lparr>sqlLog := sqlLog s @ [(h_id host, CONNECT)]\<rparr>"
    using c by (auto simp: adminConnection_def andThen_ok orThrow_def require_def query_ok split: option.splits if_splits)
  have "createOnHost my (h_id host) (dbNameFor server name) (usernameFor server name) password u1 = (Inr (), u2)"
    using d by (auto simp: tryCatch_def andThen_def throw_def split: prod.splits sum.splits)
  from createOnHost_ok [OF this] obtain l where
    u2: "u2 = u1\<lparr>sqlLog := sqlLog u1 @ l\<rparr>" "(h_id host, CREATE_USER (usernameFor server name) password) \<in> set l"
    by blast
  have t: "t = u2\<lparr>serverDatabases := serverDatabases u2 @ [row],
      auditLog := auditLog u2 @ [\<lparr>au_actorId = actor, au_action = ''database.create'', au_targetType = ''server'', au_targetId = i\<rparr>]\<rparr>"
    using ins by (auto simp: insertDatabase_def andThen_def readState_def require_def writeState_def ret_def audit_def split: if_splits)
  show ?thesis using host u2(2) by (simp add: t u2(1) u1 row apartFromDatabases_def)
qed

definition shownBy :: "(string \<Rightarrow> cryptError + string) \<Rightarrow> ServerDatabase \<Rightarrow> DatabaseView \<Rightarrow> bool" where
  "shownBy decrypt d v \<longleftrightarrow> dv_id v = d_id d \<and> dv_username v = d_username d \<and> decrypt (d_passwordEnc d) = Inr (dv_password v)"

lemma viewDatabases_run:
  assumes "\<forall>d \<in> set ds. (\<exists>host. findHost (d_hostId d) s = Some host) \<and> (\<exists>p. decrypt (d_passwordEnc d) = Inr p)"
  shows "\<exists>views. viewDatabases decrypt ds s = (Inr views, s) \<and> (\<forall>d \<in> set ds. \<exists>v \<in> set views. shownBy decrypt d v)"
  using assms
proof (induction ds)
  case (Cons d ds)
  then obtain views where "viewDatabases decrypt ds s = (Inr views, s)" "\<forall>d \<in> set ds. \<exists>v \<in> set views. shownBy decrypt d v" by auto
  moreover obtain host p where "findHost (d_hostId d) s = Some host" "decrypt (d_passwordEnc d) = Inr p" using Cons.prems by auto
  ultimately show ?case by (simp add: andThen_def orThrow_def ret_def) (simp add: shownBy_def)
qed (simp add: ret_def)

text \<open>Nothing thrown behind this route is answered 201.\<close>

definition throws :: "('e \<Rightarrow> bool) \<Rightarrow> ('s, 'e, 'a) action \<Rightarrow> bool" where
  "throws P m \<longleftrightarrow> (\<forall>s e t. m s = (Inl e, t) \<longrightarrow> P e)"

named_theorems thrown \<open>rules for what an action may throw\<close>

lemma throws_basic [thrown]:
  "throws P (ret x)" "P e \<Longrightarrow> throws P (throw e)" "throws P (readState f)" "throws P (writeState g)"
  "P e \<Longrightarrow> throws P (require b e)" "P e \<Longrightarrow> throws P (orThrow e h)"
  by (auto simp: throws_def ret_def throw_def readState_def writeState_def require_def orThrow_def split: option.splits)

lemma throws_andThen [thrown]: "throws P m \<Longrightarrow> (\<And>x. throws P (f x)) \<Longrightarrow> throws P (andThen m f)"
  unfolding throws_def andThen_def by (fastforce split: prod.splits sum.splits)

lemma throws_tryCatch: "throws Q m \<Longrightarrow> (\<And>e. Q e \<Longrightarrow> throws P (h e)) \<Longrightarrow> throws P (tryCatch m h)"
  unfolding throws_def tryCatch_def by (fastforce split: prod.splits sum.splits)

lemma throws_case [thrown]:
  "throws P m \<Longrightarrow> (\<And>x xs. throws P (f x xs)) \<Longrightarrow> throws P (case ys of [] \<Rightarrow> m | x # xs \<Rightarrow> f x xs)"
  "throws P m \<Longrightarrow> throws P n \<Longrightarrow> throws P (if b then m else n)" "(\<And>x. throws P (g x)) \<Longrightarrow> throws P (let x = v in g x)"
  by (auto split: list.split)

definition notCreated :: "exn \<Rightarrow> bool" where
  "notCreated e \<longleftrightarrow> (\<forall>m. databaseFailure e \<noteq> Response 201 m)"

lemma throws_access: "throws notCreated (requireServerAccess env i p)"
  unfolding requireServerAccess_def requireUser_def
  by (intro thrown) (simp_all add: notCreated_def databaseFailure_def)

lemma throws_query [thrown]: "throws notCreated (query my h q)"
  by (auto simp: throws_def query_def notCreated_def databaseFailure_def split: if_splits)

lemma throws_createDatabase: "throws notCreated (createDatabase my enc k password i name actor)"
proof -
  have quiet: "throws notCreated (queryQuietly my h q)" for h q
    unfolding queryQuietly_def by (rule throws_tryCatch [OF throws_query]) (rule thrown)
  have host: "throws notCreated (createOnHost my h n u p)" for h n u p
    unfolding createOnHost_def by (intro thrown)
  have "throws notCreated (tryCatch (createOnHost my h n u p)
      (\<lambda>e. andThen (queryQuietly my h q) (\<lambda>_. andThen (queryQuietly my h q') (\<lambda>_. throw e))))" for h n u p q q'
    by (rule throws_tryCatch [OF host]) (intro thrown quiet)
  then show ?thesis
    unfolding createDatabase_def insertDatabase_def adminConnection_def audit_def
    by (intro thrown) (simp_all add: notCreated_def databaseFailure_def)
qed

lemma databasesPost_created:
  assumes "databasesPost my enc env k random i (Some (Create_database name)) s = (Inr (Response 201 r), t)"
  shows "\<exists>u v row. requireServerAccess env i Settings_write s = (Inr (u, v), s) \<and>
    createDatabase my enc k (generatePassword random) i name (Some (u_id u)) s = (Inr row, t)"
proof -
  obtain a w where a: "requireServerAccess env i Settings_write s = (a, w)" by fastforce
  have w: "w = s" using requireServerAccess_state [of env i Settings_write s] a by simp
  have z: "notCreated ZodError" by (simp add: notCreated_def databaseFailure_def)
  show ?thesis
  proof (cases a)
    case (Inl x)
    then have "notCreated x" using throws_access a unfolding throws_def by blast
    then show ?thesis using assms a Inl by (simp add: databasesPost_def tryCatch_def andThen_def ret_def notCreated_def)
  next
    case (Inr y)
    obtain u v where y: "y = (u, v)" by (cases y)
    have p: "databaseSchema (Create_database name)"
      using assms a Inr y z
      by (auto simp: databasesPost_def tryCatch_def andThen_def ret_def parseWith_def parseBody_def orThrow_def notCreated_def split: if_splits)
    obtain c m where c: "createDatabase my enc k (generatePassword random) i name (Some (u_id u)) s = (c, m)" by fastforce
    show ?thesis
    proof (cases c)
      case (Inl x)
      then have "notCreated x" using throws_createDatabase c unfolding throws_def by blast
      then show ?thesis using assms a w Inr y c Inl p
        by (simp add: databasesPost_def tryCatch_def andThen_def ret_def parseWith_def parseBody_def orThrow_def notCreated_def)
    next
      case (Inr row)
      then have "m = t" using assms a w \<open>a = Inr y\<close> y c p
        by (simp add: databasesPost_def tryCatch_def andThen_def ret_def parseWith_def parseBody_def orThrow_def)
      then show ?thesis using a w \<open>a = Inr y\<close> y c Inr by blast
    qed
  qed
qed

lemma access_apart: "apartFromDatabases t = apartFromDatabases s \<Longrightarrow>
    requireServerAccess env i p s = (Inr x, s) \<Longrightarrow> requireServerAccess env i p t = (Inr x, t)"
proof -
  assume same: "apartFromDatabases t = apartFromDatabases s" and run: "requireServerAccess env i p s = (Inr x, s)"
  have eqs: "sessions t = sessions s" "users t = users s" "servers t = servers s" "subusers t = subusers s"
    using same by (cases t, cases s, simp add: apartFromDatabases_def)+
  have "findUser k t = findUser k s" for k by (simp only: findUser_def eqs)
  then have "getSessionUser env t = getSessionUser env s" by (simp only: getSessionUser_def eqs)
  moreover have "findServer i t = findServer i s" "subuserOf i k t = subuserOf i k s" for k
    by (simp_all only: findServer_def subuserOf_def eqs)
  ultimately have "getSessionUser env t = getSessionUser env s" "findServer i t = findServer i s" "subuserOf i k t = subuserOf i k s" for k
    by blast+
  then show ?thesis using run by (cases x) (simp add: requireServerAccess_ok)
qed

text \<open>The credentials a customer is shown are those of the host: after a database was created over the route, the
  list shows it to the same customer with the name and the very password its user was created with on the host, which at
  rest is only stored encrypted.\<close>

theorem credentials_shown:
  assumes "databasesPost my enc env k random i (Some (Create_database name)) s = (Inr (Response 201 r), t)"
    and "\<forall>k v p. unseal k v (fst (seal k v p)) (snd (seal k v p)) = Some p"
    and "\<forall>k v p. length (fst (seal k v p)) = 16 \<and> length (snd (seal k v p)) = length p"
    and "encryptSecret derive seal secret iv (generatePassword random) = Inr (enc (generatePassword random))"
    and "iv \<noteq> []" and "random \<noteq> []" and "decrypt = decryptSecret derive unseal secret"
    and "\<forall>d \<in> set (serverDatabases s). (\<exists>host. findHost (d_hostId d) s = Some host) \<and> (\<exists>p. decrypt (d_passwordEnc d) = Inr p)"
  shows "\<exists>views v h. databasesGet decrypt env i t = (Inr (Inl views), t) \<and> v \<in> set views \<and> dv_id v = k \<and>
    dv_password v = generatePassword random \<and> (h, CREATE_USER (dv_username v) (dv_password v)) \<in> set (sqlLog t)"
proof -
  obtain u v row where acc: "requireServerAccess env i Settings_write s = (Inr (u, v), s)"
    and c: "createDatabase my enc k (generatePassword random) i name (Some (u_id u)) s = (Inr row, t)"
    using databasesPost_created [OF assms(1)] by blast
  note ok = createDatabase_ok [OF c]
  have "generatePassword random \<noteq> []" using assms(6) by (simp add: generatePassword_def)
  then have dec: "decrypt (enc (generatePassword random)) = Inr (generatePassword random)"
    using decrypt_encrypted [OF assms(2,3,5,4)] assms(7) by simp
  have hosts: "findHost j t = findHost j s" for j
  proof -
    have "databaseHosts t = databaseHosts s" using ok by (cases t, cases s, simp add: apartFromDatabases_def)
    then show ?thesis by (simp add: findHost_def)
  qed
  let ?ds = "filter (\<lambda>d. d_serverId d = i) (serverDatabases t)"
  have mem: "row \<in> set ?ds" using ok by simp
  have "\<forall>d \<in> set ?ds. (\<exists>host. findHost (d_hostId d) t = Some host) \<and> (\<exists>p. decrypt (d_passwordEnc d) = Inr p)"
    using ok dec assms(8) by (auto simp: hosts)
  from viewDatabases_run [OF this] obtain views where
    views: "viewDatabases decrypt ?ds t = (Inr views, t)"
    and all: "\<forall>d \<in> set ?ds. \<exists>v \<in> set views. shownBy decrypt d v"
    by (elim exE conjE) (rule that)
  obtain w where w: "w \<in> set views" "dv_id w = d_id row" "dv_username w = d_username row" "decrypt (d_passwordEnc row) = Inr (dv_password w)"
    using bspec [OF all mem] unfolding shownBy_def by (elim bexE conjE) (rule that)
  have "requireServerAccess env i Settings_write t = (Inr (u, v), t)" using access_apart acc ok by blast
  then have "databasesGet decrypt env i t = (Inr (Inl views), t)"
    using views by (simp add: databasesGet_def tryCatch_def andThen_def listDatabases_def readState_def ret_def)
  moreover have "dv_password w = generatePassword random" using w(4) ok dec by simp
  ultimately have "databasesGet decrypt env i t = (Inr (Inl views), t) \<and> w \<in> set views \<and> dv_id w = k \<and>
      dv_password w = generatePassword random \<and> (d_hostId row, CREATE_USER (dv_username w) (dv_password w)) \<in> set (sqlLog t)"
    using w ok by simp
  then show ?thesis by (intro exI)
qed

section \<open>Logout\<close>

text \<open>Logging out ends the session of the cookie and no other: the token authenticates nobody afterwards, and
  every other cookie whose hash differs means what it meant before.\<close>

theorem logout_ends_session:
  "getSessionUser env (snd (logoutPost env s)) = None \<and>
   (ae_hash env c \<noteq> ae_hash env (case ae_cookie env of None \<Rightarrow> [] | Some t \<Rightarrow> t) \<longrightarrow>
     getSessionUser (env\<lparr>ae_cookie := Some c\<rparr>) (snd (logoutPost env s)) = getSessionUser (env\<lparr>ae_cookie := Some c\<rparr>) s)"
proof (cases "sessionToken env")
  case None
  then show ?thesis by (simp add: logoutPost_def andThen_def destroySession_def ret_def getSessionUser_def)
next
  case (Some tok)
  then have c: "ae_cookie env = Some tok" by (auto simp: sessionToken_def split: option.splits if_splits)
  have s: "snd (logoutPost env s) = s\<lparr>sessions := deleteWhere (\<lambda>x. ss_tokenHash x = ae_hash env tok) (sessions s)\<rparr>"
    by (simp add: logoutPost_def andThen_def destroySession_def Some writeState_def ret_def)
  have gone: "List.find (\<lambda>x. ss_tokenHash x = ae_hash env tok) (deleteWhere (\<lambda>x. ss_tokenHash x = ae_hash env tok) xs) = None" for xs
    by (auto simp: find_None_iff)
  have other: "List.find (\<lambda>x. ss_tokenHash x = h) (deleteWhere (\<lambda>x. ss_tokenHash x = ae_hash env tok) xs) = List.find (\<lambda>x. ss_tokenHash x = h) xs"
    if "h \<noteq> ae_hash env tok" for h xs using that by (induction xs) (auto simp: deleteWhere_def)
  show ?thesis using c Some
    by (auto simp: s getSessionUser_def gone other sessionToken_def findUser_def split: option.split)
qed

end
