(* ===== verification/AdminScenarios.thy ===== *)
theory AdminScenarios
  imports PanelScenarios Routes
begin

text \<open>
  The properties of the administrators' routes, of the update channel, of tokens, databases and metrics
  applied at concrete inputs.
\<close>

section \<open>An administrator\<close>

definition adminIn :: db where
  "adminIn = signedIn\<lparr>users := [(hd (users sampleDb))\<lparr>u_role := ADMIN\<rparr>]\<rparr>"

lemma admin_in: "getSessionUser sampleAuth adminIn = Some ((hd (users sampleDb))\<lparr>u_role := ADMIN\<rparr>)"
  by (simp add: getSessionUser_def sessionToken_def findUser_def adminIn_def scenario_defs)

definition sampleNodeBody :: NodeBody where
  "sampleNodeBody = \<lparr>nb_name = ''beta'', nb_hostname = ''beta.lan'', nb_location = ''test'', nb_type = HOME,
     nb_totalMemoryMb = 8192, nb_totalDiskMb = 100000, nb_totalCpuCores = 8, nb_overheadMemoryMb = None,
     nb_overheadDiskMb = None, nb_templateIds = Some [''t1''], nb_allocationIp = None,
     nb_portRangeStart = Some 25565, nb_portRangeEnd = Some 25567\<rparr>"

text \<open>Ids in unary, so that they differ from port to port.\<close>

definition unaryId :: "int \<Rightarrow> ident" where
  "unaryId p = (if p < 0 then replicate (nat (- p)) (CHR ''m'') else CHR ''p'' # replicate (nat p) (CHR ''p''))"

lemma unaryId_inj: "inj unaryId"
proof (rule injI)
  fix p q assume e: "unaryId p = unaryId q"
  have l: "length (unaryId k) = (if k < 0 then nat (- k) else Suc (nat k))" for k by (simp add: unaryId_def)
  have m: "set (unaryId k) = {if k < 0 then CHR ''m'' else CHR ''p''}" for k by (auto simp: unaryId_def)
  have "(p < 0) = (q < 0)" using m [of p] m [of q] e by (simp split: if_splits)
  then show "p = q" using l [of p] l [of q] e by (simp split: if_splits)
qed

definition sampleNodeEnv :: NodeEnv where
  "sampleNodeEnv = \<lparr>ne_id = ''n9'', ne_random = ''R'', ne_allocationId = unaryId, ne_gatewayUrl = None\<rparr>"

lemma sample_node_posted: "length (nodes (snd (nodesPost (\<lambda>t. t) sampleNodeEnv sampleAuth (Some sampleNodeBody) adminIn))) = 2"
  by (simp add: nodesPost_def requireAdmin_run adminCheck_def getSessionUser_def sessionToken_def findUser_def handler_def tryCatch_def andThen_def parseWith_def parseBody_def
      orThrow_def createSchema_def atLeast_opt_def sampleNodeBody_def createNode_def transaction_def insertNode_def readState_def
      require_def writeState_def newNode_def sampleNodeEnv_def orDefault_def insertNodeTemplate_def findTemplate_def ret_def
      adminIn_def scenario_defs Let_def)

theorem node_creation_witness:
  "\<exists>n ps. nodes (snd (nodesPost (\<lambda>t. t) sampleNodeEnv sampleAuth (Some sampleNodeBody) adminIn)) = nodes adminIn @ [n] \<and>
    allocations (snd (nodesPost (\<lambda>t. t) sampleNodeEnv sampleAuth (Some sampleNodeBody) adminIn)) = allocations adminIn @ ps \<and>
    map a_port ps = [25565, 25566, 25567]"
proof -
  let ?t = "snd (nodesPost (\<lambda>t. t) sampleNodeEnv sampleAuth (Some sampleNodeBody) adminIn)"
  have i: "inj (ne_allocationId sampleNodeEnv)" by (simp add: sampleNodeEnv_def unaryId_inj)
  have "CHR ''a'' \<notin> set (unaryId p)" for p by (simp add: unaryId_def)
  then have "''a1'' \<notin> range unaryId" "''a2'' \<notin> range unaryId" by (metis list.set_intros(1) rangeE)+
  then have f: "\<forall>a \<in> set (allocations adminIn). a_id a \<notin> range (ne_allocationId sampleNodeEnv) \<and> a_nodeId a \<noteq> ne_id sampleNodeEnv"
    by (simp add: adminIn_def scenario_defs sampleNodeEnv_def)
  have "length (nodes adminIn) = 1" by (simp add: adminIn_def scenario_defs)
  then have "?t \<noteq> adminIn" using sample_node_posted by auto
  then show ?thesis
    using node_creation [OF prod.collapse [symmetric] i f, of "\<lambda>t. t" sampleAuth "Some sampleNodeBody"]
  proof (elim disjE exE conjE)
    fix b n ps
    assume n: "Some sampleNodeBody = Some b" "n = newNode sampleNodeEnv (agentToken (ne_random sampleNodeEnv)) b"
      and t: "nodes ?t = nodes adminIn @ [n]" "allocations ?t = allocations adminIn @ ps"
      and ps: "map a_port ps = [n_daemonPortRangeStart n..n_daemonPortRangeEnd n]"
    have b: "b = sampleNodeBody" using n(1) by simp
    have "n_daemonPortRangeStart n = 25565" "n_daemonPortRangeEnd n = 25567"
      unfolding n(2) b by (simp_all add: newNode_def sampleNodeBody_def orDefault_def)
    moreover have "[25565..25567] = [25565, 25566, 25567 :: int]" by code_simp
    ultimately have "map a_port ps = [25565, 25566, 25567]" unfolding ps by (simp only:)
    then show ?thesis using t by (intro exI conjI)
  qed (simp_all only: simp_thms)
qed

theorem drained_node_not_deletable_witness:
  "\<exists>st m. nodeDelete sampleAuth ''n1'' movedFleet = (Inr (Response st m), movedFleet) \<and> st \<in> {401, 403, 409, 500}"
proof -
  have run: "migrateServer backupAgent sampleMigrateEnv ''s1'' None None (twoNodes otherNode) = (Inr (''j1'', ''n2''), movedFleet)"
    using sample_migration by (simp add: prod_eq_iff movedFleet_def)
  have f: "findServer ''s1'' (twoNodes otherNode) = Some sampleServer" by (simp add: findServer_def fleet_defs)
  from drained_node_not_deletable [OF run twoNodes_ok(2) f subset_refl, of sampleAuth] show ?thesis by (simp add: sampleServer_def)
qed

definition sampleRollout :: Rollout where
  "sampleRollout = \<lparr>ro_version = ''2.0.0'', ro_url = ''https://x.test/agent'', ro_sha256 = replicate 64 (CHR ''a''), ro_nodeIds = None,
     ro_batchSize = Some 1\<rparr>"

theorem rollout_reaches_all_witness:
  "\<exists>results t. agentUpdatePost deadAgent (\<lambda>_. True) sampleAuth (Some sampleRollout)
       (adminIn\<lparr>nodes := [sampleNode\<lparr>n_agentVersion := Some ''1.0.0''\<rparr>]\<rparr>) = (Inr (Inl results), t) \<and>
     map ur_node results = [''alpha'']"
proof -
  let ?s = "adminIn\<lparr>nodes := [sampleNode\<lparr>n_agentVersion := Some ''1.0.0''\<rparr>]\<rparr>"
  have "getSessionUser sampleAuth ?s = Some ((hd (users sampleDb))\<lparr>u_role := ADMIN\<rparr>)"
    by (simp add: getSessionUser_def sessionToken_def findUser_def adminIn_def scenario_defs)
  moreover have "rolloutSchema (\<lambda>_. True) sampleRollout" by code_simp
  moreover have "map n_name (outdated sampleRollout ?s) = [''alpha'']"
    by (simp add: outdated_def sampleRollout_def sample_defs)
  ultimately show ?thesis
    using rollout_reaches_all [of sampleAuth ?s _ "\<lambda>_. True" sampleRollout deadAgent] by fastforce
qed

definition sampleHostBody :: HostBody where
  "sampleHostBody = \<lparr>hb_name = ''db'', hb_host = ''db.lan'', hb_adminHost = ''10.0.0.2'', hb_port = None, hb_adminUser = ''root'',
     hb_adminPassword = ''secret-1'', hb_nodeId = None, hb_maxDatabases = None\<rparr>"

theorem host_verified_first_witness:
  "\<exists>b. databaseHosts (snd (databaseHostsPost (\<lambda>_ _ _. True) rev sampleAuth ''h1'' (Some sampleHostBody) adminIn)) =
     databaseHosts adminIn @ [newHost rev ''h1'' b]"
proof -
  have "databaseHosts (snd (databaseHostsPost (\<lambda>_ _ _. True) rev sampleAuth ''h1'' (Some sampleHostBody) adminIn)) \<noteq> databaseHosts adminIn"
    by (simp add: databaseHostsPost_def requireAdmin_run adminCheck_def getSessionUser_def sessionToken_def findUser_def handler_def tryCatch_def andThen_def parseWith_def
        parseBody_def orThrow_def hostSchema_def atLeast_opt_def sampleHostBody_def query_def insertHost_def newHost_def orDefault_def
        readState_def require_def writeState_def ret_def adminIn_def scenario_defs)
  from host_verified_first [OF this] show ?thesis by blast
qed

section \<open>Metrics\<close>

theorem sampling_idempotent_witness:
  "\<exists>k t. sampleMetrics (\<lambda>_. None) 60000 sampleServed = (Inr k, t) \<and> snd (sampleMetrics (\<lambda>_. None) 60500 t) = t"
proof -
  have "minuteOf 60500 = minuteOf 60000" by (simp add: minuteOf_def)
  from sampling_idempotent [OF this, of "\<lambda>_. None" sampleServed] show ?thesis by blast
qed

theorem compaction_exact_witness:
  "hourOf_row ''s1'' 0 (metrics (snd (compactMetrics 200000000 0 (emptyDb\<lparr>metrics := [minuteRow 0, minuteRow 60000]\<rparr>)))) =
   Some (hourRow ''s1'' 0 [minuteRow 0, minuteRow 60000])"
proof -
  let ?s = "emptyDb\<lparr>metrics := [minuteRow 0, minuteRow 60000]\<rparr>"
  have k: "keyed ?s" by (simp add: keyed_def uniqueOn_def metricKey_def minuteRow_def)
  have "0 - HOUR_RETENTION_DAYS * 86400000 \<le> 0" by (simp add: HOUR_RETENTION_DAYS_def)
  from compaction_exact [OF k refl this, of 200000000 "''s1''"] show ?thesis
    by (simp add: hourOf_row_def oldIn_def metricKey_def minuteRow_def oldMinute_def groupKey_def hourOf_def MINUTE_RETENTION_HOURS_def)
qed

section \<open>Secrets\<close>

definition sampleSeal :: "string \<Rightarrow> string \<Rightarrow> string \<Rightarrow> string \<times> string" where
  "sampleSeal k v p = (replicate 16 (CHR ''t''), rev p)"

definition sampleUnseal :: "string \<Rightarrow> string \<Rightarrow> string \<Rightarrow> string \<Rightarrow> string option" where
  "sampleUnseal k v tag d = (if tag = replicate 16 (CHR ''t'') then Some (rev d) else None)"

definition sampleSecret :: "string option" where
  "sampleSecret = Some (replicate 32 (CHR ''k''))"

lemma sample_cipher: "\<forall>k v p. sampleUnseal k v (fst (sampleSeal k v p)) (snd (sampleSeal k v p)) = Some p"
  "\<forall>k v p. length (fst (sampleSeal k v p)) = 16 \<and> length (snd (sampleSeal k v p)) = length p"
  "\<forall>k v tag d p. sampleUnseal k v tag d = Some p \<longrightarrow> sampleSeal k v p = (tag, d)"
  by (auto simp: sampleSeal_def sampleUnseal_def split: if_splits)

lemma sample_encrypted: "encryptSecret rev sampleSeal sampleSecret ''iv'' p =
    Inr (toBase64 ''iv'' @ ''.'' @ toBase64 (replicate 16 (CHR ''t'')) @ ''.'' @ toBase64 (rev p))"
  by (simp add: encryptSecret_def secretKey_def sampleSecret_def sampleSeal_def)

theorem secret_roundtrip_witness:
  "decryptSecret rev sampleUnseal sampleSecret
     (toBase64 ''iv'' @ ''.'' @ toBase64 (replicate 16 (CHR ''t'')) @ ''.'' @ toBase64 (rev ''hello'')) = Inr ''hello''"
  using secret_roundtrip [OF sample_cipher(1,2) _ sample_encrypted [of "''hello''"]] by simp

lemma sample_decrypted: "decryptSecret rev sampleUnseal sampleSecret
     (toBase64 ''iv'' @ ''.'' @ toBase64 (replicate 16 (CHR ''t'')) @ ''.'' @ toBase64 (rev ''hello'')) = Inr ''hello''"
  using decrypt_encrypted [OF sample_cipher(1,2) _ sample_encrypted [of "''hello''"]] by simp

theorem secret_authentic_witness:
  "\<exists>x iv tag enc. sampleSecret = Some x \<and> sampleSeal (rev x) (fromBase64 iv) ''hello'' = (fromBase64 tag, fromBase64 enc)"
  using secret_authentic [OF sample_cipher(3) sample_decrypted] by blast

section \<open>The update channel and tokens\<close>

theorem update_channel_closed_witness:
  "\<forall>fs. checkForUpdate (\<lambda>_. Inr (throughMiddleware ''/api/agent/version'' None (200, ''release''))) rev (\<lambda>_. None) True
     ''wss://panel.test/agent'' ''1.0.0'' [''agent''] fs = (Inr False, fs)"
  using update_channel_closed [of "\<lambda>_. Inr (throughMiddleware ''/api/agent/version'' None (200, ''release''))"
      "''wss://panel.test/agent''" "(200, ''release'')"] by blast

definition helloWith :: "string \<Rightarrow> AgentHello" where
  "helloWith token = \<lparr>hl_protocol = 1, hl_agentVersion = ''1.0.0'', hl_token = token, hl_nodeId = ''n1'', hl_cpuCores = 4,
     hl_totalMemoryMb = 1, hl_totalDiskMb = 1\<rparr>"

definition rotated :: db where
  "rotated = snd (rotateToken rev ''R'' sampleAuth ''n1'' adminIn)"

lemma rotated_run: "rotateToken rev ''R'' sampleAuth ''n1'' adminIn = (Inr (Response 200 ''dsh_R''), rotated)"
proof -
  have "fst (rotateToken rev ''R'' sampleAuth ''n1'' adminIn) = Inr (Response 200 ''dsh_R'')"
    by (simp add: rotateToken_def requireAdmin_run adminCheck_def getSessionUser_def sessionToken_def findUser_def handler_def
        tryCatch_def andThen_def updateNodeRow_def orThrow_def findNode_def writeState_def ret_def agentToken_def adminIn_def scenario_defs)
  then show ?thesis by (simp add: rotated_def prod_eq_iff)
qed

theorem rotated_token_witness:
  "onHello (\<lambda>x y. rev x = y) 5 1 (Hello (helloWith ''stolen'')) (sampleGateway\<lparr>g_db := rotated\<rparr>) =
     closeSock 1 4403 (sampleGateway\<lparr>g_db := rotated\<rparr>) \<and>
   onHello (\<lambda>x y. rev x = y) 5 1 (Hello (helloWith ''dsh_R'')) (sampleGateway\<lparr>g_db := rotated\<rparr>) =
     acceptAgent 5 1 (helloWith ''dsh_R'') ''n1'' (sampleGateway\<lparr>g_db := rotated\<rparr>)"
proof -
  have law: "\<forall>x y. (rev x = rev y) \<longleftrightarrow> x = (y :: string)" by simp
  have g: "g_db (sampleGateway\<lparr>g_db := rotated\<rparr>) = rotated" by simp
  have h: "hl_protocol (helloWith x) = PROTOCOL_VERSION" "hl_nodeId (helloWith x) = ''n1''" for x
    by (simp_all add: helloWith_def PROTOCOL_VERSION_def)
  note r = rotated_token [where verify = "\<lambda>x y. rev x = y", OF law rotated_run g h, of 5 1]
  have "hl_token (helloWith ''stolen'') \<noteq> ''dsh_R''" "hl_token (helloWith ''dsh_R'') = ''dsh_R''" by (simp_all add: helloWith_def)
  then show ?thesis using r [of "''stolen''"] r [of "''dsh_R''"] by (simp only: if_True if_False simp_thms)
qed

section \<open>Databases\<close>

definition hostedDb :: db where
  "hostedDb = adminIn\<lparr>databaseHosts := [newHost rev ''h1'' sampleHostBody]\<rparr>"

definition sampleEnc :: "string \<Rightarrow> string" where
  "sampleEnc p = (case encryptSecret rev sampleSeal sampleSecret ''iv'' p of Inl e \<Rightarrow> [] | Inr x \<Rightarrow> x)"

lemma hosted_created:
  "fst (databasesPost (\<lambda>_ _ _. True) sampleEnc sampleAuth ''d1'' ''random'' ''s1'' (Some (Create_database ''main'')) hostedDb) =
   Inr (Response 201 ''d1'')"
proof -
  have n: "safeIdentifier ''main''" by code_simp
  have acc: "requireServerAccess sampleAuth ''s1'' Settings_write hostedDb =
      (Inr ((hd (users sampleDb))\<lparr>u_role := ADMIN\<rparr>, sampleServer), hostedDb)"
    by (simp add: requireServerAccess_ok getSessionUser_def sessionToken_def findUser_def findServer_def hostedDb_def adminIn_def scenario_defs)
  show ?thesis
    unfolding databasesPost_def tryCatch_def andThen_def acc
    by (simp add: parseWith_def parseBody_def orThrow_def databaseSchema_def createDatabase_def n andThen_def require_def find_defs
        readState_def countWhere_def hostCandidates_def adminConnection_def findHost_def query_def tryCatch_def createOnHost_def
        insertDatabase_def writeState_def ret_def hostedDb_def adminIn_def newHost_def sampleHostBody_def Let_def scenario_defs)
qed

theorem credentials_shown_witness:
  "\<exists>views t. databasesGet (decryptSecret rev sampleUnseal sampleSecret) sampleAuth ''s1'' t = (Inr (Inl views), t) \<and>
     (\<exists>v. v \<in> set views \<and> dv_id v = ''d1'' \<and> dv_password v = generatePassword ''random'')"
proof -
  have run: "databasesPost (\<lambda>_ _ _. True) sampleEnc sampleAuth ''d1'' ''random'' ''s1'' (Some (Create_database ''main'')) hostedDb =
      (Inr (Response 201 ''d1''), snd (databasesPost (\<lambda>_ _ _. True) sampleEnc sampleAuth ''d1'' ''random'' ''s1''
        (Some (Create_database ''main'')) hostedDb))"
    using hosted_created by (simp add: prod_eq_iff)
  have enc: "encryptSecret rev sampleSeal sampleSecret ''iv'' (generatePassword ''random'') = Inr (sampleEnc (generatePassword ''random''))"
    by (simp add: sampleEnc_def sample_encrypted)
  have none: "\<forall>d \<in> set (serverDatabases hostedDb). (\<exists>host. findHost (d_hostId d) hostedDb = Some host) \<and>
      (\<exists>p. decryptSecret rev sampleUnseal sampleSecret (d_passwordEnc d) = Inr p)"
    by (simp add: hostedDb_def adminIn_def scenario_defs)
  from credentials_shown [OF run sample_cipher(1,2) enc _ _ refl none] show ?thesis by blast
qed

theorem logout_ends_session_witness:
  "getSessionUser sampleAuth (snd (logoutPost sampleAuth signedIn)) = None \<and>
   getSessionUser (sampleAuth\<lparr>ae_cookie := Some ''other''\<rparr>) (snd (logoutPost sampleAuth signedIn)) =
   getSessionUser (sampleAuth\<lparr>ae_cookie := Some ''other''\<rparr>) signedIn"
  using logout_ends_session [of sampleAuth signedIn "''other''"] by (simp add: sampleAuth_def)

end
