(* ===== verification/Listings.thy ===== *)
theory Listings
  imports Routes Backups Mods "HOL-Library.Multiset"
begin

text \<open>
  The routes of the panel that only read: nodes, plans and database hosts for administrators, the audit trail
  (\<open>api/admin/logs\<close>) with its pages, and the backups, sub-users, startup variables and add-ons of a
  server, with the search of \<open>lib/mods.ts\<close>. Figures the agents report are left out of the nodes.
\<close>

definition answering :: "'v act \<Rightarrow> ('v + response) act" where
  "answering m = tryCatch (andThen m (\<lambda>v. ret (Inl v))) (\<lambda>e. ret (Inr (failResponse e)))"

section \<open>Nodes, plans and database hosts\<close>

definition isNodeConnected :: "time \<Rightarrow> (ident \<Rightarrow> time option) \<Rightarrow> ident \<Rightarrow> bool" where
  "isNodeConnected now online nodeId = (case online nodeId of None \<Rightarrow> False | Some expires \<Rightarrow> now < expires)"

record 'n Resource =
  re_total :: 'n
  re_reserved :: 'n
  re_available :: 'n

record NodeInfo =
  nr_id :: ident
  nr_name :: string
  nr_location :: string
  nr_type :: NodeType
  nr_status :: NodeStatus
  nr_enabled :: bool
  nr_connected :: bool
  nr_agentVersion :: "string option"
  nr_lastHeartbeat :: "time option"
  nr_servers :: nat
  nr_memory :: "int Resource"
  nr_disk :: "int Resource"
  nr_cpu :: "rat Resource"

definition nodeInfo :: "(ident \<Rightarrow> bool) \<Rightarrow> db \<Rightarrow> Node \<Rightarrow> NodeInfo" where
  "nodeInfo isUp s n = \<lparr>nr_id = n_id n, nr_name = n_name n, nr_location = n_location n, nr_type = n_type n,
     nr_status = n_status n, nr_enabled = n_enabled n, nr_connected = isUp (n_id n),
     nr_agentVersion = n_agentVersion n, nr_lastHeartbeat = n_lastHeartbeat n,
     nr_servers = countWhere (\<lambda>v. s_nodeId v = n_id n) (servers s),
     nr_memory = \<lparr>re_total = n_totalMemoryMb n, re_reserved = n_reservedMemoryMb n,
       re_available = n_totalMemoryMb n - n_reservedMemoryMb n - n_overheadMemoryMb n\<rparr>,
     nr_disk = \<lparr>re_total = n_totalDiskMb n, re_reserved = n_reservedDiskMb n,
       re_available = n_totalDiskMb n - n_reservedDiskMb n - n_overheadDiskMb n\<rparr>,
     nr_cpu = \<lparr>re_total = n_totalCpuCores n, re_reserved = n_reservedCpuCores n,
       re_available = n_totalCpuCores n - n_reservedCpuCores n\<rparr>\<rparr>"

definition nodesGet :: "(ident \<Rightarrow> bool) \<Rightarrow> AuthEnv \<Rightarrow> (NodeInfo list + response) act" where
  "nodesGet isUp env = answering (
     andThen (requireAdmin env) (\<lambda>_. readState (\<lambda>s. map (nodeInfo isUp s) (sort_key n_name (nodes s)))))"

text \<open>A plan with the name of its template and the number of its servers.\<close>

definition plansGet :: "AuthEnv \<Rightarrow> ((Plan \<times> string option \<times> nat) list + response) act" where
  "plansGet env = answering (
     andThen (requireAdmin env) (\<lambda>_. readState (\<lambda>s. map
       (\<lambda>p. (p, (case p_templateId p of None \<Rightarrow> None | Some i \<Rightarrow> map_option t_name (findTemplate i s)),
          countWhere (\<lambda>v. s_planId v = p_id p) (servers s)))
       (sort_key p_monthlyPriceCents (plans s)))))"

record HostView =
  hv_id :: ident
  hv_name :: string
  hv_host :: string
  hv_port :: int
  hv_node :: string
  hv_databases :: nat
  hv_maxDatabases :: int
  hv_enabled :: bool

text \<open>The password of the host is not among the fields.\<close>

definition hostView :: "db \<Rightarrow> DatabaseHost \<Rightarrow> HostView" where
  "hostView s h = \<lparr>hv_id = h_id h, hv_name = h_name h, hv_host = h_host h, hv_port = h_port h,
     hv_node = (case h_nodeId h of None \<Rightarrow> ''shared''
       | Some i \<Rightarrow> (case findNode i s of None \<Rightarrow> ''shared'' | Some n \<Rightarrow> n_name n)),
     hv_databases = countWhere (\<lambda>d. d_hostId d = h_id h) (serverDatabases s),
     hv_maxDatabases = h_maxDatabases h, hv_enabled = h_enabled h\<rparr>"

definition databaseHostsGet :: "AuthEnv \<Rightarrow> (HostView list + response) act" where
  "databaseHostsGet env = answering (
     andThen (requireAdmin env) (\<lambda>_. readState (\<lambda>s. map (hostView s) (databaseHosts s))))"

section \<open>The parts of a server\<close>

record BackupRow =
  bw_id :: ident
  bw_name :: string
  bw_bytes :: int
  bw_completed :: bool
  bw_createdAt :: time

definition backupRow :: "Backup \<Rightarrow> BackupRow" where
  "backupRow b = \<lparr>bw_id = b_id b, bw_name = b_name b, bw_bytes = b_bytes b, bw_completed = b_completed b,
     bw_createdAt = b_createdAt b\<rparr>"

definition backupsOf :: "ident \<Rightarrow> db \<Rightarrow> BackupRow list" where
  "backupsOf serverId s = map backupRow (sort_key (\<lambda>b. - b_createdAt b) (filter (\<lambda>b. b_serverId b = serverId) (backups s)))"

definition backupsGet :: "AuthEnv \<Rightarrow> ident \<Rightarrow> (BackupRow list + response) act" where
  "backupsGet env serverId = answering (
     andThen (requireServerAccess env serverId Backups_read) (\<lambda>_. readState (backupsOf serverId)))"

record VariableView =
  vv_key :: string
  vv_label :: string
  vv_value :: string

definition variableView :: "environment \<Rightarrow> TemplateVariable \<Rightarrow> VariableView" where
  "variableView current v = \<lparr>vv_key = v_key v, vv_label = v_label v,
     vv_value = (case map_of current (v_key v) of Some x \<Rightarrow> x | None \<Rightarrow> orDefault [] (v_default v))\<rparr>"

definition shownVariables :: "environment \<Rightarrow> GameTemplate \<Rightarrow> VariableView list" where
  "shownVariables current template =
     map (variableView current) (filter (\<lambda>v. v_editable v \<noteq> Some False) (t_variables template))"

definition startupGet :: "AuthEnv \<Rightarrow> ident \<Rightarrow> (VariableView list + response) act" where
  "startupGet env serverId = answering (
     andThen (requireServerAccess env serverId Settings_write) (\<lambda>(_, server).
     andThen (orThrow (NotFoundError ''GameTemplate'') (findTemplate (s_templateId server))) (\<lambda>template.
     ret (shownVariables (s_environment server) template))))"

record SubuserView =
  su_id :: ident
  su_email :: string
  su_displayName :: string
  su_permissions :: "string list"

fun viewSubusers :: "Subuser list \<Rightarrow> SubuserView list act" where
  "viewSubusers [] = ret []"
| "viewSubusers (x # xs) =
     andThen (orThrow (NotFoundError ''User'') (findUser (sub_userId x))) (\<lambda>user.
     andThen (viewSubusers xs) (\<lambda>views.
     ret (\<lparr>su_id = sub_id x, su_email = u_email user, su_displayName = u_displayName user,
       su_permissions = sub_permissions x\<rparr> # views)))"

definition subusersGet :: "AuthEnv \<Rightarrow> ident \<Rightarrow> ((ServerPermission list \<times> SubuserView list) + response) act" where
  "subusersGet env serverId = answering (
     andThen (requireServerAccess env serverId Settings_write) (\<lambda>_.
     andThen (readState (\<lambda>s. filter (\<lambda>x. sub_serverId x = serverId) (subusers s))) (\<lambda>rows.
     andThen (viewSubusers rows) (\<lambda>views. ret (PERMISSIONS, views)))))"

section \<open>Add-ons\<close>

text \<open>What Modrinth answers to a search: the status and the hits, whose fields may be missing.\<close>

record RawHit =
  rh_project_id :: "string option"
  rh_slug :: "string option"
  rh_title :: "string option"
  rh_description :: "string option"
  rh_downloads :: "nat option"
  rh_icon_url :: "string option"
  rh_categories :: "string list option"

record ModSearchResult =
  mr_id :: string
  mr_slug :: string
  mr_title :: string
  mr_description :: string
  mr_downloads :: nat
  mr_iconUrl :: "string option"
  mr_categories :: "string list"

record SearchRequest =
  sr_query :: string
  sr_limit :: nat
  sr_facets :: "string list list"

text \<open>\<open>String(undefined)\<close> is the text \<open>undefined\<close>; an empty icon is falsy.\<close>

definition searchResult :: "RawHit \<Rightarrow> ModSearchResult" where
  "searchResult h = \<lparr>mr_id = orDefault ''undefined'' (rh_project_id h), mr_slug = orDefault ''undefined'' (rh_slug h),
     mr_title = orDefault ''undefined'' (rh_title h), mr_description = orDefault [] (rh_description h),
     mr_downloads = orDefault 0 (rh_downloads h), mr_iconUrl = (if rh_icon_url h = Some [] then None else rh_icon_url h),
     mr_categories = orDefault [] (rh_categories h)\<rparr>"

definition searchRequest :: "environment \<Rightarrow> string \<Rightarrow> string option \<Rightarrow> SearchRequest" where
  "searchRequest env wanted gameVersion =
     (let type = toUpperCase (orDefault ''VANILLA'' (map_of env ''TYPE''));
          version = (case gameVersion of None \<Rightarrow> map_of env ''VERSION'' | Some v \<Rightarrow> Some v)
      in \<lparr>sr_query = take 120 wanted, sr_limit = 20,
        sr_facets = [[''project_type:mod'', ''project_type:plugin''], [''categories:'' @ toLowerCase type]] @
          (case version of None \<Rightarrow> [] | Some v \<Rightarrow> if v = [] then [] else [[''versions:'' @ v]])\<rparr>)"

definition searchMods ::
    "(SearchRequest \<Rightarrow> string + nat \<times> RawHit list) \<Rightarrow> ident \<Rightarrow> string \<Rightarrow> string option \<Rightarrow> ModSearchResult list act" where
  "searchMods modrinth serverId wanted gameVersion =
     andThen (orThrow (NotFoundError ''Server'') (findServer serverId)) (\<lambda>server.
     andThen (orThrow (NotFoundError ''GameTemplate'') (findTemplate (s_templateId server))) (\<lambda>template.
     if includesStr (t_key template) ''bedrock'' then ret []
     else
       (case modrinth (searchRequest (s_environment server) wanted gameVersion) of
          Inl m \<Rightarrow> throw (Error m)
        | Inr (st, hits) \<Rightarrow>
            if 200 \<le> st \<and> st \<le> 299 then ret (map searchResult hits)
            else throw (ModError ''Mod search is unavailable right now.''))))"

text \<open>The slots and what is installed, or the results when there is a search.\<close>

definition modsGet ::
    "agent \<Rightarrow> modEnv \<Rightarrow> (SearchRequest \<Rightarrow> string + nat \<times> RawHit list) \<Rightarrow> AuthEnv \<Rightarrow> ident \<Rightarrow> string \<Rightarrow>
     ((ModSearchResult list + ModSlot list \<times> (ModSlot \<times> FileEntry list) list) + response) act" where
  "modsGet agent menv modrinth env serverId search =
     tryCatch
       (andThen (requireServerAccess env serverId Files_read_perm) (\<lambda>_.
        if search \<noteq> [] then andThen (searchMods modrinth serverId search None) (\<lambda>rs. ret (Inl (Inl rs)))
        else
          andThen (slotsForServer serverId) (\<lambda>slots.
          andThen (listInstalled agent menv serverId) (\<lambda>installed. ret (Inl (Inr (slots, installed)))))))
       (\<lambda>e. ret (Inr (case e of ModError msg \<Rightarrow> Response 400 msg | _ \<Rightarrow> failResponse e)))"

section \<open>The audit trail\<close>

record LogRow = AuditLog +
  lr_id :: ident
  lr_createdAt :: time

text \<open>\<open>orderBy: { createdAt: "desc" }\<close>; rows written in the same millisecond keep one order among themselves.\<close>

definition newestFirst :: "LogRow list \<Rightarrow> LogRow list" where
  "newestFirst = sort_key (\<lambda>r. - lr_createdAt r)"

text \<open>\<open>lq_limit\<close> is \<open>Number(...)\<close> of the parameter, when it is a whole number. Empty parameters are falsy.\<close>

record LogQuery =
  lq_action :: string
  lq_targetId :: string
  lq_cursor :: string
  lq_limit :: "int option"

definition matchesQuery :: "LogQuery \<Rightarrow> LogRow \<Rightarrow> bool" where
  "matchesQuery q r \<longleftrightarrow>
     (lq_action q = [] \<or> startsWith (au_action r) (lq_action q)) \<and> (lq_targetId q = [] \<or> au_targetId r = lq_targetId q)"

text \<open>
  \<open>findMany\<close> with \<open>take\<close>, \<open>cursor\<close> and \<open>skip: 1\<close>: the rows after the one the cursor
  names, none when there is no such row; a negative \<open>take\<close> counts from the other end.
\<close>

definition lastN :: "nat \<Rightarrow> 'r list \<Rightarrow> 'r list" where
  "lastN n rs = drop (length rs - n) rs"

definition pageOf :: "string \<Rightarrow> int \<Rightarrow> LogRow list \<Rightarrow> LogRow list" where
  "pageOf cursor n rows =
     (let found = list_ex (\<lambda>r. lr_id r = cursor) rows in
      if 0 \<le> n
      then take (nat n) (if cursor = [] then rows else drop 1 (dropWhile (\<lambda>r. lr_id r \<noteq> cursor) rows))
      else lastN (nat (- n)) (if cursor = [] then rows else if found then takeWhile (\<lambda>r. lr_id r \<noteq> cursor) rows else []))"

text \<open>\<open>logs[take - 1].id\<close> throws when there is no such element.\<close>

definition logsGet :: "LogRow list \<Rightarrow> AuthEnv \<Rightarrow> LogQuery \<Rightarrow> ((LogRow list \<times> ident option) + response) act" where
  "logsGet rows env q =
     tryCatch
       (andThen (requireAdmin env) (\<lambda>_.
        let n = min 100 (orDefault 50 (lq_limit q));
            logs = pageOf (lq_cursor q) (n + 1) (newestFirst (filter (matchesQuery q) rows))
        in if n < int (length logs)
           then if 1 \<le> n then ret (Inl (take (nat n) logs, Some (lr_id (logs ! nat (n - 1)))))
             else throw (Error ''TypeError'')
           else ret (Inl (take (nat n) logs, None))))
       (\<lambda>e. ret (Inr (failResponse e)))"

section \<open>The whole trail can be read\<close>

text \<open>A client that follows \<open>nextCursor\<close>: the page \<open>j\<close> is answered from the rows \<open>feed j\<close> there are
  at that time.\<close>

fun readTrail :: "nat \<Rightarrow> (nat \<Rightarrow> LogRow list) \<Rightarrow> nat \<Rightarrow> AuthEnv \<Rightarrow> LogQuery \<Rightarrow> db \<Rightarrow> LogRow list option" where
  "readTrail 0 feed j env q s = None"
| "readTrail (Suc k) feed j env q s =
     (case fst (logsGet (feed j) env q s) of
        Inr (Inl (logs, None)) \<Rightarrow> Some logs
      | Inr (Inl (logs, Some c)) \<Rightarrow>
          map_option (\<lambda>more. logs @ more) (readTrail k feed (Suc j) env (q\<lparr>lq_cursor := c\<rparr>) s)
      | _ \<Rightarrow> None)"

lemma sort_key_apart:
  assumes "\<And>x y. x \<in> set xs \<Longrightarrow> y \<in> set ys \<Longrightarrow> f y < f x"
  shows "sort_key f (xs @ ys) = sort_key f ys @ sort_key f xs"
proof (rule properties_for_sort_key)
  fix k
  have st: "filter (\<lambda>x. f k = f x) (sort_key f zs) = filter (\<lambda>x. f k = f x) zs" for zs
    using sort_key_stable [of f "f k" zs] by (simp add: eq_commute)
  show "filter (\<lambda>x. f k = f x) (sort_key f ys @ sort_key f xs) = filter (\<lambda>x. f k = f x) (xs @ ys)"
  proof (cases "\<exists>x \<in> set xs. f k = f x")
    case True
    then have "filter (\<lambda>x. f k = f x) ys = []" using assms by (force simp: filter_empty_conv)
    then show ?thesis by (simp add: st)
  next
    case False
    then have "filter (\<lambda>x. f k = f x) xs = []" by (simp add: filter_empty_conv)
    then show ?thesis by (simp add: st)
  qed
next
  show "sorted (map f (sort_key f ys @ sort_key f xs))"
    using assms by (auto simp: sorted_append intro: less_imp_le)
qed simp

lemma newestFirst_grows:
  assumes "\<And>r n. r \<in> set rows \<Longrightarrow> n \<in> set new \<Longrightarrow> lr_createdAt r < lr_createdAt n"
  shows "newestFirst (filter p (rows @ new)) = newestFirst (filter p new) @ newestFirst (filter p rows)"
  unfolding newestFirst_def filter_append by (rule sort_key_apart) (use assms in auto)

lemma after_cursor:
  assumes "distinct (map k (pre @ suf))" and "pre \<noteq> []"
  shows "drop 1 (dropWhile (\<lambda>r. k r \<noteq> k (last pre)) (pre @ suf)) = suf"
proof -
  have p: "pre = butlast pre @ [last pre]" using assms(2) by simp
  have "k (last pre) \<notin> k ` set (butlast pre)"
    using assms(1) by (subst (asm) p) (auto simp: image_iff)
  then have "dropWhile (\<lambda>r. k r \<noteq> k (last pre)) (butlast pre @ last pre # suf) = last pre # suf"
    by (auto simp: dropWhile_append3 image_iff)
  moreover have b: "pre @ suf = butlast pre @ last pre # suf" using p by (metis append.assoc append_Cons append_Nil)
  ultimately show ?thesis by (simp only: b) simp
qed

lemma requireAdmin_ok: "getSessionUser env s = Some u \<Longrightarrow> u_role u = ADMIN \<Longrightarrow> requireAdmin env s = (Inr u, s)"
  by (simp add: requireAdmin_def requireUser_def act_defs)

text \<open>One page from the middle of the list: \<open>pre\<close> is behind the cursor, \<open>suf\<close> is still to come.\<close>

lemma logsGet_page:
  assumes "getSessionUser env s = Some u" and "u_role u = ADMIN"
    and "newestFirst (filter (matchesQuery q) rows) = pre @ suf" and "distinct (map lr_id (pre @ suf))"
    and "lq_cursor q = (if pre = [] then [] else lr_id (last pre))" and "pre \<noteq> [] \<longrightarrow> lr_id (last pre) \<noteq> []"
    and "n = nat (min 100 (orDefault 50 (lq_limit q)))" and "1 \<le> orDefault 50 (lq_limit q)"
  shows "fst (logsGet rows env q s) =
    Inr (Inl (take n suf, if n < length suf then Some (lr_id (last (take n suf))) else None))"
proof -
  have n: "min 100 (orDefault 50 (lq_limit q)) = int n" "1 \<le> n" using assms(7,8) by auto
  have pg: "pageOf (lq_cursor q) (int n + 1) (newestFirst (filter (matchesQuery q) rows)) = take (Suc n) suf"
    using assms(3,5,6) after_cursor [OF assms(4)] by (auto simp: pageOf_def nat_add_distrib)
  have l: "take n suf \<noteq> [] \<and> suf ! (n - 1) = last (take n suf)" if "n < length suf"
  proof -
    have "take n suf \<noteq> []" using that n(2) by auto
    then show ?thesis using that n(2) last_conv_nth [of "take n suf"] by (simp add: min_def)
  qed
  have i: "nat (int n - 1) = n - 1" using n(2) by simp
  show ?thesis
    using l n(2) pg i by (simp add: logsGet_def andThen_def tryCatch_def requireAdmin_ok [OF assms(1,2)] n(1) ret_def Let_def)
qed

lemma readTrail_rest:
  assumes "getSessionUser env s = Some u" and "u_role u = ADMIN" and "1 \<le> orDefault 50 (lq_limit q)"
    and "\<And>i. j \<le> i \<Longrightarrow> \<exists>new. newestFirst (filter (matchesQuery q) (feed i)) = new @ pre @ suf \<and>
      (pre = [] \<longrightarrow> i = j \<longrightarrow> new = []) \<and> distinct (map lr_id (new @ pre @ suf))"
    and "\<And>r. r \<in> set (pre @ suf) \<Longrightarrow> lr_id r \<noteq> []"
    and "lq_cursor q = (if pre = [] then [] else lr_id (last pre))" and "length suf < k"
  shows "readTrail k feed j env q s = Some suf"
  using assms(3-)
proof (induction k arbitrary: j q pre suf)
  case (Suc k)
  define n where "n = nat (min 100 (orDefault 50 (lq_limit q)))"
  obtain new where new: "newestFirst (filter (matchesQuery q) (feed j)) = (new @ pre) @ suf"
    "pre = [] \<longrightarrow> new = []" "distinct (map lr_id ((new @ pre) @ suf))"
    using Suc.prems(2) [of j] by auto
  have c: "lq_cursor q = (if new @ pre = [] then [] else lr_id (last (new @ pre)))"
    "new @ pre \<noteq> [] \<longrightarrow> lr_id (last (new @ pre)) \<noteq> []"
    using new(2) Suc.prems(3,4) by (cases "pre = []"; simp)+
  note page = logsGet_page [OF assms(1,2) new(1,3) c n_def Suc.prems(1)]
  show ?case
  proof (cases "n < length suf")
    case True
    have t: "take n suf \<noteq> []" using True Suc.prems(1) n_def by auto
    have r: "readTrail k feed (Suc j) env (q\<lparr>lq_cursor := lr_id (last (take n suf))\<rparr>) s = Some (drop n suf)"
    proof (rule Suc.IH [where pre = "pre @ take n suf"])
      fix i assume i: "Suc j \<le> i"
      have m: "matchesQuery (q\<lparr>lq_cursor := lr_id (last (take n suf))\<rparr>) = matchesQuery q"
        by (simp add: fun_eq_iff matchesQuery_def)
      show "\<exists>new. newestFirst (filter (matchesQuery (q\<lparr>lq_cursor := lr_id (last (take n suf))\<rparr>)) (feed i)) =
          new @ (pre @ take n suf) @ drop n suf \<and>
        (pre @ take n suf = [] \<longrightarrow> i = Suc j \<longrightarrow> new = []) \<and> distinct (map lr_id (new @ (pre @ take n suf) @ drop n suf))"
        using Suc.prems(2) [of i] i t unfolding m by auto
    next
      show "length (drop n suf) < k" using Suc.prems(5) True n_def Suc.prems(1) by (cases suf) auto
    next
      fix r assume "r \<in> set ((pre @ take n suf) @ drop n suf)"
      then show "lr_id r \<noteq> []" using Suc.prems(3) [of r] by simp
    qed (use Suc.prems(1) t in simp_all)
    show ?thesis using page True r by simp
  next
    case False
    then show ?thesis using page by simp
  qed
qed simp


text \<open>A page size of zero is answered with an error as soon as there is an entry.\<close>

lemma limit_zero_fails:
  assumes "getSessionUser env s = Some u" and "u_role u = ADMIN" and "lq_limit q = Some 0" and "lq_cursor q = []"
    and "r \<in> set rows" and "matchesQuery q r"
  shows "fst (logsGet rows env q s) = Inr (Inr (failResponse (Error ''TypeError'')))"
proof -
  have "filter (matchesQuery q) rows \<noteq> []" using assms(5,6) by (auto simp: filter_empty_conv)
  then have "newestFirst (filter (matchesQuery q) rows) \<noteq> []"
    by (metis newestFirst_def length_sort length_0_conv)
  then have "0 < length (pageOf [] 1 (newestFirst (filter (matchesQuery q) rows)))" by (simp add: pageOf_def)
  then show ?thesis
    using assms(3,4) by (simp add: logsGet_def andThen_def tryCatch_def requireAdmin_ok [OF assms(1,2)] throw_def ret_def Let_def orDefault_def)
qed

end
