(* ===== verification/Pages.thy ===== *)
theory Pages
  imports Listings
begin

text \<open>
  The server-rendered pages of the panel, \<open>panel/src/app/**/page.tsx\<close>: what each reads from the
  database and whom it turns away. A page is a
  redirection, the figures and texts it shows, or the error page when a row it includes is missing; the markup
  around them is left out.
\<close>

section \<open>Numbers and states as text\<close>

text \<open>\<open>(n / d).toFixed(f)\<close> for \<open>0 < d\<close>: to the nearest, the larger one when two are equally near.\<close>

definition toFixed :: "nat \<Rightarrow> int \<Rightarrow> int \<Rightarrow> string" where
  "toFixed f n d =
     (let v = (2 * \<bar>n\<bar> * 10 ^ f + d) div (2 * d)
      in (if n < 0 then ''-'' else []) @ showInt (v div 10 ^ f) @
         (if f = 0 then [] else CHR ''.'' # padStart f (CHR ''0'') (showInt (v mod 10 ^ f))))"

definition gb :: "int \<Rightarrow> string" where
  "gb mb = (if 1024 \<le> mb then toFixed (if 10240 \<le> mb then 0 else 1) mb 1024 @ '' GB'' else showInt mb @ '' MB'')"

primrec statusName :: "ServerStatus \<Rightarrow> string" where
  "statusName PROVISIONING = ''PROVISIONING''"
| "statusName INSTALLING = ''INSTALLING''"
| "statusName OFFLINE = ''OFFLINE''"
| "statusName STARTING = ''STARTING''"
| "statusName RUNNING = ''RUNNING''"
| "statusName STOPPING = ''STOPPING''"
| "statusName CRASHED = ''CRASHED''"
| "statusName S_FAILED = ''FAILED''"
| "statusName SUSPENDED = ''SUSPENDED''"
| "statusName DELETING = ''DELETING''"

datatype tone = Up | Down | Busy | Idle

definition statusTone :: "string \<Rightarrow> bool \<Rightarrow> tone" where
  "statusTone status suspended =
     (if suspended then Busy
      else if status = ''RUNNING'' then Up
      else if status \<in> set [''STARTING'', ''STOPPING'', ''PROVISIONING'', ''INSTALLING'', ''DELETING''] then Busy
      else if status \<in> set [''CRASHED'', ''FAILED'', ''UNREACHABLE'', ''OFFLINE''] then Down
      else Idle)"

text \<open>A capacity bar in per cent, between 0 and 100, and whether it is drawn as nearly full.\<close>

definition gaugePercent :: "rat \<Rightarrow> rat \<Rightarrow> rat" where
  "gaugePercent used whole = (if 0 < whole then min 100 (used / whole * 100) else 0)"

definition gaugeFull :: "rat \<Rightarrow> rat \<Rightarrow> bool" where
  "gaugeFull used whole \<longleftrightarrow> 90 < gaugePercent used whole"

section \<open>Who sees a page\<close>

datatype 'v page = Redirect string | Render 'v | Failed

definition withUser :: "AuthEnv \<Rightarrow> (User \<Rightarrow> db \<Rightarrow> 'v page) \<Rightarrow> db \<Rightarrow> 'v page" where
  "withUser env f s = (case getSessionUser env s of None \<Rightarrow> Redirect ''/login'' | Some user \<Rightarrow> f user s)"

definition adminPage :: "AuthEnv \<Rightarrow> (db \<Rightarrow> 'v page) \<Rightarrow> db \<Rightarrow> 'v page" where
  "adminPage env f = withUser env (\<lambda>user s. if u_role user \<noteq> ADMIN then Redirect ''/servers'' else f s)"

definition memberOf :: "User \<Rightarrow> Server \<Rightarrow> db \<Rightarrow> bool" where
  "memberOf user server s \<longleftrightarrow>
     u_role user = ADMIN \<or> s_ownerId server = u_id user \<or>
     list_ex (\<lambda>x. sub_userId x = u_id user) (filter (\<lambda>x. sub_serverId x = s_id server) (subusers s))"

text \<open>Pages for everybody who has some access to the server, and pages for its owner.\<close>

definition memberPage :: "AuthEnv \<Rightarrow> ident \<Rightarrow> (Server \<Rightarrow> db \<Rightarrow> 'v page) \<Rightarrow> db \<Rightarrow> 'v page" where
  "memberPage env serverId f = withUser env (\<lambda>user s.
     case findServer serverId s of
       None \<Rightarrow> Redirect ''/servers''
     | Some server \<Rightarrow> if memberOf user server s then f server s else Redirect ''/servers'')"

definition ownerPage :: "AuthEnv \<Rightarrow> ident \<Rightarrow> (Server \<Rightarrow> db \<Rightarrow> 'v page) \<Rightarrow> db \<Rightarrow> 'v page" where
  "ownerPage env serverId f = withUser env (\<lambda>user s.
     case findServer serverId s of
       None \<Rightarrow> Redirect ''/servers''
     | Some server \<Rightarrow>
         if u_role user \<noteq> ADMIN \<and> s_ownerId server \<noteq> u_id user then Redirect ''/servers'' else f server s)"

definition orFail :: "'a option \<Rightarrow> ('a \<Rightarrow> 'v page) \<Rightarrow> 'v page" where
  "orFail x f = (case x of None \<Rightarrow> Failed | Some y \<Rightarrow> f y)"

text \<open>The navigation: three links for a customer, four more for an administrator.\<close>

definition navLinks :: "AuthEnv \<Rightarrow> db \<Rightarrow> string list \<times> string list" where
  "navLinks env s =
     (case getSessionUser env s of
        None \<Rightarrow> ([], [])
      | Some user \<Rightarrow>
          ([''/servers'', ''/plans'', ''/billing''],
           if u_role user = ADMIN then [''/admin/nodes'', ''/admin/servers'', ''/admin/alerts'', ''/admin/logs''] else []))"

section \<open>The pages of a server\<close>

text \<open>\<open>allocations: { where: { primary: true }, take: 1 }\<close>\<close>

definition shownAddress :: "Server \<Rightarrow> db \<Rightarrow> string" where
  "shownAddress server s =
     (case List.find (\<lambda>a. a_serverId a = Some (s_id server) \<and> a_primary a) (allocations s) of
        None \<Rightarrow> ''Assigning an address''
      | Some a \<Rightarrow> a_ip a @ '':'' @ showInt (a_port a))"

record ServerView =
  vs_id :: ident
  vs_name :: string
  vs_subtitle :: string
  vs_address :: string
  vs_memory :: string
  vs_status :: string

definition serverSubtitle :: "GameTemplate \<Rightarrow> Plan \<Rightarrow> Node \<Rightarrow> string" where
  "serverSubtitle template plan node =
     t_name template @ '' on the '' @ p_name plan @ '' plan, hosted in '' @ n_location node"

definition serverPage :: "AuthEnv \<Rightarrow> ident \<Rightarrow> db \<Rightarrow> ServerView page" where
  "serverPage env serverId = memberPage env serverId (\<lambda>server s.
     orFail (findTemplate (s_templateId server) s) (\<lambda>template.
     orFail (findPlan (s_planId server) s) (\<lambda>plan.
     orFail (findNode (s_nodeId server) s) (\<lambda>node.
     Render \<lparr>vs_id = s_id server, vs_name = s_name server, vs_subtitle = serverSubtitle template plan node,
       vs_address = shownAddress server s, vs_memory = gb (s_memoryMb server), vs_status = statusName (s_status server)\<rparr>))))"

definition filesPage :: "AuthEnv \<Rightarrow> ident \<Rightarrow> db \<Rightarrow> string page" where
  "filesPage env serverId = memberPage env serverId (\<lambda>server s. Render (s_name server))"

definition settingsPage :: "AuthEnv \<Rightarrow> ident \<Rightarrow> db \<Rightarrow> (string \<times> string) page" where
  "settingsPage env serverId = memberPage env serverId (\<lambda>server s.
     orFail (findTemplate (s_templateId server) s) (\<lambda>template.
     Render (s_name server, ''Game settings for '' @ t_name template)))"

text \<open>An absent variable and an empty one are both falsy.\<close>

definition modsSubtitle :: "environment \<Rightarrow> GameTemplate \<Rightarrow> string" where
  "modsSubtitle env template = ''Add-ons for '' @ t_name template @
     (case map_of env ''TYPE'' of Some t \<Rightarrow> if t = [] then [] else '' running '' @ toLowerCase t | None \<Rightarrow> []) @
     (case map_of env ''VERSION'' of Some v \<Rightarrow> if v = [] then [] else '' '' @ v | None \<Rightarrow> [])"

definition modsPage :: "AuthEnv \<Rightarrow> ident \<Rightarrow> db \<Rightarrow> (string \<times> string) page" where
  "modsPage env serverId = memberPage env serverId (\<lambda>server s.
     orFail (findTemplate (s_templateId server) s) (\<lambda>template.
     Render (s_name server, modsSubtitle (s_environment server) template)))"

definition startupPage :: "AuthEnv \<Rightarrow> ident \<Rightarrow> db \<Rightarrow> VariableView list page" where
  "startupPage env serverId = ownerPage env serverId (\<lambda>server s.
     orFail (findTemplate (s_templateId server) s) (\<lambda>template.
     Render (shownVariables (s_environment server) template)))"

record NetworkView =
  nv_limit :: string
  nv_addresses :: "(string \<times> string) list"

definition networkPage :: "AuthEnv \<Rightarrow> ident \<Rightarrow> db \<Rightarrow> NetworkView page" where
  "networkPage env serverId = ownerPage env serverId (\<lambda>server s.
     orFail (findPlan (s_planId server) s) (\<lambda>plan.
     Render \<lparr>nv_limit = showInt (p_allocationLimit plan) @ '' address'' @ (if p_allocationLimit plan = 1 then [] else ''es''),
       nv_addresses = map (\<lambda>a. (a_ip a @ '':'' @ showInt (a_port a), if a_primary a then ''Primary'' else ''Additional''))
         (sort_key a_port (filter (\<lambda>a. a_serverId a = Some serverId) (allocations s)))\<rparr>))"

record ScheduleView =
  sv_minuteUtc :: int
  sv_keepCount :: int
  sv_enabled :: bool

record BackupsView =
  bv_usedMb :: int
  bv_limitMb :: int
  bv_schedule :: "ScheduleView option"
  bv_initial :: "BackupRow list"

definition scheduleView :: "BackupSchedule \<Rightarrow> ScheduleView" where
  "scheduleView b = \<lparr>sv_minuteUtc = bs_minuteUtc b, sv_keepCount = bs_keepCount b, sv_enabled = bs_enabled b\<rparr>"

text \<open>The page sends \<open>createdAt\<close> as an ISO date; those of four-digit years compare as the times do, so the list is
  sorted as the route sorts it.\<close>

definition backupsPage :: "AuthEnv \<Rightarrow> ident \<Rightarrow> db \<Rightarrow> BackupsView page" where
  "backupsPage env serverId = ownerPage env serverId (\<lambda>server s.
     orFail (findPlan (s_planId server) s) (\<lambda>plan.
     Render \<lparr>bv_usedMb = usedMb serverId s, bv_limitMb = p_backupMb plan,
       bv_schedule = map_option scheduleView (List.find (\<lambda>b. bs_serverId b = serverId) (schedules s)),
       bv_initial = backupsOf serverId s\<rparr>))"

section \<open>Lists\<close>

record ServerCard =
  ca_id :: ident
  ca_name :: string
  ca_tone :: tone
  ca_status :: string
  ca_subtitle :: string
  ca_address :: string
  ca_memory :: string
  ca_storage :: string

definition listedServers :: "User \<Rightarrow> db \<Rightarrow> Server list" where
  "listedServers user s = sort_key s_createdAt (filter
     (\<lambda>v. s_ownerId v = u_id user \<or> list_ex (\<lambda>x. sub_serverId x = s_id v \<and> sub_userId x = u_id user) (subusers s))
     (servers s))"

definition serverCard :: "db \<Rightarrow> Server \<Rightarrow> ServerCard page" where
  "serverCard s v =
     orFail (findTemplate (s_templateId v) s) (\<lambda>template.
     orFail (findPlan (s_planId v) s) (\<lambda>plan.
     orFail (findNode (s_nodeId v) s) (\<lambda>node.
     Render \<lparr>ca_id = s_id v, ca_name = s_name v, ca_tone = statusTone (statusName (s_status v)) (s_suspended v),
       ca_status = (if s_suspended v then ''Suspended'' else toLowerCase (statusName (s_status v))),
       ca_subtitle = serverSubtitle template plan node, ca_address = shownAddress v s,
       ca_memory = gb (s_memoryMb v), ca_storage = gb (s_diskMb v)\<rparr>)))"

fun renderAll :: "('r \<Rightarrow> 'v page) \<Rightarrow> 'r list \<Rightarrow> 'v list page" where
  "renderAll f [] = Render []"
| "renderAll f (r # rs) =
     (case f r of
        Render v \<Rightarrow> (case renderAll f rs of Render vs \<Rightarrow> Render (v # vs) | Redirect p \<Rightarrow> Redirect p | Failed \<Rightarrow> Failed)
      | Redirect p \<Rightarrow> Redirect p
      | Failed \<Rightarrow> Failed)"

definition serversPage :: "AuthEnv \<Rightarrow> db \<Rightarrow> ServerCard list page" where
  "serversPage env = withUser env (\<lambda>user s. renderAll (serverCard s) (listedServers user s))"

record AdminServerRow =
  as_id :: ident
  as_name :: string
  as_owner :: string
  as_node :: string
  as_plan :: string
  as_status :: string

definition adminServerRow :: "db \<Rightarrow> Server \<Rightarrow> AdminServerRow page" where
  "adminServerRow s v =
     orFail (findUser (s_ownerId v) s) (\<lambda>owner.
     orFail (findNode (s_nodeId v) s) (\<lambda>node.
     orFail (findPlan (s_planId v) s) (\<lambda>plan.
     Render \<lparr>as_id = s_id v, as_name = s_name v, as_owner = u_email owner, as_node = n_name node,
       as_plan = p_name plan,
       as_status = (if s_suspended v then ''suspended'' else toLowerCase (statusName (s_status v)))\<rparr>)))"

definition adminServersPage :: "AuthEnv \<Rightarrow> db \<Rightarrow> AdminServerRow list page" where
  "adminServersPage env = adminPage env (\<lambda>s.
     renderAll (adminServerRow s) (take 200 (sort_key (\<lambda>v. - s_createdAt v) (servers s))))"

record AlertRow =
  ar_title :: string
  ar_since :: string
  ar_detail :: string
  ar_severity :: AlertSeverity

text \<open>\<open>toISOString().replace("T", " ").slice(0, 16)\<close>\<close>

definition dateAndTime :: "nat \<Rightarrow> time \<Rightarrow> string" where
  "dateAndTime n t = take n (map (\<lambda>c. if c = CHR ''T'' then CHR '' '' else c) (toISOString t))"

definition alertsPage :: "AuthEnv \<Rightarrow> db \<Rightarrow> AlertRow list page" where
  "alertsPage env = adminPage env (\<lambda>s. Render
     (map (\<lambda>a. \<lparr>ar_title = al_title a, ar_since = dateAndTime 16 (al_createdAt a), ar_detail = al_detail a,
        ar_severity = al_severity a\<rparr>)
       (sort_key (\<lambda>a. - severityRank (al_severity a)) (sort_key (\<lambda>a. - al_createdAt a)
         (filter (\<lambda>a. al_resolvedAt a = None) (alerts s))))))"

section \<open>Nodes and the dashboard\<close>

record NodeRowData = NodeInfo +
  nr_hostname :: string

definition nodeRow :: "(ident \<Rightarrow> bool) \<Rightarrow> db \<Rightarrow> Node \<Rightarrow> NodeRowData" where
  "nodeRow isUp s n = NodeInfo.extend (nodeInfo isUp s n) \<lparr>nr_hostname = n_hostname n\<rparr>"

record Fleet =
  fl_memory :: int
  fl_servers :: nat
  fl_online :: nat

definition addToFleet :: "NodeRowData \<Rightarrow> Fleet \<Rightarrow> Fleet" where
  "addToFleet n acc = \<lparr>fl_memory = fl_memory acc + max 0 (re_available (nr_memory n)),
     fl_servers = fl_servers acc + nr_servers n, fl_online = fl_online acc + (if nr_connected n then 1 else 0)\<rparr>"

definition fleetTotals :: "NodeRowData list \<Rightarrow> Fleet" where
  "fleetTotals rows = foldl (\<lambda>acc n. addToFleet n acc) \<lparr>fl_memory = 0, fl_servers = 0, fl_online = 0\<rparr> rows"

text \<open>Enabled nodes first, by name among them.\<close>

definition nodesPage :: "(ident \<Rightarrow> bool) \<Rightarrow> AuthEnv \<Rightarrow> db \<Rightarrow> (NodeRowData list \<times> Fleet) page" where
  "nodesPage isUp env = adminPage env (\<lambda>s.
     let rows = map (nodeRow isUp s) (sort_key (\<lambda>n. \<not> n_enabled n) (sort_key n_name (nodes s)))
     in Render (rows, fleetTotals rows))"

datatype Dashboard =
  Fleet_view nat nat nat nat int int \<comment> \<open>nodes online, nodes, running, servers, free MB, cents due\<close>
| Customer_view nat "Invoice option"

definition unpaid :: "Invoice \<Rightarrow> bool" where
  "unpaid v \<longleftrightarrow> i_status v = I_OPEN \<or> i_status v = I_OVERDUE"

definition freeToSell :: "db \<Rightarrow> int" where
  "freeToSell s = sum_list (map (\<lambda>n. max 0 (freeMemory n))
     (filter (\<lambda>n. n_enabled n \<and> n_status n = N_ONLINE) (nodes s)))"

definition firstDue :: "Invoice list \<Rightarrow> Invoice option" where
  "firstDue vs = (case sort_key i_dueAt vs of [] \<Rightarrow> None | v # _ \<Rightarrow> Some v)"

definition dashboardPage :: "AuthEnv \<Rightarrow> db \<Rightarrow> Dashboard page" where
  "dashboardPage env = withUser env (\<lambda>user s.
     if u_role user = ADMIN
     then Render (Fleet_view (countWhere (\<lambda>n. n_status n = N_ONLINE) (nodes s)) (length (nodes s))
       (countWhere (\<lambda>v. s_status v = RUNNING) (servers s)) (length (servers s)) (freeToSell s)
       (sum_list (map i_amountCents (filter unpaid (invoices s)))))
     else Render (Customer_view (countWhere (\<lambda>v. s_ownerId v = u_id user) (servers s))
       (firstDue (filter (\<lambda>v. i_userId v = u_id user \<and> unpaid v) (invoices s)))))"

section \<open>Plans and billing\<close>

record PlanView =
  pv_id :: ident
  pv_name :: string
  pv_game :: string
  pv_memoryMb :: int
  pv_diskMb :: int
  pv_cpuCores :: rat
  pv_backupMb :: int
  pv_priceCents :: int

definition planView :: "db \<Rightarrow> Plan \<Rightarrow> PlanView" where
  "planView s p = \<lparr>pv_id = p_id p, pv_name = p_name p,
     pv_game = (case p_templateId p of None \<Rightarrow> ''Any game''
       | Some i \<Rightarrow> (case findTemplate i s of None \<Rightarrow> ''Any game'' | Some t \<Rightarrow> t_name t)),
     pv_memoryMb = p_memoryMb p, pv_diskMb = p_diskMb p, pv_cpuCores = p_cpuCores p, pv_backupMb = p_backupMb p,
     pv_priceCents = p_monthlyPriceCents p\<rparr>"

text \<open>\<open>distinct: ["location"]\<close>\<close>

definition offeredLocations :: "db \<Rightarrow> string list" where
  "offeredLocations s = remdups (map n_location (filter (\<lambda>n. n_status n = N_ONLINE \<and> n_enabled n) (nodes s)))"

definition plansPage :: "AuthEnv \<Rightarrow> db \<Rightarrow> (string list \<times> PlanView list) page" where
  "plansPage env = withUser env (\<lambda>user s.
     Render (offeredLocations s, map (planView s) (sort_key p_monthlyPriceCents (filter p_visible (plans s)))))"

record InvoiceRow =
  ir_number :: string
  ir_server :: "string option"
  ir_period :: "string \<times> string"
  ir_amountCents :: int
  ir_status :: InvoiceStatus

definition invoiceRow :: "db \<Rightarrow> Invoice \<Rightarrow> InvoiceRow" where
  "invoiceRow s v = \<lparr>ir_number = i_number v,
     ir_server = (case i_serverId v of None \<Rightarrow> None | Some i \<Rightarrow> map_option s_name (findServer i s)),
     ir_period = (take 10 (toISOString (i_periodStart v)), take 10 (toISOString (i_periodEnd v))),
     ir_amountCents = i_amountCents v, ir_status = i_status v\<rparr>"

text \<open>Rows are kept oldest first. The sum is over the fifty newest only.\<close>

definition billingPage :: "AuthEnv \<Rightarrow> db \<Rightarrow> (int \<times> InvoiceRow list) page" where
  "billingPage env = withUser env (\<lambda>user s.
     let shown = take 50 (rev (filter (\<lambda>v. i_userId v = u_id user) (invoices s)))
     in Render (sum_list (map i_amountCents (filter unpaid shown)), map (invoiceRow s) shown))"

section \<open>The audit trail\<close>

text \<open>The page shows a hundred; \<open>users\<close> gives the addresses of the actors.\<close>

record LogView =
  lv_when :: string
  lv_who :: string
  lv_action :: string
  lv_target :: string

definition logView :: "db \<Rightarrow> LogRow \<Rightarrow> LogView" where
  "logView s r = \<lparr>lv_when = dateAndTime 19 (lr_createdAt r),
     lv_who = (case au_actorId r of None \<Rightarrow> ''system''
       | Some i \<Rightarrow> (case findUser i s of None \<Rightarrow> ''system'' | Some u \<Rightarrow> u_email u)),
     lv_action = au_action r, lv_target = au_targetType r @ ''/'' @ take 8 (au_targetId r)\<rparr>"

definition logsPage :: "LogRow list \<Rightarrow> AuthEnv \<Rightarrow> db \<Rightarrow> LogView list page" where
  "logsPage rows env = adminPage env (\<lambda>s. Render (map (logView s) (take 100 (newestFirst rows))))"

section \<open>Pages and routes agree\<close>

definition redirected :: "'v page \<Rightarrow> bool" where
  "redirected p = (case p of Redirect _ \<Rightarrow> True | _ \<Rightarrow> False)"

definition mayPass :: "AuthEnv \<Rightarrow> ident \<Rightarrow> ServerPermission \<Rightarrow> db \<Rightarrow> bool" where
  "mayPass env i p s \<longleftrightarrow> \<not> isl (fst (requireServerAccess env i p s))"

lemma mayPass_iff:
  assumes "uniqueOn (\<lambda>x. (sub_serverId x, sub_userId x)) (subusers s)"
  shows "mayPass env i p s \<longleftrightarrow> (\<exists>u v. getSessionUser env s = Some u \<and> findServer i s = Some v \<and>
    (u_role u = ADMIN \<or> s_ownerId v = u_id u \<or> (\<exists>x \<in> set (subusers s). sub_serverId x = i \<and> sub_userId x = u_id u \<and>
       permString p \<in> set (sub_permissions x))))"
proof -
  have "mayPass env i p s \<longleftrightarrow> (\<exists>u v t. requireServerAccess env i p s = (Inr (u, v), t))"
    by (cases "requireServerAccess env i p s"; cases "fst (requireServerAccess env i p s)") (auto simp: mayPass_def)
  also have "\<dots> \<longleftrightarrow> (\<exists>u v. getSessionUser env s = Some u \<and> findServer i s = Some v \<and>
      (u_role u = ADMIN \<or> s_ownerId v = u_id u \<or> subuserMay p (subuserOf i (u_id u) s)))"
    by (simp add: requireServerAccess_ok)
  finally show ?thesis by (simp only: subuserOf_unique [OF assms])
qed

lemma orFail_stays [simp]: "(\<And>x. \<not> redirected (f x)) \<Longrightarrow> \<not> redirected (orFail v f)"
  by (simp add: orFail_def redirected_def split: option.split)

lemma stays_simps [simp]: "redirected (Redirect r)" "\<not> redirected (Render v)" "\<not> redirected Failed"
  by (simp_all add: redirected_def)

lemma memberPage_stays:
  assumes "\<And>v s. \<not> redirected (f v s)"
  shows "\<not> redirected (memberPage env i f s) \<longleftrightarrow>
    (\<exists>u v. getSessionUser env s = Some u \<and> findServer i s = Some v \<and> memberOf u v s)"
  using assms by (auto simp: memberPage_def withUser_def split: option.split)

lemma ownerPage_stays:
  assumes "\<And>v s. \<not> redirected (f v s)"
  shows "\<not> redirected (ownerPage env i f s) \<longleftrightarrow>
    (\<exists>u v. getSessionUser env s = Some u \<and> findServer i s = Some v \<and> (u_role u = ADMIN \<or> s_ownerId v = u_id u))"
  using assms by (auto simp: ownerPage_def withUser_def split: option.split)

lemma serverPage_stays:
  "\<not> redirected (serverPage env i s) \<longleftrightarrow>
    (\<exists>u v. getSessionUser env s = Some u \<and> findServer i s = Some v \<and> memberOf u v s)"
  unfolding serverPage_def by (rule memberPage_stays) simp

lemma startupPage_stays:
  "\<not> redirected (startupPage env i s) \<longleftrightarrow>
    (\<exists>u v. getSessionUser env s = Some u \<and> findServer i s = Some v \<and> (u_role u = ADMIN \<or> s_ownerId v = u_id u))"
  unfolding startupPage_def by (rule ownerPage_stays) simp

lemma settings_only_owner:
  assumes "grantsOk s" and "uniqueOn (\<lambda>x. (sub_serverId x, sub_userId x)) (subusers s)"
  shows "mayPass env i Settings_write s \<longleftrightarrow>
    (\<exists>u v. getSessionUser env s = Some u \<and> findServer i s = Some v \<and> (u_role u = ADMIN \<or> s_ownerId v = u_id u))"
proof -
  have "permString Settings_write \<notin> set (sub_permissions x)" if "x \<in> set (subusers s)" for x
    using that assms(1) settings_not_grantable unfolding grantsOk_def by blast
  then show ?thesis unfolding mayPass_iff [OF assms(2)] by blast
qed

text \<open>C35. The pages let in whom the routes behind them let in. The startup page opens exactly to those the settings
  routes accept; whoever holds any permission on a server at all can open its page; and the servers listed for a
  customer are exactly those whose page opens.\<close>

theorem pages_agree_with_routes:
  assumes "grantsOk s" and "uniqueOn (\<lambda>x. (sub_serverId x, sub_userId x)) (subusers s)" and "uniqueOn s_id (servers s)"
  shows "(redirected (startupPage env i s) \<longleftrightarrow> \<not> mayPass env i Settings_write s) \<and>
    (mayPass env i p s \<longrightarrow> \<not> redirected (serverPage env i s)) \<and>
    (getSessionUser env s = Some u \<longrightarrow> u_role u \<noteq> ADMIN \<longrightarrow>
      (i \<in> s_id ` set (listedServers u s) \<longleftrightarrow> \<not> redirected (serverPage env i s)))"
proof (intro conjI impI)
  show "redirected (startupPage env i s) \<longleftrightarrow> \<not> mayPass env i Settings_write s"
    using startupPage_stays settings_only_owner [OF assms(1,2)] by blast
next
  assume "mayPass env i p s"
  then obtain u v where o: "getSessionUser env s = Some u" "findServer i s = Some v"
    "u_role u = ADMIN \<or> s_ownerId v = u_id u \<or> (\<exists>x \<in> set (subusers s). sub_serverId x = i \<and> sub_userId x = u_id u \<and>
       permString p \<in> set (sub_permissions x))"
    unfolding mayPass_iff [OF assms(2)] by blast
  then have "memberOf u v s" using findServer_in [OF o(2)] by (auto simp: memberOf_def list_ex_iff)
  then show "\<not> redirected (serverPage env i s)" unfolding serverPage_stays using o by blast
next
  assume u: "getSessionUser env s = Some u" "u_role u \<noteq> ADMIN"
  have f: "findServer i s = Some v \<longleftrightarrow> v \<in> set (servers s) \<and> s_id v = i" for v
    using findServer_in [of i s v] find_uniqueOn [OF assms(3), of v] unfolding findServer_def by blast
  show "i \<in> s_id ` set (listedServers u s) \<longleftrightarrow> \<not> redirected (serverPage env i s)"
  proof -
    have l: "v \<in> set (listedServers u s) \<longleftrightarrow> v \<in> set (servers s) \<and> memberOf u v s" for v
      using u(2) by (auto simp: listedServers_def memberOf_def list_ex_iff)
    have "i \<in> s_id ` set (listedServers u s) \<longleftrightarrow> (\<exists>v. findServer i s = Some v \<and> memberOf u v s)"
      unfolding f image_iff Bex_def l by (intro iffI; elim exE conjE; blast)
    also have "\<dots> \<longleftrightarrow> \<not> redirected (serverPage env i s)" unfolding serverPage_stays using u(1) by simp
    finally show ?thesis .
  qed
qed

text \<open>What the startup page shows is what the route answers.\<close>

lemma startupPage_is_startupGet:
  assumes "grantsOk s" and "uniqueOn (\<lambda>x. (sub_serverId x, sub_userId x)) (subusers s)"
  shows "startupPage env i s = Render vs \<longleftrightarrow> fst (startupGet env i s) = Inr (Inl vs)"
proof (cases "mayPass env i Settings_write s")
  case True
  then obtain u v where o: "getSessionUser env s = Some u" "findServer i s = Some v" "u_role u = ADMIN \<or> s_ownerId v = u_id u"
    unfolding settings_only_owner [OF assms] by blast
  then have "requireServerAccess env i Settings_write s = (Inr (u, v), s)" by (auto simp: requireServerAccess_ok)
  then show ?thesis using o
    by (auto simp: startupPage_def ownerPage_def withUser_def orFail_def startupGet_def answering_def andThen_def
        tryCatch_def orThrow_def ret_def split: option.split)
next
  case False
  then have "redirected (startupPage env i s)" using startupPage_stays settings_only_owner [OF assms] by blast
  moreover obtain e t where "requireServerAccess env i Settings_write s = (Inl e, t)"
    using False by (cases "requireServerAccess env i Settings_write s") (auto simp: mayPass_def isl_def)
  ultimately show ?thesis
    by (auto simp: redirected_def startupGet_def answering_def andThen_def tryCatch_def ret_def split: page.splits)
qed

text \<open>A sub-user who may read the backups is turned away from the page that shows them.\<close>

lemma backups_page_owner_only:
  assumes "getSessionUser env s = Some u" and "u_role u \<noteq> ADMIN" and "findServer i s = Some v" and "s_ownerId v \<noteq> u_id u"
  shows "redirected (backupsPage env i s)"
  using assms by (simp add: backupsPage_def ownerPage_def withUser_def)

section \<open>What is offered and what is sold\<close>

text \<open>The shop offers every location it can sell in: the location of a node on which capacity was reserved is among
  those offered at checkout. And the dashboard keeps count: the memory it shows as left to sell falls by exactly what
  was reserved.\<close>

theorem shop_follows_scheduler:
  assumes "uniqueOn n_id (nodes s)" and "fleetSound s" and "amountOk (requestAmount req)"
    and "reserveCapacity now req (\<lambda>rv. ret ()) s = (Inr (rv, x), t)"
  shows "\<exists>n \<in> set (nodes s). n_id n = rv_nodeId rv \<and> n_location n \<in> set (offeredLocations s) \<and>
    freeToSell t = freeToSell s - rq_memoryMb req"
proof -
  obtain n where n: "eligible now req s n" "rv = reservationFor (candidateRow n) req"
    "t = s\<lparr>nodes := updateWhere (\<lambda>m. n_id m = n_id n) (addReserved (requestAmount req)) (nodes s)\<rparr>"
    using reserveCapacity_exact [OF assms(1,4)] by blast
  then have on: "n \<in> set (nodes s)" "n_enabled n" "n_status n = N_ONLINE" "hasRoom (requestAmount req) n"
    by (auto simp: eligible_def schedulable_def)
  have "sum_list (map (\<lambda>n. max 0 (freeMemory n)) (filter (\<lambda>n. n_enabled n \<and> n_status n = N_ONLINE)
      (updateWhere (\<lambda>m. n_id m = n_id n) (addReserved (requestAmount req)) ns))) =
    sum_list (map (\<lambda>n. max 0 (freeMemory n)) (filter (\<lambda>n. n_enabled n \<and> n_status n = N_ONLINE) ns)) -
      (if n \<in> set ns then rq_memoryMb req else 0)"
    if "uniqueOn n_id ns" "\<And>m. m \<in> set ns \<Longrightarrow> n_id m = n_id n \<Longrightarrow> m = n" for ns
    using that
  proof (induction ns)
    case (Cons m ns)
    have u: "uniqueOn n_id ns" using Cons.prems(1) by (simp add: uniqueOn_def)
    show ?case
    proof (cases "n_id m = n_id n")
      case True
      then have m: "m = n" using Cons.prems(2) by simp
      then have out: "n \<notin> set ns" using Cons.prems(1) by (auto simp: uniqueOn_def)
      have "max 0 (freeMemory (addReserved (requestAmount req) n)) = max 0 (freeMemory n) - rq_memoryMb req"
        using on(4) assms(3) by (auto simp: counter_defs)
      then show ?thesis using Cons.IH [OF u] Cons.prems(2) on(2,3) m out by simp
    next
      case False
      then show ?thesis using Cons.IH [OF u] Cons.prems(2) by auto
    qed
  qed simp
  from this [OF assms(1)] have "freeToSell t = freeToSell s - rq_memoryMb req"
    using on(1) n(3) uniqueOn_eq [OF assms(1)] by (simp add: freeToSell_def)
  moreover have "n_location n \<in> set (offeredLocations s)" using on(1-3) by (auto simp: offeredLocations_def)
  moreover have "n_id n = rv_nodeId rv" using n(2) by (simp add: reservationFor_def)
  ultimately show ?thesis using on(1) by blast
qed

text \<open>The other way round a location can be offered although nothing is sold there: the shop looks neither at the last
  heartbeat nor at what is left.\<close>

lemma offered_without_capacity:
  assumes "n \<in> set (nodes s)" and "n_status n = N_ONLINE" and "n_enabled n" and "n_lastHeartbeat n = None"
  shows "n_location n \<in> set (offeredLocations s) \<and> \<not> schedulable now req n"
  using assms by (auto simp: offeredLocations_def schedulable_def)

section \<open>The startup form\<close>

lemma keeps_pair: "(\<And>a b. keeps g (f a b)) \<Longrightarrow> keeps g (case x of (a, b) \<Rightarrow> f a b)"
  by (cases x) simp

lemma startupPatch_keeps:
  assumes "startupPatch env i body s = (r, t)"
  shows "sessions t = sessions s \<and> users t = users s \<and> templates t = templates s"
proof -
  have "keeps (\<lambda>s. (sessions s, users s, templates s)) (startupPatch env i body)"
    unfolding startupPatch_def handler_def parseBody_def Let_def
    by (intro keep keeps_pair; simp)
  from keepsD [OF this, of s] show ?thesis using assms by simp
qed

text \<open>C36. What a customer saves on the startup page is what the page shows next: every submitted variable with its
  new value, every other with the value it had, in the same order.\<close>

theorem startup_form_roundtrip:
  assumes "startupPage env i s = Render vs" and "grantsOk s"
    and "uniqueOn (\<lambda>x. (sub_serverId x, sub_userId x)) (subusers s)" and "distinct (map fst values)"
    and "startupPatch env i (Some values) s = (Inr (Response st m), t)"
  shows "startupPage env i t = Render (map (\<lambda>w. case map_of values (vv_key w) of
      Some x \<Rightarrow> w\<lparr>vv_value := x\<rparr> | None \<Rightarrow> w) vs)"
proof -
  have r: "\<not> redirected (startupPage env i s)" using assms(1) by simp
  then obtain u v where o: "getSessionUser env s = Some u" "findServer i s = Some v" "u_role u = ADMIN \<or> s_ownerId v = u_id u"
    unfolding startupPage_stays by blast
  then have q: "requireServerAccess env i Settings_write s = (Inr (u, v), s)" by (auto simp: requireServerAccess_ok)
  obtain tm where tm: "findTemplate (s_templateId v) s = Some tm" "vs = shownVariables (s_environment v) tm"
    using assms(1) o by (auto simp: startupPage_def ownerPage_def withUser_def orFail_def split: option.splits if_splits)
  obtain v' where v': "findServer i t = Some v'" "v' = v\<lparr>s_environment := s_environment v'\<rparr>"
    "\<And>k. map_of (s_environment v') k =
      (if k \<in> set (editableKeys (t_variables tm)) \<and> k \<in> fst ` set values then map_of values k
       else map_of (s_environment v) k)"
    using startup_only_editable [OF o(2) tm(1) q assms(4)] assms(5) by auto
  have kept: "getSessionUser env t = getSessionUser env s" "findTemplate j t = findTemplate j s" for j
    using startupPatch_keeps [OF assms(5)] unfolding getSessionUser_def findUser_def findTemplate_def by metis+
  have same: "s_templateId v' = s_templateId v" "s_ownerId v' = s_ownerId v"
    by (subst v'(2), simp)+
  have "startupPage env i t = Render (shownVariables (s_environment v') tm)"
    using kept same v'(1) o tm(1)
    by (auto simp: startupPage_def ownerPage_def withUser_def orFail_def)
  also have "shownVariables (s_environment v') tm = map (\<lambda>w. case map_of values (vv_key w) of
      Some x \<Rightarrow> w\<lparr>vv_value := x\<rparr> | None \<Rightarrow> w) vs"
  proof -
    have "variableView (s_environment v') x = (case map_of values (v_key x) of
        Some y \<Rightarrow> (variableView (s_environment v) x)\<lparr>vv_value := y\<rparr> | None \<Rightarrow> variableView (s_environment v) x)"
      if "x \<in> set (t_variables tm)" "v_editable x \<noteq> Some False" for x
    proof -
      have e: "v_key x \<in> set (editableKeys (t_variables tm))" using that by (auto simp: editableKeys_def)
      have "v_key x \<in> fst ` set values \<longleftrightarrow> map_of values (v_key x) \<noteq> None" by (simp add: map_of_eq_None_iff)
      then show ?thesis using e by (cases "map_of values (v_key x)") (simp_all add: variableView_def v'(3))
    qed
    moreover have "vv_key (variableView e x) = v_key x" for e x by (simp add: variableView_def)
    ultimately show ?thesis by (simp add: tm(2) shownVariables_def)
  qed
  finally show ?thesis .
qed

end
