(* ===== verification/Browser.thy ===== *)
theory Browser
  imports Pages GameSettings
begin

text \<open>
  The client components of the panel, \<open>panel/src/components/*.tsx\<close> and the login page, as state machines. A
  handler that awaits a request is two definitions: what it does up to the request, and what it does with the reply,
  which may come after other events. What a handler read when it was called is an argument of its second half. The
  markup is left out, except what it shows and disables.
\<close>

section \<open>Requests and forms\<close>

text \<open>A response that is \<open>ok\<close>, one that is not with its error text, and a \<open>fetch\<close> that rejects: then nothing
  after it runs.\<close>

datatype 'a reply = Answered 'a | Refused string | Lost

definition finishWith :: "('s \<Rightarrow> 's) \<Rightarrow> (string \<Rightarrow> 's \<Rightarrow> 's) \<Rightarrow> ('a \<Rightarrow> 's \<Rightarrow> 's) \<Rightarrow> 'a reply \<Rightarrow> 's \<Rightarrow> 's" where
  "finishWith idle fails done' r s =
     (case r of Answered x \<Rightarrow> done' x (idle s) | Refused m \<Rightarrow> fails m (idle s) | Lost \<Rightarrow> s)"

text \<open>A form with a control that is disabled while its request is out.\<close>

locale request_form =
  fixes start :: "'s \<Rightarrow> 's" and finish :: "'a reply \<Rightarrow> 's \<Rightarrow> 's"
    and busy :: "'s \<Rightarrow> bool" and shown :: "'s \<Rightarrow> string option"
  assumes start_busy: "busy (start s)"
    and answered_free: "\<not> busy (finish (Answered x) s)"
    and refused_free: "\<not> busy (finish (Refused m) s)"
    and refused_shown: "shown (finish (Refused m) s) = Some m"
    and answered_error: "shown (finish (Answered x) s) = shown s"
    and lost: "finish Lost s = s"
begin

text \<open>A reply frees the control, whatever it says; a request that is lost blocks it for good.\<close>

lemma free_after: "r \<noteq> Lost \<longleftrightarrow> \<not> busy (finish r (start s))"
  using start_busy answered_free refused_free lost by (cases r) auto

lemma error_after: "finish r (start s) \<noteq> start s \<Longrightarrow>
    shown (finish r (start s)) = (case r of Refused m \<Rightarrow> Some m | _ \<Rightarrow> shown (start s))"
  using refused_shown answered_error lost by (cases r) auto

end

locale clearing_form = request_form +
  assumes clears: "shown (start s) = None"
begin

text \<open>An error that is shown is the one of the last request.\<close>

lemma error_is_last: "shown (finish r (start s)) = (case r of Refused m \<Rightarrow> Some m | _ \<Rightarrow> None)"
  using refused_shown answered_error clears lost by (cases r) simp_all

end

section \<open>Signing in and buying\<close>

record LoginPage =
  lp_email :: string
  lp_password :: string
  lp_error :: "string option"
  lp_busy :: bool
  lp_pushed :: "string list" \<comment> \<open>where the router was sent, oldest first\<close>

definition loginNext :: "string option \<Rightarrow> string" where
  "loginNext target = orDefault ''/servers'' target"

definition loginSubmit :: "LoginPage \<Rightarrow> LoginPage" where
  "loginSubmit s = s\<lparr>lp_busy := True, lp_error := None\<rparr>"

definition loginBody :: "LoginPage \<Rightarrow> Login" where
  "loginBody s = \<lparr>lg_email = lp_email s, lg_password = lp_password s\<rparr>"

definition loginReply :: "string option \<Rightarrow> unit reply \<Rightarrow> LoginPage \<Rightarrow> LoginPage" where
  "loginReply target = finishWith (lp_busy_update (\<lambda>_. False)) (\<lambda>m s. s\<lparr>lp_error := Some m\<rparr>)
     (\<lambda>_ s. s\<lparr>lp_pushed := lp_pushed s @ [loginNext target]\<rparr>)"

interpretation login_form: clearing_form loginSubmit "loginReply target" lp_busy lp_error for target
  by unfold_locales (simp_all add: loginSubmit_def loginReply_def finishWith_def)

record PlanPicker =
  pp_selected :: "PlanView option"
  pp_serverName :: string
  pp_location :: string
  pp_error :: "string option"
  pp_busy :: bool
  pp_pushed :: "string list"

definition initialPicker :: "string list \<Rightarrow> PlanPicker" where
  "initialPicker locations = \<lparr>pp_selected = None, pp_serverName = [],
     pp_location = (case locations of [] \<Rightarrow> [] | l # _ \<Rightarrow> l), pp_error = None, pp_busy = False, pp_pushed = []\<rparr>"

definition checkoutBody :: "PlanPicker \<Rightarrow> (ident \<times> string \<times> string) option" where
  "checkoutBody s = map_option (\<lambda>p. (pv_id p, pp_serverName s, pp_location s)) (pp_selected s)"

definition checkout :: "PlanPicker \<Rightarrow> PlanPicker" where
  "checkout s = (if pp_selected s = None then s else s\<lparr>pp_busy := True, pp_error := None\<rparr>)"

definition checkoutReply :: "ident reply \<Rightarrow> PlanPicker \<Rightarrow> PlanPicker" where
  "checkoutReply = finishWith (pp_busy_update (\<lambda>_. False)) (\<lambda>m s. s\<lparr>pp_error := Some m\<rparr>)
     (\<lambda>i s. s\<lparr>pp_pushed := pp_pushed s @ [''/servers/'' @ i]\<rparr>)"

definition checkoutDisabled :: "PlanPicker \<Rightarrow> bool" where
  "checkoutDisabled s \<longleftrightarrow> pp_busy s \<or> trim (pp_serverName s) = []"

definition priceText :: "int \<Rightarrow> string" where
  "priceText priceCents = CHR ''$'' # toFixed 2 priceCents 100"

definition planTexts :: "PlanView \<Rightarrow> string list" where
  "planTexts p = [priceText (pv_priceCents p), toFixed 0 (pv_memoryMb p) 1024 @ '' GB memory'',
     toFixed 0 (pv_diskMb p) 1024 @ '' GB storage'',
     if 0 < pv_backupMb p then toFixed 0 (pv_backupMb p) 1024 @ '' GB backups'' else ''No backups'']"

section \<open>Backups\<close>

record BackupManager =
  bm_backups :: "BackupRow list"
  bm_name :: string
  bm_busy :: "string option"
  bm_error :: "string option"

definition backupSize :: "int \<Rightarrow> string" where
  "backupSize bytes = (if 1073741824 \<le> bytes then toFixed 2 bytes 1073741824 @ '' GB'' else toFixed 1 bytes 1048576 @ '' MB'')"

definition refreshReply :: "BackupRow list reply \<Rightarrow> BackupManager \<Rightarrow> BackupManager" where
  "refreshReply r s = (case r of Answered bs \<Rightarrow> s\<lparr>bm_backups := bs\<rparr> | _ \<Rightarrow> s)"

definition createName :: "time \<Rightarrow> BackupManager \<Rightarrow> string" where
  "createName now s = (if bm_name s = [] then ''Manual '' @ take 16 (toISOString now) else bm_name s)"

definition createStart :: "BackupManager \<Rightarrow> BackupManager" where
  "createStart s = s\<lparr>bm_busy := Some ''create'', bm_error := None\<rparr>"

definition createReply :: "unit reply \<Rightarrow> BackupManager \<Rightarrow> BackupManager" where
  "createReply = finishWith (bm_busy_update (\<lambda>_. None)) (\<lambda>m s. s\<lparr>bm_error := Some m\<rparr>) (\<lambda>_ s. s\<lparr>bm_name := []\<rparr>)"

definition restoreStart :: "bool \<Rightarrow> BackupRow \<Rightarrow> BackupManager \<Rightarrow> BackupManager" where
  "restoreStart confirmed b s = (if confirmed then s\<lparr>bm_busy := Some (bw_id b), bm_error := None\<rparr> else s)"

definition rowReply :: "unit reply \<Rightarrow> BackupManager \<Rightarrow> BackupManager" where
  "rowReply = finishWith (bm_busy_update (\<lambda>_. None)) (\<lambda>m s. s\<lparr>bm_error := Some m\<rparr>) (\<lambda>_ s. s)"

definition removeStart :: "bool \<Rightarrow> BackupRow \<Rightarrow> BackupManager \<Rightarrow> BackupManager" where
  "removeStart confirmed b s = (if confirmed then s\<lparr>bm_busy := Some (bw_id b)\<rparr> else s)"

definition backupsFull :: "BackupsView \<Rightarrow> bool" where
  "backupsFull v \<longleftrightarrow> 0 < bv_limitMb v \<and> bv_limitMb v \<le> bv_usedMb v"

definition createDisabled :: "BackupsView \<Rightarrow> BackupManager \<Rightarrow> bool" where
  "createDisabled v s \<longleftrightarrow> bm_busy s = Some ''create'' \<or> backupsFull v"

definition restoreDisabled :: "BackupRow \<Rightarrow> BackupManager \<Rightarrow> bool" where
  "restoreDisabled b s \<longleftrightarrow> \<not> bw_completed b \<or> bm_busy s = Some (bw_id b)"

definition usageText :: "BackupsView \<Rightarrow> string" where
  "usageText v = showInt (bv_usedMb v) @ '' MB '' @
     (if 0 < bv_limitMb v then ''of '' @ showInt (bv_limitMb v) @ '' MB'' else ''used'')"

definition scheduleText :: "ScheduleView \<Rightarrow> string option" where
  "scheduleText v = (if sv_enabled v
     then Some (''Automatic backup daily at '' @ padStart 2 (CHR ''0'') (showInt (sv_minuteUtc v div 60)) @ '':'' @
       padStart 2 (CHR ''0'') (showInt (sv_minuteUtc v mod 60)) @ '' UTC, keeping '' @ showInt (sv_keepCount v) @ ''.'')
     else None)"

interpretation create_form: clearing_form createStart createReply "\<lambda>s. bm_busy s \<noteq> None" bm_error
  by unfold_locales (simp_all add: createStart_def createReply_def finishWith_def)

interpretation restore_form: clearing_form "restoreStart True b" rowReply "\<lambda>s. bm_busy s \<noteq> None" bm_error for b
  by unfold_locales (simp_all add: restoreStart_def rowReply_def finishWith_def)

interpretation remove_form: request_form "removeStart True b" rowReply "\<lambda>s. bm_busy s \<noteq> None" bm_error for b
  by unfold_locales (simp_all add: removeStart_def rowReply_def finishWith_def)

section \<open>Add-ons\<close>

record ModManager =
  mm_slots :: "ModSlot list"
  mm_installed :: "(ModSlot \<times> FileEntry list) list"
  mm_query :: string
  mm_hits :: "ModSearchResult list"
  mm_searching :: bool
  mm_busy :: "string option"
  mm_error :: "string option"
  mm_notice :: "string option"
  mm_loading :: bool

definition modSize :: "int \<Rightarrow> string" where
  "modSize bytes = (if 1048576 \<le> bytes then toFixed 1 bytes 1048576 @ '' MB'' else showInt ((2 * bytes + 1024) div 2048) @ '' KB'')"

definition modsLoaded :: "(ModSlot list \<times> (ModSlot \<times> FileEntry list) list) reply \<Rightarrow> ModManager \<Rightarrow> ModManager" where
  "modsLoaded = finishWith (mm_loading_update (\<lambda>_. False)) (\<lambda>m s. s\<lparr>mm_error := Some m\<rparr>)
     (\<lambda>(slots, installed) s. s\<lparr>mm_slots := slots, mm_installed := installed\<rparr>)"

definition searchStart :: "ModManager \<Rightarrow> ModManager" where
  "searchStart s = (if trim (mm_query s) = [] then s else s\<lparr>mm_searching := True, mm_error := None\<rparr>)"

definition searchReply :: "ModSearchResult list reply \<Rightarrow> ModManager \<Rightarrow> ModManager" where
  "searchReply = finishWith (mm_searching_update (\<lambda>_. False)) (\<lambda>m s. s\<lparr>mm_error := Some m\<rparr>) (\<lambda>hits s. s\<lparr>mm_hits := hits\<rparr>)"

definition installStart :: "string \<Rightarrow> ModManager \<Rightarrow> ModManager" where
  "installStart projectId s = s\<lparr>mm_busy := Some projectId, mm_error := None, mm_notice := None\<rparr>"

definition installReply :: "string \<Rightarrow> unit reply \<Rightarrow> ModManager \<Rightarrow> ModManager" where
  "installReply title = finishWith (mm_busy_update (\<lambda>_. None)) (\<lambda>m s. s\<lparr>mm_error := Some m\<rparr>)
     (\<lambda>_ s. s\<lparr>mm_notice := Some (title @ '' installed. Restart the server to load it.'')\<rparr>)"

definition uploadStart :: "ModManager \<Rightarrow> ModManager" where
  "uploadStart s = s\<lparr>mm_busy := Some ''upload'', mm_error := None\<rparr>"

definition uploadReply :: "string \<Rightarrow> unit reply \<Rightarrow> ModManager \<Rightarrow> ModManager" where
  "uploadReply name = finishWith (mm_busy_update (\<lambda>_. None)) (\<lambda>m s. s\<lparr>mm_error := Some m\<rparr>)
     (\<lambda>_ s. s\<lparr>mm_notice := Some (name @ '' uploaded. Restart the server to load it.'')\<rparr>)"

definition modRemoveStart :: "bool \<Rightarrow> string \<Rightarrow> ModManager \<Rightarrow> ModManager" where
  "modRemoveStart confirmed filename s = (if confirmed then s\<lparr>mm_busy := Some filename\<rparr> else s)"

definition modRemoveReply :: "unit reply \<Rightarrow> ModManager \<Rightarrow> ModManager" where
  "modRemoveReply = finishWith (mm_busy_update (\<lambda>_. None)) (\<lambda>m s. s\<lparr>mm_error := Some m\<rparr>) (\<lambda>_ s. s)"

interpretation install_form: clearing_form "installStart p" "installReply title" "\<lambda>s. mm_busy s \<noteq> None" mm_error for p title
  by unfold_locales (simp_all add: installStart_def installReply_def finishWith_def)

interpretation upload_form: clearing_form uploadStart "uploadReply name" "\<lambda>s. mm_busy s \<noteq> None" mm_error for name
  by unfold_locales (simp_all add: uploadStart_def uploadReply_def finishWith_def)

interpretation mod_remove_form: request_form "modRemoveStart True f" modRemoveReply "\<lambda>s. mm_busy s \<noteq> None" mm_error for f
  by unfold_locales (simp_all add: modRemoveStart_def modRemoveReply_def finishWith_def)

section \<open>The button and the quota\<close>

lemma backup_step_no_quota:
  "fst (tryCatch
       (andThen (callAgent agent n (Backup_create i k)) (\<lambda>result.
        andThen (orThrow (Error ''TypeError'') (\<lambda>_. rp_bytes result)) (\<lambda>bytes.
        andThen (updateBackup k (finishBackup bytes result)) (\<lambda>done'.
        andThen (audit actorId ''backup.create'' ''server'' i) (\<lambda>_. ret done')))))
       (\<lambda>e. andThen (tryCatch (deleteBackupRow k) (\<lambda>_. ret ())) (\<lambda>_. throw e)) s) \<noteq> Inl (BackupQuotaError u l)"
  by (auto simp: tryCatch_def andThen_def callAgent_def orThrow_def updateBackup_def deleteBackupRow_def ret_def throw_def
      writeState_def split: sum.splits prod.splits option.splits)

text \<open>The button for a new backup is greyed out for lack of space exactly when the server would refuse one: the page
  and the quota check round the same sum and compare it with the same limit.\<close>

theorem backup_button_matches_quota:
  assumes "backupsPage env i s = Render v"
  shows "backupsFull v \<longleftrightarrow>
    fst (createBackup agent k clock i name actor s) = Inl (BackupQuotaError (bv_usedMb v) (bv_limitMb v))"
proof -
  obtain server p where o: "findServer i s = Some server" "findPlan (s_planId server) s = Some p"
    "bv_usedMb v = usedMb i s" "bv_limitMb v = p_backupMb p"
    using assms by (auto simp: backupsPage_def ownerPage_def withUser_def orFail_def split: option.splits if_splits)
  have "fst (createBackup agent k clock i name actor s) = Inl (BackupQuotaError (usedMb i s) (p_backupMb p)) \<longleftrightarrow>
      0 < p_backupMb p \<and> p_backupMb p \<le> usedMb i s"
  proof (cases "0 < p_backupMb p \<and> p_backupMb p \<le> usedMb i s")
    case True
    then show ?thesis using o(1,2) by (simp add: createBackup_def andThen_def orThrow_def readState_def require_def)
  next
    case False
    then show ?thesis
      using o(1,2) backup_step_no_quota [of agent "s_nodeId server" i k actor _ "usedMb i s" "p_backupMb p"]
      by (auto simp: createBackup_def andThen_ok insertBackup_def andThen_def orThrow_def readState_def require_def writeState_def
          ret_def split: if_splits)
  qed
  then show ?thesis using o(3,4) by (simp add: backupsFull_def)
qed

end
