(* ===== verification/Editors.thy ===== *)
theory Editors
  imports Browser
begin

text \<open>
  The client components that run alongside the server: the console (\<open>console.tsx\<close>), the file manager
  (\<open>file-manager.tsx\<close>), the settings and startup forms (\<open>settings-form.tsx\<close>,
  \<open>startup-editor.tsx\<close>) and the row of a node (\<open>node-row.tsx\<close>).
\<close>

section \<open>The console\<close>

datatype connection = Connecting | Open | Closed

record Line =
  li_id :: nat
  li_stderr :: bool
  li_line :: string

record Console =
  cv_lines :: "Line list"
  cv_status :: string
  cv_canCommand :: bool
  cv_connection :: connection
  cv_input :: string
  cv_error :: "string option"
  cv_socket :: "sock option"
  cv_counter :: nat
  cv_sent :: "(sock \<times> string) list"

definition initialConsole :: "string \<Rightarrow> Console" where
  "initialConsole status = \<lparr>cv_lines = [], cv_status = status, cv_canCommand = False, cv_connection = Connecting,
     cv_input = [], cv_error = None, cv_socket = None, cv_counter = 0, cv_sent = []\<rparr>"

text \<open>The reply to the request for a ticket: whether commands are allowed and the socket opened with it, or the
  error, which may be missing.\<close>

datatype ticketReply = Granted bool sock | Denied "string option"

datatype consoleEvent =
  Connect
| Ticket_reply ticketReply
| Socket_open
| State_message string
| Console_message bool string
| Socket_close
| Power_start
| Power_refused string
| Type_input string
| Submit "sock \<Rightarrow> bool" \<comment> \<open>which sockets are open\<close>

text \<open>\<open>[...prev.slice(-999), line]\<close>\<close>

definition appendLine :: "Line list \<Rightarrow> Line \<Rightarrow> Line list" where
  "appendLine prev line = lastN 999 prev @ [line]"

definition submitCommand :: "(sock \<Rightarrow> bool) \<Rightarrow> Console \<Rightarrow> Console" where
  "submitCommand live s =
     (let command = trim (cv_input s) in
      case cv_socket s of
        None \<Rightarrow> s
      | Some ws \<Rightarrow>
          if command = [] \<or> \<not> live ws then s
          else s\<lparr>cv_sent := cv_sent s @ [(ws, command)], cv_input := []\<rparr>)"

fun consoleStep :: "consoleEvent \<Rightarrow> Console \<Rightarrow> Console" where
  "consoleStep Connect s = s\<lparr>cv_connection := Connecting\<rparr>"
| "consoleStep (Ticket_reply (Denied e)) s =
     s\<lparr>cv_error := Some (orDefault ''The console is unavailable right now.'' e), cv_connection := Closed\<rparr>"
| "consoleStep (Ticket_reply (Granted allowed ws)) s = s\<lparr>cv_canCommand := allowed, cv_socket := Some ws\<rparr>"
| "consoleStep Socket_open s = s\<lparr>cv_connection := Open, cv_error := None\<rparr>"
| "consoleStep (State_message status) s = s\<lparr>cv_status := status\<rparr>"
| "consoleStep (Console_message err line) s =
     s\<lparr>cv_lines := appendLine (cv_lines s) \<lparr>li_id = cv_counter s, li_stderr = err, li_line = line\<rparr>,
       cv_counter := cv_counter s + 1\<rparr>"
| "consoleStep Socket_close s = s\<lparr>cv_connection := Closed\<rparr>"
| "consoleStep Power_start s = s\<lparr>cv_error := None\<rparr>"
| "consoleStep (Power_refused m) s = s\<lparr>cv_error := Some m\<rparr>"
| "consoleStep (Type_input t) s = s\<lparr>cv_input := t\<rparr>"
| "consoleStep (Submit live) s = submitCommand live s"

text \<open>Which power buttons are disabled: start, stop.\<close>

definition powerDisabled :: "Console \<Rightarrow> bool \<times> bool" where
  "powerDisabled s = (let running = cv_status s = ''RUNNING'' in (running, \<not> running))"

fun linesIn :: "consoleEvent list \<Rightarrow> (bool \<times> string) list" where
  "linesIn [] = []"
| "linesIn (Console_message err line # es) = (err, line) # linesIn es"
| "linesIn (_ # es) = linesIn es"

definition numbered :: "(bool \<times> string) list \<Rightarrow> Line list" where
  "numbered ls = map (\<lambda>(i, err, line). \<lparr>li_id = i, li_stderr = err, li_line = line\<rparr>) (enumerate 0 ls)"

lemma lastN_append: "lastN n (xs @ ys) = (if n \<le> length ys then lastN n ys else lastN (n - length ys) xs @ ys)"
  by (auto simp: lastN_def)

lemma lastN_lastN: "lastN m (lastN n xs) = lastN (min m n) xs"
  by (cases "n \<le> length xs") (auto simp: lastN_def min_def)

lemma numbered_snoc:
  "numbered (ls @ [(err, line)]) = numbered ls @ [\<lparr>li_id = length ls, li_stderr = err, li_line = line\<rparr>]"
  by (simp add: numbered_def enumerate_append_eq)

lemma linesIn_snoc: "linesIn (es @ [e]) = linesIn es @ linesIn [e]"
  by (induction es rule: linesIn.induct) simp_all

lemma submit_lines [simp]:
  "cv_lines (submitCommand live s) = cv_lines s" "cv_counter (submitCommand live s) = cv_counter s"
  by (simp_all add: submitCommand_def Let_def split: option.split)

lemma lines_step:
  assumes "cv_lines s = lastN 1000 (numbered ls)" and "cv_counter s = length ls"
  shows "cv_lines (consoleStep e s) = lastN 1000 (numbered (ls @ linesIn [e])) \<and>
    cv_counter (consoleStep e s) = length (ls @ linesIn [e])"
  using assms
  by (cases "(e, s)" rule: consoleStep.cases) (simp_all add: appendLine_def numbered_snoc lastN_append lastN_lastN)

lemma console_lines:
  "cv_lines (fold consoleStep es (initialConsole st)) = lastN 1000 (numbered (linesIn es)) \<and>
   cv_counter (fold consoleStep es (initialConsole st)) = length (linesIn es)"
proof (induction es rule: rev_induct)
  case Nil
  then show ?case by (simp add: initialConsole_def numbered_def lastN_def)
next
  case (snoc e es)
  then show ?case using lines_step [of "fold consoleStep es (initialConsole st)" "linesIn es" e]
    by (simp add: linesIn_snoc)
qed

lemma numbered_ids: "map li_id (numbered ls) = [0..<length ls]"
  by (induction ls rule: rev_induct) (auto simp: numbered_snoc, simp add: numbered_def)

text \<open>Whatever happens to the connection in between - closing, reconnecting, commands, power buttons - the console
  shows the last thousand lines that arrived, in the order they arrived, each under a number of its own.\<close>

theorem console_window:
  "cv_lines (fold consoleStep es (initialConsole st)) = lastN 1000 (numbered (linesIn es)) \<and>
   length (cv_lines (fold consoleStep es (initialConsole st))) = min 1000 (length (linesIn es)) \<and>
   distinct (map li_id (cv_lines (fold consoleStep es (initialConsole st))))"
proof -
  have "length (numbered ls) = length ls" for ls by (simp add: numbered_def)
  moreover have "distinct (map li_id (lastN n (numbered ls)))" for n ls
    using numbered_ids [of ls] by (simp add: lastN_def flip: drop_map)
  ultimately show ?thesis using console_lines [of es st] by (simp add: lastN_def min_def)
qed

section \<open>The file manager\<close>

record FileManager =
  fm_path :: string
  fm_entries :: "FileEntry list"
  fm_editing :: "(string \<times> string) option" \<comment> \<open>path and content\<close>
  fm_error :: "string option"
  fm_busy :: bool

definition fileSize :: "int \<Rightarrow> string" where
  "fileSize bytes =
     (if bytes < 1024 then showInt bytes @ '' B''
      else if bytes < 1048576 then toFixed 1 bytes 1024 @ '' KB''
      else toFixed 1 bytes 1048576 @ '' MB'')"

definition initialFiles :: FileManager where
  "initialFiles = \<lparr>fm_path = ''/'', fm_entries = [], fm_editing = None, fm_error = None, fm_busy = False\<rparr>"

text \<open>Requests, with what their handlers remember: the folder shown when the handler was created.\<close>

datatype filesRequest =
  Get_folder string
| Get_file string
| Put_file string string string
| Delete_file string string

definition loadFolder :: "string \<Rightarrow> FileManager \<Rightarrow> FileManager \<times> filesRequest list" where
  "loadFolder target s = (s\<lparr>fm_busy := True, fm_error := None\<rparr>, [Get_folder target])"

definition folderReply :: "(FileEntry list \<times> string) reply \<Rightarrow> FileManager \<Rightarrow> FileManager" where
  "folderReply = finishWith (fm_busy_update (\<lambda>_. False)) (\<lambda>m s. s\<lparr>fm_error := Some m\<rparr>)
     (\<lambda>(entries, path) s. s\<lparr>fm_entries := entries, fm_path := path\<rparr>)"

definition openEntry :: "FileEntry \<Rightarrow> FileManager \<Rightarrow> FileManager \<times> filesRequest list" where
  "openEntry e s =
     (if fi_directory e then loadFolder (fi_path e) s
      else if 2000000 < fi_sizeBytes e
      then (s\<lparr>fm_error := Some ''That file is too large to edit here. Use SFTP instead.''\<rparr>, [])
      else (s, [Get_file (fi_path e)]))"

definition fileReply :: "string \<Rightarrow> string reply \<Rightarrow> FileManager \<Rightarrow> FileManager" where
  "fileReply path = finishWith id (\<lambda>m s. s\<lparr>fm_error := Some m\<rparr>) (\<lambda>content s. s\<lparr>fm_editing := Some (path, content)\<rparr>)"

definition saveFile :: "FileManager \<Rightarrow> FileManager \<times> filesRequest list" where
  "saveFile s = (case fm_editing s of
     None \<Rightarrow> (s, [])
   | Some (path, content) \<Rightarrow> (s\<lparr>fm_busy := True\<rparr>, [Put_file path content (fm_path s)]))"

definition saveReply :: "string \<Rightarrow> unit reply \<Rightarrow> FileManager \<Rightarrow> FileManager \<times> filesRequest list" where
  "saveReply folder r s = (case r of
     Answered _ \<Rightarrow> loadFolder folder (s\<lparr>fm_busy := False, fm_editing := None\<rparr>)
   | Refused m \<Rightarrow> (s\<lparr>fm_busy := False, fm_error := Some m\<rparr>, [])
   | Lost \<Rightarrow> (s, []))"

definition removeEntry :: "bool \<Rightarrow> FileEntry \<Rightarrow> FileManager \<Rightarrow> FileManager \<times> filesRequest list" where
  "removeEntry confirmed e s = (if confirmed then (s, [Delete_file (fi_path e) (fm_path s)]) else (s, []))"

definition removeReply :: "string \<Rightarrow> unit reply \<Rightarrow> FileManager \<Rightarrow> FileManager \<times> filesRequest list" where
  "removeReply folder r s = (case r of
     Answered _ \<Rightarrow> loadFolder folder s
   | Refused m \<Rightarrow> (s\<lparr>fm_error := Some m\<rparr>, [])
   | Lost \<Rightarrow> (s, []))"

text \<open>\<open>path.split("/").slice(0, -1).join("/") || "/"\<close>\<close>

definition parentOf :: "string \<Rightarrow> string option" where
  "parentOf path =
     (if path = ''/'' then None
      else let up = joinWith ''/'' (butlast (splitOn (CHR ''/'') path)) in Some (if up = [] then ''/'' else up))"

text \<open>
  The component with its requests out, and the files it has read. While a file is edited only the editor is shown; the
  answers arrive in any order.
\<close>

record Browsing =
  bs_view :: FileManager
  bs_out :: "filesRequest list"
  bs_read :: "string list"

definition issue :: "FileManager \<times> filesRequest list \<Rightarrow> Browsing \<Rightarrow> Browsing" where
  "issue x b = b\<lparr>bs_view := fst x, bs_out := bs_out b @ snd x\<rparr>"

inductive filesStep :: "(string \<Rightarrow> FileEntry list \<Rightarrow> bool) \<Rightarrow> Browsing \<Rightarrow> Browsing \<Rightarrow> bool" for holds where
  Click: "fm_editing (bs_view b) = None \<Longrightarrow> e \<in> set (fm_entries (bs_view b)) \<Longrightarrow>
    filesStep holds b (issue (openEntry e (bs_view b)) b)"
| Up_level: "fm_editing (bs_view b) = None \<Longrightarrow> parentOf (fm_path (bs_view b)) = Some p \<Longrightarrow>
    filesStep holds b (issue (loadFolder p (bs_view b)) b)"
| Delete: "fm_editing (bs_view b) = None \<Longrightarrow> e \<in> set (fm_entries (bs_view b)) \<Longrightarrow>
    filesStep holds b (issue (removeEntry c e (bs_view b)) b)"
| Edit: "fm_editing (bs_view b) = Some (p, old) \<Longrightarrow>
    filesStep holds b (b\<lparr>bs_view := (bs_view b)\<lparr>fm_editing := Some (p, new)\<rparr>\<rparr>)"
| Discard: "filesStep holds b (b\<lparr>bs_view := (bs_view b)\<lparr>fm_editing := None\<rparr>\<rparr>)"
| Save: "\<not> fm_busy (bs_view b) \<Longrightarrow> filesStep holds b (issue (saveFile (bs_view b)) b)"
| Folder_answer: "Get_folder t \<in> set (bs_out b) \<Longrightarrow> (\<And>es p. r = Answered (es, p) \<Longrightarrow> holds p es) \<Longrightarrow>
    filesStep holds b (b\<lparr>bs_view := folderReply r (bs_view b), bs_out := remove1 (Get_folder t) (bs_out b)\<rparr>)"
| File_answer: "Get_file p \<in> set (bs_out b) \<Longrightarrow>
    filesStep holds b (b\<lparr>bs_view := fileReply p r (bs_view b), bs_out := remove1 (Get_file p) (bs_out b),
      bs_read := (case r of Answered _ \<Rightarrow> p # bs_read b | _ \<Rightarrow> bs_read b)\<rparr>)"
| Save_answer: "Put_file p c f \<in> set (bs_out b) \<Longrightarrow>
    filesStep holds b (issue (saveReply f r (bs_view b)) (b\<lparr>bs_out := remove1 (Put_file p c f) (bs_out b)\<rparr>))"
| Delete_answer: "Delete_file p f \<in> set (bs_out b) \<Longrightarrow>
    filesStep holds b (issue (removeReply f r (bs_view b)) (b\<lparr>bs_out := remove1 (Delete_file p f) (bs_out b)\<rparr>))"

definition startFiles :: Browsing where
  "startFiles = issue (loadFolder ''/'' initialFiles) \<lparr>bs_view = initialFiles, bs_out = [], bs_read = []\<rparr>"

fun savesRead :: "string list \<Rightarrow> filesRequest \<Rightarrow> bool" where
  "savesRead known (Put_file p c f) = (p \<in> set known)"
| "savesRead known _ = True"

lemma savesRead_mono: "savesRead known q \<Longrightarrow> savesRead (p # known) q"
  by (cases q) simp_all

definition filesOk :: "(string \<Rightarrow> FileEntry list \<Rightarrow> bool) \<Rightarrow> Browsing \<Rightarrow> bool" where
  "filesOk holds b \<longleftrightarrow>
     (fm_entries (bs_view b) = [] \<or> holds (fm_path (bs_view b)) (fm_entries (bs_view b))) \<and>
     (\<forall>p c. fm_editing (bs_view b) = Some (p, c) \<longrightarrow> p \<in> set (bs_read b)) \<and>
     (\<forall>q \<in> set (bs_out b). savesRead (bs_read b) q)"

lemmas files_defs = loadFolder_def folderReply_def openEntry_def fileReply_def saveFile_def saveReply_def
  removeEntry_def removeReply_def finishWith_def issue_def

lemma filesOk_answered: "filesOk holds b \<Longrightarrow> filesOk holds (b\<lparr>bs_out := remove1 q (bs_out b)\<rparr>)"
  using set_remove1_subset [of q "bs_out b"] by (auto simp: filesOk_def)

lemma filesOk_step: "filesStep holds b b' \<Longrightarrow> filesOk holds b \<Longrightarrow> filesOk holds b'"
proof (induction rule: filesStep.cases)
  case (Folder_answer t b r)
  then show ?thesis using filesOk_answered [of holds b "Get_folder t"] by (cases r) (auto simp: filesOk_def files_defs)
next
  case (File_answer p b r)
  then show ?thesis using filesOk_answered [of holds b "Get_file p"]
    by (cases r) (auto simp: filesOk_def files_defs savesRead_mono)
next
  case (Save_answer p c f b r)
  then show ?thesis using filesOk_answered [of holds b "Put_file p c f"] by (cases r) (auto simp: filesOk_def files_defs)
next
  case (Delete_answer p f b r)
  then show ?thesis using filesOk_answered [of holds b "Delete_file p f"] by (cases r) (auto simp: filesOk_def files_defs)
qed (auto simp: filesOk_def files_defs split: option.splits if_splits)


text \<open>What is typed while a save is out is thrown away when the save is answered.\<close>

lemma typing_while_saving_lost:
  "fm_editing (fst (saveReply f (Answered ()) (s\<lparr>fm_editing := Some (p, new)\<rparr>))) = None"
  by (simp add: saveReply_def loadFolder_def)

lemma parentOf_child:
  assumes "CHR ''/'' \<notin> set name"
  shows "parentOf (folder @ CHR ''/'' # name) =
    (if folder = [] \<and> name = [] then None else Some (if folder = [] then ''/'' else folder))"
proof -
  have s: "splitOn (CHR ''/'') (folder @ CHR ''/'' # name) = splitOn (CHR ''/'') folder @ [name]"
  proof -
    have "splitOn (CHR ''/'') (last (splitOn (CHR ''/'') folder) @ CHR ''/'' # name) = [last (splitOn (CHR ''/'') folder), name]"
      using splitOn_parts [OF last_in_set, of "CHR ''/''" folder] assms
      by (simp add: splitOn_append_sep splitOn_plain)
    then have "splitOn (CHR ''/'') (folder @ CHR ''/'' # name) =
        butlast (splitOn (CHR ''/'') folder) @ [last (splitOn (CHR ''/'') folder)] @ [name]"
      by (subst splitOn_append) simp
    then show ?thesis by (simp only: append_assoc [symmetric] append_butlast_last_id [OF splitOn_nonempty])
  qed
  have "joinWith ''/'' (butlast (splitOn (CHR ''/'') (folder @ CHR ''/'' # name))) = folder"
    by (simp only: s butlast_snoc join_splitOn)
  moreover have "folder @ CHR ''/'' # name = ''/'' \<longleftrightarrow> folder = [] \<and> name = []" by (cases folder) auto
  ultimately show ?thesis by (simp only: parentOf_def Let_def if_cancel)
qed

section \<open>The settings form\<close>

record SettingsForm =
  sf_fields :: "SettingField list"
  sf_values :: environment
  sf_original :: environment
  sf_ready :: bool
  sf_loading :: bool
  sf_saving :: bool
  sf_notice :: "string option"
  sf_error :: "string option"

definition settingsLoaded :: "(bool \<times> SettingField list \<times> environment) reply \<Rightarrow> SettingsForm \<Rightarrow> SettingsForm" where
  "settingsLoaded = finishWith (sf_loading_update (\<lambda>_. False)) (\<lambda>m s. s\<lparr>sf_error := Some m\<rparr>)
     (\<lambda>(ready, fields, values) s. s\<lparr>sf_ready := ready, sf_fields := fields, sf_values := values, sf_original := values\<rparr>)"

definition changedKeys :: "SettingsForm \<Rightarrow> string list" where
  "changedKeys s = filter (\<lambda>k. map_of (sf_values s) k \<noteq> map_of (sf_original s) k) (map fst (sf_values s))"

definition changedValues :: "SettingsForm \<Rightarrow> environment" where
  "changedValues s = map (\<lambda>k. (k, orDefault [] (map_of (sf_values s) k))) (changedKeys s)"

definition setValue :: "string \<Rightarrow> string \<Rightarrow> SettingsForm \<Rightarrow> SettingsForm" where
  "setValue k v s = s\<lparr>sf_values := putEnv k v (sf_values s)\<rparr>"

definition saveSettings :: "SettingsForm \<Rightarrow> SettingsForm" where
  "saveSettings s = s\<lparr>sf_saving := True, sf_error := None, sf_notice := None\<rparr>"

text \<open>\<open>{ ...original, ...payload }\<close>\<close>

definition overlay :: "environment \<Rightarrow> environment \<Rightarrow> environment" where
  "overlay original payload = fold (\<lambda>(k, v) e. putEnv k v e) payload original"

definition settingsReply :: "environment \<Rightarrow> environment \<Rightarrow> bool reply \<Rightarrow> SettingsForm \<Rightarrow> SettingsForm" where
  "settingsReply original payload = finishWith (sf_saving_update (\<lambda>_. False)) (\<lambda>m s. s\<lparr>sf_error := Some m\<rparr>)
     (\<lambda>needsRestart s. s\<lparr>sf_original := overlay original payload,
        sf_notice := Some (if needsRestart then ''Saved. Restart the server for these to take effect.''
          else ''Saved. Changes apply as players reconnect.'')\<rparr>)"

definition saveDisabled :: "SettingsForm \<Rightarrow> bool" where
  "saveDisabled s \<longleftrightarrow> sf_saving s \<or> changedKeys s = []"

definition saveLabel :: "SettingsForm \<Rightarrow> string" where
  "saveLabel s = (if sf_saving s then ''Saving...'' else if changedKeys s \<noteq> []
     then ''Save '' @ showNat (length (changedKeys s)) @ '' change'' @ (if 1 < length (changedKeys s) then ''s'' else [])
     else ''Saved'')"

definition toggleValue :: "string \<Rightarrow> SettingsForm \<Rightarrow> SettingsForm" where
  "toggleValue k s = setValue k (if map_of (sf_values s) k = Some ''true'' then ''false'' else ''true'') s"

text \<open>
  The form and the file on the server. A save is out with what it submitted; the server writes the file at some time
  before it answers, each value in its normal form \<open>nf\<close>; a save it refuses has written nothing.
\<close>

record Saving =
  sv_form :: SettingsForm
  sv_file :: "string \<Rightarrow> string option"
  sv_out :: "(environment \<times> environment \<times> bool) option" \<comment> \<open>original, payload, written\<close>

definition writeFileOf :: "(string \<Rightarrow> string \<Rightarrow> string) \<Rightarrow> environment \<Rightarrow> (string \<Rightarrow> string option) \<Rightarrow> string \<Rightarrow> string option" where
  "writeFileOf nf payload file k = (case map_of payload k of Some v \<Rightarrow> Some (nf k v) | None \<Rightarrow> file k)"

inductive savingStep :: "(string \<Rightarrow> string \<Rightarrow> string) \<Rightarrow> Saving \<Rightarrow> Saving \<Rightarrow> bool" for nf where
  Type: "k \<in> fst ` set (sf_values (sv_form x)) \<Longrightarrow> savingStep nf x (x\<lparr>sv_form := setValue k v (sv_form x)\<rparr>)"
| Press: "\<not> saveDisabled (sv_form x) \<Longrightarrow> savingStep nf x (x\<lparr>sv_form := saveSettings (sv_form x),
    sv_out := Some (sf_original (sv_form x), changedValues (sv_form x), False)\<rparr>)"
| Written: "sv_out x = Some (orig, payload, False) \<Longrightarrow>
    savingStep nf x (x\<lparr>sv_file := writeFileOf nf payload (sv_file x), sv_out := Some (orig, payload, True)\<rparr>)"
| Saved: "sv_out x = Some (orig, payload, True) \<Longrightarrow>
    savingStep nf x (x\<lparr>sv_form := settingsReply orig payload (Answered n) (sv_form x), sv_out := None\<rparr>)"
| Turned_down: "sv_out x = Some (orig, payload, False) \<Longrightarrow>
    savingStep nf x (x\<lparr>sv_form := settingsReply orig payload (Refused m) (sv_form x), sv_out := None\<rparr>)"

lemma overlay_lookup:
  "map_of (overlay original payload) k = (case map_of (rev payload) k of Some v \<Rightarrow> Some v | None \<Rightarrow> map_of original k)"
  by (induction payload arbitrary: original) (auto simp: overlay_def map_add_def split: option.split)

lemma single_valued_map_of:
  assumes "single_valued (set payload)"
  shows "map_of payload k = Some v \<longleftrightarrow> (k, v) \<in> set payload"
proof
  assume "(k, v) \<in> set payload"
  then obtain w where "map_of payload k = Some w" by (metis weak_map_of_SomeI)
  then show "map_of payload k = Some v"
    using map_of_SomeD \<open>(k, v) \<in> set payload\<close> assms by (metis single_valuedD)
qed (rule map_of_SomeD)

lemma single_valued_rev:
  assumes "single_valued (set payload)"
  shows "map_of (rev payload) k = map_of payload k"
proof -
  have "map_of (rev payload) k = Some v \<longleftrightarrow> map_of payload k = Some v" for v
    using single_valued_map_of [of "rev payload" k v] single_valued_map_of [of payload k v] assms by simp
  then show ?thesis by (metis option.exhaust)
qed

definition mirrors :: "(string \<Rightarrow> string \<Rightarrow> string) \<Rightarrow> environment \<Rightarrow> (string \<Rightarrow> string option) \<Rightarrow> bool" where
  "mirrors nf env file \<longleftrightarrow> (\<forall>k v. map_of env k = Some v \<longrightarrow> file k = Some (nf k v))"

definition savingOk :: "(string \<Rightarrow> string \<Rightarrow> string) \<Rightarrow> Saving \<Rightarrow> bool" where
  "savingOk nf x \<longleftrightarrow>
     fst ` set (sf_values (sv_form x)) \<subseteq> fst ` set (sf_original (sv_form x)) \<and>
     (case sv_out x of
        None \<Rightarrow> \<not> sf_saving (sv_form x) \<and> mirrors nf (sf_original (sv_form x)) (sv_file x)
      | Some (orig, payload, written) \<Rightarrow> sf_saving (sv_form x) \<and> orig = sf_original (sv_form x) \<and> single_valued (set payload) \<and>
          mirrors nf (if written then overlay orig payload else orig) (sv_file x))"

lemma mirrors_written: "mirrors nf orig file \<Longrightarrow> single_valued (set payload) \<Longrightarrow>
    mirrors nf (overlay orig payload) (writeFileOf nf payload file)"
  by (auto simp: mirrors_def overlay_lookup single_valued_rev writeFileOf_def split: option.splits)

lemma putEnv_keys: "fst ` set (putEnv k v e) = insert k (fst ` set e)"
  by (induction k v e rule: putEnv.induct) auto

lemma overlay_keys: "fst ` set e \<subseteq> fst ` set (overlay e payload)"
proof -
  have "k \<in> fst ` set (overlay e payload)" if "map_of e k \<noteq> None" for k
    using that map_of_eq_None_iff [of "overlay e payload" k] by (auto simp: overlay_lookup split: option.splits)
  then show ?thesis by (auto simp: map_of_eq_None_iff)
qed

lemmas saving_defs = setValue_def saveSettings_def settingsReply_def finishWith_def

lemma savingOk_step: "savingStep nf x y \<Longrightarrow> savingOk nf x \<Longrightarrow> savingOk nf y"
proof (induction rule: savingStep.cases)
  case (Type k x v)
  then show ?case by (auto simp: savingOk_def saving_defs putEnv_keys split: option.splits)
next
  case (Press x)
  have "single_valued (set (changedValues (sv_form x)))" by (auto simp: single_valued_def changedValues_def)
  then show ?case using Press by (auto simp: savingOk_def saving_defs saveDisabled_def split: option.splits)
next
  case (Written x orig payload)
  then show ?case by (auto simp: savingOk_def intro: mirrors_written)
next
  case (Saved x orig payload n)
  then have "orig = sf_original (sv_form x)" by (simp add: savingOk_def)
  then show ?case using Saved subset_trans [OF _ overlay_keys [of orig payload]]
    by (simp add: savingOk_def saving_defs)
next
  case (Turned_down x orig payload m)
  then show ?case by (auto simp: savingOk_def saving_defs)
qed

definition openedSettings :: "bool \<times> SettingField list \<times> environment \<Rightarrow> SettingsForm \<Rightarrow> (string \<Rightarrow> string option) \<Rightarrow> Saving" where
  "openedSettings d f file = \<lparr>sv_form = settingsLoaded (Answered d) f, sv_file = file, sv_out = None\<rparr>"


section \<open>The startup form\<close>

record StartupEditor =
  se_values :: environment
  se_saved :: bool
  se_error :: "string option"
  se_busy :: bool

definition initialStartup :: "VariableView list \<Rightarrow> StartupEditor" where
  "initialStartup vs = \<lparr>se_values = overlay [] (map (\<lambda>v. (vv_key v, vv_value v)) vs), se_saved = False, se_error = None,
     se_busy = False\<rparr>"

definition startupChange :: "string \<Rightarrow> string \<Rightarrow> StartupEditor \<Rightarrow> StartupEditor" where
  "startupChange k v s = s\<lparr>se_values := putEnv k v (se_values s)\<rparr>"

definition startupSave :: "StartupEditor \<Rightarrow> StartupEditor" where
  "startupSave s = s\<lparr>se_busy := True, se_error := None, se_saved := False\<rparr>"

definition startupReply :: "unit reply \<Rightarrow> StartupEditor \<Rightarrow> StartupEditor" where
  "startupReply = finishWith (se_busy_update (\<lambda>_. False)) (\<lambda>m s. s\<lparr>se_error := Some m\<rparr>) (\<lambda>_ s. s\<lparr>se_saved := True\<rparr>)"

interpretation startup_form: clearing_form startupSave startupReply se_busy se_error
  by unfold_locales (simp_all add: startupSave_def startupReply_def finishWith_def)

text \<open>The note that all is saved stays when something is edited afterwards.\<close>

lemma saved_note_stays: "se_saved (startupChange k v (startupReply (Answered ()) s))"
  by (simp add: startupChange_def startupReply_def finishWith_def)

section \<open>The row of a node\<close>

record NodeRow =
  no_error :: "string option"
  no_refreshed :: nat

definition nodeGb :: "int \<Rightarrow> string" where
  "nodeGb mb = toFixed (if 10240 \<le> mb then 0 else 1) mb 1024 @ '' GB''"

definition toggleBody :: "NodeRowData \<Rightarrow> bool" where
  "toggleBody n = (\<not> nr_enabled n)"

definition toggleStart :: "NodeRow \<Rightarrow> NodeRow" where
  "toggleStart s = s\<lparr>no_error := None\<rparr>"

text \<open>\<open>Inl\<close> the error of a refusal, which may be missing.\<close>

definition toggleReply :: "string option + unit \<Rightarrow> NodeRow \<Rightarrow> NodeRow" where
  "toggleReply r s = (case r of
     Inl m \<Rightarrow> s\<lparr>no_error := Some (orDefault ''Could not change this node.'' m)\<rparr>
   | Inr _ \<Rightarrow> s\<lparr>no_refreshed := no_refreshed s + 1\<rparr>)"

text \<open>\<open>Math.round\<close> of seconds; a null date is falsy.\<close>

definition heartbeatAge :: "time \<Rightarrow> NodeRowData \<Rightarrow> int option" where
  "heartbeatAge now n = map_option (\<lambda>t. (now - t + 500) div 1000) (nr_lastHeartbeat n)"

definition agentText :: "time \<Rightarrow> NodeRowData \<Rightarrow> string" where
  "agentText now n = (if nr_connected n
     then ''agent '' @ orDefault ''?'' (nr_agentVersion n) @ '', last beat '' @
       (case heartbeatAge now n of None \<Rightarrow> ''?'' | Some a \<Rightarrow> showInt a) @ ''s ago''
     else ''agent has not checked in'')"

end
