(* ===== verification/S3.thy ===== *)
theory S3
  imports Alerts Provisioning Strings
begin

text \<open>
  \<open>agent/src/storage/s3.ts\<close>: archives in an S3-compatible object store, with requests signed by hand. SHA-256, HMAC
  and the platform's URL parser are parameters; so is the store, which may answer anything. Bytes are characters.
\<close>

section \<open>Signing a request\<close>

record S3Config =
  cf_endpoint :: string
  cf_region :: string
  cf_bucket :: string
  cf_accessKeyId :: string
  cf_secretAccessKey :: string

record S3Url =
  su_host :: string
  su_pathname :: string
  su_href :: string

record S3Env =
  e3_sha :: "string \<Rightarrow> string" \<comment> \<open>hex of SHA-256\<close>
  e3_hmac :: "string \<Rightarrow> string \<Rightarrow> string" \<comment> \<open>key and data to the raw digest\<close>
  e3_hex :: "string \<Rightarrow> string"
  e3_parseUrl :: "string \<Rightarrow> S3Url"

text \<open>\<open>s.replace(/[:-]|\.\d{3}/g, "")\<close>\<close>

fun stripDate :: "string \<Rightarrow> string" where
  "stripDate (c # x # y # z # s) =
     (if c = CHR '':'' \<or> c = CHR ''-'' then stripDate (x # y # z # s)
      else if c = CHR ''.'' \<and> isDigit x \<and> isDigit y \<and> isDigit z then stripDate s
      else c # stripDate (x # y # z # s))"
| "stripDate s = filter (\<lambda>c. c \<noteq> CHR '':'' \<and> c \<noteq> CHR ''-'') s"

definition amzDate :: "time \<Rightarrow> string" where
  "amzDate now = stripDate (toISOString now)"

definition objectUrl :: "S3Env \<Rightarrow> S3Config \<Rightarrow> string \<Rightarrow> S3Url" where
  "objectUrl env cf key = e3_parseUrl env (cf_endpoint cf @ ''/'' @ cf_bucket cf @ ''/'' @ key)"

type_synonym headers = "(string \<times> string) list"

definition requestHeaders :: "S3Url \<Rightarrow> string \<Rightarrow> time \<Rightarrow> headers \<Rightarrow> headers" where
  "requestHeaders url payloadHash now extra =
     fold (\<lambda>(h, v). putEnv h v) extra
       [(''host'', su_host url), (''x-amz-content-sha256'', payloadHash), (''x-amz-date'', amzDate now)]"

definition headerValue :: "headers \<Rightarrow> string \<Rightarrow> string" where
  "headerValue hs h = (case map_of hs h of Some v \<Rightarrow> v | None \<Rightarrow> ''undefined'')"

definition sortedNames :: "headers \<Rightarrow> string list" where
  "sortedNames hs = sort (map fst hs)"

definition signedHeaders :: "headers \<Rightarrow> string" where
  "signedHeaders hs = joinWith '';'' (sortedNames hs)"

definition headerLine :: "string \<times> string \<Rightarrow> string" where
  "headerLine x = fst x @ '':'' @ snd x @ [CHR 0x0A]"

definition canonicalHeaders :: "headers \<Rightarrow> string" where
  "canonicalHeaders hs = concat (map (\<lambda>h. headerLine (h, headerValue hs h)) (sortedNames hs))"

definition canonicalRequest :: "string \<Rightarrow> S3Url \<Rightarrow> headers \<Rightarrow> string \<Rightarrow> string" where
  "canonicalRequest method url hs payloadHash =
     joinWith [CHR 0x0A] [method, su_pathname url, [], canonicalHeaders hs, signedHeaders hs, payloadHash]"

definition scopeOf :: "S3Config \<Rightarrow> time \<Rightarrow> string" where
  "scopeOf cf now = take 8 (amzDate now) @ ''/'' @ cf_region cf @ ''/s3/aws4_request''"

definition stringToSign :: "S3Env \<Rightarrow> S3Config \<Rightarrow> time \<Rightarrow> string \<Rightarrow> string" where
  "stringToSign env cf now request =
     joinWith [CHR 0x0A] [''AWS4-HMAC-SHA256'', amzDate now, scopeOf cf now, e3_sha env request]"

definition signingKey :: "S3Env \<Rightarrow> S3Config \<Rightarrow> time \<Rightarrow> string" where
  "signingKey env cf now =
     e3_hmac env (e3_hmac env (e3_hmac env (e3_hmac env (''AWS4'' @ cf_secretAccessKey cf) (take 8 (amzDate now)))
       (cf_region cf)) ''s3'') ''aws4_request''"

definition signatureOf :: "S3Env \<Rightarrow> S3Config \<Rightarrow> time \<Rightarrow> string \<Rightarrow> S3Url \<Rightarrow> headers \<Rightarrow> string \<Rightarrow> string" where
  "signatureOf env cf now method url hs payloadHash =
     e3_hex env (e3_hmac env (signingKey env cf now) (stringToSign env cf now (canonicalRequest method url hs payloadHash)))"

definition sign :: "S3Env \<Rightarrow> S3Config \<Rightarrow> time \<Rightarrow> string \<Rightarrow> string \<Rightarrow> string \<Rightarrow> headers \<Rightarrow> string \<times> headers" where
  "sign env cf now method key payloadHash extra =
     (let url = objectUrl env cf key;
          hs = requestHeaders url payloadHash now extra
      in (su_href url, putEnv ''authorization''
           (''AWS4-HMAC-SHA256 Credential='' @ cf_accessKeyId cf @ ''/'' @ scopeOf cf now @ '', SignedHeaders='' @
            signedHeaders hs @ '', Signature='' @ signatureOf env cf now method url hs payloadHash) hs))"

section \<open>The store\<close>

record S3Request =
  rq3_method :: string
  rq3_url :: string
  rq3_headers :: headers
  rq3_body :: "string option"

record S3Response =
  rs_status :: nat
  rs_text :: string
  rs_body :: "(string \<times> bool) option" \<comment> \<open>what arrived, and whether it arrived whole\<close>

record S3World =
  w3_files :: "string \<Rightarrow> string option"
  w3_sent :: "S3Request list"

type_synonym store = "S3Request list \<Rightarrow> S3Request \<Rightarrow> string + S3Response"

type_synonym 'a s3act = "(S3World, string, 'a) action"

definition fetchS3 :: "store \<Rightarrow> S3Request \<Rightarrow> S3Response s3act" where
  "fetchS3 store r w = (store (w3_sent w) r, w\<lparr>w3_sent := w3_sent w @ [r]\<rparr>)"

definition ok3 :: "S3Response \<Rightarrow> bool" where
  "ok3 r \<longleftrightarrow> 200 \<le> rs_status r \<and> rs_status r \<le> 299"

definition upload :: "S3Env \<Rightarrow> S3Config \<Rightarrow> store \<Rightarrow> time \<Rightarrow> string \<Rightarrow> string \<Rightarrow> (string \<times> nat) s3act" where
  "upload env cf store now localPath key =
     andThen (orThrow ''ENOENT'' (\<lambda>w. w3_files w localPath)) (\<lambda>content.
     case sign env cf now ''PUT'' key (e3_sha env content) [(''content-length'', showNat (length content))] of (url, hs) \<Rightarrow>
     andThen (fetchS3 store \<lparr>rq3_method = ''PUT'', rq3_url = url, rq3_headers = hs, rq3_body = Some content\<rparr>) (\<lambda>res.
     andThen (require (ok3 res) (''Backup upload failed: '' @ showNat (rs_status res) @ '' '' @ rs_text res)) (\<lambda>_.
     ret (key, length content))))"

text \<open>The file is created when there is a body, and filled as far as the body arrives.\<close>

definition download :: "S3Env \<Rightarrow> S3Config \<Rightarrow> store \<Rightarrow> time \<Rightarrow> string \<Rightarrow> string \<Rightarrow> unit s3act" where
  "download env cf store now key localPath =
     (case sign env cf now ''GET'' key ''UNSIGNED-PAYLOAD'' [] of (url, hs) \<Rightarrow>
      andThen (fetchS3 store \<lparr>rq3_method = ''GET'', rq3_url = url, rq3_headers = hs, rq3_body = None\<rparr>) (\<lambda>res.
      case rs_body res of
        None \<Rightarrow> throw (''Backup download failed: '' @ showNat (rs_status res))
      | Some (content, whole) \<Rightarrow>
          if \<not> ok3 res then throw (''Backup download failed: '' @ showNat (rs_status res))
          else
            andThen (writeState (\<lambda>w. w\<lparr>w3_files := (w3_files w)(localPath \<mapsto> content)\<rparr>)) (\<lambda>_.
            require whole ''terminated'')))"

definition remove :: "S3Env \<Rightarrow> S3Config \<Rightarrow> store \<Rightarrow> time \<Rightarrow> string \<Rightarrow> unit s3act" where
  "remove env cf store now key =
     (case sign env cf now ''DELETE'' key (e3_sha env []) [] of (url, hs) \<Rightarrow>
      andThen (fetchS3 store \<lparr>rq3_method = ''DELETE'', rq3_url = url, rq3_headers = hs, rq3_body = None\<rparr>) (\<lambda>res.
      require (ok3 res \<or> rs_status res = 404) (''Backup delete failed: '' @ showNat (rs_status res))))"

text \<open>An environment variable that is empty is falsy; \<open>??\<close> replaces only one that is missing.\<close>

definition truthy :: "string option \<Rightarrow> bool" where
  "truthy v \<longleftrightarrow> v \<noteq> None \<and> v \<noteq> Some []"

definition storageFromEnv :: "(string \<Rightarrow> string option) \<Rightarrow> S3Config option" where
  "storageFromEnv env =
     (if \<not> truthy (env ''DEERS_S3_ENDPOINT'') \<or> \<not> truthy (env ''DEERS_S3_BUCKET'') \<or>
         \<not> truthy (env ''DEERS_S3_ACCESS_KEY_ID'') \<or> \<not> truthy (env ''DEERS_S3_SECRET_ACCESS_KEY'')
      then None
      else Some \<lparr>cf_endpoint = the (env ''DEERS_S3_ENDPOINT''),
        cf_region = (case env ''DEERS_S3_REGION'' of None \<Rightarrow> ''us-east-1'' | Some r \<Rightarrow> r),
        cf_bucket = the (env ''DEERS_S3_BUCKET''), cf_accessKeyId = the (env ''DEERS_S3_ACCESS_KEY_ID''),
        cf_secretAccessKey = the (env ''DEERS_S3_SECRET_ACCESS_KEY'')\<rparr>)"

section \<open>What a signature covers\<close>

text \<open>A text is split in one way only at the first separator.\<close>

lemma split_first:
  assumes "a @ c # x = b @ c # y" and "c \<notin> set a" and "c \<notin> set b"
  shows "a = b \<and> x = y"
  using assms
proof (induction a arbitrary: b)
  case Nil
  then show ?case by (cases b) auto
next
  case (Cons d a)
  then show ?case by (cases b) auto
qed

definition plainHeader :: "string \<times> string \<Rightarrow> bool" where
  "plainHeader x \<longleftrightarrow> CHR '':'' \<notin> set (fst x) \<and> CHR 0x0A \<notin> set (fst x) \<and> CHR 0x0A \<notin> set (snd x)"

text \<open>The lines of the headers and the empty line behind them can be read back.\<close>

lemma header_lines_unique:
  assumes "concat (map headerLine xs) @ CHR 0x0A # s = concat (map headerLine ys) @ CHR 0x0A # t"
    and "\<forall>x \<in> set xs. plainHeader x" and "\<forall>y \<in> set ys. plainHeader y"
  shows "xs = ys \<and> s = t"
  using assms
proof (induction xs arbitrary: ys)
  case Nil
  show ?case
  proof (cases ys)
    case (Cons y ys')
    have "CHR 0x0A \<notin> set (fst y)" using Nil.prems(3) Cons by (simp add: plainHeader_def)
    then show ?thesis using Nil.prems(1) Cons by (cases "fst y") (auto simp: headerLine_def)
  qed (use Nil in simp)
next
  case (Cons x xs)
  show ?case
  proof (cases ys)
    case Nil
    have "CHR 0x0A \<notin> set (fst x)" using Cons.prems(2) by (simp add: plainHeader_def)
    then show ?thesis using Cons.prems(1) Nil by (cases "fst x") (auto simp: headerLine_def)
  next
    case (Cons y ys')
    have p: "plainHeader x" "plainHeader y" using Cons.prems(2,3) Cons by simp_all
    have "(fst x @ CHR '':'' # snd x) @ CHR 0x0A # (concat (map headerLine xs) @ CHR 0x0A # s) =
        (fst y @ CHR '':'' # snd y) @ CHR 0x0A # (concat (map headerLine ys') @ CHR 0x0A # t)"
      using Cons.prems(1) Cons by (simp add: headerLine_def [of x] headerLine_def [of y])
    from split_first [OF this] p
    have l: "fst x @ CHR '':'' # snd x = fst y @ CHR '':'' # snd y"
      "concat (map headerLine xs) @ CHR 0x0A # s = concat (map headerLine ys') @ CHR 0x0A # t"
      by (simp_all add: plainHeader_def)
    have "x = y" using split_first [OF l(1)] p by (auto simp: plainHeader_def prod_eq_iff)
    then show ?thesis using Cons.IH [OF l(2)] Cons.prems(2,3) Cons by simp
  qed
qed

definition sortedHeaders :: "headers \<Rightarrow> headers" where
  "sortedHeaders hs = map (\<lambda>h. (h, headerValue hs h)) (sortedNames hs)"

definition plainRequest :: "string \<Rightarrow> S3Url \<Rightarrow> headers \<Rightarrow> bool" where
  "plainRequest method url hs \<longleftrightarrow> CHR 0x0A \<notin> set method \<and> CHR 0x0A \<notin> set (su_pathname url) \<and>
     (\<forall>x \<in> set (sortedHeaders hs). plainHeader x)"

lemma canonical_unique:
  assumes "canonicalRequest m1 u1 h1 p1 = canonicalRequest m2 u2 h2 p2"
    and "plainRequest m1 u1 h1" and "plainRequest m2 u2 h2"
  shows "m1 = m2 \<and> su_pathname u1 = su_pathname u2 \<and> sortedHeaders h1 = sortedHeaders h2 \<and> p1 = p2"
proof -
  have c: "canonicalHeaders hs = concat (map headerLine (sortedHeaders hs))" for hs
    by (simp add: canonicalHeaders_def sortedHeaders_def comp_def)
  have s: "signedHeaders hs = joinWith '';'' (map fst (sortedHeaders hs))" for hs
    by (simp add: signedHeaders_def sortedHeaders_def comp_def)
  let ?n = "CHR 0x0A"
  have "m1 @ ?n # (su_pathname u1 @ ?n # ?n # (canonicalHeaders h1 @ ?n # (signedHeaders h1 @ ?n # p1))) =
      m2 @ ?n # (su_pathname u2 @ ?n # ?n # (canonicalHeaders h2 @ ?n # (signedHeaders h2 @ ?n # p2)))"
    using assms(1) by (simp add: canonicalRequest_def)
  from split_first [OF this] assms(2,3) have m: "m1 = m2"
    "su_pathname u1 @ ?n # ?n # (canonicalHeaders h1 @ ?n # (signedHeaders h1 @ ?n # p1)) =
      su_pathname u2 @ ?n # ?n # (canonicalHeaders h2 @ ?n # (signedHeaders h2 @ ?n # p2))"
    by (simp_all add: plainRequest_def)
  from split_first [OF m(2)] assms(2,3) have u: "su_pathname u1 = su_pathname u2"
    "concat (map headerLine (sortedHeaders h1)) @ ?n # (signedHeaders h1 @ ?n # p1) =
      concat (map headerLine (sortedHeaders h2)) @ ?n # (signedHeaders h2 @ ?n # p2)"
    by (simp_all add: plainRequest_def c)
  from header_lines_unique [OF u(2)] assms(2,3) have h: "sortedHeaders h1 = sortedHeaders h2"
    "signedHeaders h1 @ ?n # p1 = signedHeaders h2 @ ?n # p2"
    by (simp_all add: plainRequest_def)
  then show ?thesis using m(1) u(1) s by simp
qed

lemma stripDate_subset: "set (stripDate s) \<subseteq> set s"
  by (induction s rule: stripDate.induct) auto

lemma showInt_lineless: "CHR 0x0A \<notin> set (showInt i)"
proof -
  have d: "CHR 0x0A \<notin> set (showNat n)" for n
    using showNat_digits [of n] by (auto simp: list_all_iff isDigit_def)
  show ?thesis using d by (simp add: showInt_def)
qed

lemma amzDate_plain: "CHR 0x0A \<notin> set (amzDate now)"
proof -
  have "CHR 0x0A \<notin> set (toISOString now)" by (simp add: toISOString_def padStart_def Let_def showInt_lineless)
  then show ?thesis using stripDate_subset [of "toISOString now"] by (auto simp: amzDate_def)
qed

definition collides :: "('a \<Rightarrow> 'b) \<Rightarrow> 'a \<Rightarrow> 'a \<Rightarrow> bool" where
  "collides f x y \<longleftrightarrow> x \<noteq> y \<and> f x = f y"

text \<open>The keyed hash in hexadecimal, as one function of the key and the text.\<close>

definition keyedHex :: "S3Env \<Rightarrow> string \<times> string \<Rightarrow> string" where
  "keyedHex env x = e3_hex env (e3_hmac env (fst x) (snd x))"

definition signedText :: "S3Env \<Rightarrow> S3Config \<Rightarrow> time \<Rightarrow> string \<Rightarrow> S3Url \<Rightarrow> headers \<Rightarrow> string \<Rightarrow> string \<times> string" where
  "signedText env cf now method url hs payloadHash =
     (signingKey env cf now, stringToSign env cf now (canonicalRequest method url hs payloadHash))"

text \<open>C39. A signature covers the whole request. Two requests that carry the same signature have the same method, path,
  payload hash and headers - host, date and content length among them - unless the two of them are a collision of the
  hash functions; so a signature that was observed is of no use for anything but the request it was made for.\<close>

theorem signature_binds:
  assumes "\<not> collides (e3_sha env) (canonicalRequest m1 u1 h1 p1) (canonicalRequest m2 u2 h2 p2)"
    and "\<not> collides (keyedHex env) (signedText env cf now1 m1 u1 h1 p1) (signedText env cf now2 m2 u2 h2 p2)"
    and "CHR 0x0A \<notin> set (cf_region cf)" and "plainRequest m1 u1 h1" and "plainRequest m2 u2 h2"
    and "signatureOf env cf now1 m1 u1 h1 p1 = signatureOf env cf now2 m2 u2 h2 p2"
  shows "m1 = m2 \<and> su_pathname u1 = su_pathname u2 \<and> sortedHeaders h1 = sortedHeaders h2 \<and> p1 = p2"
proof -
  let ?n = "CHR 0x0A"
  have sc: "?n \<notin> set (scopeOf cf now)" for now
    using amzDate_plain [of now] assms(3) set_take_subset [of 8 "amzDate now"] by (auto simp: scopeOf_def)
  have "stringToSign env cf now1 (canonicalRequest m1 u1 h1 p1) = stringToSign env cf now2 (canonicalRequest m2 u2 h2 p2)"
    using assms(2,6) by (simp add: signatureOf_def collides_def keyedHex_def signedText_def)
  then have a: "amzDate now1 @ ?n # (scopeOf cf now1 @ ?n # e3_sha env (canonicalRequest m1 u1 h1 p1)) =
      amzDate now2 @ ?n # (scopeOf cf now2 @ ?n # e3_sha env (canonicalRequest m2 u2 h2 p2))"
    by (simp add: stringToSign_def)
  from split_first [OF this amzDate_plain amzDate_plain]
  have "scopeOf cf now1 @ ?n # e3_sha env (canonicalRequest m1 u1 h1 p1) =
      scopeOf cf now2 @ ?n # e3_sha env (canonicalRequest m2 u2 h2 p2)" by blast
  from split_first [OF this sc sc] assms(1)
  have "canonicalRequest m1 u1 h1 p1 = canonicalRequest m2 u2 h2 p2" by (simp add: collides_def)
  then show ?thesis by (rule canonical_unique [OF _ assms(4,5)])
qed

section \<open>What the store is asked\<close>

lemma overlay_headers: "map_of (fold (\<lambda>(h, v). putEnv h v) extra hs) h =
    (case map_of (rev extra) h of Some v \<Rightarrow> Some v | None \<Rightarrow> map_of hs h)"
proof (induction extra arbitrary: hs)
  case (Cons x extra)
  have p: "map_of (putEnv k v e) k' = (if k' = k then Some v else map_of e k')" for k v k' and e :: headers
    by (induction k v e rule: putEnv.induct) auto
  show ?case using Cons by (cases x) (auto simp: p map_add_def split: option.split)
qed simp

text \<open>Whatever is sent carries the hash of its payload under the signature, and removing what is not there succeeds.\<close>

lemma upload_hashes_payload:
  assumes "w3_files w path = Some content" and "upload env cf store now path key w = (r, w')"
  shows "\<exists>q. w3_sent w' = w3_sent w @ [q] \<and> rq3_body q = Some content \<and> w3_files w' = w3_files w \<and>
    map_of (rq3_headers q) ''x-amz-content-sha256'' = Some (e3_sha env content) \<and>
    (\<forall>x. r = Inr x \<longrightarrow> x = (key, length content))"
proof -
  have p: "map_of (putEnv k v e) k' = (if k' = k then Some v else map_of e k')" for k v k' and e :: headers
    by (induction k v e rule: putEnv.induct) auto
  show ?thesis using assms
    by (auto simp: upload_def andThen_def orThrow_def sign_def fetchS3_def require_def ret_def Let_def p requestHeaders_def
        overlay_headers split: sum.splits if_splits)
qed

lemma remove_missing:
  assumes "\<And>q. \<exists>res. store (w3_sent w) q = Inr res \<and> rs_status res = 404"
  shows "fst (remove env cf store now key w) = Inr ()"
  using assms [of "\<lparr>rq3_method = ''DELETE'', rq3_url = fst (sign env cf now ''DELETE'' key (e3_sha env []) []),
      rq3_headers = snd (sign env cf now ''DELETE'' key (e3_sha env []) []), rq3_body = None\<rparr>"]
  by (auto simp: remove_def andThen_def fetchS3_def require_def split: prod.split)

text \<open>A download is not checked against the hash it was uploaded with: what arrives is written.\<close>

lemma download_unchecked:
  assumes "store (w3_sent w) \<lparr>rq3_method = ''GET'', rq3_url = fst (sign env cf now ''GET'' key ''UNSIGNED-PAYLOAD'' []),
      rq3_headers = snd (sign env cf now ''GET'' key ''UNSIGNED-PAYLOAD'' []), rq3_body = None\<rparr> =
      Inr \<lparr>rs_status = 200, rs_text = [], rs_body = Some (content, True)\<rparr>"
  shows "\<exists>w'. download env cf store now key path w = (Inr (), w') \<and> w3_files w' path = Some content"
  using assms
  by (auto simp: download_def andThen_def fetchS3_def require_def ok3_def writeState_def ret_def split: prod.split)

end
