(* ===== verification/Worker.thy ===== *)
theory Worker
  imports Prelude
begin

text \<open>
  The locks of the worker, \<open>withLock\<close> in \<open>apps/worker/src/index.ts\<close>: \<open>SET NX EX\<close>, the
  pass, and the release, which reads the holder and deletes the key in two commands. The state is
  one lock in Redis with its clock and every run of the job in every replica; a replica may have
  several runs of one job when a pass outlives its interval.
\<close>

section \<open>States and steps\<close>

datatype runPhase =
  Waiting
| Running time \<comment> \<open>since\<close>
| Holding time bool \<comment> \<open>the pass is over; whether \<open>GET\<close> named this worker\<close>
| Ended

record lockState =
  lk_now :: time
  lk_lock :: "(ident \<times> time) option" \<comment> \<open>the holder, and when the key expires\<close>
  lk_run :: "nat \<Rightarrow> runPhase"

definition lockInit :: lockState where
  "lockInit = \<lparr>lk_now = 0, lk_lock = None, lk_run = (\<lambda>_. Waiting)\<rparr>"

text \<open>Time passes; a key past its expiry is gone.\<close>

definition pass :: "time \<Rightarrow> lockState \<Rightarrow> lockState" where
  "pass d s = s\<lparr>lk_now := lk_now s + d,
     lk_lock := (case lk_lock s of Some (w, e) \<Rightarrow> if e \<le> lk_now s + d then None else Some (w, e) | None \<Rightarrow> None)\<rparr>"

definition setPhase :: "nat \<Rightarrow> runPhase \<Rightarrow> lockState \<Rightarrow> lockState" where
  "setPhase r p s = s\<lparr>lk_run := (lk_run s)(r := p)\<rparr>"

text \<open>\<open>SET key WORKER_ID EX ttl NX\<close>\<close>

definition acquire :: "(nat \<Rightarrow> ident) \<Rightarrow> time \<Rightarrow> nat \<Rightarrow> lockState \<Rightarrow> lockState" where
  "acquire worker ttl r s =
     (if lk_lock s = None
      then setPhase r (Running (lk_now s)) (s\<lparr>lk_lock := Some (worker r, lk_now s + ttl)\<rparr>)
      else setPhase r Ended s)"

text \<open>The two commands of the \<open>finally\<close> block.\<close>

definition getHolder :: "(nat \<Rightarrow> ident) \<Rightarrow> nat \<Rightarrow> time \<Rightarrow> lockState \<Rightarrow> lockState" where
  "getHolder worker r since s = setPhase r (Holding since (map_option fst (lk_lock s) = Some (worker r))) s"

definition release :: "nat \<Rightarrow> bool \<Rightarrow> lockState \<Rightarrow> lockState" where
  "release r mine s = setPhase r Ended (if mine then s\<lparr>lk_lock := None\<rparr> else s)"

inductive lockStep :: "(nat \<Rightarrow> ident) \<Rightarrow> time \<Rightarrow> lockState \<Rightarrow> lockState \<Rightarrow> bool" for worker ttl where
  Pass: "0 \<le> d \<Longrightarrow> lockStep worker ttl s (pass d s)"
| Acquire: "lk_run s r = Waiting \<Longrightarrow> lockStep worker ttl s (acquire worker ttl r s)"
| GetHolder: "lk_run s r = Running since \<Longrightarrow> lockStep worker ttl s (getHolder worker r since s)"
| Release: "lk_run s r = Holding since mine \<Longrightarrow> lockStep worker ttl s (release r mine s)"

inductive_cases lockStepE: "lockStep worker ttl s t"

inductive_simps lockStep_iff: "lockStep worker ttl s t"

section \<open>Mutual exclusion\<close>

text \<open>A run is active from the moment it holds the lock until it has released it.\<close>

definition activeSince :: "nat \<Rightarrow> lockState \<Rightarrow> time option" where
  "activeSince r s = (case lk_run s r of Running t \<Rightarrow> Some t | Holding t _ \<Rightarrow> Some t | _ \<Rightarrow> None)"

text \<open>Every run releases before its lock expires.\<close>

definition prompt :: "time \<Rightarrow> lockState \<Rightarrow> bool" where
  "prompt ttl s \<longleftrightarrow> (\<forall>r t. activeSince r s = Some t \<longrightarrow> lk_now s < t + ttl)"

definition exclusive :: "(nat \<Rightarrow> ident) \<Rightarrow> time \<Rightarrow> lockState \<Rightarrow> bool" where
  "exclusive worker ttl s \<longleftrightarrow> (\<forall>r t. activeSince r s = Some t \<longrightarrow> lk_lock s = Some (worker r, t + ttl) \<and>
     (\<forall>r'. activeSince r' s \<noteq> None \<longrightarrow> r' = r))"

lemmas lock_defs = pass_def setPhase_def acquire_def getHolder_def release_def activeSince_def

lemma active_setPhase: "activeSince q (setPhase r p s) = (if q = r then (case p of Running t \<Rightarrow> Some t | Holding t _ \<Rightarrow> Some t | _ \<Rightarrow> None) else activeSince q s)"
  by (simp add: lock_defs)

lemma active_lock [simp]: "activeSince q (s\<lparr>lk_lock := l\<rparr>) = activeSince q s"
  by (simp add: activeSince_def)

lemma exclusive_step:
  assumes "lockStep worker ttl s t" and "exclusive worker ttl s" and "prompt ttl t"
  shows "exclusive worker ttl t"
  using assms(1)
proof cases
  case (Pass d)
  have same: "activeSince q t = activeSince q s" for q by (simp add: Pass lock_defs)
  have "lk_lock t = lk_lock s" if "activeSince r s = Some b" for r b
    using that assms(2,3) same [of r] unfolding exclusive_def prompt_def Pass
    by (force simp: pass_def)
  then show ?thesis using assms(2) same by (simp add: exclusive_def)
next
  case (Acquire r)
  show ?thesis
  proof (cases "lk_lock s")
    case None
    then have "activeSince q s = None" for q using assms(2) by (cases "activeSince q s") (auto simp: exclusive_def)
    then show ?thesis using None by (simp add: Acquire acquire_def exclusive_def active_setPhase) (simp add: setPhase_def)
  next
    case (Some l)
    then have "activeSince q t = activeSince q s" for q using Acquire by (simp add: acquire_def active_setPhase) (simp add: activeSince_def)
    moreover have "lk_lock t = lk_lock s" using Some Acquire by (simp add: acquire_def setPhase_def)
    ultimately show ?thesis using assms(2) by (simp add: exclusive_def)
  qed
next
  case (GetHolder r since)
  then have "activeSince q t = activeSince q s" for q by (simp add: getHolder_def active_setPhase) (simp add: activeSince_def)
  moreover have "lk_lock t = lk_lock s" using GetHolder by (simp add: getHolder_def setPhase_def)
  ultimately show ?thesis using assms(2) by (simp add: exclusive_def)
next
  case (Release r since mine)
  have "activeSince r s = Some since" using Release by (simp add: activeSince_def)
  then have "activeSince q s = None" if "q \<noteq> r" for q using assms(2) that unfolding exclusive_def by blast
  then show ?thesis using Release by (simp add: exclusive_def release_def active_setPhase)
qed

lemma exclusive_run:
  "(\<lambda>s t. lockStep worker ttl s t \<and> prompt ttl t)\<^sup>*\<^sup>* lockInit s \<Longrightarrow> exclusive worker ttl s"
proof (induction rule: rtranclp_induct)
  case base
  show ?case by (simp add: exclusive_def activeSince_def lockInit_def)
qed (auto intro: exclusive_step)

text \<open>C28. Two replicas never run one job at the same time, as long as every pass and its release end before
  the lock expires.\<close>

theorem jobs_exclusive:
  assumes "(\<lambda>s t. lockStep worker ttl s t \<and> prompt ttl t)\<^sup>*\<^sup>* lockInit s"
    and "activeSince p s \<noteq> None" and "activeSince q s \<noteq> None"
  shows "p = q"
  using exclusive_run [OF assms(1)] assms(2,3) unfolding exclusive_def by (metis not_None_eq)

text \<open>
  Without that, the release of a slow pass may free the lock of its successor, although the comment in
  the source says it must not: the key expires between the two commands. Run 0 of worker A reads
  its own name, the key expires, run 1 of worker B takes the lock, run 0 deletes it, and run 2 of
  worker C starts while run 1 is running.
\<close>

definition abc :: "nat \<Rightarrow> ident" where
  "abc r = [CHR ''A'', CHR ''B'', CHR ''C''] ! r # []"

lemma slow_release_frees_successor:
  defines "s \<equiv> acquire abc 10 2 (release 0 True (acquire abc 10 1 (pass 2 (getHolder abc 0 0 (pass 9 (acquire abc 10 0 lockInit))))))"
  shows "(lockStep abc 10)\<^sup>*\<^sup>* lockInit s \<and> activeSince 1 s \<noteq> None \<and> activeSince 2 s \<noteq> None"
proof -
  let ?s1 = "acquire abc 10 0 lockInit"
  let ?s2 = "getHolder abc 0 0 (pass 9 ?s1)"
  let ?s3 = "acquire abc 10 1 (pass 2 ?s2)"
  note run = rtranclp.rtrancl_into_rtrancl
  have later: "lockStep abc 10 x (pass d x)" if "0 \<le> d" for d x using that by (rule Pass)
  have 1: "(lockStep abc 10)\<^sup>*\<^sup>* lockInit ?s1" by (rule r_into_rtranclp, rule Acquire) (simp add: lockInit_def)
  have 2: "(lockStep abc 10)\<^sup>*\<^sup>* lockInit ?s2"
    by (rule run [OF run [OF 1 later [of 9]]], simp, rule GetHolder) (simp add: lock_defs lockInit_def)
  have 3: "(lockStep abc 10)\<^sup>*\<^sup>* lockInit ?s3"
    by (rule run [OF run [OF 2 later [of 2]]], simp, rule Acquire) (simp add: lock_defs lockInit_def)
  have 4: "(lockStep abc 10)\<^sup>*\<^sup>* lockInit (release 0 True ?s3)"
    by (rule run [OF 3], rule Release) (simp add: lock_defs lockInit_def abc_def)
  have 5: "(lockStep abc 10)\<^sup>*\<^sup>* lockInit s"
    unfolding s_def by (rule run [OF 4], rule Acquire) (simp add: lock_defs lockInit_def abc_def)
  have "activeSince 1 s \<noteq> None" "activeSince 2 s \<noteq> None"
    by (simp_all add: s_def lock_defs lockInit_def abc_def)
  with 5 show ?thesis by blast
qed

theorem jobs_exclusive_witness:
  "activeSince 0 (acquire abc 10 0 lockInit) = Some 0 \<and> \<not> activeSince 1 (acquire abc 10 0 lockInit) \<noteq> None"
proof -
  let ?s = "acquire abc 10 0 lockInit"
  have "lockStep abc 10 lockInit ?s" by (rule Acquire) (simp add: lockInit_def)
  moreover have "prompt 10 ?s" by (auto simp: prompt_def lock_defs lockInit_def split: if_splits)
  ultimately have run: "(\<lambda>s t. lockStep abc 10 s t \<and> prompt 10 t)\<^sup>*\<^sup>* lockInit ?s" by blast
  have a: "activeSince 0 ?s = Some 0" by (simp add: lock_defs lockInit_def)
  have "activeSince 1 ?s = None"
  proof (rule ccontr)
    assume "activeSince 1 ?s \<noteq> None"
    from jobs_exclusive [OF run _ this, of 0] show False using a by simp
  qed
  with a show ?thesis by simp
qed

end
