(* ===== verification/Boot.thy ===== *)
theory Boot
  imports Admin AgentRuntime Worker Mods
begin

text \<open>
  How the parts start and stop: the seed of the database (\<open>prisma/seed.ts\<close>), the agent's configuration, the
  figures of its heartbeat and its shutdown (\<open>apps/agent/src/index.ts\<close>), and the timetable of the worker
  (\<open>apps/worker/src/index.ts\<close>).
\<close>

section \<open>The seed\<close>

record SeedEnv =
  sd_email :: "string option"
  sd_password :: "string option"
  sd_hash :: "string \<Rightarrow> string"
  sd_id :: "string \<Rightarrow> ident"

definition adminEmail :: "SeedEnv \<Rightarrow> string" where
  "adminEmail env = orDefault ''admin@dashlith.com'' (sd_email env)"

definition seedAdmin :: "SeedEnv \<Rightarrow> string \<Rightarrow> db \<Rightarrow> db" where
  "seedAdmin env password s =
     (if \<exists>u \<in> set (users s). u_email u = adminEmail env then s
      else s\<lparr>users := users s @ [\<lparr>u_id = sd_id env ''admin'', u_email = adminEmail env,
        u_passwordHash = sd_hash env password, u_displayName = ''Administrator'', u_role = ADMIN\<rparr>]\<rparr>)"

definition seedVariable :: "string \<Rightarrow> string \<Rightarrow> string \<Rightarrow> bool \<Rightarrow> TemplateVariable" where
  "seedVariable key label value editable = \<lparr>v_key = key, v_label = label, v_default = Some value, v_editable = Some editable\<rparr>"

definition seedTemplates :: "SeedEnv \<Rightarrow> GameTemplate list" where
  "seedTemplates env =
     [\<lparr>t_id = sd_id env ''minecraft-java'', t_key = ''minecraft-java'', t_name = ''Minecraft: Java Edition'',
        t_dockerImage = ''itzg/minecraft-server:java21'', t_startCommand = ''/start'', t_stopCommand = ''stop'',
        t_variables = [seedVariable ''EULA'' ''Accept the Minecraft EULA'' ''TRUE'' False,
          seedVariable ''VERSION'' ''Game version'' ''1.21.1'' True, seedVariable ''TYPE'' ''Server software'' ''PAPER'' True,
          seedVariable ''MEMORY'' ''Heap size'' [] False]\<rparr>,
      \<lparr>t_id = sd_id env ''minecraft-bedrock'', t_key = ''minecraft-bedrock'', t_name = ''Minecraft: Bedrock Edition'',
        t_dockerImage = ''itzg/minecraft-bedrock-server:latest'', t_startCommand = ''/opt/bedrock-entry.sh'',
        t_stopCommand = ''stop'',
        t_variables = [seedVariable ''EULA'' ''Accept the Minecraft EULA'' ''TRUE'' False,
          seedVariable ''GAMEMODE'' ''Default game mode'' ''survival'' True]\<rparr>]"

text \<open>\<open>upsert\<close>: what is there gets the new name and image, and keeps the rest.\<close>

definition upsertTemplate :: "GameTemplate \<Rightarrow> GameTemplate list \<Rightarrow> GameTemplate list" where
  "upsertTemplate t rows =
     (if \<exists>r \<in> set rows. t_key r = t_key t
      then updateWhere (\<lambda>r. t_key r = t_key t) (\<lambda>r. r\<lparr>t_name := t_name t, t_dockerImage := t_dockerImage t\<rparr>) rows
      else rows @ [t])"

definition seedPlan :: "SeedEnv \<Rightarrow> ident \<Rightarrow> string \<Rightarrow> int \<Rightarrow> int \<Rightarrow> rat \<Rightarrow> int \<Rightarrow> int \<Rightarrow> int \<Rightarrow> Plan" where
  "seedPlan env templateId name mem disk cpu backup dbs price = \<lparr>p_id = sd_id env name, p_name = name, p_memoryMb = mem,
     p_diskMb = disk, p_cpuCores = cpu, p_backupMb = backup, p_databaseLimit = dbs, p_allocationLimit = 1,
     p_monthlyPriceCents = price, p_currency = ''USD'', p_templateId = Some templateId, p_visible = True\<rparr>"

definition seedPlans :: "SeedEnv \<Rightarrow> ident \<Rightarrow> Plan list" where
  "seedPlans env t =
     [seedPlan env t ''Sapling'' 2048 10240 1 5120 1 500, seedPlan env t ''Thicket'' 4096 25600 2 20480 2 1000,
      seedPlan env t ''Old Growth'' 8192 51200 4 51200 4 2000]"

definition ensurePlan :: "Plan \<Rightarrow> Plan list \<Rightarrow> Plan list" where
  "ensurePlan p rows = (if \<exists>r \<in> set rows. p_name r = p_name p then rows else rows @ [p])"

definition seed :: "SeedEnv \<Rightarrow> unit act" where
  "seed env =
     andThen (orThrow (Error ''Set SEED_ADMIN_PASSWORD before seeding.'')
       (\<lambda>_. if sd_password env = Some [] then None else sd_password env)) (\<lambda>password.
     andThen (writeState (seedAdmin env password)) (\<lambda>_.
     andThen (writeState (\<lambda>s. s\<lparr>templates := fold upsertTemplate (seedTemplates env) (templates s)\<rparr>)) (\<lambda>_.
     andThen (orThrow (NotFoundError ''GameTemplate'')
       (\<lambda>s. List.find (\<lambda>t. t_key t = ''minecraft-java'') (templates s))) (\<lambda>java.
     writeState (\<lambda>s. s\<lparr>plans := fold ensurePlan (seedPlans env (t_id java)) (plans s)\<rparr>)))))"

definition templateSeeded :: "GameTemplate list \<Rightarrow> GameTemplate \<Rightarrow> bool" where
  "templateSeeded rows t \<longleftrightarrow> (\<exists>r \<in> set rows. t_key r = t_key t) \<and>
     (\<forall>r \<in> set rows. t_key r = t_key t \<longrightarrow> t_name r = t_name t \<and> t_dockerImage r = t_dockerImage t)"

lemma upsert_seeds: "templateSeeded (upsertTemplate t rows) t"
proof (cases "\<exists>r \<in> set rows. t_key r = t_key t")
  case True
  then obtain r where "r \<in> set rows" "t_key r = t_key t" by blast
  then have "r\<lparr>t_name := t_name t, t_dockerImage := t_dockerImage t\<rparr> \<in> set (upsertTemplate t rows)"
    by (auto simp: upsertTemplate_def set_updateWhere)
  moreover have "t_key (r\<lparr>t_name := t_name t, t_dockerImage := t_dockerImage t\<rparr>) = t_key t" using \<open>t_key r = t_key t\<close> by simp
  ultimately have "\<exists>r \<in> set (upsertTemplate t rows). t_key r = t_key t" by (rule bexI [rotated])
  then show ?thesis using True by (auto simp: templateSeeded_def upsertTemplate_def set_updateWhere)
qed (auto simp: templateSeeded_def upsertTemplate_def)

lemma upsert_keeps: "t_key u \<noteq> t_key t \<Longrightarrow> templateSeeded rows u \<Longrightarrow> templateSeeded (upsertTemplate t rows) u"
  by (auto simp: templateSeeded_def upsertTemplate_def set_updateWhere)

lemma upsert_idle: "templateSeeded rows t \<Longrightarrow> upsertTemplate t rows = rows"
  by (auto simp: templateSeeded_def upsertTemplate_def intro!: updateWhere_cong_id)

lemma templates_seeded:
  "distinct (map t_key ts) \<Longrightarrow> t \<in> set ts \<Longrightarrow> templateSeeded (fold upsertTemplate ts rows) t"
proof (induction ts arbitrary: rows rule: rev_induct)
  case (snoc u ts)
  show ?case
  proof (cases "t = u")
    case False
    then have t: "t \<in> set ts" using snoc.prems(2) by simp
    then have "t_key t \<in> t_key ` set ts" by simp
    then have "t_key t \<noteq> t_key u" using snoc.prems(1) by auto
    then show ?thesis using snoc.IH snoc.prems(1) t by (simp add: upsert_keeps)
  qed (simp add: upsert_seeds)
qed simp

lemma templates_idle: "(\<And>t. t \<in> set ts \<Longrightarrow> templateSeeded rows t) \<Longrightarrow> fold upsertTemplate ts rows = rows"
  by (induction ts) (simp_all add: upsert_idle)

lemma ensurePlan_there: "r \<in> set rows \<Longrightarrow> r \<in> set (fold ensurePlan ps rows)"
  by (induction ps arbitrary: rows) (simp_all add: ensurePlan_def)

lemma plans_there: "p \<in> set ps \<Longrightarrow> \<exists>r \<in> set (fold ensurePlan ps rows). p_name r = p_name p"
proof (induction ps arbitrary: rows)
  case (Cons q ps)
  show ?case
  proof (cases "p = q")
    case True
    have "\<exists>r \<in> set (ensurePlan p rows). p_name r = p_name p" by (auto simp: ensurePlan_def)
    then show ?thesis using True ensurePlan_there by fastforce
  next
    case False
    then show ?thesis using Cons by simp
  qed
qed simp

lemma plans_idle: "(\<And>p. p \<in> set ps \<Longrightarrow> \<exists>r \<in> set rows. p_name r = p_name p) \<Longrightarrow> fold ensurePlan ps rows = rows"
  by (induction ps) (auto simp: ensurePlan_def)

lemma templates_same: "t\<lparr>templates := templates t\<rparr> = t" by (cases t) simp

lemma plans_same: "t\<lparr>plans := plans t\<rparr> = t" by (cases t) simp

lemma seed_keys: "distinct (map t_key (seedTemplates env))"
  by (simp add: seedTemplates_def)

lemma seed_result:
  assumes "seed env s = (Inr (), t)"
  shows "\<exists>password java. sd_password env = Some password \<and> password \<noteq> [] \<and> users t = users (seedAdmin env password s) \<and>
    templates t = fold upsertTemplate (seedTemplates env) (templates s) \<and>
    plans t = fold ensurePlan (seedPlans env java) (plans s)"
  using assms
  by (auto simp: seed_def andThen_ok orThrow_def writeState_def seedAdmin_def split: option.splits if_splits)

text \<open>Seeding can be repeated: a second run changes nothing. After it there is an administrator's account to sign in
  with, or one with that address was there before.\<close>

theorem seed_repeatable:
  assumes "seed env s = (Inr (), t)"
  shows "seed env t = (Inr (), t) \<and> (\<exists>u \<in> set (users t). u_email u = adminEmail env \<and> (u_role u = ADMIN \<or> u \<in> set (users s)))"
proof -
  obtain password java where r: "sd_password env = Some password" "password \<noteq> []"
    "users t = users (seedAdmin env password s)"
    "templates t = fold upsertTemplate (seedTemplates env) (templates s)" "plans t = fold ensurePlan (seedPlans env java) (plans s)"
    using seed_result [OF assms] by blast
  have u: "\<exists>u \<in> set (users t). u_email u = adminEmail env \<and> (u_role u = ADMIN \<or> u \<in> set (users s))"
    by (auto simp: r(3) seedAdmin_def)
  then have a: "seedAdmin env password t = t" by (auto simp: seedAdmin_def)
  have tm: "templateSeeded (templates t) x" if "x \<in> set (seedTemplates env)" for x
    using templates_seeded [OF seed_keys that] by (simp add: r(4))
  have b: "fold upsertTemplate (seedTemplates env) (templates t) = templates t"
    by (rule templates_idle) (rule tm)
  have "\<exists>x \<in> set (templates t). t_key x = ''minecraft-java''"
    using tm [of "hd (seedTemplates env)"] by (simp add: seedTemplates_def templateSeeded_def)
  then obtain j where j: "List.find (\<lambda>t. t_key t = ''minecraft-java'') (templates t) = Some j"
    by (cases "List.find (\<lambda>t. t_key t = ''minecraft-java'') (templates t)") (auto simp: find_None_iff)
  have "\<exists>x \<in> set (plans t). p_name x = p_name p" if "p \<in> set (seedPlans env i)" for p i
  proof -
    have "map p_name (seedPlans env i) = map p_name (seedPlans env java)" by (simp add: seedPlans_def seedPlan_def)
    then have "p_name p \<in> p_name ` set (seedPlans env java)" using that by (metis image_eqI set_map)
    then obtain q where "q \<in> set (seedPlans env java)" "p_name q = p_name p" by auto
    then show ?thesis using plans_there [of q "seedPlans env java" "plans s"] by (auto simp: r(5))
  qed
  then have c: "fold ensurePlan (seedPlans env i) (plans t) = plans t" for i by (rule plans_idle)
  have 1: "orThrow e (\<lambda>_. if sd_password env = Some [] then None else sd_password env) t = (Inr password, t)" for e
    using r(1,2) by (simp add: orThrow_def)
  have 2: "writeState (seedAdmin env password) t = (Inr (), t)" by (simp add: writeState_def a)
  have 3: "writeState (\<lambda>s. s\<lparr>templates := fold upsertTemplate (seedTemplates env) (templates s)\<rparr>) t = (Inr (), t)"
    by (simp only: writeState_def b templates_same)
  have 4: "orThrow e (\<lambda>s. List.find (\<lambda>t. t_key t = ''minecraft-java'') (templates s)) t = (Inr j, t)" for e
    by (simp only: orThrow_def j) simp
  have 5: "writeState (\<lambda>s. s\<lparr>plans := fold ensurePlan (seedPlans env (t_id j)) (plans s)\<rparr>) t = (Inr (), t)"
    by (simp only: writeState_def c plans_same)
  have "seed env t = (Inr (), t)"
    by (simp only: seed_def andThen_def 1 2 3 4 5 prod.case sum.case)
  then show ?thesis using u by blast
qed

section \<open>The agent's configuration\<close>

text \<open>\<open>process.env\<close> is a map; \<open>process.exit(1)\<close> is \<open>None\<close>.\<close>

definition requireEnv :: "(string \<rightharpoonup> string) \<Rightarrow> string \<Rightarrow> string option" where
  "requireEnv env key = (if env key = Some [] then None else env key)"

record AgentConfig =
  PANEL_URL :: string
  NODE_ID :: string
  TOKEN :: string
  DATA_ROOT :: string

definition agentConfig :: "(string \<rightharpoonup> string) \<Rightarrow> AgentConfig option" where
  "agentConfig env = (case requireEnv env ''DEERS_PANEL_URL'' of None \<Rightarrow> None | Some url \<Rightarrow>
     (case requireEnv env ''DEERS_NODE_ID'' of None \<Rightarrow> None | Some node \<Rightarrow>
     (case requireEnv env ''DEERS_NODE_TOKEN'' of None \<Rightarrow> None | Some token \<Rightarrow>
      Some \<lparr>PANEL_URL = url, NODE_ID = node, TOKEN = token,
        DATA_ROOT = orDefault ''/var/lib/deers/servers'' (env ''DEERS_DATA_ROOT'')\<rparr>)))"

text \<open>The address dialled loses one slash at its end; the certificate is checked unless the operator said otherwise.\<close>

definition connectUrl :: "AgentConfig \<Rightarrow> string" where
  "connectUrl c = (if PANEL_URL c \<noteq> [] \<and> last (PANEL_URL c) = CHR ''/'' then butlast (PANEL_URL c) else PANEL_URL c)"

definition rejectUnauthorized :: "(string \<rightharpoonup> string) \<Rightarrow> bool" where
  "rejectUnauthorized env \<longleftrightarrow> env ''DEERS_INSECURE_TLS'' \<noteq> Some ''true''"

lemma agentConfig_complete: "agentConfig env = Some c \<Longrightarrow> PANEL_URL c \<noteq> [] \<and> NODE_ID c \<noteq> [] \<and> TOKEN c \<noteq> []"
  by (auto simp: agentConfig_def requireEnv_def split: option.splits if_splits)

section \<open>The figures of a heartbeat\<close>

text \<open>What \<open>node:os\<close> and \<open>statfs\<close> answer, in bytes; a failing \<open>statfs\<close> is \<open>None\<close>.\<close>

record OsFigures =
  os_cpus :: "cpuTimes list"
  os_totalmem :: int
  os_freemem :: int
  os_loadavg :: "rat \<times> rat \<times> rat"
  os_uptime :: rat
  os_platform :: string
  os_arch :: string
  fs_stat :: "(int \<times> int \<times> int) option" \<comment> \<open>blocks, block size, available blocks\<close>

record NodeStats =
  ns_cpuPercent :: rat
  ns_memoryUsedMb :: int
  ns_memoryTotalMb :: int
  ns_diskUsedMb :: int
  ns_diskTotalMb :: int
  ns_loadAvg :: "rat \<times> rat \<times> rat"
  ns_uptimeSeconds :: int

definition toMb :: "int \<Rightarrow> int" where
  "toMb bytes = mathRound (of_int bytes / 1024 / 1024)"

text \<open>The new processor counters take the place of those remembered.\<close>

definition collectStats :: "OsFigures \<Rightarrow> cpuTimes list \<Rightarrow> NodeStats \<times> cpuTimes list" where
  "collectStats os lastCpu =
     (let diskTotal = (case fs_stat os of None \<Rightarrow> 0 | Some (blocks, bsize, avail) \<Rightarrow> toMb (blocks * bsize));
          diskFree = (case fs_stat os of None \<Rightarrow> 0 | Some (blocks, bsize, avail) \<Rightarrow> toMb (avail * bsize))
      in (\<lparr>ns_cpuPercent = toFixed2 (nodeCpuPercent lastCpu (os_cpus os)),
           ns_memoryUsedMb = toMb (os_totalmem os - os_freemem os), ns_memoryTotalMb = toMb (os_totalmem os),
           ns_diskUsedMb = diskTotal - diskFree, ns_diskTotalMb = diskTotal, ns_loadAvg = os_loadavg os,
           ns_uptimeSeconds = \<lfloor>os_uptime os\<rfloor>\<rparr>, os_cpus os))"

record SystemInfo =
  si_platform :: string
  si_arch :: string
  si_cpuCores :: nat
  si_totalMemoryMb :: int
  si_totalDiskMb :: int
  si_dockerVersion :: "string option"

definition describeSystem :: "OsFigures \<Rightarrow> string option \<Rightarrow> cpuTimes list \<Rightarrow> SystemInfo \<times> cpuTimes list" where
  "describeSystem os dockerStdout lastCpu =
     (case collectStats os lastCpu of (st, cpus) \<Rightarrow>
       (\<lparr>si_platform = os_platform os, si_arch = os_arch os, si_cpuCores = length (os_cpus os),
         si_totalMemoryMb = ns_memoryTotalMb st, si_totalDiskMb = ns_diskTotalMb st,
         si_dockerVersion = map_option trim dockerStdout\<rparr>, cpus))"

lemma toMb_mono: "a \<le> b \<Longrightarrow> toMb a \<le> toMb b"
  by (simp add: toMb_def mathRound_def floor_mono divide_right_mono)

lemma toFixed2_range: "0 \<le> x \<Longrightarrow> x \<le> 100 \<Longrightarrow> 0 \<le> toFixed2 x \<and> toFixed2 x \<le> 100"
proof -
  assume x: "0 \<le> x" "x \<le> 100"
  then have "\<lfloor>x * 100 + 1 / 2\<rfloor> \<le> 10000" by (simp add: floor_le_iff)
  then have "(of_int \<lfloor>x * 100 + 1 / 2\<rfloor> :: rat) \<le> 10000" by (simp add: of_int_le_iff [of _ 10000, simplified])
  then show ?thesis using x by (simp add: toFixed2_def)
qed

text \<open>The figures of a heartbeat are sane: when the kernel's counters only grow and no more is free than there is,
  the processor figure is a percentage, and no more memory or disk is in use than there is.\<close>

theorem stats_sane:
  assumes "\<forall>x \<in> set (zip lastCpu (os_cpus os)). countersGrow x" and "0 \<le> os_freemem os" and "os_freemem os \<le> os_totalmem os"
    and "\<And>blocks bsize avail. fs_stat os = Some (blocks, bsize, avail) \<Longrightarrow> 0 \<le> bsize \<and> 0 \<le> avail \<and> avail \<le> blocks"
    and "collectStats os lastCpu = (st, cpus)"
  shows "0 \<le> ns_cpuPercent st \<and> ns_cpuPercent st \<le> 100 \<and> 0 \<le> ns_memoryUsedMb st \<and> ns_memoryUsedMb st \<le> ns_memoryTotalMb st \<and>
    0 \<le> ns_diskUsedMb st \<and> ns_diskUsedMb st \<le> ns_diskTotalMb st"
proof -
  have c: "0 \<le> nodeCpuPercent lastCpu (os_cpus os)" "nodeCpuPercent lastCpu (os_cpus os) \<le> 100"
    using cpu_percent_bounds [OF assms(1)] by simp_all
  have z: "0 \<le> toMb n" if "0 \<le> n" for n using that by (simp add: toMb_def mathRound_def)
  have d: "toMb (a * b) \<le> toMb (c * b)" if "0 \<le> b" "a \<le> c" for a b c :: int
    using that by (intro toMb_mono mult_right_mono)
  show ?thesis
    using assms(2-5) toFixed2_range [OF c] z [of "os_totalmem os - os_freemem os"] toMb_mono [of "os_totalmem os - os_freemem os" "os_totalmem os"]
    by (auto simp: collectStats_def Let_def d z split: option.splits)
qed

section \<open>The worker's timetable\<close>

text \<open>\<open>every(ms, () => withLock(name, ttl, pass))\<close>: each pass with its interval in milliseconds and the lifetime of
  its lock in seconds.\<close>

datatype workerPass = SampleMetrics | ScheduledBackups | ReconcileFleet | EvaluateAlerts | CompactMetrics | BillingCycle

definition timetable :: "(int \<times> string \<times> nat \<times> workerPass) list" where
  "timetable =
     [(60000, ''metrics.sample'', 55, SampleMetrics), (60000, ''backups.scheduled'', 300, ScheduledBackups),
      (5 * 60000, ''fleet.reconcile'', 240, ReconcileFleet), (3 * 60000, ''alerts.evaluate'', 150, EvaluateAlerts),
      (60 * 60000, ''metrics.compact'', 3000, CompactMetrics), (60 * 60000, ''billing.cycle'', 3000, BillingCycle)]"

text \<open>\<open>every\<close>: a tick at once, then one per interval.\<close>

definition ticks :: "int \<Rightarrow> int \<Rightarrow> nat \<Rightarrow> int list" where
  "ticks start ms n = map (\<lambda>k. start + int k * ms) [0..<n]"

text \<open>A pass whose process died holds its lock up to the next tick but not past it, except the scheduled backups:
  their lock outlives four ticks.\<close>

lemma locks_free_in_time:
  "(ms, nm, ttl, p) \<in> set timetable \<Longrightarrow> int ttl * 1000 < ms \<or> nm = ''backups.scheduled'' \<and> int ttl * 1000 = 5 * ms"
  by (auto simp: timetable_def)

end
