(* ===== verification/BrowserScenarios.thy ===== *)
theory BrowserScenarios
  imports AdminScenarios Editors S3 Boot
begin

text \<open>
  The properties of the listings, the pages, the client components, the object store and the seed applied at concrete
  inputs.
\<close>

section \<open>The audit trail\<close>

definition sampleLog :: "string \<Rightarrow> time \<Rightarrow> LogRow" where
  "sampleLog k t = \<lparr>au_actorId = None, au_action = ''server.start'', au_targetType = ''server'', au_targetId = ''s1'',
     lr_id = k, lr_createdAt = t\<rparr>"

definition sampleQuery :: LogQuery where
  "sampleQuery = \<lparr>lq_action = ''server.'', lq_targetId = [], lq_cursor = [], lq_limit = Some 1\<rparr>"


section \<open>Pages\<close>

theorem pages_agree_with_routes_witness:
  "\<not> redirected (startupPage sampleAuth ''s1'' signedIn) \<and> \<not> redirected (serverPage sampleAuth ''s1'' signedIn) \<and>
    ''s1'' \<in> s_id ` set (listedServers (hd (users sampleDb)) signedIn)"
proof -
  have g: "grantsOk signedIn" "uniqueOn (\<lambda>x. (sub_serverId x, sub_userId x)) (subusers signedIn)"
    by (simp_all add: grantsOk_def uniqueOn_def signed_in)
  have u: "uniqueOn s_id (servers signedIn)" by (simp add: uniqueOn_def scenario_defs)
  have "mayPass sampleAuth ''s1'' Settings_write signedIn" by (simp add: mayPass_def access_rule_witness)
  moreover have "u_role (hd (users sampleDb)) \<noteq> ADMIN" by (simp add: scenario_defs)
  ultimately show ?thesis
    using pages_agree_with_routes [OF g u, of sampleAuth "''s1''" Settings_write "hd (users sampleDb)"] signed_in(1) by blast
qed

theorem shop_follows_scheduler_witness:
  "''test'' \<in> set (offeredLocations sampleDb) \<and> freeToSell sampleReserved = freeToSell sampleDb - 2048"
  using shop_follows_scheduler [OF sample_unique(1) sample_fleetSound sample_amount sample_reserve]
  by (simp add: sample_defs)

definition sampleVariables :: "TemplateVariable list" where
  "sampleVariables = [\<lparr>v_key = ''EULA'', v_label = ''EULA'', v_default = Some ''TRUE'', v_editable = Some False\<rparr>,
     \<lparr>v_key = ''VERSION'', v_label = ''Game version'', v_default = Some ''1.21'', v_editable = Some True\<rparr>]"

definition configurable :: db where
  "configurable = signedIn\<lparr>templates := [sampleTemplate\<lparr>t_variables := sampleVariables\<rparr>]\<rparr>"

lemma configurable_fields: "getSessionUser sampleAuth configurable = Some (hd (users sampleDb))"
  "findServer ''s1'' configurable = Some sampleServer" "s_ownerId sampleServer = u_id (hd (users sampleDb))"
  "findTemplate (s_templateId sampleServer) configurable = Some (sampleTemplate\<lparr>t_variables := sampleVariables\<rparr>)"
  "subusers configurable = []"
  by (simp_all add: getSessionUser_def sessionToken_def find_defs configurable_def scenario_defs)

lemma configurable_shown: "startupPage sampleAuth ''s1'' configurable =
    Render [\<lparr>vv_key = ''VERSION'', vv_label = ''Game version'', vv_value = ''1.21''\<rparr>]"
  by (simp add: startupPage_def ownerPage_def withUser_def orFail_def configurable_fields)
     (simp add: shownVariables_def sampleVariables_def variableView_def orDefault_def scenario_defs)

theorem startup_form_roundtrip_witness:
  "\<exists>t. startupPatch sampleAuth ''s1'' (Some [(''VERSION'', ''1.20'')]) configurable =
      (Inr (Response 200 ''Changes apply the next time the server starts.''), t) \<and>
    startupPage sampleAuth ''s1'' t = Render [\<lparr>vv_key = ''VERSION'', vv_label = ''Game version'', vv_value = ''1.20''\<rparr>]"
proof -
  have g: "grantsOk configurable" "uniqueOn (\<lambda>x. (sub_serverId x, sub_userId x)) (subusers configurable)"
    by (simp_all add: grantsOk_def uniqueOn_def configurable_fields)
  have "requireServerAccess sampleAuth ''s1'' Settings_write configurable = (Inr (hd (users sampleDb), sampleServer), configurable)"
    by (simp add: requireServerAccess_ok configurable_fields)
  from startup_only_editable [OF configurable_fields(2,4) this, of "[(''VERSION'', ''1.20'')]"]
  obtain t where t: "startupPatch sampleAuth ''s1'' (Some [(''VERSION'', ''1.20'')]) configurable =
      (Inr (Response 200 ''Changes apply the next time the server starts.''), t)" by auto
  have "distinct (map fst [(''VERSION'', ''1.20'')])" by simp
  from startup_form_roundtrip [OF configurable_shown g this t] t show ?thesis by simp
qed

section \<open>Components in the browser\<close>

definition fullBackups :: db where
  "fullBackups = signedIn\<lparr>plans := [samplePlan\<lparr>p_backupMb := 1\<rparr>], backups := [(sampleBackup ''b1'' 1)\<lparr>b_bytes := 1048576\<rparr>]\<rparr>"

theorem backup_button_matches_quota_witness:
  "\<exists>v. backupsPage sampleAuth ''s1'' fullBackups = Render v \<and> backupsFull v \<and>
    fst (createBackup backupAgent ''b9'' 5 ''s1'' ''x'' None fullBackups) = Inl (BackupQuotaError 1 1)"
proof -
  have "\<lfloor>3 / 2 :: rat\<rfloor> = 1" by (rule floor_unique) simp_all
  then have "\<exists>v. backupsPage sampleAuth ''s1'' fullBackups = Render v \<and> bv_usedMb v = 1 \<and> bv_limitMb v = 1"
    by (simp add: backupsPage_def ownerPage_def withUser_def orFail_def getSessionUser_def sessionToken_def find_defs
        usedMb_def fullBackups_def scenario_defs)
  then obtain v where v: "backupsPage sampleAuth ''s1'' fullBackups = Render v" "bv_usedMb v = 1" "bv_limitMb v = 1" by blast
  have f: "backupsFull v" using v(2,3) by (simp add: backupsFull_def)
  from backup_button_matches_quota [OF v(1), of backupAgent "''b9''" 5 "''x''" None] v f show ?thesis by auto
qed

definition sampleEntry :: FileEntry where
  "sampleEntry = \<lparr>fi_name = ''a'', fi_path = ''/a'', fi_directory = False, fi_sizeBytes = 1, fi_modifiedAt = 0, fi_mode = ''644''\<rparr>"


definition sampleForm :: SettingsForm where
  "sampleForm = \<lparr>sf_fields = [], sf_values = [], sf_original = [], sf_ready = False, sf_loading = True, sf_saving = False,
     sf_notice = None, sf_error = None\<rparr>"


section \<open>The object store\<close>

definition plainEnv :: S3Env where
  "plainEnv = \<lparr>e3_sha = id, e3_hmac = (\<lambda>k m. m), e3_hex = id, e3_parseUrl = (\<lambda>u. \<lparr>su_host = ''h'', su_pathname = u, su_href = u\<rparr>)\<rparr>"

definition sampleS3 :: S3Config where
  "sampleS3 = \<lparr>cf_endpoint = ''https://h'', cf_region = ''eu'', cf_bucket = ''b'', cf_accessKeyId = ''k'', cf_secretAccessKey = ''s''\<rparr>"

text \<open>The same request once more under another spelling of its address: what is signed is equal.\<close>

theorem signature_binds_witness:
  "sortedHeaders [(''host'', ''h''), (''a'', ''1'')] = sortedHeaders [(''a'', ''1''), (''host'', ''h'')]"
proof -
  let ?u = "\<lparr>su_host = ''h'', su_pathname = ''/b/x'', su_href = ''https://h/b/x''\<rparr>"
  let ?v = "\<lparr>su_host = ''h'', su_pathname = ''/b/x'', su_href = ''https://h:443/b/x''\<rparr>"
  let ?h = "[(''host'', ''h''), (''a'', ''1'')]" and ?k = "[(''a'', ''1''), (''host'', ''h'')]"
  have n: "sortedNames ?h = [''a'', ''host'']" "sortedNames ?k = [''a'', ''host'']" by code_simp+
  have e: "canonicalRequest ''GET'' ?u ?h ''p'' = canonicalRequest ''GET'' ?v ?k ''p''"
    by (simp add: canonicalRequest_def canonicalHeaders_def signedHeaders_def n headerValue_def)
  have p: "plainRequest ''GET'' ?u ?h" "plainRequest ''GET'' ?v ?k"
    by (simp_all add: plainRequest_def sortedHeaders_def n headerValue_def plainHeader_def)
  have "\<not> collides (e3_sha plainEnv) (canonicalRequest ''GET'' ?u ?h ''p'') (canonicalRequest ''GET'' ?v ?k ''p'')"
    "\<not> collides (keyedHex plainEnv) (signedText plainEnv sampleS3 0 ''GET'' ?u ?h ''p'')
       (signedText plainEnv sampleS3 0 ''GET'' ?v ?k ''p'')"
    "CHR 0x0A \<notin> set (cf_region sampleS3)"
    "signatureOf plainEnv sampleS3 0 ''GET'' ?u ?h ''p'' = signatureOf plainEnv sampleS3 0 ''GET'' ?v ?k ''p''"
    by (simp_all add: collides_def signedText_def signatureOf_def e) (simp add: sampleS3_def)
  from signature_binds [OF this(1-3) p this(4)] show ?thesis by blast
qed

section \<open>Starting up\<close>

definition sampleSeed :: SeedEnv where
  "sampleSeed = \<lparr>sd_email = None, sd_password = Some ''correct horse'', sd_hash = rev, sd_id = (\<lambda>k. ''id-'' @ k)\<rparr>"

theorem seed_repeatable_witness:
  "\<exists>t. seed sampleSeed emptyDb = (Inr (), t) \<and> seed sampleSeed t = (Inr (), t) \<and> length (plans t) = 3"
proof -
  have "\<exists>t. seed sampleSeed emptyDb = (Inr (), t) \<and> length (plans t) = 3"
    by (simp add: seed_def andThen_def orThrow_def writeState_def sampleSeed_def seedAdmin_def adminEmail_def orDefault_def
        seedTemplates_def upsertTemplate_def seedPlans_def seedPlan_def ensurePlan_def emptyDb_def)
  then obtain t where t: "seed sampleSeed emptyDb = (Inr (), t)" "length (plans t) = 3" by blast
  from seed_repeatable [OF t(1)] t show ?thesis by blast
qed

definition sampleFigures :: OsFigures where
  "sampleFigures = \<lparr>os_cpus = [], os_totalmem = 4294967296, os_freemem = 1073741824, os_loadavg = (0, 0, 0), os_uptime = 9 / 2,
     os_platform = ''linux'', os_arch = ''x64'', fs_stat = Some (1000000, 4096, 400000)\<rparr>"

theorem stats_sane_witness:
  "ns_memoryUsedMb (fst (collectStats sampleFigures [])) \<le> ns_memoryTotalMb (fst (collectStats sampleFigures [])) \<and>
   ns_diskUsedMb (fst (collectStats sampleFigures [])) \<le> ns_diskTotalMb (fst (collectStats sampleFigures []))"
proof -
  have "\<forall>x \<in> set (zip [] (os_cpus sampleFigures)). countersGrow x" "0 \<le> os_freemem sampleFigures"
    "os_freemem sampleFigures \<le> os_totalmem sampleFigures" by (simp_all add: sampleFigures_def)
  moreover have "0 \<le> bsize \<and> 0 \<le> avail \<and> avail \<le> blocks" if "fs_stat sampleFigures = Some (blocks, bsize, avail)"
    for blocks bsize avail using that by (simp add: sampleFigures_def)
  ultimately show ?thesis using stats_sane [OF _ _ _ _ prod.collapse [symmetric], of "[]" sampleFigures] by blast
qed

end
