(* ===== verification/Spec2Isabelle.thy ===== *)
theory Spec2Isabelle
  imports Scenarios AgentScenarios PanelScenarios WorkerScenarios AdminScenarios BrowserScenarios Worker
begin

text \<open>
  A verification development for DeersServerHosting: a control plane that sells game servers and the
  agents that run them.

  The program. A panel (Next.js, \<open>apps/panel\<close>) serves customers and operators; a gateway
  (\<open>apps/gateway\<close>) holds one socket per node and one per open browser console; a worker
  (\<open>apps/worker\<close>) runs periodic passes; on every node an agent (\<open>apps/agent\<close>) drives Docker
  and the file system. Panel, worker and gateway share one PostgreSQL database and Redis. A command
  travels panel, Redis, gateway, agent, and its answer the same way back.

  How it is modelled. An asynchronous function that may throw is an action: a function from the
  state to a result (\<open>Inl\<close> the exception, \<open>Inr\<close> the value) and a state, composed with
  \<open>andThen\<close>, \<open>tryCatch\<close>, \<open>transaction\<close> and \<open>forEach\<close> of the theory Prelude.
  What was written before a throw stays written unless it was in a transaction. The state of the
  panel is the record \<open>db\<close>: one list of rows per Prisma model, and the logs of what was sent
  to agents, to database hosts and to the alert webhook. Agents, database hosts, the webhook, Docker,
  tar, gzip, SHA-256, bcrypt and HMAC are parameters that may answer anything, and may answer
  differently after every earlier request. Clocks and fresh ids are read from environments. Where the
  order of events matters (the gateway, the calls in flight, the worker's locks, the fleet) the model is a
  step relation between the stretches of code that run without interruption.

  The theories, and the code they model.

  Prelude: actions, frames (\<open>keeps\<close>) and invariants (\<open>preserves\<close>) of actions, tables, decimal
  printing, JavaScript strings. Schema: \<open>prisma/schema.prisma\<close>, \<open>packages/shared/src/protocol.ts\<close>,
  \<open>lib/audit.ts\<close>, \<open>callAgent\<close> as its callers see it. Strings, Calendar: \<open>split\<close>,
  \<open>trim\<close>, regular replacements, and the dates of ECMAScript.

  Scheduler: \<open>lib/scheduler.ts\<close>. The counters of a node satisfy the contract \<open>capacity_pool\<close>
  (reserving keeps a node sound, releasing undoes reserving); a placement chooses an eligible node,
  throws only if there is none, and never oversells. Provisioning: \<open>lib/provisioning.ts\<close>. A purchase
  that fails on every node restores nodes, servers and ports; one that succeeds adds exactly its
  server; a deletion completes whatever fails. Migration: \<open>lib/migration.ts\<close>, moves and drains.
  Ledger: the three together with the administrators' changes to nodes and plans as a state machine of the
  fleet; the counters equal what a recount gives in every reachable state, so no sequence of operations
  oversells a node. Two operations are left out of it because they break it, as lemmas show: a migration to a
  named node that fails, and a change of the totals of a node. Databases: \<open>lib/databases.ts\<close>. Crypto:
  \<open>lib/crypto.ts\<close>, Base64 and the stored format written out, the cipher a parameter.

  Admin: the routes under \<open>app/api/admin\<close> (nodes, tokens, draining, migration, plans, database hosts,
  the roll-out of agents), refused to everybody else as one. Routes: \<open>middleware.ts\<close> and the routes
  that join components; the credentials shown are those of the host, a rotated token replaces the old one, and the
  update channel of the agents is shut by the middleware. Metrics: \<open>lib/metrics.ts\<close>, sampling and
  compaction.

  Invoices, Billing: \<open>lib/billing.ts\<close> and the payment webhook. A webhook that changes anything was
  signed; a cycle leaves a paid-up server alone and bills every uncovered one; a late payment restores
  the server. Backups: \<open>lib/backups.ts\<close> and its route. Access: \<open>lib/auth.ts\<close> and the routes
  for login, registration, sub-users, power, startup, files, console tickets and orders; access is decided
  exactly by role, ownership and grant, and a refused request changes nothing. GameSettings, Mods: the
  properties editor and the installation of content. AgentRpc: \<open>lib/agent-rpc.ts\<close>, the calls in
  flight; they refine a specification in which a call is opened once and settled once (locale
  \<open>refinement\<close>). Alerts: \<open>lib/alerts.ts\<close> (locale \<open>board\<close>); the open alerts are a picture of
  the fleet. Reconciler, Worker: \<open>apps/worker/src\<close>; a reconciliation equals its specification, and
  two replicas do not run one job at once.

  Gateway: \<open>apps/gateway/src/index.ts\<close> with an invariant of every reachable state. AgentFiles,
  Docker, Archives: \<open>apps/agent/src/providers/docker.ts\<close> and \<open>storage/local.ts\<close> over a table
  of file system entries with links; a path that resolves stays in the volume of its server, a
  container is isolated, and a restore replaces a volume or leaves it. Updater, AgentRuntime:
  \<open>updater.ts\<close> and \<open>index.ts\<close> of the agent.

  Listings: the GET handlers under \<open>app/api\<close> and the search of \<open>lib/mods.ts\<close>; following the cursor of
  the audit trail reads every entry once. Pages: \<open>app/**/page.tsx\<close>, whom each page turns away and what it
  shows; pages and routes let in the same people, and the startup page shows what was saved on it. Browser, Editors:
  \<open>components/*.tsx\<close> and the login page as state machines in which a request and its reply are two steps
  (locales \<open>request_form\<close> and \<open>clearing_form\<close> for the forms that block while a request is out); the
  settings form tells the truth about the file, the file manager is not confused by late answers, the console shows
  the last thousand lines. S3: \<open>storage/s3.ts\<close>, the signed requests; a signature covers the whole request.
  Boot: \<open>prisma/seed.ts\<close>, which can be repeated, the configuration and the heartbeat figures of the agent, and
  the timetable of the worker.

  Witnesses, Samples, Scenarios, AgentScenarios, PanelScenarios, WorkerScenarios, AdminScenarios, BrowserScenarios: the
  properties with hypotheses applied at concrete inputs, and examples of defects as lemmas (an explicit
  target that is full is oversold, a failed migration leaves its server stopped).

  Bounds. The kernel gives up after 40 links in a path (\<open>MAXSYMLINKS\<close>), and the walk of the model
  is proved not to depend on its fuel below that; a purchase tries at most three nodes; invoice
  numbers have five attempts; a Redis transaction or a guarded UPDATE is one step. \<open>Float\<close> columns
  are exact rationals, \<open>Int\<close> columns unbounded integers.

  Not modelled. The markup, styles and links around what the pages and components show, among them the tab bars and
  the layout; the construction of the database and Redis clients (\<open>lib/db.ts\<close>, \<open>lib/redis.ts\<close>); the
  choice of a store in \<open>storage/index.ts\<close>, which imports names no module exports; build files and scripts;
  the files at the root of the repository, which are copies of files modelled in their place and which nothing
  imports. Of what is modelled, ownership and modes of files, figures nothing reads and log output are left out.
\<close>

end
